(* ===== verification/Fox_Prelude.thy ===== *)
theory Fox_Prelude
  imports Main "HOL-Library.Sublist" "HOL-Library.Multiset" "HOL-Library.Word"
begin

text \<open>
  The vocabulary the component theories share: C++ exceptions as values, the members of
  \<open>std::string\<close> that the sources call, the \<open>cctype\<close> classes of the "C" locale,
  \<open>std::getline\<close> loops, the contract of \<open>std::sort\<close>, and the generic step-machine
  interface through which every safety property of a stateful component is proved.
  Strings are byte strings: a \<open>char\<close> of HOL is one byte, as in the sources.
\<close>

named_theorems cpp_string "facts on the model of std::string"
named_theorems cpp_char "facts on the model of cctype"

section \<open>Exceptions as values\<close>

text \<open>
  The exception classes the library throws or lets through, with their \<open>what()\<close> text;
  \<open>Json_error\<close> stands for the exceptions of \<open>nlohmann::json\<close> other than \<open>parse_error\<close>.
\<close>

datatype cpp_exn =
    Runtime_error string
  | Invalid_argument string
  | Logic_error string
  | Middleware_exception string int
  | Json_error string
  | Unknown_exn

fun what :: "cpp_exn \<Rightarrow> string" where
  "what (Runtime_error m) = m"
| "what (Invalid_argument m) = m"
| "what (Logic_error m) = m"
| "what (Middleware_exception m _) = m"
| "what (Json_error m) = m"
| "what Unknown_exn = ''''"

text \<open>\<open>catch (const std::exception &)\<close> catches every class but the unknown one.\<close>

fun is_std_exception :: "cpp_exn \<Rightarrow> bool" where
  "is_std_exception Unknown_exn = False"
| "is_std_exception _ = True"

type_synonym 'a throws = "cpp_exn + 'a"

section \<open>Members of std::string\<close>

text \<open>\<open>npos\<close> is \<open>None\<close>; a position is a \<open>nat\<close>.\<close>

fun find_sub :: "string \<Rightarrow> string \<Rightarrow> nat option" where
  "find_sub n [] = (if n = [] then Some 0 else None)"
| "find_sub n (c # cs) = (if prefix n (c # cs) then Some 0 else map_option Suc (find_sub n cs))"

definition str_find :: "string \<Rightarrow> string \<Rightarrow> nat \<Rightarrow> nat option" where
  "str_find s n pos = (if pos \<le> length s then map_option ((+) pos) (find_sub n (drop pos s)) else None)"

fun rfind_char :: "string \<Rightarrow> char \<Rightarrow> nat option" where
  "rfind_char [] c = None"
| "rfind_char (x # xs) c =
     (case rfind_char xs c of Some i \<Rightarrow> Some (Suc i) | None \<Rightarrow> if x = c then Some 0 else None)"

fun index_where :: "(char \<Rightarrow> bool) \<Rightarrow> string \<Rightarrow> nat option" where
  "index_where p [] = None"
| "index_where p (c # cs) = (if p c then Some 0 else map_option Suc (index_where p cs))"

definition find_first_of :: "string \<Rightarrow> string \<Rightarrow> nat \<Rightarrow> nat option" where
  "find_first_of s set_chars pos =
     (if pos \<le> length s then map_option ((+) pos) (index_where (\<lambda>c. c \<in> set set_chars) (drop pos s))
      else None)"

definition find_first_not_of :: "string \<Rightarrow> string \<Rightarrow> nat option" where
  "find_first_not_of s set_chars = index_where (\<lambda>c. c \<notin> set set_chars) s"

definition find_last_not_of :: "string \<Rightarrow> string \<Rightarrow> nat option" where
  "find_last_not_of s set_chars =
     map_option (\<lambda>i. length s - 1 - i) (index_where (\<lambda>c. c \<notin> set set_chars) (rev s))"

text \<open>\<open>substr(pos, n)\<close> for \<open>pos \<le> size\<close>, the only way the sources call it.\<close>

definition substr :: "string \<Rightarrow> nat \<Rightarrow> nat \<Rightarrow> string" where
  "substr s pos n = take n (drop pos s)"

text \<open>\<open>s.replace(pos, n, r)\<close> and \<open>s.erase(pos, n)\<close>.\<close>

definition str_replace :: "string \<Rightarrow> nat \<Rightarrow> nat \<Rightarrow> string \<Rightarrow> string" where
  "str_replace s pos n r = take pos s @ r @ drop (pos + n) s"

definition str_erase :: "string \<Rightarrow> nat \<Rightarrow> nat \<Rightarrow> string" where
  "str_erase s pos n = take pos s @ drop (pos + n) s"

text \<open>
  \<open>s.erase(0, s.find_first_not_of(set)); s.erase(s.find_last_not_of(set) + 1);\<close>
  An \<open>npos\<close> count erases everything, and \<open>npos + 1\<close> is position 0.
\<close>

definition erase_leading :: "string \<Rightarrow> string \<Rightarrow> string" where
  "erase_leading set_chars s =
     (case find_first_not_of s set_chars of None \<Rightarrow> [] | Some n \<Rightarrow> drop n s)"

definition erase_trailing :: "string \<Rightarrow> string \<Rightarrow> string" where
  "erase_trailing set_chars s =
     (case find_last_not_of s set_chars of None \<Rightarrow> [] | Some n \<Rightarrow> take (n + 1) s)"

definition erase_both :: "string \<Rightarrow> string \<Rightarrow> string" where
  "erase_both set_chars s = erase_trailing set_chars (erase_leading set_chars s)"

definition ends_with :: "string \<Rightarrow> string \<Rightarrow> bool" where
  "ends_with s suf = prefix (rev suf) (rev s)"

text \<open>
  \<open>while (std::getline(stream, line, delim))\<close>: the fields between delimiters, without
  the empty field after a final delimiter.
\<close>

function getlines :: "char \<Rightarrow> string \<Rightarrow> string list" where
  "getlines d s =
     (if s = [] then []
      else takeWhile (\<lambda>c. c \<noteq> d) s # getlines d (drop 1 (dropWhile (\<lambda>c. c \<noteq> d) s)))"
  by pat_completeness auto
termination
proof (relation "measure (\<lambda>(d, s). length s)", simp)
  fix d :: char and s :: string
  assume "s \<noteq> []"
  have "length (dropWhile (\<lambda>c. c \<noteq> d) s) \<le> length s" by (rule length_dropWhile_le)
  with \<open>s \<noteq> []\<close> have "length (dropWhile (\<lambda>c. c \<noteq> d) s) - 1 < length s"
    by (cases s) auto
  then show "((d, drop 1 (dropWhile (\<lambda>c. c \<noteq> d) s)), (d, s)) \<in> measure (\<lambda>(d, s). length s)"
    by simp
qed

declare getlines.simps [simp del]

section \<open>cctype in the C locale\<close>

definition byte :: "char \<Rightarrow> nat" where
  "byte c = of_char c"

definition isspace :: "char \<Rightarrow> bool" where
  "isspace c = (byte c = 32 \<or> (9 \<le> byte c \<and> byte c \<le> 13))"

definition isdigit :: "char \<Rightarrow> bool" where
  "isdigit c = (48 \<le> byte c \<and> byte c \<le> 57)"

definition isupper :: "char \<Rightarrow> bool" where
  "isupper c = (65 \<le> byte c \<and> byte c \<le> 90)"

definition islower :: "char \<Rightarrow> bool" where
  "islower c = (97 \<le> byte c \<and> byte c \<le> 122)"

definition isalnum :: "char \<Rightarrow> bool" where
  "isalnum c = (isdigit c \<or> isupper c \<or> islower c)"

definition iscntrl :: "char \<Rightarrow> bool" where
  "iscntrl c = (byte c < 32 \<or> byte c = 127)"

lemmas cctype_defs = isspace_def isdigit_def isupper_def islower_def isalnum_def iscntrl_def byte_def

definition tolower_char :: "char \<Rightarrow> char" where
  "tolower_char c = (if isupper c then char_of (byte c + 32) else c)"

definition to_lower :: "string \<Rightarrow> string" where
  "to_lower s = map tolower_char s"

definition hex_value :: "char \<Rightarrow> nat option" where
  "hex_value c =
     (if isdigit c then Some (byte c - 48)
      else if 65 \<le> byte c \<and> byte c \<le> 70 then Some (byte c - 55)
      else if 97 \<le> byte c \<and> byte c \<le> 102 then Some (byte c - 87)
      else None)"

definition isxdigit :: "char \<Rightarrow> bool" where
  "isxdigit c = (hex_value c \<noteq> None)"

fun hex_number :: "nat \<Rightarrow> string \<Rightarrow> nat" where
  "hex_number acc [] = acc"
| "hex_number acc (c # cs) =
     (case hex_value c of Some d \<Rightarrow> hex_number (16 * acc + d) cs | None \<Rightarrow> acc)"

text \<open>\<open>std::to_string\<close> of an unsigned value.\<close>

fun to_string :: "nat \<Rightarrow> string" where
  "to_string n =
     (if n < 10 then [char_of (48 + n)] else to_string (n div 10) @ [char_of (48 + n mod 10)])"

declare to_string.simps [simp del]

definition to_string_int :: "int \<Rightarrow> string" where
  "to_string_int i = (if i < 0 then ''-'' @ to_string (nat (- i)) else to_string (nat i))"

text \<open>\<open>operator<\<close> on strings: bytes compared as unsigned, left to right.\<close>

fun str_less :: "string \<Rightarrow> string \<Rightarrow> bool" where
  "str_less [] [] = False"
| "str_less [] (_ # _) = True"
| "str_less (_ # _) [] = False"
| "str_less (a # s) (b # t) = (byte a < byte b \<or> (a = b \<and> str_less s t))"

section \<open>Lemmas on strings\<close>

lemma find_sub_Some [cpp_string]:
  "find_sub n s = Some i \<Longrightarrow> i + length n \<le> length s \<and> prefix n (drop i s)"
proof (induction s arbitrary: i)
  case Nil
  then show ?case by (simp split: if_splits)
next
  case (Cons c cs)
  then show ?case by (auto split: if_splits dest: prefix_length_le)
qed

lemma find_sub_least: "find_sub n s = Some i \<Longrightarrow> j < i \<Longrightarrow> \<not> prefix n (drop j s)"
proof (induction s arbitrary: i j)
  case Nil
  then show ?case by (simp split: if_splits)
next
  case (Cons c cs)
  then show ?case by (cases j) (auto split: if_splits)
qed

lemma find_sub_first:
  "prefix n (drop i s) \<Longrightarrow> i \<le> length s \<Longrightarrow> (\<And>j. j < i \<Longrightarrow> \<not> prefix n (drop j s)) \<Longrightarrow> find_sub n s = Some i"
proof (induction s arbitrary: i)
  case Nil
  then show ?case by simp
next
  case (Cons c cs)
  show ?case
  proof (cases i)
    case 0
    with Cons.prems show ?thesis by simp
  next
    case (Suc k)
    have "find_sub n cs = Some k"
    proof (rule Cons.IH)
      show "\<not> prefix n (drop j cs)" if "j < k" for j using Cons.prems(3) [of "Suc j"] Suc that by simp
    qed (use Cons.prems Suc in simp_all)
    then show ?thesis using Cons.prems(3) [of 0] Suc by simp
  qed
qed

lemma find_sub_append: "find_sub n s = Some i \<Longrightarrow> find_sub n (s @ t) = Some i"
proof -
  assume A: "find_sub n s = Some i"
  from find_sub_Some [OF A] have i: "i + length n \<le> length s" "prefix n (drop i s)" by auto
  show ?thesis
  proof (rule find_sub_first)
    show "prefix n (drop i (s @ t))" using i by simp
    show "\<not> prefix n (drop j (s @ t))" if "j < i" for j
    proof
      assume "prefix n (drop j (s @ t))"
      then have "prefix n (drop j s)" using i(1) that by (auto simp: prefix_append dest: prefix_length_le)
      with find_sub_least [OF A that] show False by simp
    qed
  qed (use i in simp)
qed

lemma find_sub_skip:
  "(\<And>j. j < length xs \<Longrightarrow> \<not> prefix n (drop j xs @ ys)) \<Longrightarrow>
   find_sub n (xs @ ys) = map_option ((+) (length xs)) (find_sub n ys)"
proof (induction xs)
  case Nil
  then show ?case by (cases "find_sub n ys") simp_all
next
  case (Cons x xs)
  have "find_sub n (xs @ ys) = map_option ((+) (length xs)) (find_sub n ys)"
    using Cons.prems [of "Suc j" for j] by (intro Cons.IH) auto
  with Cons.prems [of 0] show ?case by (cases "find_sub n ys") auto
qed

lemma find_sub_None: "find_sub n s = None \<Longrightarrow> \<not> sublist n s"
  by (induction s) (auto split: if_splits simp: sublist_Cons_right)

lemma find_sub_None_iff [cpp_string]: "find_sub n s = None \<longleftrightarrow> \<not> sublist n s"
proof
  assume "\<not> sublist n s"
  then show "find_sub n s = None"
    by (induction s) (auto simp: sublist_Cons_right)
qed (rule find_sub_None)

lemma find_sub_absent_char: "x \<in> set n \<Longrightarrow> x \<notin> set s \<Longrightarrow> find_sub n s = None"
  by (auto simp: find_sub_None_iff dest: set_mono_sublist)

lemma find_sub_char_None [cpp_string]: "find_sub [c] s = None \<longleftrightarrow> c \<notin> set s"
  by (induction s) auto

lemma find_sub_char_append [cpp_string]: "c \<notin> set xs \<Longrightarrow> find_sub [c] (xs @ c # ys) = Some (length xs)"
  by (induction xs) auto

lemma find_sub_char_split:
  "find_sub [c] s = Some i \<Longrightarrow> s = take i s @ c # drop (Suc i) s \<and> c \<notin> set (take i s)"
proof (induction s arbitrary: i)
  case Nil
  then show ?case by simp
next
  case (Cons x xs)
  then show ?case by (auto split: if_splits)
qed

lemma str_find_zero [cpp_string, simp]: "str_find s n 0 = find_sub n s"
  by (cases "find_sub n s") (simp_all add: str_find_def)

lemma str_find_Some [cpp_string]:
  "str_find s n pos = Some i \<Longrightarrow> pos \<le> i \<and> i + length n \<le> length s \<and> prefix n (drop i s)"
  by (auto simp: str_find_def split: if_splits dest!: find_sub_Some simp: add.commute)

lemma str_find_append: "str_find (u @ v) n (length u) = map_option ((+) (length u)) (find_sub n v)"
  by (simp add: str_find_def)

lemma find_sub_drop_step:
  "find_sub n s = Some i \<Longrightarrow> i < length s \<or> (n = [] \<and> i = length s)"
  by (drule find_sub_Some) auto

lemma index_where_drop:
  "(case index_where p s of None \<Rightarrow> [] | Some n \<Rightarrow> drop n s) = dropWhile (\<lambda>c. \<not> p c) s"
proof (induction s)
  case Nil
  then show ?case by simp
next
  case (Cons c cs)
  then show ?case by (cases "index_where p cs") auto
qed

lemma index_where_Some_less: "index_where p s = Some i \<Longrightarrow> i < length s"
  by (induction s arbitrary: i) (auto split: if_splits)

lemma index_where_take:
  "index_where p s = Some i \<Longrightarrow> take i s = takeWhile (\<lambda>c. \<not> p c) s"
  by (induction s arbitrary: i) (auto split: if_splits)

lemma index_where_None: "index_where p s = None \<longleftrightarrow> (\<forall>c \<in> set s. \<not> p c)"
  by (induction s) auto

lemma erase_leading_dropWhile [cpp_string]:
  "erase_leading cs s = dropWhile (\<lambda>c. c \<in> set cs) s"
  using index_where_drop [of s "\<lambda>c. c \<notin> set cs"]
  by (simp add: erase_leading_def find_first_not_of_def)

lemma erase_trailing_dropWhile [cpp_string]:
  "erase_trailing cs s = rev (dropWhile (\<lambda>c. c \<in> set cs) (rev s))"
proof (cases "index_where (\<lambda>c. c \<notin> set cs) (rev s)")
  case None
  then show ?thesis
    using index_where_drop [of "rev s" "\<lambda>c. c \<notin> set cs"]
    by (simp add: erase_trailing_def find_last_not_of_def)
next
  case (Some i)
  then have "i < length s" using index_where_Some_less by fastforce
  then have "length s - 1 - i + 1 = length s - i" by simp
  moreover have "drop i (rev s) = dropWhile (\<lambda>c. c \<in> set cs) (rev s)"
    using index_where_drop [of "rev s" "\<lambda>c. c \<notin> set cs"] Some by simp
  ultimately show ?thesis
    using Some by (simp add: erase_trailing_def find_last_not_of_def drop_rev del: One_nat_def)
      (metis rev_rev_ident)
qed

lemma erase_both_subset: "set (erase_both cs s) \<subseteq> set s"
  by (auto simp: erase_both_def cpp_string dest!: set_dropWhileD)

lemma getlines_Nil [simp]: "getlines d [] = []"
  by (simp add: getlines.simps)

lemma getlines_append [cpp_string]: "d \<notin> set x \<Longrightarrow> getlines d (x @ d # y) = x # getlines d y"
proof -
  assume "d \<notin> set x"
  then have "takeWhile (\<lambda>c. c \<noteq> d) (x @ d # y) = x" "dropWhile (\<lambda>c. c \<noteq> d) (x @ d # y) = d # y"
    by (induction x) auto
  then show ?thesis by (simp add: getlines.simps [of d "x @ d # y"])
qed

lemma getlines_single [cpp_string]: "d \<notin> set x \<Longrightarrow> x \<noteq> [] \<Longrightarrow> getlines d x = [x]"
proof -
  assume "d \<notin> set x" "x \<noteq> []"
  then have "takeWhile (\<lambda>c. c \<noteq> d) x = x" "dropWhile (\<lambda>c. c \<noteq> d) x = []"
    by (auto simp: takeWhile_eq_all_conv dropWhile_eq_Nil_conv)
  with \<open>x \<noteq> []\<close> show ?thesis by (subst getlines.simps) (simp only: if_False drop_Nil getlines_Nil)
qed

lemma getlines_no_delim: "x \<in> set (getlines d s) \<Longrightarrow> d \<notin> set x \<and> set x \<subseteq> set s"
proof (induction d s rule: getlines.induct)
  case (1 d s)
  show ?case
  proof (cases "s = []")
    case True
    with "1.prems" show ?thesis by simp
  next
    case False
    let ?t = "drop 1 (dropWhile (\<lambda>c. c \<noteq> d) s)"
    from False "1.prems" consider "x = takeWhile (\<lambda>c. c \<noteq> d) s" | "x \<in> set (getlines d ?t)"
      by (subst (asm) getlines.simps) auto
    then show ?thesis
    proof cases
      case 1
      then show ?thesis by (auto dest: set_takeWhileD)
    next
      case 2
      with "1.IH" False have "d \<notin> set x \<and> set x \<subseteq> set ?t" by blast
      then show ?thesis using set_drop_subset [of 1] set_dropWhileD by fastforce
    qed
  qed
qed

lemma getlines_length: "sum_list (map length (getlines d s)) \<le> length s"
proof (induction d s rule: getlines.induct)
  case (1 d s)
  show ?case
  proof (cases "s = []")
    case True
    then show ?thesis by simp
  next
    case False
    have "length (takeWhile (\<lambda>c. c \<noteq> d) s) + length (dropWhile (\<lambda>c. c \<noteq> d) s) = length s"
      by (metis length_append takeWhile_dropWhile_id)
    with "1.IH" [OF False] False show ?thesis by (subst getlines.simps) simp
  qed
qed

lemma byte_less [cpp_char, simp]: "byte c < 256"
  by (simp add: byte_def)

lemma byte_inject [simp]: "byte c = byte d \<longleftrightarrow> c = d"
  by (simp add: byte_def)

lemma char_of_byte [simp]: "char_of (byte c) = c"
  by (simp add: byte_def)

lemma byte_char_of [simp]: "byte (char_of (n :: nat)) = n mod 256"
  by (simp add: byte_def)

lemma str_less_irrefl [simp]: "\<not> str_less s s"
  by (induction s) auto

lemma str_less_trans: "str_less s t \<Longrightarrow> str_less t u \<Longrightarrow> str_less s u"
proof (induction s t arbitrary: u rule: str_less.induct)
  case (4 a s b t)
  then show ?case by (cases u) auto
qed (auto elim: str_less.elims)

lemma str_less_total: "\<not> str_less s t \<Longrightarrow> \<not> str_less t s \<Longrightarrow> s = t"
proof (induction s t rule: str_less.induct)
  case (4 a s b t)
  then have "byte a = byte b" by auto
  with 4 show ?case by auto
qed auto

section \<open>Hash maps\<close>

text \<open>
  \<open>m[k] = v\<close> on an \<open>unordered_map\<close> kept as an association list, the order of which stands
  for the unspecified iteration order; lookups are \<open>map_of\<close>.
\<close>

fun put :: "'k \<Rightarrow> 'v \<Rightarrow> ('k \<times> 'v) list \<Rightarrow> ('k \<times> 'v) list" where
  "put k v [] = [(k, v)]"
| "put k v ((k', v') # m) = (if k = k' then (k, v) # m else (k', v') # put k v m)"

lemma map_of_put [simp]: "map_of (put k v m) = (map_of m)(k \<mapsto> v)"
  by (induction k v m rule: put.induct) (auto simp: fun_eq_iff)

lemma put_put [simp]: "put k v (put k v' m) = put k v m"
  by (induction m) auto

lemma fst_put [simp]: "fst ` set (put k v m) = insert k (fst ` set m)"
  by (induction k v m rule: put.induct) auto

lemma distinct_put [simp]: "distinct (map fst (put k v m)) = distinct (map fst m)"
proof (induction k v m rule: put.induct)
  case (2 k v k' v' m)
  have "k' \<in> fst ` set (put k v m) \<longleftrightarrow> k' = k \<or> k' \<in> fst ` set m" by (simp only: fst_put) auto
  with 2 show ?case by (auto simp: image_iff)
qed simp

definition erase_key :: "'k \<Rightarrow> ('k \<times> 'v) list \<Rightarrow> ('k \<times> 'v) list" where
  "erase_key k m = filter (\<lambda>kv. fst kv \<noteq> k) m"

lemma map_of_erase_key [simp]: "map_of (erase_key k m) = (map_of m)(k := None)"
  by (induction m) (auto simp: erase_key_def fun_eq_iff)

section \<open>The contract of std::sort\<close>

text \<open>
  \<open>std::sort\<close> with a strict weak ordering returns some ordered permutation; the order
  of equivalent elements is unspecified. The components take the sort as a parameter and
  prove their properties from this contract alone.
\<close>

definition strict_weak :: "('a \<Rightarrow> 'a \<Rightarrow> bool) \<Rightarrow> bool" where
  "strict_weak lt \<longleftrightarrow>
     (\<forall>x. \<not> lt x x) \<and> (\<forall>x y z. lt x y \<longrightarrow> lt y z \<longrightarrow> lt x z) \<and>
     (\<forall>x y z. \<not> lt x y \<longrightarrow> \<not> lt y z \<longrightarrow> \<not> lt x z)"

definition ordered_by :: "('a \<Rightarrow> 'a \<Rightarrow> bool) \<Rightarrow> 'a list \<Rightarrow> bool" where
  "ordered_by lt xs \<longleftrightarrow> sorted_wrt (\<lambda>x y. \<not> lt y x) xs"

lemma find_ordered:
  assumes "ordered_by lt xs" and "strict_weak lt" and "find p xs = Some x" and "y \<in> set xs" and "p y"
  shows "\<not> lt y x"
proof -
  obtain i where i: "i < length xs" "x = xs ! i" "\<And>j. j < i \<Longrightarrow> \<not> p (xs ! j)"
    using assms(3) by (auto simp: find_Some_iff)
  obtain k where k: "k < length xs" "xs ! k = y" using assms(4) by (metis in_set_conv_nth)
  with i(3) assms(5) have "i \<le> k" by (metis not_le)
  moreover have "\<not> lt (xs ! k) (xs ! i)" if "i < k"
    using assms(1) k(1) that by (simp add: ordered_by_def sorted_wrt_iff_nth_less)
  moreover have "\<not> lt x x" using assms(2) by (simp add: strict_weak_def)
  ultimately show ?thesis using i k by (cases "i = k") auto
qed

locale std_sort =
  fixes srt :: "('a \<Rightarrow> 'a \<Rightarrow> bool) \<Rightarrow> 'a list \<Rightarrow> 'a list"
  assumes sort_perm: "strict_weak lt \<Longrightarrow> mset (srt lt xs) = mset xs"
    and sort_ordered: "strict_weak lt \<Longrightarrow> ordered_by lt (srt lt xs)"
begin

lemma sort_set: "strict_weak lt \<Longrightarrow> set (srt lt xs) = set xs"
  by (metis sort_perm set_mset_mset)

lemma sort_length: "strict_weak lt \<Longrightarrow> length (srt lt xs) = length xs"
  by (metis sort_perm size_mset)

lemma sort_find:
  "strict_weak lt \<Longrightarrow> find p (srt lt xs) = Some x \<Longrightarrow> y \<in> set xs \<Longrightarrow> p y \<Longrightarrow> \<not> lt y x"
  using find_ordered [OF sort_ordered] by (simp add: sort_set)

end

text \<open>
  Insertion sort from the right, which keeps the order of equivalent elements: the
  algorithm libstdc++ runs on ranges of at most sixteen elements.
\<close>

fun insert_by :: "('a \<Rightarrow> 'a \<Rightarrow> bool) \<Rightarrow> 'a \<Rightarrow> 'a list \<Rightarrow> 'a list" where
  "insert_by lt x [] = [x]"
| "insert_by lt x (y # ys) = (if lt y x then y # insert_by lt x ys else x # y # ys)"

fun insertion_sort :: "('a \<Rightarrow> 'a \<Rightarrow> bool) \<Rightarrow> 'a list \<Rightarrow> 'a list" where
  "insertion_sort lt [] = []"
| "insertion_sort lt (x # xs) = insert_by lt x (insertion_sort lt xs)"

lemma mset_insert_by: "mset (insert_by lt x xs) = add_mset x (mset xs)"
  by (induction xs) auto

lemma set_insert_by: "set (insert_by lt x xs) = insert x (set xs)"
  by (metis mset_insert_by set_mset_mset set_mset_add_mset_insert)

lemma ordered_insert_by:
  assumes "strict_weak lt"
  shows "ordered_by lt xs \<Longrightarrow> ordered_by lt (insert_by lt x xs)"
proof (induction xs)
  case Nil
  then show ?case by (simp add: ordered_by_def)
next
  case (Cons y ys)
  from assms have weak: "\<And>a b c. \<not> lt a b \<Longrightarrow> \<not> lt b c \<Longrightarrow> \<not> lt a c"
    and asym: "\<And>a b. lt a b \<Longrightarrow> \<not> lt b a"
    unfolding strict_weak_def by blast+
  from Cons.prems have ys: "ordered_by lt ys" and y: "\<forall>z\<in>set ys. \<not> lt z y"
    by (simp_all add: ordered_by_def)
  show ?case
  proof (cases "lt y x")
    case True
    with y asym [OF True] Cons.IH [OF ys] show ?thesis
      by (simp add: ordered_by_def set_insert_by)
  next
    case False
    with y have "\<forall>z\<in>set ys. \<not> lt z x" using weak by blast
    with False y ys show ?thesis by (simp add: ordered_by_def)
  qed
qed

interpretation insertion: std_sort insertion_sort
proof
  fix lt :: "'a \<Rightarrow> 'a \<Rightarrow> bool" and xs
  assume sw: "strict_weak lt"
  show "mset (insertion_sort lt xs) = mset xs"
    by (induction xs) (auto simp: mset_insert_by)
  show "ordered_by lt (insertion_sort lt xs)"
    by (induction xs) (auto simp: ordered_insert_by [OF sw] ordered_by_def [of lt "[]"])
qed

text \<open>Where the ordering is total on the elements, there is only one sorted arrangement.\<close>

lemma ordered_by_unique:
  "ordered_by lt xs \<Longrightarrow> ordered_by lt ys \<Longrightarrow> mset xs = mset ys \<Longrightarrow>
   (\<And>x y. x \<in> set xs \<Longrightarrow> y \<in> set xs \<Longrightarrow> x \<noteq> y \<Longrightarrow> lt x y \<or> lt y x) \<Longrightarrow> xs = ys"
proof (induction xs arbitrary: ys)
  case Nil
  then show ?case by simp
next
  case (Cons x xs)
  then obtain y ys' where ys: "ys = y # ys'" by (cases ys) auto
  have sets: "set (x # xs) = set ys" using Cons.prems(3) by (metis set_mset_mset)
  have "x = y"
  proof (rule ccontr)
    assume "x \<noteq> y"
    with sets ys have "x \<in> set ys'" "y \<in> set xs" by auto
    with Cons.prems(1,2) ys have "\<not> lt x y" "\<not> lt y x" by (auto simp: ordered_by_def)
    with Cons.prems(4) [of x y] \<open>x \<noteq> y\<close> \<open>y \<in> set xs\<close> show False by simp
  qed
  moreover have "xs = ys'"
    using Cons.prems ys \<open>x = y\<close> by (intro Cons.IH) (auto simp: ordered_by_def)
  ultimately show ?case using ys by simp
qed

lemma map_of_foldl_put: "map_of (foldl (\<lambda>m (k, v). put k v m) m kvs) = map_of m ++ map_of (rev kvs)"
  by (induction kvs arbitrary: m) (auto simp: fun_eq_iff map_add_def split: option.splits)

lemma strict_weak_key: "strict_weak (\<lambda>x y. (f x :: 'b :: linorder) < f y)"
  by (auto simp: strict_weak_def)

section \<open>Decimal numerals\<close>

definition dec_value :: "string \<Rightarrow> nat" where
  "dec_value s = foldl (\<lambda>a c. 10 * a + (byte c - 48)) 0 s"

lemma dec_value_snoc: "dec_value (s @ [c]) = 10 * dec_value s + (byte c - 48)"
  by (simp add: dec_value_def)

lemma dec_value_to_string [simp]: "dec_value (to_string n) = n"
proof (induction n rule: less_induct)
  case (less n)
  show ?case
  proof (cases "n < 10")
    case True
    then show ?thesis by (simp add: to_string.simps [of n] dec_value_def)
  next
    case False
    with less [of "n div 10"] show ?thesis by (simp add: to_string.simps [of n] dec_value_snoc)
  qed
qed

lemma to_string_inject [simp]: "to_string m = to_string n \<longleftrightarrow> m = n"
  by (metis dec_value_to_string)

lemma to_string_digits: "c \<in> set (to_string n) \<Longrightarrow> isdigit c"
proof (induction n rule: less_induct)
  case (less n)
  have "isdigit (char_of (48 + k))" if "k < 10" for k :: nat using that by (simp add: isdigit_def)
  with less.IH [of "n div 10"] less.prems show ?case by (auto simp: to_string.simps [of n] split: if_splits)
qed

lemma to_string_not_Nil [simp]: "to_string n \<noteq> []"
  by (simp add: to_string.simps [of n])

section \<open>Step machines\<close>

text \<open>
  The interface of a component with state: initial states, a step function over events,
  and an invariant that the initial states satisfy and every step keeps. Runs over event
  lists, their invariants and their composition are proved once, here.
\<close>

locale step_machine =
  fixes initial :: "'s \<Rightarrow> bool"
    and step :: "'s \<Rightarrow> 'e \<Rightarrow> 's"
    and invar :: "'s \<Rightarrow> bool"
  assumes invar_initial: "initial s \<Longrightarrow> invar s"
    and invar_step: "invar s \<Longrightarrow> invar (step s e)"
begin

lemma run_invar: "invar s \<Longrightarrow> invar (foldl step s es)"
  by (induction es arbitrary: s) (auto intro: invar_step)

lemma run_from_initial: "initial s \<Longrightarrow> invar (foldl step s es)"
  by (rule run_invar [OF invar_initial])

lemma run_every_state:
  "initial s \<Longrightarrow> i \<le> length es \<Longrightarrow> invar (foldl step s (take i es))"
  by (rule run_from_initial)

end

end
