(* ===== verification/Url_Codec.thy ===== *)
theory Url_Codec
  imports Fox_Prelude
begin

text \<open>
  Percent coding. \<open>form_url_encode\<close> and \<open>form_url_decode\<close> are
  \<open>FormParserImpl::url_encode\<close> and \<open>url_decode\<close> (src/parser/form_parser.cpp);
  \<open>ctx_url_decode\<close> is the static \<open>url_decode\<close> of src/server/request_context.cpp.
  The two decoders read the two characters after a percent sign with different standard
  functions (a stream extraction and \<open>std::stoi\<close>), so both are modelled.
\<close>

section \<open>Reading a hexadecimal number\<close>

definition read_sign :: "string \<Rightarrow> bool \<times> string" where
  "read_sign s = (case s of
       [] \<Rightarrow> (False, [])
     | c # cs \<Rightarrow> if c = CHR ''-'' then (True, cs) else if c = CHR ''+'' then (False, cs) else (False, s))"

definition has_0x :: "string \<Rightarrow> bool" where
  "has_0x s = (prefix ''0x'' s \<or> prefix ''0X'' s)"

text \<open>
  \<open>std::istringstream is(s); is >> std::hex >> val\<close> for an \<open>unsigned int val\<close>:
  leading white space is skipped, a sign and a \<open>0x\<close> prefix are accepted, a prefix without
  digits fails, a negative value wraps. \<open>None\<close> is a failed extraction.
\<close>

definition stream_hex :: "string \<Rightarrow> 32 word option" where
  "stream_hex s =
     (let (neg, t) = read_sign (dropWhile isspace s);
          u = (if has_0x t then drop 2 t else t);
          ds = takeWhile isxdigit u;
          n = hex_number 0 ds
      in if ds = [] \<or> 2 ^ 32 \<le> n then None else Some (if neg then - of_nat n else of_nat n))"

text \<open>
  \<open>std::stoi(s, nullptr, 16)\<close>: as \<open>strtol\<close>, a \<open>0x\<close> prefix counts only before a
  digit. \<open>None\<close> is the exception (no digits, or out of the range of \<open>int\<close>).
\<close>

definition stoi16 :: "string \<Rightarrow> int option" where
  "stoi16 s =
     (let (neg, t) = read_sign (dropWhile isspace s);
          u = (if has_0x t \<and> (case drop 2 t of [] \<Rightarrow> False | c # _ \<Rightarrow> isxdigit c) then drop 2 t else t);
          ds = takeWhile isxdigit u;
          v = (if neg then - int (hex_number 0 ds) else int (hex_number 0 ds))
      in if ds = [] \<or> v < - (2 ^ 31) \<or> 2 ^ 31 \<le> v then None else Some v)"

section \<open>The encoder and the two decoders\<close>

definition hex_digits :: string where
  "hex_digits = ''0123456789ABCDEF''"

definition unreserved :: "char \<Rightarrow> bool" where
  "unreserved c = (isalnum c \<or> c = CHR ''-'' \<or> c = CHR ''_'' \<or> c = CHR ''.'' \<or> c = CHR ''~'')"

fun form_url_encode :: "string \<Rightarrow> string" where
  "form_url_encode [] = []"
| "form_url_encode (c # cs) =
     (if unreserved c then c # form_url_encode cs
      else CHR ''%'' # (hex_digits ! (byte c div 16)) # (hex_digits ! (byte c mod 16)) # form_url_encode cs)"

text \<open>The loop over \<open>i\<close>; \<open>i + 2 < size\<close> is two characters left after the percent sign.\<close>

fun form_url_decode :: "string \<Rightarrow> string" where
  "form_url_decode [] = []"
| "form_url_decode (c # cs) =
     (if c = CHR ''%'' \<and> 2 \<le> length cs then
        (case stream_hex (take 2 cs) of
           Some v \<Rightarrow> char_of (unat v) # form_url_decode (drop 2 cs)
         | None \<Rightarrow> c # form_url_decode cs)
      else if c = CHR ''+'' then CHR '' '' # form_url_decode cs
      else c # form_url_decode cs)"

fun ctx_url_decode :: "string \<Rightarrow> string" where
  "ctx_url_decode [] = []"
| "ctx_url_decode (c # cs) =
     (if c = CHR ''%'' then
        (if 2 \<le> length cs then
           (case stoi16 (take 2 cs) of
              Some v \<Rightarrow> char_of (nat (v mod 256)) # ctx_url_decode (drop 2 cs)
            | None \<Rightarrow> CHR ''%'' # ctx_url_decode cs)
         else CHR ''%'' # ctx_url_decode cs)
      else if c = CHR ''+'' then CHR '' '' # ctx_url_decode cs
      else c # ctx_url_decode cs)"

section \<open>The codec interface\<close>

text \<open>
  What the parsers of delimited data (query strings, form bodies) rely on: decoding undoes
  encoding, and an encoded text holds none of the reserved delimiters.
\<close>

fun join_with :: "char \<Rightarrow> string list \<Rightarrow> string" where
  "join_with d [] = []"
| "join_with d [x] = x"
| "join_with d (x # y # xs) = x @ d # join_with d (y # xs)"

lemma getlines_join:
  assumes "\<forall>x\<in>set xs. d \<notin> set x \<and> x \<noteq> []"
  shows "getlines d (join_with d xs) = xs"
  using assms by (induction d xs rule: join_with.induct) (auto simp: cpp_string)

locale delimited_codec =
  fixes enc :: "string \<Rightarrow> string" and dec :: "string \<Rightarrow> string" and reserved :: "char set"
  assumes dec_enc: "dec (enc s) = s"
    and enc_avoids: "c \<in> reserved \<Longrightarrow> c \<notin> set (enc s)"
begin

lemma enc_inject: "enc a = enc b \<longleftrightarrow> a = b"
  by (metis dec_enc)

lemma field_split:
  assumes "e \<in> reserved"
  shows "find_sub [e] (enc k @ e # enc v) = Some (length (enc k))"
  by (rule find_sub_char_append) (rule enc_avoids [OF assms])

lemma pair_parts:
  assumes "e \<in> reserved"
  shows "dec (take (length (enc k)) (enc k @ e # enc v)) = k"
    and "dec (drop (Suc (length (enc k))) (enc k @ e # enc v)) = v"
  by (simp_all add: dec_enc)

lemma pairs_split:
  assumes "d \<in> reserved" and "e \<in> reserved" and "d \<noteq> e"
  shows "getlines d (join_with d (map (\<lambda>(k, v). enc k @ e # enc v) kvs)) =
    map (\<lambda>(k, v). enc k @ e # enc v) kvs"
  by (rule getlines_join) (use assms enc_avoids in auto)

end

section \<open>Correctness of percent coding\<close>

lemma hex_value_Some:
  assumes "hex_value c = Some d"
  shows "d < 16" "\<not> isspace c" "c \<noteq> CHR ''-''" "c \<noteq> CHR ''+''" "c \<noteq> CHR ''x''" "c \<noteq> CHR ''X''"
  using assms by (auto simp: hex_value_def isspace_def isdigit_def byte_def split: if_splits)

lemma hex_value_digits: "h < 16 \<Longrightarrow> hex_value (hex_digits ! h) = Some h"
proof -
  have "\<forall>h\<in>set [0..<16]. hex_value (hex_digits ! h) = Some h" by code_simp
  then show "h < 16 \<Longrightarrow> hex_value (hex_digits ! h) = Some h" by simp
qed

lemma read_sign_none: "hex_value c = Some d \<Longrightarrow> read_sign (c # cs) = (False, c # cs)"
  by (simp add: read_sign_def hex_value_Some)

lemma has_0x_two: "hex_value b = Some l \<Longrightarrow> \<not> has_0x [a, b]"
  by (auto simp: has_0x_def dest: hex_value_Some)

lemma hex_pair:
  assumes "hex_value a = Some h" and "hex_value b = Some l"
  shows "stream_hex [a, b] = Some (of_nat (16 * h + l))"
    and "stoi16 [a, b] = Some (int (16 * h + l))"
proof -
  have h: "h < 16" "l < 16" and ws: "\<not> isspace a"
    and x: "isxdigit a" "isxdigit b" using assms by (auto simp: isxdigit_def dest: hex_value_Some)
  have n: "hex_number 0 [a, b] = 16 * h + l" by (simp add: assms)
  have ps: "dropWhile isspace [a, b] = [a, b]" "takeWhile isxdigit [a, b] = [a, b]"
    using ws x by simp_all
  show "stream_hex [a, b] = Some (of_nat (16 * h + l))"
    unfolding stream_hex_def ps read_sign_none [OF assms(1)] Let_def prod.case
    using has_0x_two [OF assms(2)] h ps n by (simp del: hex_number.simps)
  show "stoi16 [a, b] = Some (int (16 * h + l))"
    unfolding stoi16_def ps read_sign_none [OF assms(1)] Let_def prod.case
    using has_0x_two [OF assms(2)] h ps n by (simp del: hex_number.simps)
qed

text \<open>Every percent sign is followed by two hexadecimal digits.\<close>

fun wf_escapes :: "string \<Rightarrow> bool" where
  "wf_escapes [] = True"
| "wf_escapes (c # cs) =
     (if c = CHR ''%'' then
        (case cs of a # b # r \<Rightarrow> isxdigit a \<and> isxdigit b \<and> wf_escapes r | _ \<Rightarrow> False)
      else wf_escapes cs)"

lemma form_decode_escape:
  assumes "hex_value a = Some h" and "hex_value b = Some l"
  shows "form_url_decode (CHR ''%'' # a # b # r) = char_of (16 * h + l) # form_url_decode r"
proof -
  have "16 * h + l < 256" using hex_value_Some(1) [OF assms(1)] hex_value_Some(1) [OF assms(2)] by simp
  then have "unat (of_nat (16 * h + l) :: 32 word) = 16 * h + l"
    by (simp add: unat_of_nat del: of_nat_add of_nat_mult)
  then show ?thesis by (simp add: hex_pair [OF assms] numeral_2_eq_2 del: of_nat_add of_nat_mult)
qed

lemma ctx_decode_escape:
  assumes "hex_value a = Some h" and "hex_value b = Some l"
  shows "ctx_url_decode (CHR ''%'' # a # b # r) = char_of (16 * h + l) # ctx_url_decode r"
proof -
  have "16 * h + l < 256" using hex_value_Some(1) [OF assms(1)] hex_value_Some(1) [OF assms(2)] by simp
  then have "nat (int (16 * h + l) mod 256) = 16 * h + l" by simp
  then show ?thesis by (simp add: hex_pair [OF assms] numeral_2_eq_2)
qed

lemma unreserved_not_special:
  "unreserved c \<Longrightarrow> c \<noteq> CHR ''%'' \<and> c \<noteq> CHR ''+'' \<and> c \<noteq> CHR ''&'' \<and> c \<noteq> CHR ''='' \<and> c \<noteq> CHR '';'' \<and> c \<noteq> CHR '','' \<and> c \<noteq> CHR ''?''"
  by (auto simp: unreserved_def isalnum_def isdigit_def isupper_def islower_def byte_def)

lemma byte_split: "char_of (16 * (byte c div 16) + byte c mod 16) = c"
  by simp

lemma hex_digits_bytes:
  "hex_value (hex_digits ! (byte c div 16)) = Some (byte c div 16)"
  "hex_value (hex_digits ! (byte c mod 16)) = Some (byte c mod 16)"
  using byte_less [of c] by (simp_all add: hex_value_digits del: byte_less)

lemma form_decode_encode: "form_url_decode (form_url_encode s) = s"
proof (induction s)
  case Nil
  then show ?case by simp
next
  case (Cons c cs)
  show ?case
  proof (cases "unreserved c")
    case True
    with Cons unreserved_not_special [OF True] show ?thesis by simp
  next
    case False
    then show ?thesis
      using form_decode_escape [OF hex_digits_bytes [of c]] Cons by simp
  qed
qed

lemma decoders_agree_wf: "wf_escapes s \<Longrightarrow> ctx_url_decode s = form_url_decode s"
proof (induction s rule: wf_escapes.induct)
  case 1
  then show ?case by simp
next
  case (2 c cs)
  show ?case
  proof (cases "c = CHR ''%''")
    case False
    with 2 show ?thesis by simp
  next
    case True
    with "2.prems" obtain a b r where cs: "cs = a # b # r" "isxdigit a" "isxdigit b" "wf_escapes r"
      by (auto split: list.splits)
    then obtain h l where hl: "hex_value a = Some h" "hex_value b = Some l"
      by (auto simp: isxdigit_def)
    from "2.IH"(1) True cs have "ctx_url_decode r = form_url_decode r" by blast
    then show ?thesis
      unfolding True cs(1) form_decode_escape [OF hl] ctx_decode_escape [OF hl] by simp
  qed
qed

lemma wf_escapes_encode: "wf_escapes (form_url_encode s)"
  by (induction s) (auto simp: hex_digits_bytes isxdigit_def dest: unreserved_not_special)

lemma hex_digits_unreserved: "h < 16 \<Longrightarrow> unreserved (hex_digits ! h)"
proof -
  have "\<forall>h\<in>set [0..<16]. unreserved (hex_digits ! h)" by code_simp
  then show "h < 16 \<Longrightarrow> unreserved (hex_digits ! h)" by simp
qed

lemma hex_digit_index: "byte c div 16 < 16"
  using byte_less [of c] by (simp del: byte_less)

lemma encode_charset: "c \<in> set (form_url_encode s) \<Longrightarrow> unreserved c \<or> c = CHR ''%''"
  by (induction s) (auto simp: hex_digits_unreserved hex_digit_index split: if_splits)

lemma encode_length: "length (form_url_encode s) \<le> 3 * length s"
  by (induction s) auto

lemma form_decode_length: "length (form_url_decode s) \<le> length s"
proof (induction s rule: form_url_decode.induct)
  case 1
  then show ?case by simp
next
  case (2 c cs)
  then show ?case by (auto split: option.splits)
qed

definition url_reserved :: "char set" where
  "url_reserved = {CHR ''&'', CHR ''='', CHR ''+'', CHR '';'', CHR '','', CHR ''?''}"

lemma encode_avoids_reserved: "c \<in> url_reserved \<Longrightarrow> c \<notin> set (form_url_encode s)"
  using encode_charset [of c s] unreserved_not_special [of c] by (auto simp: url_reserved_def)

interpretation form_codec: delimited_codec form_url_encode form_url_decode url_reserved
  by unfold_locales (auto simp: form_decode_encode encode_avoids_reserved)

interpretation ctx_codec: delimited_codec form_url_encode ctx_url_decode url_reserved
  by unfold_locales
    (auto simp: decoders_agree_wf [OF wf_escapes_encode] form_decode_encode encode_avoids_reserved)

section \<open>Properties\<close>

text \<open>
  \<open>url_decode\<close> undoes \<open>url_encode\<close> for every byte string, whichever of the two
  decoders reads it; encoding is therefore injective, and it expands a text at most
  threefold.
\<close>

theorem url_roundtrip:
  "form_url_decode (form_url_encode s) = s \<and> ctx_url_decode (form_url_encode s) = s \<and>
   (form_url_encode s = form_url_encode t \<longleftrightarrow> s = t) \<and>
   length (form_url_encode s) \<le> 3 * length s"
  using form_codec.dec_enc ctx_codec.dec_enc form_codec.enc_inject encode_length by blast

text \<open>
  The form decoder and the query-string decoder, which use different standard functions,
  agree on every text whose percent signs are each followed by two hexadecimal digits.
\<close>

theorem url_decoders_agree:
  "wf_escapes s \<Longrightarrow> ctx_url_decode s = form_url_decode s"
  by (rule decoders_agree_wf)

theorem url_decoders_agree_witness:
  "wf_escapes ''a%2Bb+c%c3'' \<and> ctx_url_decode ''a%2Bb+c%c3'' = form_url_decode ''a%2Bb+c%c3''"
proof -
  have wf: "wf_escapes ''a%2Bb+c%c3''" by code_simp
  show ?thesis using wf url_decoders_agree [OF wf] by simp
qed

end
