(* ===== verification/Json_Value.thy ===== *)
theory Json_Value
  imports Fox_Prelude Complex_Main
begin

text \<open>
  JSON documents as the sources see them: the value kinds of \<open>nlohmann::json\<close> with its
  \<open>is_object()\<close>, \<open>is_array()\<close>, \<open>contains\<close> and \<open>find\<close> queries. An object is an
  association list in the library's iteration order (ascending keys, each key once).
  Doubles are idealised as rationals. Parsing and printing of JSON text are the library's
  and appear as parameters of the definitions that call them.
\<close>

datatype json =
    JNull
  | JBool bool
  | JInt int
  | JFloat rat
  | JString string
  | JArray "json list"
  | JObject "(string \<times> json) list"

fun is_object :: "json \<Rightarrow> bool" where
  "is_object (JObject _) = True"
| "is_object _ = False"

fun is_array :: "json \<Rightarrow> bool" where
  "is_array (JArray _) = True"
| "is_array _ = False"

text \<open>\<open>j.find(key)\<close>: nothing is found in a value that is not an object.\<close>

fun obj_find :: "json \<Rightarrow> string \<Rightarrow> json option" where
  "obj_find (JObject kvs) k = map_of kvs k"
| "obj_find _ k = None"

definition contains :: "json \<Rightarrow> string \<Rightarrow> bool" where
  "contains j k = (obj_find j k \<noteq> None)"

text \<open>\<open>dst[key] = v\<close> on an object: overwrite in place or insert at the key's position.\<close>

fun obj_insert :: "string \<Rightarrow> 'a \<Rightarrow> (string \<times> 'a) list \<Rightarrow> (string \<times> 'a) list" where
  "obj_insert k v [] = [(k, v)]"
| "obj_insert k v ((k', v') # kvs) =
     (if k = k' then (k, v) # kvs
      else if str_less k k' then (k, v) # (k', v') # kvs
      else (k', v') # obj_insert k v kvs)"

lemma map_of_obj_insert:
  "sorted_wrt (\<lambda>a b. str_less (fst a) (fst b)) kvs \<Longrightarrow> map_of (obj_insert k v kvs) = (map_of kvs)(k \<mapsto> v)"
  by (induction kvs) (auto simp: fun_eq_iff)

end
