(* ===== verification/Configs.thy ===== *)
theory Configs
  imports Json_Value
begin

text \<open>
  The configuration structures of include/foxhttp/config/configs.hpp with their default
  member initialisers. Sizes are \<open>nat\<close>: they bound lengths of strings held in memory and
  no arithmetic on them wraps. Durations are in milliseconds.
\<close>

record json_config =
  jc_max_size :: nat
  jc_max_depth :: nat
  jc_strict_mode :: bool
  jc_allow_comments :: bool
  jc_allow_trailing_commas :: bool
  jc_allow_duplicate_keys :: bool
  jc_validate_schema :: bool
  jc_schema :: json
  jc_charset :: string

definition default_json_config :: json_config where
  "default_json_config =
     \<lparr>jc_max_size = 10 * 1024 * 1024, jc_max_depth = 100, jc_strict_mode = True,
      jc_allow_comments = False, jc_allow_trailing_commas = False, jc_allow_duplicate_keys = True,
      jc_validate_schema = False, jc_schema = JNull, jc_charset = ''UTF-8''\<rparr>"

record multipart_config =
  mc_max_field_size :: nat
  mc_max_file_size :: nat
  mc_max_total_size :: nat
  mc_memory_threshold :: nat
  mc_temp_directory :: string
  mc_auto_cleanup :: bool
  mc_temp_file_lifetime_s :: nat
  mc_strict_mode :: bool
  mc_allow_empty_fields :: bool
  mc_allowed_extensions :: "string list"
  mc_allowed_content_types :: "string list"

definition default_multipart_config :: multipart_config where
  "default_multipart_config =
     \<lparr>mc_max_field_size = 10 * 1024 * 1024, mc_max_file_size = 100 * 1024 * 1024,
      mc_max_total_size = 500 * 1024 * 1024, mc_memory_threshold = 1024 * 1024,
      mc_temp_directory = ''/tmp'', mc_auto_cleanup = True, mc_temp_file_lifetime_s = 3600,
      mc_strict_mode = True, mc_allow_empty_fields = False,
      mc_allowed_extensions = [], mc_allowed_content_types = []\<rparr>"

record form_config =
  fc_max_field_size :: nat
  fc_max_total_size :: nat
  fc_max_fields :: nat
  fc_strict_mode :: bool
  fc_allow_empty_values :: bool
  fc_support_arrays :: bool
  fc_charset :: string

definition default_form_config :: form_config where
  "default_form_config =
     \<lparr>fc_max_field_size = 1024 * 1024, fc_max_total_size = 10 * 1024 * 1024, fc_max_fields = 1000,
      fc_strict_mode = True, fc_allow_empty_values = True, fc_support_arrays = True,
      fc_charset = ''UTF-8''\<rparr>"

record plain_text_config =
  pc_max_size :: nat
  pc_normalize_line_endings :: bool
  pc_trim_whitespace :: bool
  pc_validate_encoding :: bool
  pc_charset :: string
  pc_allowed_content_types :: "string list"
  pc_strict_mode :: bool

definition default_plain_text_config :: plain_text_config where
  "default_plain_text_config =
     \<lparr>pc_max_size = 10 * 1024 * 1024, pc_normalize_line_endings = True, pc_trim_whitespace = False,
      pc_validate_encoding = True, pc_charset = ''UTF-8'', pc_allowed_content_types = [],
      pc_strict_mode = False\<rparr>"

datatype load_balance_strategy = RoundRobin | LeastConnections | ConsistentHash | Random | WeightedRoundRobin

record strand_pool_config =
  sc_initial_size :: nat
  sc_min_size :: nat
  sc_max_size :: nat
  sc_strategy :: load_balance_strategy
  sc_health_check_interval :: int
  sc_metrics_report_interval :: int
  sc_enable_auto_scaling :: bool
  sc_load_threshold :: rat
  sc_idle_threshold :: rat

text \<open>The argument is \<open>std::thread::hardware_concurrency()\<close>.\<close>

definition default_strand_pool_config :: "nat \<Rightarrow> strand_pool_config" where
  "default_strand_pool_config hw =
     \<lparr>sc_initial_size = hw, sc_min_size = 1, sc_max_size = 64, sc_strategy = RoundRobin,
      sc_health_check_interval = 5000, sc_metrics_report_interval = 10000, sc_enable_auto_scaling = True,
      sc_load_threshold = 8 / 10, sc_idle_threshold = 2 / 10\<rparr>"

record timer_manager_config =
  tc_bucket_count :: nat
  tc_cleanup_interval :: int
  tc_statistics_report_interval :: int
  tc_enable_statistics :: bool
  tc_enable_cleanup :: bool

definition default_timer_manager_config :: timer_manager_config where
  "default_timer_manager_config =
     \<lparr>tc_bucket_count = 16, tc_cleanup_interval = 60000, tc_statistics_report_interval = 30000,
      tc_enable_statistics = True, tc_enable_cleanup = True\<rparr>"

record session_limits =
  sl_handshake_timeout :: int
  sl_header_read_timeout :: int
  sl_body_read_timeout :: int
  sl_idle_timeout :: int
  sl_max_header_bytes :: nat
  sl_max_body_bytes :: nat
  sl_min_read_progress_bytes :: nat
  sl_enable_keep_alive :: bool
  sl_max_requests_per_connection :: nat

definition default_session_limits :: session_limits where
  "default_session_limits =
     \<lparr>sl_handshake_timeout = 5000, sl_header_read_timeout = 3000, sl_body_read_timeout = 10000,
      sl_idle_timeout = 15000, sl_max_header_bytes = 64 * 1024, sl_max_body_bytes = 50 * 1024 * 1024,
      sl_min_read_progress_bytes = 1024, sl_enable_keep_alive = True, sl_max_requests_per_connection = 1000\<rparr>"

record web_socket_limits =
  wl_max_message_bytes :: nat
  wl_max_frame_bytes :: nat
  wl_ping_interval :: int
  wl_pong_timeout :: int
  wl_enable_compression :: bool

definition default_web_socket_limits :: web_socket_limits where
  "default_web_socket_limits =
     \<lparr>wl_max_message_bytes = 8 * 1024 * 1024, wl_max_frame_bytes = 2 * 1024 * 1024,
      wl_ping_interval = 30000, wl_pong_timeout = 10000, wl_enable_compression = False\<rparr>"

end
