(* ===== verification/Http_Types.thy ===== *)
theory Http_Types
  imports Fox_Prelude
begin

text \<open>
  HTTP messages as the sources use them. The message classes are Boost.Beast's: a request
  is what Beast hands over, its header lookup \<open>req.find(name)\<close> being a component of the
  value; a response is the record of what the code does to it (the status and body it
  assigned, the header writes in order, whether \<open>prepare_payload()\<close> was called), so
  nothing is assumed of Beast's field container.
\<close>

datatype verb =
    Verb_unknown | Verb_delete | Verb_get | Verb_head | Verb_post | Verb_put
  | Verb_connect | Verb_options | Verb_trace | Verb_patch | Verb_other string

text \<open>\<open>core::verb_to_string\<close>.\<close>

fun verb_to_string :: "verb \<Rightarrow> string" where
  "verb_to_string Verb_get = ''GET''"
| "verb_to_string Verb_post = ''POST''"
| "verb_to_string Verb_put = ''PUT''"
| "verb_to_string Verb_delete = ''DELETE''"
| "verb_to_string Verb_head = ''HEAD''"
| "verb_to_string Verb_options = ''OPTIONS''"
| "verb_to_string Verb_patch = ''PATCH''"
| "verb_to_string Verb_trace = ''TRACE''"
| "verb_to_string Verb_connect = ''CONNECT''"
| "verb_to_string _ = ''UNKNOWN''"

record http_request =
  rq_method :: verb
  rq_method_string :: string
  rq_target :: string
  rq_find :: "string \<Rightarrow> string option"
  rq_body :: string
  rq_keep_alive :: bool
  rq_version :: nat

text \<open>\<open>req[name]\<close>: the field's value, empty when absent.\<close>

definition rq_at :: "http_request \<Rightarrow> string \<Rightarrow> string" where
  "rq_at r name = (case rq_find r name of Some v \<Rightarrow> v | None \<Rightarrow> [])"

text \<open>A request with given method, target, headers and body (for concrete instances).\<close>

definition make_request :: "verb \<Rightarrow> string \<Rightarrow> (string \<times> string) list \<Rightarrow> string \<Rightarrow> http_request" where
  "make_request m target hdrs body =
     \<lparr>rq_method = m, rq_method_string = verb_to_string m, rq_target = target, rq_find = map_of hdrs,
      rq_body = body, rq_keep_alive = True, rq_version = 11\<rparr>"

lemma make_request_sels [simp]:
  "rq_method (make_request m t h b) = m" "rq_target (make_request m t h b) = t"
  "rq_find (make_request m t h b) = map_of h" "rq_body (make_request m t h b) = b"
  "rq_method_string (make_request m t h b) = verb_to_string m"
  "rq_keep_alive (make_request m t h b) = True"
  by (simp_all add: make_request_def)

record http_response =
  rs_status :: nat
  rs_sets :: "(string \<times> string) list"
  rs_body :: string
  rs_prepared :: bool
  rs_version :: nat
  rs_keep_alive :: "bool option"
  rs_content_length :: "nat option"

text \<open>
  \<open>http::response{status, version}\<close>; the default constructor is status 200, version 11. The
  last two components are the arguments of the last \<open>keep_alive(b)\<close> and \<open>content_length(n)\<close>.
\<close>

definition new_response :: "nat \<Rightarrow> nat \<Rightarrow> http_response" where
  "new_response st v = \<lparr>rs_status = st, rs_sets = [], rs_body = [], rs_prepared = False,
     rs_version = v, rs_keep_alive = None, rs_content_length = None\<rparr>"

abbreviation res_init :: http_response where
  "res_init \<equiv> new_response 200 11"

definition res_keep_alive :: "bool \<Rightarrow> http_response \<Rightarrow> http_response" where
  "res_keep_alive b r = r\<lparr>rs_keep_alive := Some b\<rparr>"

definition res_content_length :: "nat \<Rightarrow> http_response \<Rightarrow> http_response" where
  "res_content_length n r = r\<lparr>rs_content_length := Some n\<rparr>"

definition res_result :: "nat \<Rightarrow> http_response \<Rightarrow> http_response" where
  "res_result st r = r\<lparr>rs_status := st\<rparr>"

definition res_set :: "string \<Rightarrow> string \<Rightarrow> http_response \<Rightarrow> http_response" where
  "res_set name v r = r\<lparr>rs_sets := rs_sets r @ [(name, v)]\<rparr>"

definition res_set_body :: "string \<Rightarrow> http_response \<Rightarrow> http_response" where
  "res_set_body b r = r\<lparr>rs_body := b\<rparr>"

definition res_prepare_payload :: "http_response \<Rightarrow> http_response" where
  "res_prepare_payload r = r\<lparr>rs_prepared := True\<rparr>"

text \<open>The value the code wrote last under a header name.\<close>

definition last_set :: "http_response \<Rightarrow> string \<Rightarrow> string option" where
  "last_set r name = map_of (rev (rs_sets r)) name"

lemma last_set_res_set [simp]:
  "last_set (res_set n v r) m = (if m = n then Some v else last_set r m)"
  by (simp add: last_set_def res_set_def)

lemma last_set_others [simp]:
  "last_set (res_result st r) m = last_set r m"
  "last_set (res_set_body b r) m = last_set r m"
  "last_set (res_prepare_payload r) m = last_set r m"
  by (simp_all add: last_set_def res_result_def res_set_body_def res_prepare_payload_def)

lemma res_sels [simp]:
  "rs_status (res_result st r) = st" "rs_status (res_set n v r) = rs_status r"
  "rs_status (res_set_body b r) = rs_status r" "rs_status (res_prepare_payload r) = rs_status r"
  "rs_body (res_result st r) = rs_body r" "rs_body (res_set n v r) = rs_body r"
  "rs_body (res_set_body b r) = b" "rs_body (res_prepare_payload r) = rs_body r"
  "rs_prepared (res_prepare_payload r) = True"
  by (simp_all add: res_result_def res_set_def res_set_body_def res_prepare_payload_def)

lemma new_response_sels [simp]:
  "rs_status (new_response st v) = st" "rs_sets (new_response st v) = []" "rs_body (new_response st v) = []"
  "rs_prepared (new_response st v) = False" "rs_version (new_response st v) = v"
  "rs_keep_alive (new_response st v) = None" "rs_content_length (new_response st v) = None"
  by (simp_all add: new_response_def)

lemma last_set_new [simp]: "last_set (new_response st v) m = None"
  by (simp add: last_set_def)

end
