(* ===== verification/Parser_Interface.thy ===== *)
theory Parser_Interface
  imports Http_Types
begin

text \<open>
  include/foxhttp/parser/parser.hpp: the contract of \<open>Parser<T>\<close> as a locale that every
  body parser interprets, and \<open>ParserFactory\<close>, the registry of parsers per result type.
\<close>

section \<open>The interface of a body parser\<close>

text \<open>
  What \<open>Parser<T>\<close> promises its callers: a body over the configured limit is refused by an
  exception of class \<open>std::runtime_error\<close>, and every failure derives from
  \<open>std::exception\<close>, so that \<open>catch (const std::exception &)\<close> handles it.
\<close>

locale body_parser =
  fixes parse :: "http_request \<Rightarrow> 'a throws" and limit :: nat
  assumes oversize: "limit < length (rq_body req) \<Longrightarrow> \<exists>m. parse req = Inl (Runtime_error m)"
    and failure_caught: "parse req = Inl e \<Longrightarrow> is_std_exception e"
begin

lemma accepted_within_limit: "parse req = Inr v \<Longrightarrow> length (rq_body req) \<le> limit"
  using oversize [of req] by force

end

section \<open>ParserFactory\<close>

text \<open>
  A registered parser is its name, its content type and its \<open>supports\<close> and \<open>parse\<close>
  members; the registry maps the \<open>type_index\<close> of the result type to the parsers in
  registration order. The result type is the same for all parsers under one key.
\<close>

record 'a parser_holder =
  ph_name :: string
  ph_content_type :: string
  ph_supports :: "http_request \<Rightarrow> bool"
  ph_parse :: "http_request \<Rightarrow> 'a throws"

type_synonym ('k, 'a) parser_registry = "'k \<rightharpoonup> 'a parser_holder list"

definition register_parser ::
  "'k \<Rightarrow> 'a parser_holder \<Rightarrow> ('k, 'a) parser_registry \<Rightarrow> ('k, 'a) parser_registry" where
  "register_parser key p reg =
     reg(key \<mapsto> (case reg key of None \<Rightarrow> [] | Some vec \<Rightarrow> vec) @ [p])"

definition get_best ::
  "('k, 'a) parser_registry \<Rightarrow> 'k \<Rightarrow> http_request \<Rightarrow> 'a parser_holder throws" where
  "get_best reg key req =
     (case reg key of
        None \<Rightarrow> Inl (Runtime_error ''No parser registered for this type'')
      | Some vec \<Rightarrow>
          (case find (\<lambda>h. ph_supports h req) vec of
             None \<Rightarrow> Inl (Runtime_error ''No suitable parser supports this request'')
           | Some h \<Rightarrow> Inr h))"

text \<open>What the registry holds under a key after a sequence of registrations.\<close>

lemma register_parser_list:
  "foldl (\<lambda>r (k, p). register_parser k p r) reg ps key =
     (if reg key = None \<and> (\<forall>kp\<in>set ps. fst kp \<noteq> key) then None
      else Some ((case reg key of None \<Rightarrow> [] | Some vec \<Rightarrow> vec) @
                 map snd (filter (\<lambda>(k, p). k = key) ps)))"
proof (induction ps arbitrary: reg)
  case Nil
  then show ?case by (cases "reg key") auto
next
  case (Cons kp ps)
  then show ?case by (cases kp; cases "reg key") (auto simp: register_parser_def)
qed

text \<open>
  \<open>ParserFactory::get_best\<close> after any sequence of registrations: it throws one message
  when nothing was registered for the type, another when no registered parser supports the
  request, and otherwise returns the earliest registered one that does.
\<close>

theorem get_best_after_registrations:
  "get_best (foldl (\<lambda>r (k, p). register_parser k p r) Map.empty ps) key req =
     (if key \<notin> fst ` set ps then Inl (Runtime_error ''No parser registered for this type'')
      else case find (\<lambda>h. ph_supports h req) (map snd (filter (\<lambda>(k, p). k = key) ps)) of
             None \<Rightarrow> Inl (Runtime_error ''No suitable parser supports this request'')
           | Some h \<Rightarrow> Inr h)"
  by (force simp: get_best_def register_parser_list)

end
