(* ===== verification/Form_Parser.thy ===== *)
theory Form_Parser
  imports Url_Codec Configs Parser_Interface
begin

text \<open>
  \<open>FormField\<close>, \<open>FormParser\<close> and \<open>FormParserImpl\<close> of src/parser/form_parser.cpp.
  The result of a parse, an \<open>unordered_map\<close> from names to fields, is an association list;
  its order stands for the map's unspecified iteration order.
\<close>

section \<open>FormField\<close>

record form_field =
  ff_name :: string
  ff_values :: "string list"
  ff_is_array :: bool

definition new_form_field :: form_field where
  "new_form_field = \<lparr>ff_name = [], ff_values = [], ff_is_array = False\<rparr>"

definition ff_value :: "form_field \<Rightarrow> string" where
  "ff_value f = (case ff_values f of [] \<Rightarrow> [] | v # _ \<Rightarrow> v)"

definition ff_value_at :: "form_field \<Rightarrow> nat \<Rightarrow> string" where
  "ff_value_at f i = (if length (ff_values f) \<le> i then [] else ff_values f ! i)"

definition ff_validation_error :: "form_field \<Rightarrow> string" where
  "ff_validation_error f = (if ff_name f = [] then ''Field name is empty'' else [])"

definition ff_is_valid :: "form_field \<Rightarrow> bool" where
  "ff_is_valid f = (ff_name f \<noteq> [] \<and> ff_validation_error f = [])"

definition ff_set_name :: "string \<Rightarrow> form_field \<Rightarrow> form_field" where
  "ff_set_name n f = f\<lparr>ff_name := n\<rparr>"

definition ff_add_value :: "string \<Rightarrow> form_field \<Rightarrow> form_field" where
  "ff_add_value v f = f\<lparr>ff_values := ff_values f @ [v], ff_is_array := True\<rparr>"

definition ff_set_single_value :: "string \<Rightarrow> form_field \<Rightarrow> form_field" where
  "ff_set_single_value v f = f\<lparr>ff_values := [v], ff_is_array := False\<rparr>"

section \<open>FormParserImpl\<close>

type_synonym form_data = "(string \<times> form_field) list"

definition extract_field_name :: "string \<Rightarrow> string" where
  "extract_field_name pair = (case find_sub ''='' pair of Some pos \<Rightarrow> take pos pair | None \<Rightarrow> pair)"

definition extract_field_value :: "string \<Rightarrow> string" where
  "extract_field_value pair = (case find_sub ''='' pair of Some pos \<Rightarrow> drop (pos + 1) pair | None \<Rightarrow> [])"

definition is_array_field :: "form_config \<Rightarrow> string \<Rightarrow> bool" where
  "is_array_field cfg name = (if \<not> fc_support_arrays cfg then False else ends_with name ''[]'')"

definition normalize_field_name :: "form_config \<Rightarrow> string \<Rightarrow> string" where
  "normalize_field_name cfg name =
     (if is_array_field cfg name then take (length name - 2) name else name)"

definition validate_field_size :: "form_config \<Rightarrow> string \<Rightarrow> string \<Rightarrow> bool" where
  "validate_field_size cfg name v = (length name \<le> fc_max_field_size cfg \<and> length v \<le> fc_max_field_size cfg)"

definition update_field :: "string \<Rightarrow> (form_field \<Rightarrow> form_field) \<Rightarrow> form_data \<Rightarrow> form_data" where
  "update_field n g data = map (\<lambda>(k, f). (k, if k = n then g f else f)) data"

text \<open>The part of the loop body after decoding: find the field or create it.\<close>

definition store_value :: "form_config \<Rightarrow> form_data \<Rightarrow> string \<Rightarrow> string \<Rightarrow> form_data" where
  "store_value cfg data name v =
     (let normalized_name = normalize_field_name cfg name;
          is_array = is_array_field cfg name
      in case map_of data normalized_name of
           Some _ \<Rightarrow> update_field normalized_name (ff_add_value v) data
         | None \<Rightarrow>
             (let field = ff_set_name normalized_name new_form_field
              in data @ [(normalized_name, if is_array then ff_add_value v field
                                           else ff_set_single_value v field)]))"

definition parse_pair :: "form_config \<Rightarrow> form_data \<Rightarrow> string \<Rightarrow> form_data throws" where
  "parse_pair cfg data pair =
     (if pair = [] then Inr data
      else let name = extract_field_name pair; v = extract_field_value pair in
        if \<not> validate_field_size cfg name v
        then Inl (Runtime_error ''Field size exceeds maximum allowed size'')
        else Inr (store_value cfg data (form_url_decode name) (form_url_decode v)))"

fun parse_pair_list :: "form_config \<Rightarrow> form_data \<Rightarrow> string list \<Rightarrow> form_data throws" where
  "parse_pair_list cfg data [] = Inr data"
| "parse_pair_list cfg data (p # ps) =
     (case parse_pair cfg data p of Inl e \<Rightarrow> Inl e | Inr data' \<Rightarrow> parse_pair_list cfg data' ps)"

definition parse_pairs :: "form_config \<Rightarrow> string \<Rightarrow> form_data throws" where
  "parse_pairs cfg body = parse_pair_list cfg [] (getlines (CHR ''&'') body)"

definition total_form_size :: "form_data \<Rightarrow> nat" where
  "total_form_size data =
     sum_list (map (\<lambda>(n, f). length n + sum_list (map length (ff_values f))) data)"

definition validate_total_size :: "form_config \<Rightarrow> form_data \<Rightarrow> bool" where
  "validate_total_size cfg data = (total_form_size data \<le> fc_max_total_size cfg)"

definition validate_field_count :: "form_config \<Rightarrow> form_data \<Rightarrow> bool" where
  "validate_field_count cfg data = (length data \<le> fc_max_fields cfg)"

definition validate_form_field :: "form_config \<Rightarrow> form_field \<Rightarrow> bool" where
  "validate_form_field cfg f =
     (ff_is_valid f \<and> list_all (\<lambda>v. length v \<le> fc_max_field_size cfg) (ff_values f))"

definition validate_all_form_fields :: "form_config \<Rightarrow> form_data \<Rightarrow> string list" where
  "validate_all_form_fields cfg data =
     (if validate_field_count cfg data then [] else [''Too many fields'']) @
     (if validate_total_size cfg data then [] else [''Total data size exceeds limit'']) @
     concat (map (\<lambda>(n, f). if validate_form_field cfg f then []
                           else [''Field '' @ [CHR 0x27] @ n @ [CHR 0x27] @ '' validation failed'']) data)"

section \<open>FormParser\<close>

definition form_supports :: "http_request \<Rightarrow> bool" where
  "form_supports req = prefix ''application/x-www-form-urlencoded'' (rq_at req ''Content-Type'')"

definition form_parse :: "form_config \<Rightarrow> http_request \<Rightarrow> form_data throws" where
  "form_parse cfg req =
     (if fc_max_total_size cfg < length (rq_body req)
      then Inl (Runtime_error ''Request body exceeds maximum total size'')
      else parse_pairs cfg (rq_body req))"

section \<open>Well-formed form data\<close>

text \<open>
  Names are unique and agree with the fields, no field is without a value, and a field not
  marked as an array has exactly one.
\<close>

definition wf_field :: "string \<Rightarrow> form_field \<Rightarrow> bool" where
  "wf_field n f = (ff_name f = n \<and> ff_values f \<noteq> [] \<and> (\<not> ff_is_array f \<longrightarrow> length (ff_values f) = 1))"

definition wf_form :: "form_data \<Rightarrow> bool" where
  "wf_form data = (distinct (map fst data) \<and> (\<forall>(n, f) \<in> set data. wf_field n f))"

lemmas ff_ops = ff_add_value_def ff_set_single_value_def ff_set_name_def new_form_field_def

lemma map_fst_update_field [simp]: "map fst (update_field n g data) = map fst data"
  by (induction data) (auto simp: update_field_def)

lemma map_of_update_field:
  "map_of (update_field n g data) k = (if k = n then map_option g (map_of data n) else map_of data k)"
  by (induction data) (auto simp: update_field_def)

lemma wf_field_add: "wf_field n f \<Longrightarrow> wf_field n (ff_add_value v f)"
  by (simp add: wf_field_def ff_ops)

lemma wf_form_update:
  assumes "wf_form data" and g: "\<And>f. wf_field n f \<Longrightarrow> wf_field n (g f)"
  shows "wf_form (update_field n g data)"
proof -
  have "wf_field k f" if "(k, f) \<in> set (update_field n g data)" for k f
    using that assms by (fastforce simp: wf_form_def update_field_def)
  then show ?thesis using assms(1) by (auto simp: wf_form_def)
qed

lemma wf_form_store:
  assumes "wf_form data"
  shows "wf_form (store_value cfg data name v)"
proof (cases "map_of data (normalize_field_name cfg name)")
  case None
  then have "normalize_field_name cfg name \<notin> fst ` set data" by (simp add: map_of_eq_None_iff)
  with assms None show ?thesis
    by (auto simp: store_value_def wf_form_def wf_field_def ff_ops Let_def)
next
  case (Some f)
  with assms show ?thesis
    by (simp add: store_value_def Let_def wf_form_update wf_field_add)
qed

lemma wf_form_pair: "parse_pair cfg data p = Inr data' \<Longrightarrow> wf_form data \<Longrightarrow> wf_form data'"
  by (auto simp: parse_pair_def Let_def wf_form_store split: if_splits)

lemma wf_form_pairs: "parse_pair_list cfg data ps = Inr data' \<Longrightarrow> wf_form data \<Longrightarrow> wf_form data'"
  by (induction cfg data ps rule: parse_pair_list.induct) (auto split: sum.splits dest: wf_form_pair)

section \<open>The values a parse collects\<close>

definition values_of :: "form_data \<Rightarrow> string \<Rightarrow> string list" where
  "values_of data n = (case map_of data n of Some f \<Rightarrow> ff_values f | None \<Rightarrow> [])"

lemma values_of_store:
  "values_of (store_value cfg data name v) n =
     values_of data n @ (if normalize_field_name cfg name = n then [v] else [])"
  by (auto simp: store_value_def values_of_def Let_def map_of_update_field map_add_Some_iff ff_ops
      map_add_def split: option.splits)

lemma parse_pair_encoded:
  assumes "length (form_url_encode k) \<le> fc_max_field_size cfg"
    and "length (form_url_encode v) \<le> fc_max_field_size cfg"
  shows "parse_pair cfg data (form_url_encode k @ CHR ''='' # form_url_encode v) =
    Inr (store_value cfg data k v)"
proof -
  have eq: "CHR ''='' \<in> url_reserved" by (simp add: url_reserved_def)
  show ?thesis
    using assms form_codec.field_split [OF eq, of k v]
    by (simp add: parse_pair_def extract_field_name_def extract_field_value_def Let_def
        validate_field_size_def form_codec.dec_enc)
qed

lemma parse_pair_list_encoded:
  assumes "\<forall>(k, v) \<in> set kvs. length (form_url_encode k) \<le> fc_max_field_size cfg \<and>
    length (form_url_encode v) \<le> fc_max_field_size cfg"
  shows "parse_pair_list cfg data (map (\<lambda>(k, v). form_url_encode k @ CHR ''='' # form_url_encode v) kvs) =
    Inr (foldl (\<lambda>d (k, v). store_value cfg d k v) data kvs)"
  using assms
proof (induction kvs arbitrary: data)
  case Nil
  then show ?case by simp
next
  case (Cons kv kvs)
  then show ?case by (cases kv) (simp add: parse_pair_encoded)
qed

lemma values_of_foldl:
  "values_of (foldl (\<lambda>d (k, v). store_value cfg d k v) data kvs) n =
     values_of data n @ map snd (filter (\<lambda>(k, v). normalize_field_name cfg k = n) kvs)"
  by (induction kvs arbitrary: data) (auto simp: values_of_store)

section \<open>Size accounting\<close>

definition field_size :: "string \<times> form_field \<Rightarrow> nat" where
  "field_size kf = length (fst kf) + sum_list (map length (ff_values (snd kf)))"

lemma total_form_size_alt: "total_form_size data = sum_list (map field_size data)"
  by (induction data) (auto simp: total_form_size_def field_size_def)

lemma update_field_fresh: "n \<notin> fst ` set data \<Longrightarrow> update_field n g data = data"
  by (induction data) (auto simp: update_field_def)

lemma total_size_update:
  "distinct (map fst data) \<Longrightarrow>
     total_form_size (update_field n (ff_add_value v) data) \<le> total_form_size data + length v"
proof (induction data)
  case Nil
  then show ?case by (simp add: total_form_size_def update_field_def)
next
  case (Cons kf data)
  have upd: "update_field n g (kf # data) =
      (fst kf, if fst kf = n then g (snd kf) else snd kf) # update_field n g data" for g
    by (simp add: update_field_def case_prod_beta)
  show ?case
  proof (cases "fst kf = n")
    case True
    with Cons.prems have "n \<notin> fst ` set data" by auto
    with True show ?thesis
      unfolding upd by (simp add: update_field_fresh total_form_size_alt field_size_def ff_ops)
  next
    case False
    with Cons show ?thesis unfolding upd by (simp add: total_form_size_alt field_size_def)
  qed
qed

lemma normalize_length: "length (normalize_field_name cfg name) \<le> length name"
  by (simp add: normalize_field_name_def)

lemma total_size_store:
  assumes "wf_form data"
  shows "total_form_size (store_value cfg data name v) \<le> total_form_size data + length name + length v"
proof (cases "map_of data (normalize_field_name cfg name)")
  case None
  then show ?thesis
    using normalize_length [of cfg name]
    by (simp add: store_value_def Let_def total_form_size_alt field_size_def ff_ops)
next
  case (Some f)
  have "distinct (map fst data)" using assms by (simp add: wf_form_def)
  with Some total_size_update [of data "normalize_field_name cfg name" v] show ?thesis
    by (simp add: store_value_def Let_def)
qed

lemma pair_parts_length: "length (extract_field_name p) + length (extract_field_value p) \<le> length p"
  by (auto simp: extract_field_name_def extract_field_value_def split: option.splits)

lemma total_size_pair:
  assumes "parse_pair cfg data p = Inr data'" and "wf_form data"
  shows "total_form_size data' \<le> total_form_size data + length p"
proof (cases "p = []")
  case True
  with assms show ?thesis by (simp add: parse_pair_def)
next
  case False
  let ?n = "form_url_decode (extract_field_name p)" and ?v = "form_url_decode (extract_field_value p)"
  from False assms(1) have "data' = store_value cfg data ?n ?v"
    by (simp add: parse_pair_def Let_def split: if_splits)
  then have "total_form_size data' \<le> total_form_size data + length ?n + length ?v"
    using total_size_store [OF assms(2)] by simp
  then show ?thesis
    using form_decode_length [of "extract_field_name p"] form_decode_length [of "extract_field_value p"]
      pair_parts_length [of p] by linarith
qed

lemma total_size_pairs:
  "parse_pair_list cfg data ps = Inr data' \<Longrightarrow> wf_form data \<Longrightarrow>
     total_form_size data' \<le> total_form_size data + sum_list (map length ps)"
proof (induction cfg data ps rule: parse_pair_list.induct)
  case (1 cfg data)
  then show ?case by simp
next
  case (2 cfg data p ps)
  then obtain d where d: "parse_pair cfg data p = Inr d" "parse_pair_list cfg d ps = Inr data'"
    by (auto split: sum.splits)
  with 2 wf_form_pair [OF d(1)] have "total_form_size data' \<le> total_form_size d + sum_list (map length ps)"
    by blast
  with total_size_pair [OF d(1) "2.prems"(2)] show ?case by simp
qed

lemma wf_form_Nil [simp]: "wf_form []"
  by (simp add: wf_form_def)

text \<open>A pair list fails exactly when one of its pairs is over the field size.\<close>

definition oversized :: "form_config \<Rightarrow> string \<Rightarrow> bool" where
  "oversized cfg p = (p \<noteq> [] \<and> \<not> validate_field_size cfg (extract_field_name p) (extract_field_value p))"

lemma parse_pair_list_cases:
  "(if \<exists>p\<in>set ps. oversized cfg p
    then parse_pair_list cfg data ps = Inl (Runtime_error ''Field size exceeds maximum allowed size'')
    else \<exists>data'. parse_pair_list cfg data ps = Inr data')"
  by (induction ps arbitrary: data) (auto simp: parse_pair_def oversized_def Let_def)

section \<open>The parser interface holds\<close>

lemma parse_pairs_failure:
  "parse_pairs cfg body = Inl e \<Longrightarrow> e = Runtime_error ''Field size exceeds maximum allowed size''"
  using parse_pair_list_cases [of "getlines (CHR ''&'') body" cfg "[]"]
  by (auto simp: parse_pairs_def split: if_splits)

interpretation form_body: body_parser "form_parse cfg" "fc_max_total_size cfg" for cfg
  by unfold_locales (auto simp: form_parse_def dest: parse_pairs_failure split: if_splits)

section \<open>Properties\<close>

lemma pairs_parsed:
  assumes "\<forall>(k, v) \<in> set kvs. length (form_url_encode k) \<le> fc_max_field_size cfg \<and>
    length (form_url_encode v) \<le> fc_max_field_size cfg"
  shows "\<exists>data. parse_pairs cfg (join_with (CHR ''&'')
        (map (\<lambda>(k, v). form_url_encode k @ CHR ''='' # form_url_encode v) kvs)) = Inr data \<and>
      wf_form data \<and>
      (\<forall>n. values_of data n = map snd (filter (\<lambda>(k, v). normalize_field_name cfg k = n) kvs))"
proof -
  let ?pairs = "map (\<lambda>(k, v). form_url_encode k @ CHR ''='' # form_url_encode v) kvs"
  have "getlines (CHR ''&'') (join_with (CHR ''&'') ?pairs) = ?pairs"
    by (rule form_codec.pairs_split) (simp_all add: url_reserved_def)
  then have parsed: "parse_pairs cfg (join_with (CHR ''&'') ?pairs) =
      Inr (foldl (\<lambda>d (k, v). store_value cfg d k v) [] kvs)"
    by (simp only: parse_pairs_def parse_pair_list_encoded [OF assms])
  then have "wf_form (foldl (\<lambda>d (k, v). store_value cfg d k v) [] kvs)"
    unfolding parse_pairs_def by (rule wf_form_pairs) simp
  with parsed values_of_foldl [of cfg "[]" kvs] show ?thesis by (auto simp: values_of_def)
qed



text \<open>
  The outcome of \<open>FormParser::parse\<close> on every request: over the total limit it throws;
  otherwise it throws exactly when some pair is over the field limit; otherwise it returns
  well-formed data whose total size is at most the body's, so the total-size validation
  always holds of a parse's result.
\<close>

theorem form_parse_outcome:
  "(if fc_max_total_size cfg < length (rq_body req)
    then form_parse cfg req = Inl (Runtime_error ''Request body exceeds maximum total size'')
    else if \<exists>p\<in>set (getlines (CHR ''&'') (rq_body req)). oversized cfg p
    then form_parse cfg req = Inl (Runtime_error ''Field size exceeds maximum allowed size'')
    else \<exists>data. form_parse cfg req = Inr data \<and> wf_form data \<and>
      total_form_size data \<le> length (rq_body req) \<and> validate_total_size cfg data)"
proof -
  let ?ls = "getlines (CHR ''&'') (rq_body req)"
  have "wf_form data \<and> total_form_size data \<le> length (rq_body req)"
    if "parse_pair_list cfg [] ?ls = Inr data" for data
    using wf_form_pairs [OF that] total_size_pairs [OF that] getlines_length [of "CHR ''&''" "rq_body req"]
    by (simp add: total_form_size_def)
  then show ?thesis
    using parse_pair_list_cases [of ?ls cfg "[]"]
    by (auto simp: form_parse_def parse_pairs_def validate_total_size_def split: if_splits)
qed

end
