(* ===== verification/Base64.thy ===== *)
theory Base64
  imports Fox_Prelude
begin

text \<open>
  The two base64 decoders of the sources: \<open>MultipartParserImpl::base64_decode\<close> of
  src/parser/multipart_parser.cpp, which stops at the first character outside the
  alphabet, and \<open>AuthMiddleware::base64_decode\<close> of
  include/foxhttp/middleware/advanced/auth_middleware.hpp, which stops at an equals sign
  and skips other characters. The accumulator \<open>int val\<close> is a 32-bit word, which overflows
  on every input of more than five characters. Both are proved to invert the RFC 4648
  encoding, through one interface.
\<close>

unbundle bit_operations_syntax

section \<open>The decoders\<close>

definition b64_chars :: string where
  "b64_chars = ''ABCDEFGHIJKLMNOPQRSTUVWXYZabcdefghijklmnopqrstuvwxyz0123456789+/''"

definition char_to_index :: "char \<Rightarrow> nat option" where
  "char_to_index c = index_where (\<lambda>x. x = c) b64_chars"

text \<open>\<open>char((val >> valb) & 0xFF)\<close>: the shift of a signed value is arithmetic.\<close>

definition b64_byte :: "32 word \<Rightarrow> int \<Rightarrow> char" where
  "b64_byte val valb = char_of (unat (signed_drop_bit (nat valb) val AND 0xFF))"

fun multipart_b64_loop :: "32 word \<Rightarrow> int \<Rightarrow> string \<Rightarrow> string" where
  "multipart_b64_loop val valb [] = []"
| "multipart_b64_loop val valb (c # cs) =
     (case char_to_index c of
        None \<Rightarrow> []
      | Some i \<Rightarrow>
          let val = push_bit 6 val + of_nat i; valb = valb + 6
          in if 0 \<le> valb then b64_byte val valb # multipart_b64_loop val (valb - 8) cs
             else multipart_b64_loop val valb cs)"

definition base64_decode :: "string \<Rightarrow> string" where
  "base64_decode encoded = multipart_b64_loop 0 (- 8) encoded"

text \<open>The table \<open>T\<close> of the authentication middleware.\<close>

definition auth_b64_table :: "int list" where
  "auth_b64_table = replicate 43 (- 1) @ [62] @ replicate 3 (- 1) @ [63] @ map int [52..<62] @
     replicate 7 (- 1) @ map int [0..<26] @ replicate 6 (- 1) @ map int [26..<52] @ replicate 133 (- 1)"

fun auth_b64_loop :: "32 word \<Rightarrow> int \<Rightarrow> string \<Rightarrow> string" where
  "auth_b64_loop val valb [] = []"
| "auth_b64_loop val valb (c # cs) =
     (if c = CHR ''='' then []
      else let t = auth_b64_table ! byte c
           in if t = - 1 then auth_b64_loop val valb cs
              else let val = push_bit 6 val + of_int t; valb = valb + 6
                   in if 0 \<le> valb then b64_byte val valb # auth_b64_loop val (valb - 8) cs
                      else auth_b64_loop val valb cs)"

definition auth_base64_decode :: "string \<Rightarrow> string" where
  "auth_base64_decode s = auth_b64_loop 0 (- 8) s"

section \<open>Sextets and bytes\<close>

text \<open>The reference: four sextets are three bytes; a group of three is two, of two one.\<close>

fun sextet_bytes :: "nat list \<Rightarrow> string" where
  "sextet_bytes (a # b # c # d # r) =
     char_of (a * 4 + b div 16) # char_of (b mod 16 * 16 + c div 4) # char_of (c mod 4 * 64 + d) #
     sextet_bytes r"
| "sextet_bytes [a, b, c] = [char_of (a * 4 + b div 16), char_of (b mod 16 * 16 + c div 4)]"
| "sextet_bytes [a, b] = [char_of (a * 4 + b div 16)]"
| "sextet_bytes _ = []"

text \<open>The encoding of RFC 4648, with padding.\<close>

definition b64_digit :: "nat \<Rightarrow> char" where
  "b64_digit i = b64_chars ! i"

fun b64_encode :: "string \<Rightarrow> string" where
  "b64_encode (x # y # z # r) =
     b64_digit (byte x div 4) # b64_digit (byte x mod 4 * 16 + byte y div 16) #
     b64_digit (byte y mod 16 * 4 + byte z div 64) # b64_digit (byte z mod 64) # b64_encode r"
| "b64_encode [x, y] =
     [b64_digit (byte x div 4), b64_digit (byte x mod 4 * 16 + byte y div 16),
      b64_digit (byte y mod 16 * 4), CHR ''='']"
| "b64_encode [x] = [b64_digit (byte x div 4), b64_digit (byte x mod 4 * 16), CHR ''='', CHR ''='']"
| "b64_encode [] = []"

lemma b64_byte_of_nat:
  assumes "0 \<le> v" "v \<le> 24"
  shows "b64_byte (of_nat N) v = char_of (N div 2 ^ nat v)"
proof -
  let ?v = "nat v" and ?w = "of_nat N :: 32 word"
  have v: "?v \<le> 24" using assms by simp
  have "signed_drop_bit ?v ?w AND 0xFF = take_bit 8 (signed_drop_bit ?v ?w)"
    by (simp add: take_bit_eq_mask mask_eq_exp_minus_1)
  also have "\<dots> = take_bit 8 (drop_bit ?v ?w)"
    using v by (auto intro!: bit_word_eqI simp: bit_take_bit_iff bit_drop_bit_eq bit_signed_drop_bit_iff
        split: if_splits)
  also have "unat \<dots> = N mod 2 ^ 32 div 2 ^ ?v mod 256"
  proof -
    have "unat (take_bit 8 (drop_bit ?v ?w)) = take_bit 8 (drop_bit ?v (take_bit 32 (unat ?w)))"
      by (simp add: unsigned_take_bit_eq unsigned_drop_bit_eq)
    then show ?thesis by (simp add: take_bit_eq_mod drop_bit_eq_div unat_of_nat)
  qed
  also have "N mod 2 ^ 32 div 2 ^ ?v = N div 2 ^ ?v mod 2 ^ (32 - ?v)"
    using v by (metis div_exp_mod_exp_eq drop_bit_eq_div drop_bit_take_bit take_bit_eq_mod)
  also have "\<dots> mod 256 = N div 2 ^ ?v mod 256"
  proof -
    have "(256 :: nat) dvd 2 ^ (32 - ?v)"
      using v le_imp_power_dvd [of 8 "32 - ?v" "2 :: nat"] by simp
    then show ?thesis by (rule mod_mod_cancel)
  qed
  finally show ?thesis unfolding b64_byte_def by (simp add: char_of_mod_256 del: One_nat_def)
qed


lemma char_of_256: "char_of (256 * n + m :: nat) = char_of m"
  by (metis char_of_mod_256 mod_mult_self4)

lemma push_sextet: "push_bit 6 (of_nat N :: 32 word) + of_nat i = of_nat (64 * N + i)"
  by (simp add: push_bit_eq_mult mult.commute)

text \<open>What a completed byte of a group is, whatever the accumulator held before it.\<close>

lemma group_bytes:
  fixes N a b c d :: nat
  assumes "a < 64" "b < 64" "c < 64" "d < 64"
  shows "char_of ((64 * (64 * N + a) + b) div 16) = (char_of (a * 4 + b div 16) :: char)"
    and "char_of ((64 * (64 * (64 * N + a) + b) + c) div 4) = (char_of (b mod 16 * 16 + c div 4) :: char)"
    and "char_of (64 * (64 * (64 * (64 * N + a) + b) + c) + d) = (char_of (c mod 4 * 64 + d) :: char)"
proof -
  have split: "16 * b = 256 * (b div 16) + b mod 16 * 16" "64 * c = 256 * (c div 4) + c mod 4 * 64"
    using div_mult_mod_eq [of b 16] div_mult_mod_eq [of c 4] by linarith+
  have 1: "(64 * (64 * N + a) + b) div 16 = 256 * N + (a * 4 + b div 16)" by simp
  have "(64 * (64 * (64 * N + a) + b) + c) div 4 = 16 * (64 * (64 * N + a) + b) + c div 4" by simp
  moreover have "16 * (64 * (64 * N + a) + b) = 256 * (256 * N + a * 4 + b div 16) + b mod 16 * 16"
    using split(1) by simp
  ultimately have 2: "(64 * (64 * (64 * N + a) + b) + c) div 4 =
      256 * (256 * N + a * 4 + b div 16) + (b mod 16 * 16 + c div 4)" by simp
  from split have 3: "64 * (64 * (64 * (64 * N + a) + b) + c) + d =
      256 * (65536 * N + 1024 * a + 16 * b + c div 4) + (c mod 4 * 64 + d)" by simp
  show "char_of ((64 * (64 * N + a) + b) div 16) = (char_of (a * 4 + b div 16) :: char)"
    unfolding 1 by (rule char_of_256)
  show "char_of ((64 * (64 * (64 * N + a) + b) + c) div 4) = (char_of (b mod 16 * 16 + c div 4) :: char)"
    unfolding 2 by (rule char_of_256)
  show "char_of (64 * (64 * (64 * (64 * N + a) + b) + c) + d) = (char_of (c mod 4 * 64 + d) :: char)"
    unfolding 3 by (rule char_of_256)
qed

lemma char_to_index_digit: "i < 64 \<Longrightarrow> char_to_index (b64_digit i) = Some i"
proof -
  have "\<forall>i\<in>set [0..<64]. char_to_index (b64_digit i) = Some i" by code_simp
  then show "i < 64 \<Longrightarrow> char_to_index (b64_digit i) = Some i" by simp
qed

lemma auth_table_digit: "i < 64 \<Longrightarrow> b64_digit i \<noteq> CHR ''='' \<and> auth_b64_table ! byte (b64_digit i) = int i"
proof -
  have "\<forall>i\<in>set [0..<64]. b64_digit i \<noteq> CHR ''='' \<and> auth_b64_table ! byte (b64_digit i) = int i"
    by code_simp
  then show "i < 64 \<Longrightarrow> b64_digit i \<noteq> CHR ''='' \<and> auth_b64_table ! byte (b64_digit i) = int i" by simp
qed

lemma sextet_bounds:
  fixes x y z :: nat
  assumes "x < 256" "y < 256" "z < 256"
  shows "x div 4 < 64" "x mod 4 * 16 + y div 16 < 64" "y mod 16 * 4 + z div 64 < 64"
    "x mod 4 * 16 < 64" "y mod 16 * 4 < 64"
proof -
  have "y div 16 < 16" "z div 64 < 4" "x mod 4 < 4" "y mod 16 < 16" using assms by auto
  then show "x mod 4 * 16 + y div 16 < 64" "y mod 16 * 4 + z div 64 < 64" "x mod 4 * 16 < 64"
    "y mod 16 * 4 < 64" by linarith+
  show "x div 4 < 64" using assms by auto
qed

lemma sextet_join:
  fixes x y z :: nat
  assumes "y < 256" "z < 256"
  shows "x div 4 * 4 + (x mod 4 * 16 + y div 16) div 16 = x"
    "(x mod 4 * 16 + y div 16) mod 16 * 16 + (y mod 16 * 4 + z div 64) div 4 = y"
    "(y mod 16 * 4 + z div 64) mod 4 * 64 + z mod 64 = z"
    "x div 4 * 4 + (x mod 4 * 16) div 16 = x"
    "(x mod 4 * 16 + y div 16) mod 16 * 16 + (y mod 16 * 4) div 4 = y"
proof -
  have "y div 16 < 16" "z div 64 < 4" using assms by auto
  then have "(x mod 4 * 16 + y div 16) div 16 = x mod 4" "(x mod 4 * 16 + y div 16) mod 16 = y div 16"
    "(y mod 16 * 4 + z div 64) div 4 = y mod 16" "(y mod 16 * 4 + z div 64) mod 4 = z div 64"
    by simp_all
  then show "x div 4 * 4 + (x mod 4 * 16 + y div 16) div 16 = x"
    "(x mod 4 * 16 + y div 16) mod 16 * 16 + (y mod 16 * 4 + z div 64) div 4 = y"
    "(y mod 16 * 4 + z div 64) mod 4 * 64 + z mod 64 = z"
    "x div 4 * 4 + (x mod 4 * 16) div 16 = x"
    "(x mod 4 * 16 + y div 16) mod 16 * 16 + (y mod 16 * 4) div 4 = y"
    by simp_all
qed

lemmas byte_join = sextet_join [OF byte_less byte_less]

section \<open>The interface of a base64 decoder\<close>

text \<open>
  What both decoders promise: a run of alphabet characters followed by padding decodes to
  the bytes of its sextets.
\<close>

locale base64_decoder =
  fixes decode :: "string \<Rightarrow> string"
  assumes decode_digits:
    "set xs \<subseteq> {..<64} \<Longrightarrow> decode (map b64_digit xs @ replicate k (CHR ''='')) = sextet_bytes xs"
begin

lemma sextets_of_encoding:
  "\<exists>xs k. set xs \<subseteq> {..<64} \<and> b64_encode s = map b64_digit xs @ replicate k (CHR ''='') \<and> sextet_bytes xs = s"
proof (induction s rule: b64_encode.induct)
  case (1 x y z r)
  then obtain xs k where IH: "set xs \<subseteq> {..<64}" "b64_encode r = map b64_digit xs @ replicate k (CHR ''='')"
    "sextet_bytes xs = r" by blast
  have "set (byte x div 4 # (byte x mod 4 * 16 + byte y div 16) #
      (byte y mod 16 * 4 + byte z div 64) # (byte z mod 64) # xs) \<subseteq> {..<64}"
    using IH(1) by (simp add: sextet_bounds [OF byte_less byte_less byte_less])
  moreover have "sextet_bytes (byte x div 4 # (byte x mod 4 * 16 + byte y div 16) #
      (byte y mod 16 * 4 + byte z div 64) # (byte z mod 64) # xs) = x # y # z # r"
    by (simp only: sextet_bytes.simps byte_join char_of_byte IH(3))
  ultimately show ?case using IH(2)
    by (intro exI [of _ "byte x div 4 # (byte x mod 4 * 16 + byte y div 16) #
      (byte y mod 16 * 4 + byte z div 64) # (byte z mod 64) # xs"] exI [of _ k])
      (simp del: sextet_bytes.simps)
next
  case (2 x y)
  have "set [byte x div 4, byte x mod 4 * 16 + byte y div 16, byte y mod 16 * 4] \<subseteq> {..<64}"
    by (simp add: sextet_bounds [OF byte_less byte_less byte_less])
  moreover have "sextet_bytes [byte x div 4, byte x mod 4 * 16 + byte y div 16, byte y mod 16 * 4] = [x, y]"
    by (simp only: sextet_bytes.simps byte_join char_of_byte)
  ultimately show ?case
    by (intro exI [of _ "[byte x div 4, byte x mod 4 * 16 + byte y div 16, byte y mod 16 * 4]"]
        exI [of _ 1]) (simp del: sextet_bytes.simps)
next
  case (3 x)
  have "set [byte x div 4, byte x mod 4 * 16] \<subseteq> {..<64}" by (simp add: sextet_bounds [OF byte_less byte_less byte_less])
  then show ?case
    by (intro exI [of _ "[byte x div 4, byte x mod 4 * 16]"] exI [of _ 2]) (simp add: numeral_2_eq_2 byte_join)
next
  case 4
  show ?case by (intro exI [of _ "[]"] exI [of _ 0]) simp
qed

lemma roundtrip: "decode (b64_encode s) = s"
  using sextets_of_encoding [of s] decode_digits by force

end

lemma multipart_b64_loop_digits:
  "set xs \<subseteq> {..<64} \<Longrightarrow> char_to_index (hd (t @ ''='')) = None \<Longrightarrow>
   multipart_b64_loop (of_nat N) (- 8) (map b64_digit xs @ t) = sextet_bytes xs"
proof (induction xs arbitrary: N rule: sextet_bytes.induct)
  case (1 a b c d r)
  then have "a < 64" "b < 64" "c < 64" "d < 64" by auto
  with 1 show ?case
    by (simp add: char_to_index_digit push_sextet b64_byte_of_nat group_bytes Let_def
        del: of_nat_add of_nat_mult distrib_left_numeral)
next
  case (2 a b c)
  then have "a < 64" "b < 64" "c < 64" by auto
  with 2 show ?case
    by (cases t) (simp_all add: char_to_index_digit push_sextet b64_byte_of_nat group_bytes Let_def
        del: of_nat_add of_nat_mult distrib_left_numeral)
next
  case (3 a b)
  then have "a < 64" "b < 64" by auto
  with 3 show ?case
    by (cases t) (simp_all add: char_to_index_digit push_sextet b64_byte_of_nat group_bytes Let_def
        del: of_nat_add of_nat_mult distrib_left_numeral)
qed (cases t; simp add: char_to_index_digit Let_def)+

lemma auth_b64_loop_digits:
  "set xs \<subseteq> {..<64} \<Longrightarrow>
   auth_b64_loop (of_nat N) (- 8) (map b64_digit xs @ replicate k (CHR ''='')) = sextet_bytes xs"
proof -
  have eq: "auth_b64_loop val valb (replicate k (CHR ''='')) = []" for val valb by (cases k) auto
  show "set xs \<subseteq> {..<64} \<Longrightarrow> ?thesis"
  proof (induction xs arbitrary: N rule: sextet_bytes.induct)
    case (1 a b c d r)
    then have "a < 64" "b < 64" "c < 64" "d < 64" by auto
    with 1 show ?case
      by (simp add: auth_table_digit push_sextet b64_byte_of_nat group_bytes Let_def
          del: of_nat_add of_nat_mult distrib_left_numeral)
  next
    case (2 a b c)
    then have "a < 64" "b < 64" "c < 64" by auto
    with 2 show ?case
      by (simp add: auth_table_digit push_sextet b64_byte_of_nat group_bytes Let_def eq
          del: of_nat_add of_nat_mult distrib_left_numeral)
  next
    case (3 a b)
    then have "a < 64" "b < 64" by auto
    with 3 show ?case
      by (simp add: auth_table_digit push_sextet b64_byte_of_nat group_bytes Let_def eq
          del: of_nat_add of_nat_mult distrib_left_numeral)
  qed (simp_all add: auth_table_digit Let_def eq)
qed

lemma char_to_index_equals: "char_to_index (CHR ''='') = None"
  by code_simp

interpretation multipart_b64: base64_decoder base64_decode
proof
  fix xs k assume "set xs \<subseteq> {..<64 :: nat}"
  then show "base64_decode (map b64_digit xs @ replicate k (CHR ''='')) = sextet_bytes xs"
    using multipart_b64_loop_digits [of xs "replicate k (CHR ''='')" 0]
    by (cases k) (simp_all add: base64_decode_def char_to_index_equals)
qed

interpretation auth_b64: base64_decoder auth_base64_decode
  using auth_b64_loop_digits [of _ 0] by unfold_locales (simp add: auth_base64_decode_def)

section \<open>Properties\<close>

text \<open>
  C38: both decoders invert the base64 encoding of every byte string, although the 32-bit
  accumulator overflows on all but the shortest inputs.
\<close>

theorem base64_roundtrip:
  "base64_decode (b64_encode s) = s \<and> auth_base64_decode (b64_encode s) = s"
  by (simp add: multipart_b64.roundtrip auth_b64.roundtrip)

text \<open>
  The decoders differ on input broken into lines: the multipart decoder loses all that
  follows the first line break, the authentication decoder skips it.
\<close>

lemma multipart_stops_at_line_break:
  "base64_decode (s @ CHR 0x0A # t) = base64_decode s"
proof -
  have "char_to_index (CHR 0x0A) = None" by code_simp
  then have "multipart_b64_loop val valb (s @ CHR 0x0A # t) = multipart_b64_loop val valb s" for val valb
    by (induction val valb s rule: multipart_b64_loop.induct) (auto simp: Let_def split: option.splits)
  then show ?thesis by (simp add: base64_decode_def)
qed

end
