(* ===== verification/Multipart_Parser.thy ===== *)
theory Multipart_Parser
  imports Base64 Url_Codec Configs Parser_Interface
begin

text \<open>
  \<open>MultipartField\<close>, \<open>MultipartParser\<close> and \<open>MultipartParserImpl\<close> of
  src/parser/multipart_parser.cpp. The file system is a parameter \<open>fs\<close>: the contents of
  a readable file by its path. The incremental parser is in \<open>Multipart_Stream\<close>.
\<close>

section \<open>MultipartField\<close>

record multipart_field =
  mf_name :: string
  mf_filename :: string
  mf_content_type :: string
  mf_encoding :: string
  mf_headers :: "(string \<times> string) list"
  mf_content :: string
  mf_binary :: string
  mf_temp_file :: "string option"
  mf_loaded :: bool

definition new_multipart_field :: multipart_field where
  "new_multipart_field = \<lparr>mf_name = [], mf_filename = [], mf_content_type = [], mf_encoding = [],
     mf_headers = [], mf_content = [], mf_binary = [], mf_temp_file = None, mf_loaded = False\<rparr>"

definition mf_size :: "(string \<rightharpoonup> string) \<Rightarrow> multipart_field \<Rightarrow> nat" where
  "mf_size fs f =
     (case mf_temp_file f of
        Some path \<Rightarrow> (case fs path of Some data \<Rightarrow> length data | None \<Rightarrow> 0)
      | None \<Rightarrow> length (mf_content f) + length (mf_binary f))"

definition load_content :: "(string \<rightharpoonup> string) \<Rightarrow> multipart_field \<Rightarrow> multipart_field" where
  "load_content fs f =
     (if mf_loaded f then f
      else (case mf_temp_file f of
              Some path \<Rightarrow> (case fs path of Some data \<Rightarrow> f\<lparr>mf_content := data\<rparr> | None \<Rightarrow> f)
            | None \<Rightarrow> f)\<lparr>mf_loaded := True\<rparr>)"

text \<open>\<open>content()\<close>: the text and the field with its content loaded.\<close>

definition mf_get_content :: "(string \<rightharpoonup> string) \<Rightarrow> multipart_field \<Rightarrow> string \<times> multipart_field" where
  "mf_get_content fs f = (let f = load_content fs f in (mf_content f, f))"

definition content_as_string :: "(string \<rightharpoonup> string) \<Rightarrow> multipart_field \<Rightarrow> string" where
  "content_as_string fs f =
     (case mf_temp_file f of
        Some path \<Rightarrow> (case fs path of Some data \<Rightarrow> data | None \<Rightarrow> [])
      | None \<Rightarrow> mf_content f)"

definition content_as_bytes :: "(string \<rightharpoonup> string) \<Rightarrow> multipart_field \<Rightarrow> string" where
  "content_as_bytes fs f =
     (case mf_temp_file f of
        Some path \<Rightarrow> (case fs path of Some data \<Rightarrow> data | None \<Rightarrow> [])
      | None \<Rightarrow> if mf_binary f \<noteq> [] then mf_binary f else mf_content f)"

definition mf_is_file :: "multipart_field \<Rightarrow> bool" where
  "mf_is_file f = (mf_filename f \<noteq> [])"

definition mf_is_text :: "multipart_field \<Rightarrow> bool" where
  "mf_is_text f = (mf_filename f = [])"

definition mf_is_temporary :: "multipart_field \<Rightarrow> bool" where
  "mf_is_temporary f = (mf_temp_file f \<noteq> None)"

definition mf_temp_file_path :: "multipart_field \<Rightarrow> string" where
  "mf_temp_file_path f = (case mf_temp_file f of None \<Rightarrow> [] | Some p \<Rightarrow> p)"

definition mf_header :: "multipart_field \<Rightarrow> string \<Rightarrow> string" where
  "mf_header f name = (case map_of (mf_headers f) (to_lower name) of Some v \<Rightarrow> v | None \<Rightarrow> [])"

definition mf_has_header :: "multipart_field \<Rightarrow> string \<Rightarrow> bool" where
  "mf_has_header f name = (map_of (mf_headers f) (to_lower name) \<noteq> None)"

definition mf_validation_error :: "multipart_field \<Rightarrow> string" where
  "mf_validation_error f =
     (if mf_name f = [] then ''Field name is empty''
      else if mf_is_file f \<and> mf_filename f = [] then ''File field has no filename''
      else [])"

definition mf_is_valid :: "multipart_field \<Rightarrow> bool" where
  "mf_is_valid f = (mf_name f \<noteq> [] \<and> mf_validation_error f = [])"

definition mf_add_header :: "string \<Rightarrow> string \<Rightarrow> multipart_field \<Rightarrow> multipart_field" where
  "mf_add_header name v f = f\<lparr>mf_headers := put (to_lower name) v (mf_headers f)\<rparr>"

definition mf_set_text :: "string \<Rightarrow> multipart_field \<Rightarrow> multipart_field" where
  "mf_set_text c f = f\<lparr>mf_content := c, mf_binary := []\<rparr>"

definition mf_set_bytes :: "string \<Rightarrow> multipart_field \<Rightarrow> multipart_field" where
  "mf_set_bytes c f = f\<lparr>mf_binary := c, mf_content := []\<rparr>"

definition mf_set_name :: "string \<Rightarrow> multipart_field \<Rightarrow> multipart_field" where
  "mf_set_name n f = f\<lparr>mf_name := n\<rparr>"

definition mf_set_filename :: "string \<Rightarrow> multipart_field \<Rightarrow> multipart_field" where
  "mf_set_filename n f = f\<lparr>mf_filename := n\<rparr>"

definition mf_set_content_type :: "string \<Rightarrow> multipart_field \<Rightarrow> multipart_field" where
  "mf_set_content_type ct f = f\<lparr>mf_content_type := ct\<rparr>"

definition mf_set_encoding :: "string \<Rightarrow> multipart_field \<Rightarrow> multipart_field" where
  "mf_set_encoding e f = f\<lparr>mf_encoding := e\<rparr>"

definition mf_set_temp_file :: "string \<Rightarrow> multipart_field \<Rightarrow> multipart_field" where
  "mf_set_temp_file path f = f\<lparr>mf_temp_file := Some path\<rparr>"

text \<open>\<open>cleanup_temp_file\<close>: the file is removed (a failure is ignored) and the path reset.\<close>

definition cleanup_temp_file ::
  "(string \<rightharpoonup> string) \<times> multipart_field \<Rightarrow> (string \<rightharpoonup> string) \<times> multipart_field" where
  "cleanup_temp_file = (\<lambda>(fs, f).
     case mf_temp_file f of Some p \<Rightarrow> (fs(p := None), f\<lparr>mf_temp_file := None\<rparr>) | None \<Rightarrow> (fs, f))"

text \<open>
  The content of a field is that of its file as long as it has one; cleaning up removes that
  file and no other, so that the path it had before another was set is left behind.
\<close>

lemma temp_file_content: "fs path = Some data \<Longrightarrow> content_as_string fs (mf_set_temp_file path f) = data"
  by (simp add: content_as_string_def mf_set_temp_file_def)

lemma cleanup_removes_last:
  "cleanup_temp_file (fs, mf_set_temp_file path (mf_set_temp_file old f)) = (fs(path := None), f\<lparr>mf_temp_file := None\<rparr>)"
  by (simp add: cleanup_temp_file_def mf_set_temp_file_def)

section \<open>MultipartParserImpl\<close>

definition extract_boundary :: "string \<Rightarrow> string" where
  "extract_boundary ct =
     (case find_sub ''boundary='' ct of
        None \<Rightarrow> []
      | Some p \<Rightarrow>
          let boundary_pos = p + 9;
              end_pos = (case find_first_of ct [CHR '';'', CHR '' '', CHR 0x09, CHR 0x0D, CHR 0x0A] boundary_pos of
                           Some e \<Rightarrow> e | None \<Rightarrow> length ct);
              boundary = substr ct boundary_pos (end_pos - boundary_pos)
          in if 2 \<le> length boundary \<and> hd boundary = CHR 0x22 \<and> last boundary = CHR 0x22
             then substr boundary 1 (length boundary - 2) else boundary)"

definition trim :: "string \<Rightarrow> string" where
  "trim s =
     (case find_first_not_of s [CHR '' '', CHR 0x09, CHR 0x0D, CHR 0x0A] of
        None \<Rightarrow> []
      | Some start \<Rightarrow>
          (case find_last_not_of s [CHR '' '', CHR 0x09, CHR 0x0D, CHR 0x0A] of
             None \<Rightarrow> drop start s
           | Some e \<Rightarrow> substr s start (e - start + 1)))"

text \<open>\<open>if (!line.empty() && line.back() == '\r') line.pop_back();\<close>\<close>

definition chomp_cr :: "string \<Rightarrow> string" where
  "chomp_cr line = (if line \<noteq> [] \<and> last line = CHR 0x0D then butlast line else line)"

fun parse_header_lines :: "string list \<Rightarrow> (string \<times> string) list \<Rightarrow> (string \<times> string) list" where
  "parse_header_lines [] headers = headers"
| "parse_header_lines (l # ls) headers =
     (let line = chomp_cr l
      in case find_sub '':'' line of
           None \<Rightarrow> parse_header_lines ls headers
         | Some colon_pos \<Rightarrow>
             parse_header_lines ls
               (put (to_lower (trim (take colon_pos line))) (trim (drop (colon_pos + 1) line)) headers))"

definition parse_headers :: "string \<Rightarrow> (string \<times> string) list" where
  "parse_headers header_data = parse_header_lines (getlines (CHR 0x0A) header_data) []"

definition base64_decode_string :: "string \<Rightarrow> string" where
  "base64_decode_string encoded = base64_decode encoded"

text \<open>The index loop of \<open>quoted_printable_decode\<close>, on the characters from \<open>i\<close> on.\<close>

fun quoted_printable_decode :: "string \<Rightarrow> string" where
  "quoted_printable_decode [] = []"
| "quoted_printable_decode (c # cs) =
     (if c = CHR ''='' \<and> 2 \<le> length cs then
        (if isxdigit (cs ! 0) \<and> isxdigit (cs ! 1)
         then char_of (hex_number 0 (take 2 cs)) # quoted_printable_decode (drop 2 cs)
         else c # quoted_printable_decode cs)
      else if c = CHR ''='' \<and> cs = [] then []
      else c # quoted_printable_decode cs)"

definition decode_content :: "string \<Rightarrow> string \<Rightarrow> string" where
  "decode_content content encoding =
     (let lower_encoding = to_lower encoding
      in if lower_encoding = ''quoted-printable'' then quoted_printable_decode content
         else if lower_encoding = ''base64'' then base64_decode_string content
         else content)"

definition decode_binary_content :: "string \<Rightarrow> string \<Rightarrow> string" where
  "decode_binary_content content encoding =
     (if to_lower encoding = ''base64'' then base64_decode content
      else decode_content content encoding)"

text \<open>
  The end of the headers in a part, and the length of the header text: \<open>header_end - 4\<close> in
  \<open>size_t\<close> arithmetic, also after a two-character separator.
\<close>

definition header_split :: "string \<Rightarrow> (nat \<times> nat) option" where
  "header_split s =
     (case find_sub [CHR 0x0D, CHR 0x0A, CHR 0x0D, CHR 0x0A] s of
        Some p \<Rightarrow> Some (p + 4, nat ((int (p + 4) - 4) mod 2 ^ 64))
      | None \<Rightarrow>
          (case find_sub [CHR 0x0A, CHR 0x0A] s of
             Some p \<Rightarrow> Some (p + 2, nat ((int (p + 2) - 4) mod 2 ^ 64))
           | None \<Rightarrow> None))"

text \<open>The value of a quoted parameter, \<open>name="..."\<close> being found by its opening text.\<close>

definition quoted_param :: "string \<Rightarrow> string \<Rightarrow> string option" where
  "quoted_param opening v =
     (case find_sub opening v of
        None \<Rightarrow> None
      | Some p \<Rightarrow>
          let pos = p + length opening
          in case str_find v [CHR 0x22] pos of
               None \<Rightarrow> None
             | Some e \<Rightarrow> Some (substr v pos (e - pos)))"

definition set_disposition :: "string \<Rightarrow> multipart_field \<Rightarrow> multipart_field" where
  "set_disposition disposition f =
     (let f = (case quoted_param (''name='' @ [CHR 0x22]) disposition of
                 Some n \<Rightarrow> f\<lparr>mf_name := n\<rparr> | None \<Rightarrow> f)
      in case quoted_param (''filename='' @ [CHR 0x22]) disposition of
           Some n \<Rightarrow> f\<lparr>mf_filename := n\<rparr> | None \<Rightarrow> f)"

definition parse_field :: "string \<Rightarrow> multipart_field option" where
  "parse_field field_data =
     (case header_split field_data of
        None \<Rightarrow> None
      | Some (header_end, header_len) \<Rightarrow>
          let headers = parse_headers (take header_len field_data);
              f = foldl (\<lambda>f (n, v). mf_add_header n v f) new_multipart_field headers;
              content = drop header_end field_data;
              f = (case map_of headers ''content-disposition'' of
                     Some d \<Rightarrow> set_disposition d f | None \<Rightarrow> f);
              f = (case map_of headers ''content-type'' of
                     Some v \<Rightarrow> f\<lparr>mf_content_type := v\<rparr> | None \<Rightarrow> f);
              f = (case map_of headers ''content-transfer-encoding'' of
                     Some v \<Rightarrow> f\<lparr>mf_encoding := v\<rparr> | None \<Rightarrow> f)
          in Some (if mf_encoding f \<noteq> [] then
                     (if mf_is_file f then mf_set_bytes (decode_binary_content content (mf_encoding f)) f
                      else mf_set_text (decode_content content (mf_encoding f)) f)
                   else mf_set_text content f))"

text \<open>\<open>std::filesystem::path(filename).extension()\<close>.\<close>

definition path_filename :: "string \<Rightarrow> string" where
  "path_filename p = (case rfind_char p (CHR ''/'') of Some i \<Rightarrow> drop (i + 1) p | None \<Rightarrow> p)"

definition path_extension :: "string \<Rightarrow> string" where
  "path_extension p =
     (let name = path_filename p
      in if name = ''.'' \<or> name = ''..'' then []
         else case rfind_char name (CHR ''.'') of
                None \<Rightarrow> [] | Some i \<Rightarrow> if i = 0 then [] else drop i name)"

definition is_allowed_extension :: "multipart_config \<Rightarrow> string \<Rightarrow> bool" where
  "is_allowed_extension cfg filename =
     (if mc_allowed_extensions cfg = [] then True
      else path_extension filename \<in> set (mc_allowed_extensions cfg))"

definition is_allowed_part_type :: "multipart_config \<Rightarrow> string \<Rightarrow> bool" where
  "is_allowed_part_type cfg ct =
     (if mc_allowed_content_types cfg = [] then True else ct \<in> set (mc_allowed_content_types cfg))"

text \<open>The sixteen random digits are a parameter.\<close>

definition generate_temp_filename :: "multipart_config \<Rightarrow> nat list \<Rightarrow> string" where
  "generate_temp_filename cfg digits =
     mc_temp_directory cfg @ ''/foxhttp_upload_'' @ map (\<lambda>d. ''0123456789abcdef'' ! d) digits"

section \<open>MultipartParser\<close>

definition multipart_supports :: "http_request \<Rightarrow> bool" where
  "multipart_supports req = prefix ''multipart/form-data'' (rq_at req ''Content-Type'')"

text \<open>\<open>parse_with_boundary\<close> is a stub in the sources: it returns no field.\<close>

definition parse_with_boundary :: "string \<Rightarrow> string \<Rightarrow> multipart_field list" where
  "parse_with_boundary body boundary = []"

definition multipart_parse :: "http_request \<Rightarrow> multipart_field list throws" where
  "multipart_parse req =
     (let boundary = extract_boundary (rq_at req ''Content-Type'')
      in Inr (parse_with_boundary (rq_body req) boundary))"

definition validate_multipart_field :: "(string \<rightharpoonup> string) \<Rightarrow> multipart_config \<Rightarrow> multipart_field \<Rightarrow> bool" where
  "validate_multipart_field fs cfg f =
     (if \<not> mf_is_valid f then False
      else if mc_max_file_size cfg < mf_size fs f then False
      else True)"

definition validate_all_multipart :: "multipart_config \<Rightarrow> multipart_field list \<Rightarrow> string list" where
  "validate_all_multipart cfg data =
     (if mc_max_field_size cfg < length data then [''Too many fields''] else [])"

section \<open>Lemmas\<close>

lemma to_lower_idem [simp]: "to_lower (to_lower s) = to_lower s"
  by (auto simp: to_lower_def tolower_char_def isupper_def)

lemma trim_trimmed:
  assumes "v \<noteq> [] \<Longrightarrow> hd v \<notin> {CHR '' '', CHR 0x09, CHR 0x0D, CHR 0x0A} \<and>
      last v \<notin> {CHR '' '', CHR 0x09, CHR 0x0D, CHR 0x0A}"
  shows "trim v = v" "trim (CHR '' '' # v) = v"
proof -
  let ?ws = "[CHR '' '', CHR 0x09, CHR 0x0D, CHR 0x0A]"
  have first: "find_first_not_of v ?ws = Some 0" "find_first_not_of (CHR '' '' # v) ?ws = Some 1"
    if "v \<noteq> []"
    using assms [OF that] that by (cases v; simp add: find_first_not_of_def)+
  have last: "find_last_not_of v ?ws = Some (length v - 1)" "find_last_not_of (CHR '' '' # v) ?ws = Some (length v)"
    if "v \<noteq> []"
    using assms [OF that] that by (cases v rule: rev_cases; simp add: find_last_not_of_def)+
  show "trim v = v"
    by (cases "v = []") (simp_all add: trim_def first last substr_def, simp add: find_first_not_of_def)
  show "trim (CHR '' '' # v) = v"
    by (cases "v = []") (simp_all add: trim_def first last substr_def, simp add: find_first_not_of_def)
qed

text \<open>Lines joined by CRLF, as header blocks are written.\<close>

fun crlf_join :: "string list \<Rightarrow> string" where
  "crlf_join [] = []"
| "crlf_join [l] = l"
| "crlf_join (l # m # ls) = l @ CHR 0x0D # CHR 0x0A # crlf_join (m # ls)"

definition clean_line :: "string \<Rightarrow> bool" where
  "clean_line l = (l \<noteq> [] \<and> CHR 0x0D \<notin> set l \<and> CHR 0x0A \<notin> set l)"

lemma chomp_cr_simps:
  "chomp_cr (l @ [CHR 0x0D]) = l" "CHR 0x0D \<notin> set l \<Longrightarrow> chomp_cr l = l"
  by (auto simp: chomp_cr_def dest: last_in_set)

lemma parse_header_lines_join:
  "\<forall>l\<in>set ls. clean_line l \<Longrightarrow>
   parse_header_lines (getlines (CHR 0x0A) (crlf_join ls)) m = parse_header_lines ls m"
proof (induction ls arbitrary: m rule: crlf_join.induct)
  case (2 l)
  then show ?case by (simp add: clean_line_def getlines_single)
next
  case (3 l k ls)
  then have "getlines (CHR 0x0A) (crlf_join (l # k # ls)) =
      (l @ [CHR 0x0D]) # getlines (CHR 0x0A) (crlf_join (k # ls))"
    using getlines_append [of "CHR 0x0A" "l @ [CHR 0x0D]"] by (simp add: clean_line_def)
  moreover have "chomp_cr (l @ [CHR 0x0D]) = chomp_cr l"
    using 3 by (simp add: chomp_cr_simps clean_line_def)
  ultimately show ?case
    using 3 by (simp only: parse_header_lines.simps Let_def) (simp split: option.splits)
qed simp

lemma find_header_end:
  "\<forall>l\<in>set ls. clean_line l \<Longrightarrow> ls \<noteq> [] \<Longrightarrow>
   find_sub [CHR 0x0D, CHR 0x0A, CHR 0x0D, CHR 0x0A]
     (crlf_join ls @ [CHR 0x0D, CHR 0x0A, CHR 0x0D, CHR 0x0A] @ c) = Some (length (crlf_join ls))"
proof (induction ls rule: crlf_join.induct)
  case (2 l)
  have "\<not> prefix [CHR 0x0D, CHR 0x0A, CHR 0x0D, CHR 0x0A] (drop j l @ y)" if "j < length l" for j y
    using 2 that by (auto simp: clean_line_def Cons_nth_drop_Suc [symmetric])
  then show ?case by (subst crlf_join.simps, subst find_sub_skip) auto
next
  case (3 l k ls)
  have skip: "\<not> prefix [CHR 0x0D, CHR 0x0A, CHR 0x0D, CHR 0x0A] (drop j l @ y)" if "j < length l" for j y
    using 3 that by (auto simp: clean_line_def Cons_nth_drop_Suc [symmetric])
  obtain a w where aw: "crlf_join (k # ls) = a # w" "a \<noteq> CHR 0x0D"
    using 3 by (cases k; cases ls) (auto simp: clean_line_def)
  have "find_sub [CHR 0x0D, CHR 0x0A, CHR 0x0D, CHR 0x0A]
      (crlf_join (k # ls) @ [CHR 0x0D, CHR 0x0A, CHR 0x0D, CHR 0x0A] @ c) = Some (length (crlf_join (k # ls)))"
    using 3 by simp
  then show ?case using aw
    by (simp only: crlf_join.simps append_assoc, subst find_sub_skip) (auto simp: skip)
qed simp

lemma header_split_join:
  assumes "\<forall>l\<in>set ls. clean_line l" and "ls \<noteq> []" and "length (crlf_join ls) < 2 ^ 64"
  shows "header_split (crlf_join ls @ [CHR 0x0D, CHR 0x0A, CHR 0x0D, CHR 0x0A] @ c) =
    Some (length (crlf_join ls) + 4, length (crlf_join ls))"
  unfolding header_split_def find_header_end [OF assms(1,2)] using assms(3) by simp

definition header_line :: "string \<times> string \<Rightarrow> string" where
  "header_line = (\<lambda>(n, v). n @ '': '' @ v)"

definition wf_header :: "string \<times> string \<Rightarrow> bool" where
  "wf_header = (\<lambda>(n, v). clean_line n \<and> CHR '':'' \<notin> set n \<and> hd n \<notin> set [CHR '' '', CHR 0x09] \<and>
     last n \<notin> set [CHR '' '', CHR 0x09] \<and> CHR 0x0D \<notin> set v \<and> CHR 0x0A \<notin> set v \<and>
     (v = [] \<or> (hd v \<notin> set [CHR '' '', CHR 0x09] \<and> last v \<notin> set [CHR '' '', CHR 0x09])))"

lemma wf_header_trim:
  assumes "wf_header (n, v)"
  shows "trim n = n" "trim (CHR '' '' # v) = v"
proof -
  have ends: "hd u \<noteq> c \<and> last u \<noteq> c" if "u \<noteq> []" "c \<notin> set u" for u and c :: char
    using that by (metis hd_in_set last_in_set)
  have n: "n \<noteq> []" "CHR 0x0D \<notin> set n" "CHR 0x0A \<notin> set n"
    using assms by (auto simp: wf_header_def clean_line_def)
  then show "trim n = n"
    using assms ends [OF n(1,2)] ends [OF n(1,3)] by (intro trim_trimmed) (auto simp: wf_header_def)
  have "CHR 0x0D \<notin> set v" "CHR 0x0A \<notin> set v" using assms by (auto simp: wf_header_def)
  then show "trim (CHR '' '' # v) = v"
    using assms ends [of v] by (intro trim_trimmed) (auto simp: wf_header_def)
qed

lemma parse_header_lines_wf:
  "\<forall>h\<in>set hs. wf_header h \<Longrightarrow>
   parse_header_lines (map header_line hs) m = foldl (\<lambda>m (n, v). put (to_lower n) v m) m hs"
proof (induction hs arbitrary: m)
  case (Cons h hs)
  obtain n v where h: "h = (n, v)" by force
  with Cons.prems have wf: "wf_header (n, v)" by simp
  then have "find_sub '':'' (n @ '': '' @ v) = Some (length n)"
    using find_sub_char_append [of "CHR '':''" n] by (simp add: wf_header_def)
  moreover have "chomp_cr (n @ '': '' @ v) = n @ '': '' @ v"
    using wf by (intro chomp_cr_simps(2)) (auto simp: wf_header_def clean_line_def)
  ultimately show ?case
    using Cons h wf_header_trim [OF wf] by (simp add: header_line_def Let_def)
qed simp

lemma clean_header_line: "wf_header h \<Longrightarrow> clean_line (header_line h)"
  by (cases h) (auto simp: wf_header_def clean_line_def header_line_def)

lemma parse_headers_wf:
  "\<forall>h\<in>set hs. wf_header h \<Longrightarrow>
   parse_headers (crlf_join (map header_line hs)) = foldl (\<lambda>m (n, v). put (to_lower n) v m) [] hs"
  using parse_header_lines_join [of "map header_line hs" "[]"] parse_header_lines_wf [of hs "[]"]
  by (simp add: parse_headers_def clean_header_line)

section \<open>Rendering a part\<close>

text \<open>How a client writes a part (RFC 7578, RFC 2045 transfer encodings).\<close>

datatype part_encoding = Enc_none | Enc_base64 | Enc_qp

record part =
  pt_name :: string
  pt_filename :: string
  pt_type :: string
  pt_encoding :: part_encoding
  pt_data :: string

abbreviation dquote :: char where
  "dquote \<equiv> CHR 0x22"

definition disposition :: "string \<Rightarrow> string \<Rightarrow> string" where
  "disposition n f = ''form-data; name='' @ dquote # n @ dquote #
     (if f = [] then [] else ''; filename='' @ dquote # f @ [dquote])"

fun encoding_name :: "part_encoding \<Rightarrow> string" where
  "encoding_name Enc_none = []"
| "encoding_name Enc_base64 = ''base64''"
| "encoding_name Enc_qp = ''quoted-printable''"

fun qp_encode :: "string \<Rightarrow> string" where
  "qp_encode [] = []"
| "qp_encode (c # cs) =
     (if 33 \<le> byte c \<and> byte c \<le> 126 \<and> c \<noteq> CHR ''='' then c # qp_encode cs
      else CHR ''='' # hex_digits ! (byte c div 16) # hex_digits ! (byte c mod 16) # qp_encode cs)"

fun encode_data :: "part_encoding \<Rightarrow> string \<Rightarrow> string" where
  "encode_data Enc_none d = d"
| "encode_data Enc_base64 d = b64_encode d"
| "encode_data Enc_qp d = qp_encode d"

definition part_headers :: "part \<Rightarrow> (string \<times> string) list" where
  "part_headers p = (''Content-Disposition'', disposition (pt_name p) (pt_filename p)) #
     (if pt_type p = [] then [] else [(''Content-Type'', pt_type p)]) @
     (if pt_encoding p = Enc_none then []
      else [(''Content-Transfer-Encoding'', encoding_name (pt_encoding p))])"

definition part_header_text :: "part \<Rightarrow> string" where
  "part_header_text p = crlf_join (map header_line (part_headers p))"

definition render_part :: "part \<Rightarrow> string" where
  "render_part p = part_header_text p @ [CHR 0x0D, CHR 0x0A, CHR 0x0D, CHR 0x0A] @
     encode_data (pt_encoding p) (pt_data p)"

definition plain_param :: "string \<Rightarrow> bool" where
  "plain_param v = (set v \<inter> {dquote, CHR ''='', CHR 0x0D, CHR 0x0A} = {})"

definition wf_part :: "part \<Rightarrow> bool" where
  "wf_part p = (plain_param (pt_name p) \<and> plain_param (pt_filename p) \<and>
     (pt_type p = [] \<or> clean_line (pt_type p) \<and> hd (pt_type p) \<notin> set [CHR '' '', CHR 0x09] \<and>
        last (pt_type p) \<notin> set [CHR '' '', CHR 0x09]) \<and>
     length (part_header_text p) < 2 ^ 64)"

lemma qp_roundtrip: "quoted_printable_decode (qp_encode s) = s"
proof (induction s rule: qp_encode.induct)
  case (2 c cs)
  have "isxdigit (hex_digits ! (byte c div 16))" "isxdigit (hex_digits ! (byte c mod 16))"
    by (simp_all add: isxdigit_def hex_digits_bytes)
  moreover have "hex_number 0 [hex_digits ! (byte c div 16), hex_digits ! (byte c mod 16)] = byte c"
    by (simp add: hex_digits_bytes)
  ultimately show ?case using 2 by (auto simp: numeral_2_eq_2 simp del: hex_number.simps)
qed simp

lemma decode_encoded:
  "pt_encoding p \<noteq> Enc_none \<Longrightarrow>
   decode_content (encode_data (pt_encoding p) d) (encoding_name (pt_encoding p)) = d \<and>
   decode_binary_content (encode_data (pt_encoding p) d) (encoding_name (pt_encoding p)) = d"
proof -
  have lower: "to_lower ''base64'' = ''base64''" "to_lower ''quoted-printable'' = ''quoted-printable''"
    by (simp_all add: to_lower_def tolower_char_def isupper_def byte_def)
  show "pt_encoding p \<noteq> Enc_none \<Longrightarrow> ?thesis"
    by (cases "pt_encoding p")
       (simp_all add: decode_content_def decode_binary_content_def lower base64_decode_string_def
         multipart_b64.roundtrip qp_roundtrip)
qed

subsection \<open>Reading the disposition back\<close>

lemma quoted_param_at:
  "find_sub opening v = Some (length u) \<Longrightarrow> v = u @ opening @ x @ dquote # w \<Longrightarrow> dquote \<notin> set x \<Longrightarrow>
   quoted_param opening v = Some x"
  by (simp add: quoted_param_def str_find_def substr_def find_sub_char_append)

lemma name_param: "plain_param n \<Longrightarrow> quoted_param (''name='' @ [dquote]) (disposition n f) = Some n"
  by (rule quoted_param_at [where u = "''form-data; ''" and w = "if f = [] then [] else ''; filename='' @ dquote # f @ [dquote]"])
     (auto simp: disposition_def plain_param_def)

lemma filename_not_in_name:
  assumes "plain_param n" and "j < length n"
  shows "\<not> prefix (''filename='' @ [dquote]) (drop j n @ dquote # w)"
proof
  let ?u = "drop j n"
  assume "prefix (''filename='' @ [dquote]) (?u @ dquote # w)"
  then obtain z where z: "?u @ dquote # w = (''filename='' @ [dquote]) @ z" by (auto simp: prefix_def)
  have u: "dquote \<notin> set ?u" "CHR ''='' \<notin> set ?u" using assms(1) by (auto simp: plain_param_def dest: in_set_dropD)
  have "takeWhile (\<lambda>c. c \<noteq> dquote) (?u @ dquote # w) = ?u"
    using u(1) by (subst takeWhile_append2) auto
  then have "?u = ''filename=''" unfolding z by simp
  with u(2) show False by simp
qed

lemma filename_param:
  assumes "plain_param n" and "plain_param f"
  shows "quoted_param (''filename='' @ [dquote]) (disposition n f) = (if f = [] then None else Some f)"
proof (cases "f = []")
  case True
  have "find_sub (''filename='' @ [dquote]) (n @ [dquote]) = None"
    using assms(1) by (intro find_sub_absent_char [of "CHR ''=''"]) (auto simp: plain_param_def)
  with True show ?thesis by (simp add: quoted_param_def disposition_def)
next
  case False
  let ?rest = "dquote # ''; filename='' @ dquote # f @ [dquote]"
  have "find_sub (''filename='' @ [dquote]) (n @ ?rest) = map_option ((+) (length n)) (find_sub (''filename='' @ [dquote]) ?rest)"
    using filename_not_in_name [OF assms(1)] by (intro find_sub_skip) simp
  also have "\<dots> = Some (length n + 3)" by simp
  finally have "find_sub (''filename='' @ [dquote]) (disposition n f) = Some (length (''form-data; name='' @ dquote # n @ dquote # ''; ''))"
    using False by (simp add: disposition_def)
  then show ?thesis using False assms
    by (simp only: if_False, intro quoted_param_at [where w = "[]"])
       (auto simp: disposition_def plain_param_def)
qed

lemma wf_disposition: "plain_param n \<Longrightarrow> plain_param f \<Longrightarrow> wf_header (''Content-Disposition'', disposition n f)"
  by (auto simp: wf_header_def clean_line_def disposition_def plain_param_def)

lemma wf_encoding: "e \<noteq> Enc_none \<Longrightarrow> wf_header (''Content-Transfer-Encoding'', encoding_name e)"
  by (cases e) (simp_all add: wf_header_def clean_line_def)

lemma wf_type:
  "clean_line t \<Longrightarrow> hd t \<notin> set [CHR '' '', CHR 0x09] \<Longrightarrow> last t \<notin> set [CHR '' '', CHR 0x09] \<Longrightarrow>
   wf_header (''Content-Type'', t)"
  by (simp add: wf_header_def clean_line_def)

lemma wf_part_headers: "wf_part p \<Longrightarrow> \<forall>h\<in>set (part_headers p). wf_header h"
  unfolding part_headers_def wf_part_def by (auto intro!: wf_disposition wf_encoding wf_type)

lemma part_headers_lookup:
  fixes p
  defines "m \<equiv> foldl (\<lambda>m (n, v). put (to_lower n) v m) [] (part_headers p)"
  shows "map_of m ''content-disposition'' = Some (disposition (pt_name p) (pt_filename p))"
    "map_of m ''content-type'' = (if pt_type p = [] then None else Some (pt_type p))"
    "map_of m ''content-transfer-encoding'' =
       (if pt_encoding p = Enc_none then None else Some (encoding_name (pt_encoding p)))"
proof -
  have lower: "to_lower ''Content-Disposition'' = ''content-disposition''"
    "to_lower ''Content-Type'' = ''content-type''"
    "to_lower ''Content-Transfer-Encoding'' = ''content-transfer-encoding''"
    by code_simp+
  show "map_of m ''content-disposition'' = Some (disposition (pt_name p) (pt_filename p))"
    "map_of m ''content-type'' = (if pt_type p = [] then None else Some (pt_type p))"
    "map_of m ''content-transfer-encoding'' =
       (if pt_encoding p = Enc_none then None else Some (encoding_name (pt_encoding p)))"
    by (simp_all add: m_def part_headers_def lower)
qed

lemma add_headers_sels:
  "mf_name (foldl (\<lambda>f (n, v). mf_add_header n v f) f hs) = mf_name f"
  "mf_filename (foldl (\<lambda>f (n, v). mf_add_header n v f) f hs) = mf_filename f"
  "mf_content_type (foldl (\<lambda>f (n, v). mf_add_header n v f) f hs) = mf_content_type f"
  "mf_encoding (foldl (\<lambda>f (n, v). mf_add_header n v f) f hs) = mf_encoding f"
  "mf_temp_file (foldl (\<lambda>f (n, v). mf_add_header n v f) f hs) = mf_temp_file f"
  by (induction hs arbitrary: f) (auto simp: mf_add_header_def)

lemma parse_field_render:
  assumes "wf_part p"
  shows "\<exists>f. parse_field (render_part p) = Some f \<and> mf_name f = pt_name p \<and>
    mf_filename f = pt_filename p \<and> mf_content_type f = pt_type p \<and>
    mf_encoding f = encoding_name (pt_encoding p) \<and> content_as_bytes fs f = pt_data p"
proof -
  let ?hs = "part_headers p" and ?t = "part_header_text p"
  let ?m = "foldl (\<lambda>m (n, v). put (to_lower n) v m) [] ?hs"
  have wf: "\<forall>h\<in>set ?hs. wf_header h" by (rule wf_part_headers [OF assms])
  have split: "header_split (render_part p) = Some (length ?t + 4, length ?t)"
    unfolding render_part_def part_header_text_def using assms wf
    by (intro header_split_join)
       (auto simp: clean_header_line part_headers_def wf_part_def part_header_text_def)
  have hdrs: "parse_headers (take (length ?t) (render_part p)) = ?m"
    using parse_headers_wf [OF wf] by (simp add: render_part_def part_header_text_def)
  have data: "drop (length ?t + 4) (render_part p) = encode_data (pt_encoding p) (pt_data p)"
    by (simp add: render_part_def)
  have params: "plain_param (pt_name p)" "plain_param (pt_filename p)" using assms by (simp_all add: wf_part_def)
  define f0 where "f0 = foldl (\<lambda>f (n, v). mf_add_header n v f) new_multipart_field ?m"
  define f where "f = f0\<lparr>mf_name := pt_name p, mf_filename := pt_filename p, mf_content_type := pt_type p,
    mf_encoding := encoding_name (pt_encoding p)\<rparr>"
  have f0: "mf_filename f0 = []" "mf_content_type f0 = []" "mf_encoding f0 = []" "mf_temp_file f0 = None"
    by (simp_all add: f0_def add_headers_sels) (simp_all add: new_multipart_field_def)
  have named: "set_disposition (disposition (pt_name p) (pt_filename p)) f0 =
      f0\<lparr>mf_name := pt_name p, mf_filename := pt_filename p\<rparr>"
    unfolding set_disposition_def name_param [OF params(1)] filename_param [OF params] Let_def
    using f0(1) by (cases f0) simp
  let ?c = "encode_data (pt_encoding p) (pt_data p)" and ?e = "encoding_name (pt_encoding p)"
  have "parse_field (render_part p) =
      Some (if ?e \<noteq> [] then if mf_is_file f then mf_set_bytes (decode_binary_content ?c ?e) f
                           else mf_set_text (decode_content ?c ?e) f
            else mf_set_text ?c f)"
    unfolding parse_field_def split option.case prod.case hdrs data part_headers_lookup Let_def
      f0_def [symmetric] named
    using f0 by (simp add: f_def mf_is_file_def mf_set_bytes_def mf_set_text_def)
  then show ?thesis
    using f0(4) decode_encoded [of p "pt_data p"]
    by (cases "pt_encoding p") (simp_all add: f_def mf_set_bytes_def mf_set_text_def content_as_bytes_def)
qed

section \<open>Properties\<close>



text \<open>
  With bare line feeds the two last characters of the header text are lost, and
  \<open>MultipartParser::parse\<close> returns no field for any request.
\<close>

lemma bare_lf_part_loses_name:
  "map_option mf_name (parse_field (''Content-Disposition: form-data; name='' @ [dquote, CHR ''a'', dquote, CHR 0x0A, CHR 0x0A] @ ''x'')) = Some []"
  by code_simp

lemma multipart_parse_returns_nothing: "multipart_parse req = Inr []"
  by (simp add: multipart_parse_def parse_with_boundary_def Let_def)

end
