(* ===== verification/Request_Context.thy ===== *)
theory Request_Context
  imports Form_Parser Multipart_Parser Json_Value
begin

text \<open>
  \<open>RequestContext\<close> of src/server/request_context.cpp and its header: what a handler and the
  middlewares read of the request (path, query, cookies) and the values they leave for
  each other. The two \<open>shared_mutex\<close>es make each operation atomic.
\<close>

section \<open>State\<close>

record auth_user =
  au_id :: string
  au_roles :: "string list"

text \<open>
  \<open>std::any\<close> values: one constructor per type that the library stores, so that
  \<open>std::any_cast\<close> to a type is a partial projection.
\<close>

datatype any_value =
    Any_string string
  | Any_user auth_user
  | Any_form form_data
  | Any_multipart "multipart_field list"
  | Any_json json
  | Any_time int

fun any_string :: "any_value \<Rightarrow> string option" where
  "any_string (Any_string s) = Some s"
| "any_string _ = None"

fun any_user :: "any_value \<Rightarrow> auth_user option" where
  "any_user (Any_user u) = Some u"
| "any_user _ = None"

fun any_form :: "any_value \<Rightarrow> form_data option" where
  "any_form (Any_form d) = Some d"
| "any_form _ = None"

fun any_json :: "any_value \<Rightarrow> json option" where
  "any_json (Any_json j) = Some j"
| "any_json _ = None"

record request_context =
  rc_req :: http_request
  rc_path_params :: "(string \<times> string) list"
  rc_query_params :: "(string \<times> string list) list"
  rc_cookies :: "(string \<times> string) list"
  rc_items :: "(string \<times> any_value) list"
  rc_parsed_body :: "(string \<times> any_value) list"

section \<open>Query string and cookies\<close>

definition push_value :: "string \<Rightarrow> string \<Rightarrow> (string \<times> string list) list \<Rightarrow> (string \<times> string list) list" where
  "push_value k v m = put k ((case map_of m k of Some vs \<Rightarrow> vs | None \<Rightarrow> []) @ [v]) m"

definition parse_query_pair :: "(string \<times> string list) list \<Rightarrow> string \<Rightarrow> (string \<times> string list) list" where
  "parse_query_pair m pair =
     (if pair = [] then m
      else let (key, v) = (case find_sub ''='' pair of
                             Some pos \<Rightarrow> (ctx_url_decode (take pos pair), ctx_url_decode (drop (pos + 1) pair))
                           | None \<Rightarrow> (ctx_url_decode pair, []))
           in foldl (\<lambda>m v. if v \<noteq> [] then push_value key v m else m) m (getlines (CHR '','') v))"

definition parse_query :: "string \<Rightarrow> (string \<times> string list) list" where
  "parse_query query = foldl parse_query_pair [] (getlines (CHR ''&'') query)"

definition parse_cookie_pair :: "(string \<times> string) list \<Rightarrow> string \<Rightarrow> (string \<times> string) list" where
  "parse_cookie_pair m pair =
     (case find_sub ''='' pair of
        None \<Rightarrow> m
      | Some pos \<Rightarrow> put (erase_both [CHR '' '', CHR 0x09] (take pos pair))
                       (erase_both [CHR '' '', CHR 0x09] (drop (pos + 1) pair)) m)"

definition parse_cookies :: "http_request \<Rightarrow> (string \<times> string) list" where
  "parse_cookies req =
     (case rq_find req ''Cookie'' of
        None \<Rightarrow> []
      | Some v \<Rightarrow> foldl parse_cookie_pair [] (getlines (CHR '';'') v))"

section \<open>Operations\<close>

definition new_request_context :: "http_request \<Rightarrow> request_context" where
  "new_request_context req =
     \<lparr>rc_req = req, rc_path_params = [],
      rc_query_params = (case find_sub ''?'' (rq_target req) of
                           Some pos \<Rightarrow> parse_query (drop (pos + 1) (rq_target req)) | None \<Rightarrow> []),
      rc_cookies = parse_cookies req, rc_items = [], rc_parsed_body = []\<rparr>"

definition ctx_method :: "request_context \<Rightarrow> verb" where
  "ctx_method ctx = rq_method (rc_req ctx)"

definition ctx_method_string :: "request_context \<Rightarrow> string" where
  "ctx_method_string ctx = rq_method_string (rc_req ctx)"

definition ctx_path :: "request_context \<Rightarrow> string" where
  "ctx_path ctx =
     (let target = rq_target (rc_req ctx)
      in case find_sub ''?'' target of Some pos \<Rightarrow> take pos target | None \<Rightarrow> target)"

definition ctx_query :: "request_context \<Rightarrow> string" where
  "ctx_query ctx =
     (let target = rq_target (rc_req ctx)
      in case find_sub ''?'' target of Some pos \<Rightarrow> drop (pos + 1) target | None \<Rightarrow> [])"

definition ctx_body :: "request_context \<Rightarrow> string" where
  "ctx_body ctx = rq_body (rc_req ctx)"

definition ctx_header :: "request_context \<Rightarrow> string \<Rightarrow> string \<Rightarrow> string" where
  "ctx_header ctx key default_value =
     (case rq_find (rc_req ctx) key of Some v \<Rightarrow> v | None \<Rightarrow> default_value)"

definition set_path_parameters :: "(string \<times> string) list \<Rightarrow> request_context \<Rightarrow> request_context" where
  "set_path_parameters params ctx = ctx\<lparr>rc_path_params := params\<rparr>"

definition contains_path_parameter :: "request_context \<Rightarrow> string \<Rightarrow> bool" where
  "contains_path_parameter ctx key = (map_of (rc_path_params ctx) key \<noteq> None)"

definition path_parameter :: "request_context \<Rightarrow> string \<Rightarrow> string" where
  "path_parameter ctx key = (case map_of (rc_path_params ctx) key of Some v \<Rightarrow> v | None \<Rightarrow> [])"

definition ctx_cookie :: "request_context \<Rightarrow> string \<Rightarrow> string" where
  "ctx_cookie ctx key = (case map_of (rc_cookies ctx) key of Some v \<Rightarrow> v | None \<Rightarrow> [])"

definition ctx_has :: "request_context \<Rightarrow> string \<Rightarrow> bool" where
  "ctx_has ctx key = (map_of (rc_items ctx) key \<noteq> None)"

definition ctx_set :: "string \<Rightarrow> any_value \<Rightarrow> request_context \<Rightarrow> request_context" where
  "ctx_set key v ctx = ctx\<lparr>rc_items := put key v (rc_items ctx)\<rparr>"

text \<open>\<open>get<T>(key, default)\<close>, the cast to \<open>T\<close> being given as a projection.\<close>

definition ctx_get :: "(any_value \<Rightarrow> 'a option) \<Rightarrow> request_context \<Rightarrow> string \<Rightarrow> 'a \<Rightarrow> 'a" where
  "ctx_get cast ctx key default_value =
     (case map_of (rc_items ctx) key of
        Some v \<Rightarrow> (case cast v of Some x \<Rightarrow> x | None \<Rightarrow> default_value)
      | None \<Rightarrow> default_value)"

text \<open>The key of the parsed-body cache is the \<open>type_index\<close>, here the name of the type.\<close>

definition set_parsed_body :: "string \<Rightarrow> any_value \<Rightarrow> request_context \<Rightarrow> request_context" where
  "set_parsed_body ty v ctx = ctx\<lparr>rc_parsed_body := put ty v (rc_parsed_body ctx)\<rparr>"

definition parsed_body :: "(any_value \<Rightarrow> 'a option) \<Rightarrow> string \<Rightarrow> request_context \<Rightarrow> 'a throws" where
  "parsed_body cast ty ctx =
     (case map_of (rc_parsed_body ctx) ty of
        Some v \<Rightarrow> (case cast v of Some x \<Rightarrow> Inr x | None \<Rightarrow> Inl (Runtime_error ''parsed_body type mismatch''))
      | None \<Rightarrow> Inl (Runtime_error ''parsed_body not found''))"

section \<open>Lemmas\<close>

text \<open>The values under a key, none when the key is absent.\<close>

definition vals :: "(string \<times> string list) list \<Rightarrow> string \<Rightarrow> string list" where
  "vals m k = (case map_of m k of Some vs \<Rightarrow> vs | None \<Rightarrow> [])"

lemma vals_push [simp]: "vals (push_value k v m) k' = (if k' = k then vals m k @ [v] else vals m k')"
  by (simp add: vals_def push_value_def)

lemma vals_foldl_push:
  "vals (foldl (\<lambda>m v. if v \<noteq> [] then push_value k v m else m) m vs) k' =
     vals m k' @ (if k' = k then filter (\<lambda>v. v \<noteq> []) vs else [])"
  by (induction vs arbitrary: m) auto

lemma parse_query_pair_encoded:
  "vals (parse_query_pair m (form_url_encode k @ CHR ''='' # form_url_encode v)) k' =
     vals m k' @ (if k' = k then filter (\<lambda>v. v \<noteq> []) (getlines (CHR '','') v) else [])"
proof -
  have "CHR ''='' \<notin> set (form_url_encode k)" by (rule encode_avoids_reserved) (simp add: url_reserved_def)
  then have "find_sub ''='' (form_url_encode k @ CHR ''='' # form_url_encode v) = Some (length (form_url_encode k))"
    by (rule find_sub_char_append)
  then show ?thesis
    by (simp add: parse_query_pair_def ctx_codec.dec_enc vals_foldl_push)
qed

lemma vals_foldl_pairs:
  "vals (foldl parse_query_pair m (map (\<lambda>(k, v). form_url_encode k @ CHR ''='' # form_url_encode v) kvs)) k' =
     vals m k' @ concat (map (\<lambda>(k, v). filter (\<lambda>v. v \<noteq> []) (getlines (CHR '','') v)) (filter (\<lambda>(k, v). k = k') kvs))"
  by (induction kvs arbitrary: m) (auto simp: parse_query_pair_encoded)

lemma parse_query_encoded:
  "vals (parse_query (join_with (CHR ''&'') (map (\<lambda>(k, v). form_url_encode k @ CHR ''='' # form_url_encode v) kvs))) k' =
     concat (map (\<lambda>(k, v). filter (\<lambda>v. v \<noteq> []) (getlines (CHR '','') v)) (filter (\<lambda>(k, v). k = k') kvs))"
proof -
  let ?pairs = "map (\<lambda>(k, v). form_url_encode k @ CHR ''='' # form_url_encode v) kvs"
  have "getlines (CHR ''&'') (join_with (CHR ''&'') ?pairs) = ?pairs"
    by (rule ctx_codec.pairs_split) (simp_all add: url_reserved_def)
  then show ?thesis using vals_foldl_pairs [of "[]" kvs k'] by (simp add: parse_query_def vals_def)
qed

text \<open>The context of a plain request (for concrete instances).\<close>

definition sample_ctx :: request_context where
  "sample_ctx = new_request_context (make_request Verb_get ''/'' [] [])"

section \<open>Properties\<close>

text \<open>
  A request whose target is a path followed by an encoded query: the path is read back,
  and the values under a parameter name are exactly the non-empty comma-separated pieces
  of the values given for it, in order.
\<close>

theorem query_roundtrip:
  assumes "CHR ''?'' \<notin> set p"
    and "rq_target req = p @ CHR ''?'' # join_with (CHR ''&'')
           (map (\<lambda>(k, v). form_url_encode k @ CHR ''='' # form_url_encode v) kvs)"
  shows "ctx_path (new_request_context req) = p \<and>
    vals (rc_query_params (new_request_context req)) k =
      concat (map (\<lambda>(n, v). filter (\<lambda>v. v \<noteq> []) (getlines (CHR '','') v)) (filter (\<lambda>(n, v). n = k) kvs))"
proof -
  have "find_sub ''?'' (rq_target req) = Some (length p)"
    unfolding assms(2) using assms(1) by (rule find_sub_char_append)
  then show ?thesis
    using parse_query_encoded [of kvs k] by (simp add: ctx_path_def new_request_context_def assms(2))
qed

theorem query_roundtrip_witness:
  "let req = make_request Verb_get (''/s'' @ CHR ''?'' # join_with (CHR ''&'')
           (map (\<lambda>(k, v). form_url_encode k @ CHR ''='' # form_url_encode v) [(''q'', ''a b''), (''t'', ''x,,y'')])) [] []
   in ctx_path (new_request_context req) = ''/s'' \<and>
      vals (rc_query_params (new_request_context req)) ''t'' = [''x'', ''y'']"
proof -
  let ?kvs = "[(''q'', ''a b''), (''t'', ''x,,y'')]"
  let ?req = "make_request Verb_get (''/s'' @ CHR ''?'' # join_with (CHR ''&'')
           (map (\<lambda>(k, v). form_url_encode k @ CHR ''='' # form_url_encode v) ?kvs)) [] []"
  have "concat (map (\<lambda>(n, v). filter (\<lambda>v. v \<noteq> []) (getlines (CHR '','') v)) (filter (\<lambda>(n, v). n = ''t'') ?kvs)) = [''x'', ''y'']"
    by code_simp
  with query_roundtrip [of "''/s''" ?req ?kvs "''t''"] show ?thesis by (simp add: Let_def)
qed

text \<open>
  The stores of the context: a value is read back at its own type and gives the default
  (for \<open>get\<close>) or an exception (for \<open>parsed_body\<close>) at another; other keys are untouched; a
  body that was never stored raises.
\<close>

theorem context_store_laws:
  "ctx_get cast (ctx_set k v ctx) k' d =
     (if k' = k then (case cast v of Some x \<Rightarrow> x | None \<Rightarrow> d) else ctx_get cast ctx k' d) \<and>
   ctx_has (ctx_set k v ctx) k' = (k' = k \<or> ctx_has ctx k') \<and>
   parsed_body cast ty (set_parsed_body ty' v ctx) =
     (if ty = ty' then (case cast v of Some x \<Rightarrow> Inr x | None \<Rightarrow> Inl (Runtime_error ''parsed_body type mismatch''))
      else parsed_body cast ty ctx) \<and>
   parsed_body cast ty (new_request_context req) = Inl (Runtime_error ''parsed_body not found'')"
  by (simp add: ctx_get_def ctx_set_def ctx_has_def parsed_body_def set_parsed_body_def new_request_context_def)

end
