(* ===== verification/Route.thy ===== *)
theory Route
  imports Request_Context
begin

text \<open>
  src/router/route.cpp: static and dynamic routes and \<open>RouteBuilder\<close>, which turns a pattern
  such as \<open>/users/{id}\<close> into an ECMAScript regular expression. The fragment of
  \<open>std::regex\<close> that the builder emits (anchors, escaped and plain characters, the group
  \<open>([^/]+)\<close>) is modelled by a compiler to items and a greedy backtracking matcher; the
  theorems show that the builder stays in the fragment and that the match is exactly
  instantiation of the pattern.
\<close>

section \<open>Regular expressions\<close>

datatype re_item = Re_char char | Re_segment

text \<open>The characters that stand for themselves only when escaped.\<close>

definition special :: string where
  "special = ''.^$|()[]{}*+?'' @ [CHR 0x5C]"

abbreviation backslash :: char where
  "backslash \<equiv> CHR 0x5C"

text \<open>\<open>std::regex\<close> on the fragment; \<open>None\<close> outside it.\<close>

function re_items :: "string \<Rightarrow> re_item list option" where
  "re_items s =
     (if s = [] then None
      else if s = ''$'' then Some []
      else if prefix ''([^/]+)'' s then map_option (Cons Re_segment) (re_items (drop 7 s))
      else if hd s = backslash then
        (if tl s \<noteq> [] \<and> hd (tl s) \<in> set special
         then map_option (Cons (Re_char (hd (tl s)))) (re_items (drop 2 s)) else None)
      else if hd s \<in> set special then None
      else map_option (Cons (Re_char (hd s))) (re_items (tl s)))"
  by pat_completeness (simp_all only:)
termination by (relation "measure length") simp_all

declare re_items.simps [simp del]

definition regex_compile :: "string \<Rightarrow> re_item list option" where
  "regex_compile s = (case s of c # cs \<Rightarrow> if c = CHR ''^'' then re_items cs else None | [] \<Rightarrow> None)"

text \<open>
  \<open>std::regex_match\<close>: the whole string, the group taking as many characters as it can and
  giving them back one by one. The result holds the captures.
\<close>

fun seg_try :: "(string \<Rightarrow> string list option) \<Rightarrow> string \<Rightarrow> nat \<Rightarrow> string list option" where
  "seg_try rest s 0 = None"
| "seg_try rest s (Suc n) =
     (case rest (drop (Suc n) s) of
        Some caps \<Rightarrow> Some (take (Suc n) s # caps)
      | None \<Rightarrow> seg_try rest s n)"

primrec regex_match :: "re_item list \<Rightarrow> string \<Rightarrow> string list option" where
  "regex_match [] s = (if s = [] then Some [] else None)"
| "regex_match (i # is) s =
     (case i of
        Re_char c \<Rightarrow> (case s of x # xs \<Rightarrow> if x = c then regex_match is xs else None | [] \<Rightarrow> None)
      | Re_segment \<Rightarrow> seg_try (regex_match is) s (length (takeWhile (\<lambda>x. x \<noteq> CHR ''/'') s)))"

section \<open>RouteBuilder\<close>

fun regex_escape :: "string \<Rightarrow> string" where
  "regex_escape [] = []"
| "regex_escape (c # cs) =
     (if find_sub [c] special \<noteq> None then backslash # c # regex_escape cs else c # regex_escape cs)"

function parse_pattern_loop :: "string \<Rightarrow> nat \<Rightarrow> string \<Rightarrow> string list \<Rightarrow> (string \<times> string list) throws" where
  "parse_pattern_loop pattern start regex_pattern param_names =
     (case str_find pattern ''{'' start of
        None \<Rightarrow> Inr (regex_pattern @ regex_escape (drop start pattern), param_names)
      | Some pos \<Rightarrow>
          (case str_find pattern ''}'' pos of
             None \<Rightarrow> Inl (Invalid_argument (''Unclosed parameter in pattern: '' @ pattern))
           | Some e \<Rightarrow>
               let param_name = substr pattern (pos + 1) (e - pos - 1)
               in if param_name = []
                  then Inl (Invalid_argument (''Empty parameter name in pattern: '' @ pattern))
                  else parse_pattern_loop pattern (e + 1)
                         (regex_pattern @ regex_escape (substr pattern start (pos - start)) @ ''([^/]+)'')
                         (param_names @ [param_name])))"
  by pat_completeness auto
termination
  by (relation "measure (\<lambda>(pattern, start, re, ns). length pattern - start)")
     (auto dest!: str_find_Some)

declare parse_pattern_loop.simps [simp del]

definition parse_pattern :: "string \<Rightarrow> (re_item list \<times> string list) throws" where
  "parse_pattern pattern =
     (case parse_pattern_loop pattern 0 [] [] of
        Inl e \<Rightarrow> Inl e
      | Inr (regex_pattern, param_names) \<Rightarrow>
          (case regex_compile (''^'' @ regex_pattern @ ''$'') of
             Some re \<Rightarrow> Inr (re, param_names)
           | None \<Rightarrow> Inl (Runtime_error ''regex_error'')))"

section \<open>Routes\<close>

record 'h static_route =
  sr_pattern :: string
  sr_handler :: 'h
  sr_method :: verb

record 'h dynamic_route =
  dr_pattern :: string
  dr_handler :: 'h
  dr_regex :: "re_item list"
  dr_param_names :: "string list"
  dr_method :: verb

definition method_matches :: "verb \<Rightarrow> verb \<Rightarrow> bool" where
  "method_matches mine m = (mine = Verb_unknown \<or> mine = m)"

definition static_match :: "'h static_route \<Rightarrow> string \<Rightarrow> 'h option" where
  "static_match r path = (if path = sr_pattern r then Some (sr_handler r) else None)"

text \<open>\<open>extract_path_params\<close>; every group of a successful match has matched.\<close>

definition extract_path_params :: "'h dynamic_route \<Rightarrow> string list \<Rightarrow> request_context \<Rightarrow> request_context" where
  "extract_path_params r caps ctx =
     (let params = foldl (\<lambda>m (n, v). put n v m) [] (zip (dr_param_names r) caps)
      in if params \<noteq> [] then set_path_parameters params ctx else ctx)"

definition dynamic_match :: "'h dynamic_route \<Rightarrow> string \<Rightarrow> request_context \<Rightarrow> 'h option \<times> request_context" where
  "dynamic_match r path ctx =
     (case regex_match (dr_regex r) path of
        Some caps \<Rightarrow> (Some (dr_handler r), extract_path_params r caps ctx)
      | None \<Rightarrow> (None, ctx))"

section \<open>Patterns as token lists\<close>

datatype token = Lit string | Param string

fun token_text :: "token \<Rightarrow> string" where
  "token_text (Lit l) = l"
| "token_text (Param n) = CHR ''{'' # n @ ''}''"

fun token_ok :: "token \<Rightarrow> bool" where
  "token_ok (Lit l) = (CHR ''{'' \<notin> set l)"
| "token_ok (Param n) = (n \<noteq> [] \<and> CHR ''}'' \<notin> set n)"

fun token_items :: "token \<Rightarrow> re_item list" where
  "token_items (Lit l) = map Re_char l"
| "token_items (Param n) = [Re_segment]"

fun token_names :: "token \<Rightarrow> string list" where
  "token_names (Lit l) = []"
| "token_names (Param n) = [n]"

definition pattern_of :: "token list \<Rightarrow> string" where
  "pattern_of ts = concat (map token_text ts)"

definition items_of :: "token list \<Rightarrow> re_item list" where
  "items_of ts = concat (map token_items ts)"

definition names_of :: "token list \<Rightarrow> string list" where
  "names_of ts = concat (map token_names ts)"

text \<open>Filling the groups of an item list with captures.\<close>

fun fill :: "re_item list \<Rightarrow> string list \<Rightarrow> string option" where
  "fill [] caps = (if caps = [] then Some [] else None)"
| "fill (Re_char c # is) caps = map_option (Cons c) (fill is caps)"
| "fill (Re_segment # is) [] = None"
| "fill (Re_segment # is) (v # caps) =
     (if v \<noteq> [] \<and> CHR ''/'' \<notin> set v then map_option ((@) v) (fill is caps) else None)"

subsection \<open>The matcher\<close>

lemma seg_try_Some:
  "seg_try f s n = Some caps \<Longrightarrow>
   \<exists>k caps'. 0 < k \<and> k \<le> n \<and> caps = take k s # caps' \<and> f (drop k s) = Some caps'"
proof (induction n)
  case (Suc n)
  show ?case
  proof (cases "f (drop (Suc n) s)")
    case None
    with Suc show ?thesis by (auto intro: le_SucI)
  next
    case (Some c)
    with Suc.prems show ?thesis by auto
  qed
qed simp

lemma seg_try_complete:
  "0 < k \<Longrightarrow> k \<le> n \<Longrightarrow> f (drop k s) \<noteq> None \<Longrightarrow> seg_try f s n \<noteq> None"
proof (induction n)
  case (Suc n)
  then show ?case by (cases "k = Suc n") (auto split: option.splits)
qed simp

lemma regex_match_sound: "regex_match is s = Some caps \<Longrightarrow> fill is caps = Some s"
proof (induction "is" arbitrary: s caps)
  case Nil
  then show ?case by (simp split: if_splits)
next
  case (Cons i "is")
  show ?case
  proof (cases i)
    case (Re_char c)
    with Cons show ?thesis by (auto split: list.splits if_splits)
  next
    case Re_segment
    let ?n = "length (takeWhile (\<lambda>x. x \<noteq> CHR ''/'') s)"
    from Cons.prems Re_segment obtain k caps' where k: "0 < k" "k \<le> ?n" "caps = take k s # caps'"
        "regex_match is (drop k s) = Some caps'"
      by (auto dest: seg_try_Some)
    have "?n \<le> length s" by (rule length_takeWhile_le)
    with k have ne: "take k s \<noteq> []" by auto
    have "CHR ''/'' \<notin> set (take k s)"
    proof -
      have "take ?n s = takeWhile (\<lambda>x. x \<noteq> CHR ''/'') s" by (rule takeWhile_eq_take [symmetric])
      moreover have "take k s = take k (take ?n s)" using k(2) by simp
      ultimately show ?thesis by (metis in_set_takeD set_takeWhileD)
    qed
    with ne k Re_segment Cons.IH [OF k(4)] show ?thesis by simp
  qed
qed

lemma takeWhile_slash_prefix:
  "CHR ''/'' \<notin> set v \<Longrightarrow> length v \<le> length (takeWhile (\<lambda>x. x \<noteq> CHR ''/'') (v @ t))"
  by (subst takeWhile_append2) auto

lemma regex_match_complete: "fill is caps = Some s \<Longrightarrow> regex_match is s \<noteq> None"
proof (induction "is" arbitrary: s caps)
  case Nil
  then show ?case by (simp split: if_splits)
next
  case (Cons i "is")
  show ?case
  proof (cases i)
    case (Re_char c)
    with Cons show ?thesis by auto
  next
    case Re_segment
    with Cons.prems obtain v caps' t where f: "v \<noteq> []" "CHR ''/'' \<notin> set v" "fill is caps' = Some t" "s = v @ t"
      by (cases caps) (auto split: if_splits)
    from Cons.IH [OF f(3)] have "regex_match is (drop (length v) s) \<noteq> None" using f(4) by simp
    then have "seg_try (regex_match is) s (length (takeWhile (\<lambda>x. x \<noteq> CHR ''/'') s)) \<noteq> None"
      using f takeWhile_slash_prefix [of v t] by (intro seg_try_complete [of "length v"]) auto
    with Re_segment show ?thesis by simp
  qed
qed

lemma regex_match_iff: "(\<exists>caps. regex_match is s = Some caps) \<longleftrightarrow> (\<exists>caps. fill is caps = Some s)"
  using regex_match_sound regex_match_complete by blast

text \<open>
  When every group ends at a slash or at the end of the pattern, the captures are
  determined by the string.
\<close>

fun separated :: "re_item list \<Rightarrow> bool" where
  "separated [] = True"
| "separated (Re_char c # is) = separated is"
| "separated (Re_segment # is) = ((is = [] \<or> hd is = Re_char (CHR ''/'')) \<and> separated is)"

lemma fill_unique: "separated is \<Longrightarrow> fill is caps = Some s \<Longrightarrow> fill is caps' = Some s \<Longrightarrow> caps = caps'"
proof (induction "is" caps arbitrary: s caps' rule: fill.induct)
  case (2 c "is" caps)
  then show ?case by auto
next
  case (4 "is" v caps)
  then obtain t where t: "v \<noteq> []" "CHR ''/'' \<notin> set v" "fill is caps = Some t" "s = v @ t"
    by (auto split: if_splits)
  from 4 obtain w cs u where u: "caps' = w # cs" "CHR ''/'' \<notin> set w" "fill is cs = Some u" "s = w @ u"
    by (cases caps') (auto split: if_splits)
  have tail: "x = [] \<or> hd x = CHR ''/''" if "fill is c = Some x" for c x
    using "4.prems"(1) that by (cases "is") (auto split: if_splits)
  have cut: "takeWhile (\<lambda>x. x \<noteq> CHR ''/'') (a @ b) = a"
    if "CHR ''/'' \<notin> set a" "b = [] \<or> hd b = CHR ''/''" for a b
    using that by (induction a) (auto simp: takeWhile_eq_Nil_iff)
  have "v = w" using cut [of v t] cut [of w u] t u tail by metis
  moreover from this have "t = u" using t(4) u(4) by simp
  moreover have "separated is" using "4.prems"(1) by simp
  ultimately have "caps = cs" using "4.IH" t u by blast
  with \<open>v = w\<close> u(1) show ?case by simp
qed (auto split: if_splits)

subsection \<open>The builder\<close>

lemma special_iff: "(find_sub [c] special \<noteq> None) = (c \<in> set special)"
  by (simp add: find_sub_char_None)

lemma re_items_escaped: "c \<in> set special \<Longrightarrow> re_items (backslash # c # r) = map_option (Cons (Re_char c)) (re_items r)"
  by (subst re_items.simps) simp

lemma re_items_plain:
  assumes "c \<notin> set special"
  shows "re_items (c # r) = map_option (Cons (Re_char c)) (re_items r)"
proof -
  have "c \<noteq> CHR ''$''" "c \<noteq> CHR ''(''" "c \<noteq> backslash" using assms by (auto simp: special_def)
  with assms show ?thesis by (subst re_items.simps) simp
qed

lemma re_items_segment: "re_items (''([^/]+)'' @ r) = map_option (Cons Re_segment) (re_items r)"
  by (subst re_items.simps) simp

lemma re_items_escape: "re_items (regex_escape l @ r) = map_option ((@) (map Re_char l)) (re_items r)"
proof (induction l)
  case Nil
  then show ?case by (cases "re_items r") simp_all
next
  case (Cons c l)
  show ?case
  proof (cases "c \<in> set special")
    case True
    with Cons show ?thesis
      by (simp only: regex_escape.simps special_iff if_True append_Cons re_items_escaped) (simp add: option.map_comp comp_def)
  next
    case False
    with Cons show ?thesis
      by (simp only: regex_escape.simps special_iff if_False append_Cons)
         (simp add: re_items_plain option.map_comp comp_def)
  qed
qed

fun token_regex :: "token \<Rightarrow> string" where
  "token_regex (Lit l) = regex_escape l"
| "token_regex (Param n) = ''([^/]+)''"

lemma re_items_tokens:
  "re_items (concat (map token_regex ts) @ r) = map_option ((@) (items_of ts)) (re_items r)"
proof (induction ts)
  case Nil
  then show ?case by (cases "re_items r") (simp_all add: items_of_def)
next
  case (Cons t ts)
  show ?case
  proof (cases t)
    case (Lit l)
    with Cons show ?thesis
      by (simp add: re_items_escape option.map_comp comp_def items_of_def)
  next
    case (Param n)
    with Cons re_items_segment [of "concat (map token_regex ts) @ r"] show ?thesis
      by (simp add: option.map_comp comp_def items_of_def)
  qed
qed

lemma re_items_end: "re_items ''$'' = Some []"
  by (subst re_items.simps) simp

lemma regex_compile_tokens: "regex_compile (''^'' @ concat (map token_regex ts) @ ''$'') = Some (items_of ts)"
  using re_items_tokens [of ts "''$''"] by (simp add: regex_compile_def re_items_end)

lemma regex_escape_append: "regex_escape (a @ b) = regex_escape a @ regex_escape b"
  by (induction a) auto

lemma parse_loop_tokens:
  "list_all token_ok ts \<Longrightarrow> CHR ''{'' \<notin> set l \<Longrightarrow>
   parse_pattern_loop (u @ l @ pattern_of ts) (length u) re ns =
     Inr (re @ regex_escape l @ concat (map token_regex ts), ns @ names_of ts)"
proof (induction ts arbitrary: u l re ns)
  case Nil
  then have "str_find (u @ l) ''{'' (length u) = None"
    by (simp add: str_find_append find_sub_char_None)
  then show ?case by (subst parse_pattern_loop.simps) (simp add: pattern_of_def names_of_def)
next
  case (Cons t ts)
  show ?case
  proof (cases t)
    case (Lit a)
    with Cons.prems Cons.IH [of "l @ a" u re ns] show ?thesis
      by (simp add: pattern_of_def names_of_def regex_escape_append)
  next
    case (Param n)
    let ?rest = "CHR ''{'' # n @ CHR ''}'' # pattern_of ts"
    let ?p = "length u + length l"
    have pat: "u @ l @ pattern_of (t # ts) = u @ l @ ?rest" using Param by (simp add: pattern_of_def)
    have n: "n \<noteq> []" "CHR ''}'' \<notin> set n" using Cons.prems Param by auto
    have open_pos: "str_find (u @ l @ ?rest) ''{'' (length u) = Some ?p"
      using Cons.prems(2) by (simp add: str_find_append find_sub_char_append)
    have close_pos: "str_find (u @ l @ ?rest) ''}'' ?p = Some (?p + Suc (length n))"
      using str_find_append [of "u @ l" ?rest "''}''"] find_sub_char_append [of "CHR ''}''" "CHR ''{'' # n"] n(2)
      by simp
    have "parse_pattern_loop (u @ l @ ?rest) (length u) re ns =
        parse_pattern_loop (u @ l @ ?rest) (?p + Suc (length n) + 1) (re @ regex_escape l @ ''([^/]+)'') (ns @ [n])"
      using n(1) by (subst parse_pattern_loop.simps) (simp add: open_pos close_pos substr_def Let_def)
    also have "\<dots> = Inr (re @ regex_escape l @ ''([^/]+)'' @ concat (map token_regex ts), ns @ n # names_of ts)"
      using Cons.IH [of "[]" "u @ l @ CHR ''{'' # n @ ''}''" "re @ regex_escape l @ ''([^/]+)''" "ns @ [n]"] Cons.prems
      by (simp add: add.assoc)
    finally show ?thesis using Param by (simp add: pattern_of_def names_of_def)
  qed
qed

lemma parse_loop_cases:
  "start \<le> length pattern \<Longrightarrow>
   (\<exists>m. parse_pattern_loop pattern start re ns = Inl (Invalid_argument m)) \<or>
   (\<exists>ts. list_all token_ok ts \<and> drop start pattern = pattern_of ts)"
proof (induction pattern start re ns rule: parse_pattern_loop.induct)
  case (1 pattern start re ns)
  show ?case
  proof (cases "str_find pattern ''{'' start")
    case None
    then have "CHR ''{'' \<notin> set (drop start pattern)"
      using "1.prems" by (auto simp: str_find_def find_sub_char_None)
    then have "list_all token_ok [Lit (drop start pattern)] \<and> drop start pattern = pattern_of [Lit (drop start pattern)]"
      by (simp add: pattern_of_def)
    then show ?thesis by blast
  next
    case (Some pos)
    then obtain i where i: "find_sub ''{'' (drop start pattern) = Some i" "pos = start + i"
      using "1.prems" by (auto simp: str_find_def)
    from find_sub_char_split [OF i(1)] have l: "CHR ''{'' \<notin> set (take i (drop start pattern))"
      "drop start pattern = take i (drop start pattern) @ drop pos pattern"
      using i(2) by (auto simp: add.commute) (metis append_take_drop_id drop_drop add.commute)
    show ?thesis
    proof (cases "str_find pattern ''}'' pos")
      case None
      with Some show ?thesis by (subst parse_pattern_loop.simps) simp
    next
      case e: (Some e)
      let ?n = "substr pattern (pos + 1) (e - pos - 1)"
      show ?thesis
      proof (cases "?n = []")
        case True
        with Some e show ?thesis by (subst parse_pattern_loop.simps) (simp add: Let_def)
      next
        case False
        from e obtain j where j: "find_sub ''}'' (drop pos pattern) = Some j" "e = pos + j"
          by (auto simp: str_find_def split: if_splits)
        from str_find_Some [OF Some] have "prefix ''{'' (drop pos pattern)" by blast
        then have hd: "drop pos pattern = CHR ''{'' # drop (pos + 1) pattern"
          by (auto simp: prefix_def drop_Suc) (metis drop_Suc list.sel(3) tl_drop)
        from find_sub_char_split [OF j(1)] hd have j0: "0 < j" by (cases j) auto
        have n: "?n = take (j - 1) (drop (pos + 1) pattern)" using j by (simp add: substr_def)
        have split: "drop pos pattern = CHR ''{'' # ?n @ CHR ''}'' # drop (e + 1) pattern" "CHR ''}'' \<notin> set ?n"
          using find_sub_char_split [OF j(1)] j0 hd j(2) unfolding n
          by (cases j; auto simp: add.commute)+
        have "e + 1 \<le> length pattern" using str_find_Some [OF e] by simp
        from "1.IH" [OF Some e refl False this] show ?thesis
        proof
          assume "\<exists>m. parse_pattern_loop pattern (e + 1)
            (re @ regex_escape (substr pattern start (pos - start)) @ ''([^/]+)'') (ns @ [?n]) = Inl (Invalid_argument m)"
          with Some e False show ?thesis by (subst (1) parse_pattern_loop.simps) (simp add: Let_def)
        next
          assume "\<exists>ts. list_all token_ok ts \<and> drop (e + 1) pattern = pattern_of ts"
          then obtain ts where ts: "list_all token_ok ts" "drop (e + 1) pattern = pattern_of ts" by blast
          have "list_all token_ok (Lit (take i (drop start pattern)) # Param ?n # ts)"
            using ts l False split(2) by simp
          moreover have "drop start pattern = pattern_of (Lit (take i (drop start pattern)) # Param ?n # ts)"
            using l(2) split(1) ts(2) by (simp add: pattern_of_def)
          ultimately show ?thesis by blast
        qed
      qed
    qed
  qed
qed

lemma parse_pattern_tokens: "list_all token_ok ts \<Longrightarrow> parse_pattern (pattern_of ts) = Inr (items_of ts, names_of ts)"
  using parse_loop_tokens [of ts "[]" "[]" "[]" "[]"] regex_compile_tokens [of ts]
  by (simp add: parse_pattern_def)

lemma parse_pattern_cases:
  "(\<exists>m. parse_pattern p = Inl (Invalid_argument m)) \<or>
   (\<exists>ts. list_all token_ok ts \<and> p = pattern_of ts \<and> parse_pattern p = Inr (items_of ts, names_of ts))"
  using parse_loop_cases [of 0 p "[]" "[]"] parse_pattern_tokens by (force simp: parse_pattern_def)

lemma fill_length: "fill (items_of ts) caps = Some s \<Longrightarrow> length caps = length (names_of ts)"
proof -
  have chars: "fill (map Re_char l @ is) caps = map_option ((@) l) (fill is caps)" for l "is" caps
    by (induction l) (cases "fill is caps"; simp add: option.map_comp comp_def)+
  show "fill (items_of ts) caps = Some s \<Longrightarrow> length caps = length (names_of ts)"
  proof (induction ts arbitrary: caps s)
    case Nil
    then show ?case by (simp add: items_of_def names_of_def split: if_splits)
  next
    case (Cons t ts)
    have app: "items_of (x # ts) = token_items x @ items_of ts" "names_of (x # ts) = token_names x @ names_of ts" for x
      by (simp_all add: items_of_def names_of_def)
    show ?case
    proof (cases t)
      case (Lit l)
      with Cons.prems obtain z where "fill (items_of ts) caps = Some z" by (auto simp: app chars)
      from Cons.IH [OF this] Lit show ?thesis by (simp add: app)
    next
      case (Param n)
      with Cons.prems obtain v cs z where "caps = v # cs" "fill (items_of ts) cs = Some z"
        by (cases caps) (auto simp: app split: if_splits)
      with Cons.IH Param show ?thesis by (simp add: app)
    qed
  qed
qed

section \<open>Properties\<close>

text \<open>
  C19: \<open>RouteBuilder::parse_pattern\<close> on every pattern: it throws \<open>invalid_argument\<close>, or the
  pattern is a sequence of literal texts and named parameters, the parameter names are
  returned in order, and the compiled expression matches exactly the strings obtained by
  replacing each parameter with a non-empty text without slashes; the captures of a match
  are such a replacement.
\<close>

theorem route_pattern_semantics:
  "case parse_pattern p of
     Inl e \<Rightarrow> (\<exists>m. e = Invalid_argument m)
   | Inr (re, names) \<Rightarrow>
       (\<exists>ts. list_all token_ok ts \<and> p = pattern_of ts \<and> re = items_of ts \<and> names = names_of ts) \<and>
       (\<forall>path. case regex_match re path of
          None \<Rightarrow> (\<nexists>caps. fill re caps = Some path)
        | Some caps \<Rightarrow> fill re caps = Some path \<and> length caps = length names)"
proof -
  have sem: "case regex_match (items_of ts) path of
      None \<Rightarrow> (\<nexists>caps. fill (items_of ts) caps = Some path)
    | Some caps \<Rightarrow> fill (items_of ts) caps = Some path \<and> length caps = length (names_of ts)" for ts path
    using regex_match_iff [of "items_of ts" path] regex_match_sound [of "items_of ts" path] fill_length [of ts]
    by (auto split: option.split)
  from parse_pattern_cases [of p] show ?thesis
  proof (elim disjE exE conjE)
    fix ts
    assume "list_all token_ok ts" "p = pattern_of ts" "parse_pattern p = Inr (items_of ts, names_of ts)"
    with sem [of ts] show ?thesis by auto
  qed simp
qed

end
