(* ===== verification/Route_Table.thy ===== *)
theory Route_Table
  imports Route
begin

text \<open>
  src/router/route_table.cpp and router.cpp: registration and resolution of routes. The
  type \<open>'h\<close> stands for \<open>std::shared_ptr<ApiHandler>\<close>. \<open>std::sort\<close> is a parameter \<open>srt\<close> with
  the contract \<open>std_sort\<close>. The writers hold the table's mutex exclusively and the readers
  share it, so each operation is one step.
\<close>

section \<open>Paths\<close>

definition strip_trailing_slash :: "string \<Rightarrow> string" where
  "strip_trailing_slash s = (if 1 < length s \<and> last s = CHR ''/'' then substr s 0 (length s - 1) else s)"

definition normalize_path :: "string \<Rightarrow> string" where
  "normalize_path path =
     (if path = [] then ''/''
      else strip_trailing_slash (if hd path \<noteq> CHR ''/'' then CHR ''/'' # path else path))"

text \<open>The loops on the index \<open>i\<close>, on the characters from \<open>i\<close> on.\<close>

function count_segments :: "string \<Rightarrow> nat" where
  "count_segments path =
     (let rest = dropWhile (\<lambda>c. c = CHR ''/'') path
      in if rest = [] then 0 else 1 + count_segments (dropWhile (\<lambda>c. c \<noteq> CHR ''/'') rest))"
  by pat_completeness auto
termination
proof (relation "measure length", simp)
  fix path rest :: string
  assume r: "rest = dropWhile (\<lambda>c. c = CHR ''/'') path" "rest \<noteq> []"
  then have "hd rest \<noteq> CHR ''/''" using hd_dropWhile by blast
  then have "length (dropWhile (\<lambda>c. c \<noteq> CHR ''/'') rest) < length rest"
    using r(2) length_dropWhile_le [of _ "tl rest"] by (cases rest) (auto simp: le_imp_less_Suc)
  also have "\<dots> \<le> length path" unfolding r(1) by (rule length_dropWhile_le)
  finally show "(dropWhile (\<lambda>c. c \<noteq> CHR ''/'') rest, path) \<in> measure length" by simp
qed

declare count_segments.simps [simp del]

section \<open>RouteTable\<close>

datatype 'h route = Static_route "'h static_route" | Dynamic_route "'h dynamic_route"

record 'h route_table =
  rt_static :: "(string \<times> 'h static_route) list"
  rt_dynamic :: "'h dynamic_route list"
  rt_all :: "'h route list"

definition empty_table :: "'h route_table" where
  "empty_table = \<lparr>rt_static = [], rt_dynamic = [], rt_all = []\<rparr>"

definition add_static_route_method :: "string \<Rightarrow> verb \<Rightarrow> 'h \<Rightarrow> 'h route_table \<Rightarrow> 'h route_table" where
  "add_static_route_method path m h t =
     (let key = normalize_path path;
          route = \<lparr>sr_pattern = key, sr_handler = h, sr_method = m\<rparr>
      in t\<lparr>rt_static := put key route (rt_static t), rt_all := rt_all t @ [Static_route route]\<rparr>)"

definition add_static_route :: "string \<Rightarrow> 'h \<Rightarrow> 'h route_table \<Rightarrow> 'h route_table" where
  "add_static_route path h t = add_static_route_method path Verb_unknown h t"

definition specificity :: "'h dynamic_route \<Rightarrow> nat" where
  "specificity r =
     (let total = count_segments (dr_pattern r); params = length (dr_param_names r)
      in if params < total then total - params else 0)"

definition more_specific :: "'h dynamic_route \<Rightarrow> 'h dynamic_route \<Rightarrow> bool" where
  "more_specific a b =
     (if specificity a \<noteq> specificity b then specificity b < specificity a
      else if count_segments (dr_pattern a) \<noteq> count_segments (dr_pattern b)
      then count_segments (dr_pattern b) < count_segments (dr_pattern a)
      else str_less (dr_pattern a) (dr_pattern b))"

type_synonym 'h route_sort =
  "('h dynamic_route \<Rightarrow> 'h dynamic_route \<Rightarrow> bool) \<Rightarrow> 'h dynamic_route list \<Rightarrow> 'h dynamic_route list"

definition add_dynamic_route_method ::
  "'h route_sort \<Rightarrow> string \<Rightarrow> verb \<Rightarrow> 'h \<Rightarrow> 'h route_table \<Rightarrow> 'h route_table throws" where
  "add_dynamic_route_method srt pattern m h t =
     (case parse_pattern pattern of
        Inl e \<Rightarrow> Inl (Runtime_error (''Failed to parse dynamic route pattern '' @ [CHR 0x27] @ pattern @
                        [CHR 0x27] @ '': '' @ what e))
      | Inr (re, names) \<Rightarrow>
          let route = \<lparr>dr_pattern = pattern, dr_handler = h, dr_regex = re, dr_param_names = names, dr_method = m\<rparr>
          in Inr (t\<lparr>rt_dynamic := srt more_specific (rt_dynamic t @ [route]),
                    rt_all := rt_all t @ [Dynamic_route route]\<rparr>))"

definition add_dynamic_route :: "'h route_sort \<Rightarrow> string \<Rightarrow> 'h \<Rightarrow> 'h route_table \<Rightarrow> 'h route_table throws" where
  "add_dynamic_route srt pattern h t = add_dynamic_route_method srt pattern Verb_unknown h t"

text \<open>The loop over the dynamic routes: the first that matches the path decides.\<close>

fun resolve_dynamic ::
  "string \<Rightarrow> verb \<Rightarrow> request_context \<Rightarrow> 'h dynamic_route list \<Rightarrow> ('h option \<times> verb list) \<times> request_context" where
  "resolve_dynamic key m ctx [] = ((None, []), ctx)"
| "resolve_dynamic key m ctx (r # rs) =
     (case regex_match (dr_regex r) key of
        Some caps \<Rightarrow>
          if method_matches (dr_method r) m then ((Some (dr_handler r), []), extract_path_params r caps ctx)
          else ((None, if dr_method r \<noteq> Verb_unknown then [dr_method r] else []), ctx)
      | None \<Rightarrow> resolve_dynamic key m ctx rs)"

definition resolve_route_with_method ::
  "'h route_table \<Rightarrow> string \<Rightarrow> verb \<Rightarrow> request_context \<Rightarrow> ('h option \<times> verb list) \<times> request_context" where
  "resolve_route_with_method t path m ctx =
     (let key = normalize_path path
      in case map_of (rt_static t) key of
           Some r \<Rightarrow>
             if method_matches (sr_method r) m then ((Some (sr_handler r), []), ctx)
             else ((None, if sr_method r \<noteq> Verb_unknown then [sr_method r] else []), ctx)
         | None \<Rightarrow> resolve_dynamic key m ctx (rt_dynamic t))"

definition resolve_route :: "'h route_table \<Rightarrow> string \<Rightarrow> request_context \<Rightarrow> 'h option \<times> request_context" where
  "resolve_route t path ctx =
     (let r = resolve_route_with_method t path Verb_unknown ctx in (fst (fst r), snd r))"

definition get_all_routes :: "'h route_table \<Rightarrow> 'h route list" where
  "get_all_routes t = rt_all t"

definition static_route_count :: "'h route_table \<Rightarrow> nat" where
  "static_route_count t = length (rt_static t)"

definition dynamic_route_count :: "'h route_table \<Rightarrow> nat" where
  "dynamic_route_count t = length (rt_dynamic t)"

definition clear_routes :: "'h route_table \<Rightarrow> 'h route_table" where
  "clear_routes t = t\<lparr>rt_static := [], rt_dynamic := [], rt_all := []\<rparr>"

subsection \<open>Named instances\<close>

type_synonym 'h table_registry = "(string \<times> 'h route_table) list"

definition table_instance :: "string \<Rightarrow> 'h table_registry \<Rightarrow> 'h route_table \<times> 'h table_registry" where
  "table_instance name reg =
     (case map_of reg name of Some t \<Rightarrow> (t, reg) | None \<Rightarrow> (empty_table, put name empty_table reg))"

definition remove_instance :: "string \<Rightarrow> 'h table_registry \<Rightarrow> bool \<times> 'h table_registry" where
  "remove_instance name reg = (map_of reg name \<noteq> None, erase_key name reg)"

definition get_instance_names :: "'h table_registry \<Rightarrow> string list" where
  "get_instance_names reg = map fst reg"

section \<open>Router\<close>

text \<open>A router holds one table, its own unless one is given.\<close>

definition new_router :: "'h route_table option \<Rightarrow> 'h route_table" where
  "new_router t = (case t of Some t \<Rightarrow> t | None \<Rightarrow> empty_table)"

definition resolver_with_method ::
  "'h route_table \<Rightarrow> string \<Rightarrow> verb \<Rightarrow> request_context \<Rightarrow> ('h option \<times> verb list) \<times> request_context" where
  "resolver_with_method router path m ctx = resolve_route_with_method router path m ctx"

definition resolver :: "'h route_table \<Rightarrow> string \<Rightarrow> request_context \<Rightarrow> 'h option \<times> request_context" where
  "resolver router path ctx = resolve_route router path ctx"

text \<open>The functions of the class work on the one router of the program, here \<open>glob\<close>.\<close>

definition register_static_handler :: "string \<Rightarrow> 'h \<Rightarrow> 'h route_table \<Rightarrow> 'h route_table" where
  "register_static_handler path h glob = add_static_route path h glob"

definition register_dynamic_handler ::
  "'h route_sort \<Rightarrow> string \<Rightarrow> 'h \<Rightarrow> 'h route_table \<Rightarrow> 'h route_table throws" where
  "register_dynamic_handler srt pattern h glob = add_dynamic_route srt pattern h glob"

definition resolve_global :: "string \<Rightarrow> request_context \<Rightarrow> 'h route_table \<Rightarrow> 'h option \<times> request_context" where
  "resolve_global path ctx glob = resolver glob path ctx"

section \<open>The table as a step machine\<close>

datatype 'h route_event = Add_static string verb 'h | Add_dynamic string verb 'h | Clear_routes

text \<open>A registration that throws leaves the table as it was.\<close>

fun route_step :: "'h route_sort \<Rightarrow> 'h route_table \<Rightarrow> 'h route_event \<Rightarrow> 'h route_table" where
  "route_step srt t (Add_static p m h) = add_static_route_method p m h t"
| "route_step srt t (Add_dynamic p m h) =
     (case add_dynamic_route_method srt p m h t of Inl e \<Rightarrow> t | Inr t' \<Rightarrow> t')"
| "route_step srt t Clear_routes = clear_routes t"

fun dynamic_part :: "'h route list \<Rightarrow> 'h dynamic_route list" where
  "dynamic_part [] = []"
| "dynamic_part (Static_route r # rs) = dynamic_part rs"
| "dynamic_part (Dynamic_route r # rs) = r # dynamic_part rs"

definition table_inv :: "'h route_table \<Rightarrow> bool" where
  "table_inv t =
     ((\<forall>(k, r)\<in>set (rt_static t). sr_pattern r = k) \<and> distinct (map fst (rt_static t)) \<and>
      (\<forall>r\<in>set (rt_dynamic t). parse_pattern (dr_pattern r) = Inr (dr_regex r, dr_param_names r)) \<and>
      ordered_by more_specific (rt_dynamic t) \<and>
      mset (rt_dynamic t) = mset (dynamic_part (rt_all t)))"

lemma strict_weak_more_specific: "strict_weak more_specific"
  unfolding strict_weak_def more_specific_def
  by (auto split: if_splits intro: str_less_trans dest: str_less_total)

lemma dynamic_part_append: "dynamic_part (xs @ ys) = dynamic_part xs @ dynamic_part ys"
  by (induction xs rule: dynamic_part.induct) auto

lemma table_inv_clear: "table_inv (clear_routes t)"
  by (simp add: table_inv_def clear_routes_def ordered_by_def)

lemma put_pairs: "(k', v') \<in> set (put k v m) \<Longrightarrow> (k', v') = (k, v) \<or> (k', v') \<in> set m"
  by (induction k v m rule: put.induct) (auto split: if_splits)

text \<open>
  The table relies on \<open>std::sort\<close> only through its contract: this locale fixes the sort
  at the type of the routes, and every table reached by registrations is well formed.
\<close>

locale route_sorting = std_sort srt
  for srt :: "('h dynamic_route \<Rightarrow> 'h dynamic_route \<Rightarrow> bool) \<Rightarrow> 'h dynamic_route list \<Rightarrow> 'h dynamic_route list"
begin

lemma table_inv_static: "table_inv t \<Longrightarrow> table_inv (add_static_route_method p m h t)"
  by (auto simp: table_inv_def add_static_route_method_def Let_def dynamic_part_append dest!: put_pairs)

lemma table_inv_dynamic:
  assumes "table_inv t" and "add_dynamic_route_method srt p m h t = Inr t'"
  shows "table_inv t'"
proof -
  from assms(2) obtain re ns where pp: "parse_pattern p = Inr (re, ns)"
    and t': "t' = t\<lparr>rt_dynamic := srt more_specific (rt_dynamic t @ [\<lparr>dr_pattern = p, dr_handler = h, dr_regex = re, dr_param_names = ns, dr_method = m\<rparr>]),
        rt_all := rt_all t @ [Dynamic_route \<lparr>dr_pattern = p, dr_handler = h, dr_regex = re, dr_param_names = ns, dr_method = m\<rparr>]\<rparr>"
    by (auto simp: add_dynamic_route_method_def Let_def split: sum.splits)
  show ?thesis
    using assms(1) pp unfolding table_inv_def t'
    by (simp add: sort_set [OF strict_weak_more_specific] sort_ordered [OF strict_weak_more_specific]
        sort_perm [OF strict_weak_more_specific] dynamic_part_append)
qed

end

sublocale route_sorting \<subseteq> table: step_machine "\<lambda>t. t = empty_table" "route_step srt" table_inv
proof
  fix t :: "'h route_table" and e :: "'h route_event"
  show "t = empty_table \<Longrightarrow> table_inv t"
    by (simp add: empty_table_def table_inv_def ordered_by_def)
  show "table_inv t \<Longrightarrow> table_inv (route_step srt t e)"
    by (cases e) (auto simp: table_inv_static table_inv_clear split: sum.splits intro: table_inv_dynamic)
qed

interpretation insertion_routes: route_sorting insertion_sort
  by unfold_locales

section \<open>Resolution\<close>

definition matches_path :: "string \<Rightarrow> 'h dynamic_route \<Rightarrow> bool" where
  "matches_path key r = (\<exists>caps. fill (dr_regex r) caps = Some key)"

lemma matches_path_regex: "matches_path key r \<longleftrightarrow> regex_match (dr_regex r) key \<noteq> None"
  using regex_match_iff [of "dr_regex r" key] by (auto simp: matches_path_def)

lemma resolve_dynamic_find:
  "resolve_dynamic key m ctx rs =
     (case find (matches_path key) rs of
        None \<Rightarrow> ((None, []), ctx)
      | Some r \<Rightarrow>
          if method_matches (dr_method r) m
          then ((Some (dr_handler r), []), extract_path_params r (the (regex_match (dr_regex r) key)) ctx)
          else ((None, [dr_method r]), ctx))"
  by (induction rs) (auto simp: matches_path_regex method_matches_def split: option.splits)

lemma resolve_spec:
  assumes "table_inv t"
  shows "case map_of (rt_static t) (normalize_path path) of
      Some r \<Rightarrow> sr_pattern r = normalize_path path \<and>
        resolve_route_with_method t path m ctx =
          (if method_matches (sr_method r) m then ((Some (sr_handler r), []), ctx) else ((None, [sr_method r]), ctx))
    | None \<Rightarrow>
        (case find (matches_path (normalize_path path)) (rt_dynamic t) of
           None \<Rightarrow> resolve_route_with_method t path m ctx = ((None, []), ctx)
         | Some r \<Rightarrow>
             (\<forall>r'\<in>set (rt_dynamic t). matches_path (normalize_path path) r' \<longrightarrow> \<not> more_specific r' r) \<and>
             (\<exists>caps. fill (dr_regex r) caps = Some (normalize_path path) \<and>
                resolve_route_with_method t path m ctx =
                  (if method_matches (dr_method r) m
                   then ((Some (dr_handler r), []), extract_path_params r caps ctx)
                   else ((None, [dr_method r]), ctx))))"
proof (cases "map_of (rt_static t) (normalize_path path)")
  case (Some r)
  then have "(normalize_path path, r) \<in> set (rt_static t)" by (rule map_of_SomeD)
  with assms have "sr_pattern r = normalize_path path" by (auto simp: table_inv_def)
  with Some show ?thesis by (auto simp: resolve_route_with_method_def method_matches_def)
next
  case None
  let ?key = "normalize_path path"
  show ?thesis
  proof (cases "find (matches_path ?key) (rt_dynamic t)")
    case None
    with \<open>map_of (rt_static t) ?key = None\<close> show ?thesis
      by (simp add: resolve_route_with_method_def resolve_dynamic_find)
  next
    case (Some r)
    then have "matches_path ?key r" by (metis find_Some_iff)
    then obtain caps where caps: "regex_match (dr_regex r) ?key = Some caps" by (auto simp: matches_path_regex)
    from assms have "ordered_by more_specific (rt_dynamic t)" by (simp add: table_inv_def)
    from find_ordered [OF this strict_weak_more_specific Some]
    have "\<forall>r'\<in>set (rt_dynamic t). matches_path ?key r' \<longrightarrow> \<not> more_specific r' r" by blast
    moreover have "resolve_route_with_method t path m ctx =
        (if method_matches (dr_method r) m then ((Some (dr_handler r), []), extract_path_params r caps ctx)
         else ((None, [dr_method r]), ctx))"
      using None Some caps by (simp add: resolve_route_with_method_def resolve_dynamic_find)
    ultimately show ?thesis using None Some regex_match_sound [OF caps] by auto
  qed
qed

subsection \<open>Independence of the order of registration\<close>

definition mk_route :: "string \<times> verb \<times> 'h \<Rightarrow> 'h dynamic_route option" where
  "mk_route = (\<lambda>(p, m, h). case parse_pattern p of
     Inl e \<Rightarrow> None
   | Inr (re, ns) \<Rightarrow> Some \<lparr>dr_pattern = p, dr_handler = h, dr_regex = re, dr_param_names = ns, dr_method = m\<rparr>)"

fun as_event :: "string \<times> verb \<times> 'h \<Rightarrow> 'h route_event" where
  "as_event (p, m, h) = Add_dynamic p m h"

lemma registered_routes:
  "dynamic_part (rt_all (foldl (route_step srt) t (map as_event rs))) = dynamic_part (rt_all t) @ List.map_filter mk_route rs"
proof (induction rs arbitrary: t)
  case (Cons r rs)
  then show ?case
    by (cases r) (auto simp: add_dynamic_route_method_def mk_route_def map_filter_simps Let_def dynamic_part_append
        split: sum.splits)
qed (simp add: map_filter_simps)

lemma static_untouched: "rt_static (foldl (route_step srt) t (map as_event rs)) = rt_static t"
proof (induction rs arbitrary: t)
  case (Cons r rs)
  then show ?case
    by (cases r) (auto simp: add_dynamic_route_method_def Let_def split: sum.splits)
qed simp

lemma mset_map_filter: "mset xs = mset ys \<Longrightarrow> mset (List.map_filter f xs) = mset (List.map_filter f ys)"
  by (simp add: List.map_filter_def)

lemma more_specific_total:
  "dr_pattern a \<noteq> dr_pattern b \<Longrightarrow> more_specific a b \<or> more_specific b a"
  by (auto simp: more_specific_def dest: str_less_total)

context route_sorting
begin

lemma order_irrelevant:
  assumes "mset rs = mset rs'" and "distinct (map fst rs)"
  shows "rt_dynamic (foldl (route_step srt) empty_table (map as_event rs)) =
    rt_dynamic (foldl (route_step srt) empty_table (map as_event rs'))"
proof -
  let ?t = "foldl (route_step srt) empty_table (map as_event rs)"
  let ?t' = "foldl (route_step srt) empty_table (map as_event rs')"
  have inv: "table_inv ?t" "table_inv ?t'" by (rule table.run_from_initial, simp)+
  have ms: "mset (rt_dynamic ?t) = mset (List.map_filter mk_route rs)"
    "mset (rt_dynamic ?t') = mset (List.map_filter mk_route rs')"
    using inv by (simp_all add: table_inv_def registered_routes) (simp_all add: empty_table_def)
  have set_eq: "set (rt_dynamic ?t) = set (List.map_filter mk_route rs)"
    using ms(1) by (metis set_mset_mset)
  show ?thesis
  proof (rule ordered_by_unique [where lt = more_specific])
    show "ordered_by more_specific (rt_dynamic ?t)" "ordered_by more_specific (rt_dynamic ?t')"
      using inv by (simp_all add: table_inv_def)
    show "mset (rt_dynamic ?t) = mset (rt_dynamic ?t')"
      using ms mset_map_filter [OF assms(1)] by simp
    fix a b assume "a \<in> set (rt_dynamic ?t)" "b \<in> set (rt_dynamic ?t)" "a \<noteq> b"
    then obtain x y where xy: "x \<in> set rs" "y \<in> set rs" "mk_route x = Some a" "mk_route y = Some b"
      unfolding set_eq by (auto simp: List.map_filter_def)
    then have "x \<noteq> y" using \<open>a \<noteq> b\<close> by auto
    with assms(2) xy(1,2) have "fst x \<noteq> fst y" by (metis distinct_map inj_on_def)
    moreover have "dr_pattern a = fst x" "dr_pattern b = fst y"
      using xy(3,4) by (auto simp: mk_route_def split: prod.splits sum.splits)
    ultimately show "more_specific a b \<or> more_specific b a" by (intro more_specific_total) simp
  qed
qed

lemma reachable_inv: "table_inv (foldl (route_step srt) empty_table es)"
  by (rule table.run_from_initial) simp

end

lemma route_sorting_of_std_sort: "std_sort srt \<Longrightarrow> route_sorting srt"
  by (simp add: route_sorting_def)

subsection \<open>Reading the parameters back\<close>

lemma params_lookup:
  assumes "distinct names" and "length caps = length names" and "i < length caps"
  shows "map_of (foldl (\<lambda>m (n, v). put n v m) [] (zip names caps)) (names ! i) = Some (caps ! i)"
proof -
  have "distinct (map fst (rev (zip names caps)))" using assms by (simp flip: rev_map)
  moreover have "(names ! i, caps ! i) \<in> set (rev (zip names caps))"
    using assms by (auto simp: in_set_zip)
  ultimately have "map_of (rev (zip names caps)) (names ! i) = Some (caps ! i)" by (rule map_of_is_SomeI)
  then show ?thesis by (simp add: map_of_foldl_put)
qed

lemma path_parameters_read:
  assumes "distinct (dr_param_names r)" and "length caps = length (dr_param_names r)" and "i < length caps"
  shows "path_parameter (extract_path_params r caps ctx) (dr_param_names r ! i) = caps ! i"
proof -
  let ?m = "foldl (\<lambda>m (n, v). put n v m) [] (zip (dr_param_names r) caps)"
  have "map_of ?m (dr_param_names r ! i) = Some (caps ! i)" by (rule params_lookup [OF assms])
  moreover from this have "?m \<noteq> []" by auto
  ultimately show ?thesis
    by (simp add: extract_path_params_def path_parameter_def set_path_parameters_def Let_def)
qed

section \<open>Properties\<close>

text \<open>
  C5: resolution in any table reached by registrations (static or dynamic, some of them
  refused) and clears: a static route for the normalised path decides alone; otherwise, of
  the dynamic routes whose pattern the path instantiates, one that no other of them
  precedes in specificity decides, with a filling of its pattern as path parameters; the
  handler is returned when the method fits and the route's method (for a 405 answer)
  otherwise; with no such route the answer is empty and the context unchanged.
\<close>

theorem resolve_most_specific:
  assumes "std_sort srt"
  shows "let t = foldl (route_step srt) empty_table es; key = normalize_path path
    in case map_of (rt_static t) key of
      Some r \<Rightarrow> sr_pattern r = key \<and>
        resolve_route_with_method t path m ctx =
          (if method_matches (sr_method r) m then ((Some (sr_handler r), []), ctx) else ((None, [sr_method r]), ctx))
    | None \<Rightarrow>
        (case find (matches_path key) (rt_dynamic t) of
           None \<Rightarrow> resolve_route_with_method t path m ctx = ((None, []), ctx)
         | Some r \<Rightarrow>
             (\<forall>r'\<in>set (rt_dynamic t). matches_path key r' \<longrightarrow> \<not> more_specific r' r) \<and>
             (\<exists>caps. fill (dr_regex r) caps = Some key \<and>
                resolve_route_with_method t path m ctx =
                  (if method_matches (dr_method r) m
                   then ((Some (dr_handler r), []), extract_path_params r caps ctx)
                   else ((None, [dr_method r]), ctx))))"
  unfolding Let_def
  by (rule resolve_spec [OF route_sorting.reachable_inv [OF route_sorting_of_std_sort [OF assms]]])

theorem resolve_most_specific_witness:
  "let t = foldl (route_step insertion_sort) empty_table
       [Add_dynamic ''/u/{id}'' Verb_get (1 :: nat), Add_static ''u/me/'' Verb_get 2]
   in resolve_route_with_method t ''/u/me'' Verb_get sample_ctx = ((Some 2, []), sample_ctx)"
proof -
  let ?es = "[Add_dynamic ''/u/{id}'' Verb_get (1 :: nat), Add_static ''u/me/'' Verb_get 2]"
  have key: "normalize_path ''/u/me'' = ''/u/me''" by code_simp
  have "normalize_path ''u/me/'' = ''/u/me''" by code_simp
  then have st: "map_of (rt_static (foldl (route_step insertion_sort) empty_table ?es)) ''/u/me'' =
      Some \<lparr>sr_pattern = ''/u/me'', sr_handler = 2, sr_method = Verb_get\<rparr>"
    by (simp add: add_static_route_method_def add_dynamic_route_method_def empty_table_def Let_def split: sum.splits)
  show ?thesis
    using resolve_most_specific [OF insertion.std_sort_axioms, of ?es "''/u/me''" Verb_get sample_ctx]
    unfolding Let_def key st by (simp add: method_matches_def)
qed

text \<open>
  C40: the order in which dynamic routes with different patterns are registered does not
  matter: every request is resolved in the same way after any permutation.
\<close>

theorem registration_order_irrelevant:
  assumes "std_sort srt" and "mset rs = mset rs'" and "distinct (map fst rs)"
  shows "resolve_route_with_method (foldl (route_step srt) empty_table (map as_event rs)) path m ctx =
    resolve_route_with_method (foldl (route_step srt) empty_table (map as_event rs')) path m ctx"
  using route_sorting.order_irrelevant [OF route_sorting_of_std_sort [OF assms(1)] assms(2,3)]
  by (simp add: resolve_route_with_method_def static_untouched Let_def split: option.split)

theorem registration_order_irrelevant_witness:
  "resolve_route_with_method (foldl (route_step insertion_sort) empty_table
      (map as_event [(''/a/{x}'', Verb_get, 1 :: nat), (''/{y}/b'', Verb_get, 2)])) ''/a/b'' Verb_get sample_ctx =
   resolve_route_with_method (foldl (route_step insertion_sort) empty_table
      (map as_event [(''/{y}/b'', Verb_get, 2), (''/a/{x}'', Verb_get, 1)])) ''/a/b'' Verb_get sample_ctx"
  by (rule registration_order_irrelevant [OF insertion.std_sort_axioms]) simp_all

text \<open>
  C30: a pattern whose parameters are whole path segments with different names: once it is
  registered, a request for an instance of it that no static and no other dynamic route
  serves is resolved to its handler, and \<open>path_parameter\<close> gives back the value each
  parameter was filled with.
\<close>

theorem dynamic_route_roundtrip:
  assumes "std_sort srt" and "list_all token_ok ts" and "separated (items_of ts)" and "distinct (names_of ts)"
    and "fill (items_of ts) caps = Some (normalize_path path)" and "method_matches rm m"
    and "map_of (rt_static (foldl (route_step srt) empty_table es)) (normalize_path path) = None"
    and "\<not> (\<exists>r\<in>set (rt_dynamic (foldl (route_step srt) empty_table es)). matches_path (normalize_path path) r)"
  shows "\<exists>ctx'. resolve_route_with_method
      (foldl (route_step srt) empty_table (es @ [Add_dynamic (pattern_of ts) rm h])) path m ctx = ((Some h, []), ctx') \<and>
    (\<forall>i<length caps. path_parameter ctx' (names_of ts ! i) = caps ! i)"
proof -
  let ?t = "foldl (route_step srt) empty_table es" and ?key = "normalize_path path"
  let ?r = "\<lparr>dr_pattern = pattern_of ts, dr_handler = h, dr_regex = items_of ts, dr_param_names = names_of ts, dr_method = rm\<rparr>"
  let ?t' = "foldl (route_step srt) empty_table (es @ [Add_dynamic (pattern_of ts) rm h])"
  have t': "?t' = ?t\<lparr>rt_dynamic := srt more_specific (rt_dynamic ?t @ [?r]), rt_all := rt_all ?t @ [Dynamic_route ?r]\<rparr>"
    using parse_pattern_tokens [OF assms(2)] by (simp add: add_dynamic_route_method_def Let_def)
  have set': "set (rt_dynamic ?t') = insert ?r (set (rt_dynamic ?t))"
    unfolding t' using std_sort.sort_set [OF assms(1) strict_weak_more_specific] by simp
  obtain r where r: "find (matches_path ?key) (rt_dynamic ?t') = Some r"
    using set' assms(5) by (cases "find (matches_path ?key) (rt_dynamic ?t')")
      (auto simp: find_None_iff matches_path_def)
  then have "r \<in> set (rt_dynamic ?t')" "matches_path ?key r" by (auto simp: find_Some_iff)
  with set' assms(8) have "r = ?r" by auto
  have inv: "table_inv ?t'" by (rule route_sorting.reachable_inv [OF route_sorting_of_std_sort [OF assms(1)]])
  have "map_of (rt_static ?t') ?key = None" unfolding t' using assms(7) by simp
  with resolve_spec [OF inv, of path m ctx] r \<open>r = ?r\<close> assms(6)
  obtain cs where cs: "fill (items_of ts) cs = Some ?key"
    "resolve_route_with_method ?t' path m ctx = ((Some h, []), extract_path_params ?r cs ctx)"
    by auto
  have "cs = caps" by (rule fill_unique [OF assms(3) cs(1) assms(5)])
  with cs(2) path_parameters_read [of ?r caps _ ctx] assms(4) fill_length [OF assms(5)] show ?thesis by simp
qed

theorem dynamic_route_roundtrip_witness:
  "\<exists>ctx'. resolve_route_with_method
      (foldl (route_step insertion_sort) empty_table [Add_dynamic ''/users/{id}/posts/{n}'' Verb_get (7 :: nat)])
      ''/users/42/posts/x/'' Verb_get sample_ctx = ((Some 7, []), ctx') \<and>
    path_parameter ctx' ''id'' = ''42'' \<and> path_parameter ctx' ''n'' = ''x''"
proof -
  let ?ts = "[Lit ''/users/'', Param ''id'', Lit ''/posts/'', Param ''n'']" and ?caps = "[''42'', ''x'']"
  have key: "normalize_path ''/users/42/posts/x/'' = ''/users/42/posts/x''" by code_simp
  have pat: "pattern_of ?ts = ''/users/{id}/posts/{n}''" by (simp add: pattern_of_def)
  have ns: "names_of ?ts = [''id'', ''n'']" by (simp add: names_of_def)
  have "\<exists>ctx'. resolve_route_with_method
      (foldl (route_step insertion_sort) empty_table ([] @ [Add_dynamic (pattern_of ?ts) Verb_get (7 :: nat)]))
      ''/users/42/posts/x/'' Verb_get sample_ctx = ((Some 7, []), ctx') \<and>
    (\<forall>i<length ?caps. path_parameter ctx' (names_of ?ts ! i) = ?caps ! i)"
    by (rule dynamic_route_roundtrip [OF insertion.std_sort_axioms])
       (simp_all add: items_of_def names_of_def key method_matches_def empty_table_def)
  then obtain ctx' where c: "resolve_route_with_method
      (foldl (route_step insertion_sort) empty_table [Add_dynamic ''/users/{id}/posts/{n}'' Verb_get (7 :: nat)])
      ''/users/42/posts/x/'' Verb_get sample_ctx = ((Some 7, []), ctx')"
    and v: "\<And>i. i < length ?caps \<Longrightarrow> path_parameter ctx' (names_of ?ts ! i) = ?caps ! i"
    unfolding pat by auto
  have "path_parameter ctx' ''id'' = ''42''" "path_parameter ctx' ''n'' = ''x''"
    using v [of 0] v [of 1] by (simp_all add: ns)
  with c show ?thesis by blast
qed

text \<open>
  Registering a second method on a static path replaces the first; a dynamic pattern that
  ends in a slash is not normalised and misses the normalised request.
\<close>

lemma static_second_method_replaces:
  "resolve_route_with_method (foldl (route_step srt) empty_table
      [Add_static p Verb_get h1, Add_static p Verb_post h2]) p Verb_get ctx = ((None, [Verb_post]), ctx)"
  by (simp add: add_static_route_method_def resolve_route_with_method_def empty_table_def method_matches_def Let_def)

lemma dynamic_trailing_slash_missed:
  "resolve_route_with_method (foldl (route_step insertion_sort) empty_table
      [Add_dynamic ''/a/{x}/'' Verb_get h]) ''/a/1/'' Verb_get ctx = ((None, []), ctx)"
proof -
  have "normalize_path ''/a/1/'' = ''/a/1''" by code_simp
  moreover have "parse_pattern ''/a/{x}/'' = Inr (items_of [Lit ''/a/'', Param ''x'', Lit ''/''], [''x''])"
    using parse_pattern_tokens [of "[Lit ''/a/'', Param ''x'', Lit ''/'']"]
    by (simp add: pattern_of_def names_of_def)
  moreover have "regex_match (items_of [Lit ''/a/'', Param ''x'', Lit ''/'']) ''/a/1'' = None"
    by (simp add: items_of_def)
  ultimately show ?thesis
    by (simp add: add_dynamic_route_method_def resolve_route_with_method_def empty_table_def Let_def)
qed

end
