(* ===== verification/Multipart_Stream.thy ===== *)
theory Multipart_Stream
  imports Multipart_Parser
begin

text \<open>
  \<open>MultipartStreamParser\<close> and \<open>MultipartStreamParserImpl\<close> of
  src/parser/multipart_parser.cpp: the incremental parser as a state machine over the
  chunks it is fed. The callbacks are logged in the order the code calls them.
\<close>

section \<open>State\<close>

datatype parse_state = PS_Boundary | PS_Headers | PS_Content | PS_Complete | PS_Error

record stream_parser =
  sp_config :: multipart_config
  sp_boundary :: string
  sp_full_boundary :: string
  sp_end_boundary :: string
  sp_state :: parse_state
  sp_bytes_processed :: nat
  sp_field_size :: nat
  sp_field_name :: string
  sp_buffer :: string
  sp_current :: "multipart_field option"
  sp_result :: "multipart_field list"
  sp_progress_cb :: bool
  sp_error_cb :: bool
  sp_progress_log :: "(nat \<times> nat \<times> string) list"
  sp_error_log :: "(string \<times> nat) list"

definition new_stream_parser :: "string \<Rightarrow> multipart_config \<Rightarrow> bool \<Rightarrow> bool \<Rightarrow> stream_parser" where
  "new_stream_parser boundary cfg progress_cb error_cb =
     \<lparr>sp_config = cfg, sp_boundary = boundary, sp_full_boundary = ''--'' @ boundary,
      sp_end_boundary = ''--'' @ boundary @ ''--'', sp_state = PS_Boundary, sp_bytes_processed = 0,
      sp_field_size = 0, sp_field_name = [], sp_buffer = [], sp_current = None, sp_result = [],
      sp_progress_cb = progress_cb, sp_error_cb = error_cb, sp_progress_log = [], sp_error_log = []\<rparr>"

section \<open>Operations\<close>

definition handle_error :: "string \<Rightarrow> stream_parser \<Rightarrow> stream_parser" where
  "handle_error err p =
     (let p = p\<lparr>sp_state := PS_Error\<rparr>
      in if sp_error_cb p then p\<lparr>sp_error_log := sp_error_log p @ [(err, sp_bytes_processed p)]\<rparr> else p)"

definition finalize_current_field :: "stream_parser \<Rightarrow> stream_parser" where
  "finalize_current_field p =
     (let p = (case sp_current p of
                 Some f \<Rightarrow> p\<lparr>sp_result := sp_result p @ [f], sp_current := None\<rparr>
               | None \<Rightarrow> p)
      in if sp_progress_cb p
         then p\<lparr>sp_progress_log := sp_progress_log p @ [(sp_bytes_processed p, 0, sp_field_name p)]\<rparr>
         else p)"

text \<open>\<open>switch_to_temp_file\<close> is empty in the sources, and no content is stored.\<close>

definition switch_to_temp_file :: "stream_parser \<Rightarrow> stream_parser" where
  "switch_to_temp_file p = p"

definition write_content_data :: "string \<Rightarrow> stream_parser \<Rightarrow> stream_parser" where
  "write_content_data data p =
     (case sp_current p of
        None \<Rightarrow> p
      | Some f \<Rightarrow>
          let p = p\<lparr>sp_field_size := sp_field_size p + length data\<rparr>
          in if mf_is_file f \<and> mc_max_file_size (sp_config p) < sp_field_size p
             then handle_error ''File size exceeds maximum allowed size'' p
             else if \<not> mf_is_file f \<and> mc_max_field_size (sp_config p) < sp_field_size p
             then handle_error ''Field size exceeds maximum allowed size'' p
             else if mf_is_file f \<and> mc_memory_threshold (sp_config p) < sp_field_size p
             then switch_to_temp_file p
             else p)"

definition process_boundary :: "stream_parser \<Rightarrow> bool \<times> stream_parser" where
  "process_boundary p =
     (case find_sub (sp_full_boundary p) (sp_buffer p) of
        None \<Rightarrow>
          if length (sp_full_boundary p) + 100 < length (sp_buffer p)
          then (False, handle_error ''Boundary not found in expected position'' p)
          else (False, p)
      | Some boundary_pos \<Rightarrow>
          let p = p\<lparr>sp_buffer := drop (boundary_pos + length (sp_full_boundary p)) (sp_buffer p)\<rparr>
          in if prefix ''--'' (sp_buffer p) then (True, p\<lparr>sp_state := PS_Complete\<rparr>)
             else let p = (if prefix [CHR 0x0D, CHR 0x0A] (sp_buffer p) then p\<lparr>sp_buffer := drop 2 (sp_buffer p)\<rparr>
                           else if prefix [CHR 0x0A] (sp_buffer p) then p\<lparr>sp_buffer := drop 1 (sp_buffer p)\<rparr>
                           else p)
                  in (True, p\<lparr>sp_state := PS_Headers\<rparr>))"

text \<open>One header line: the current field and \<open>current_field_name_\<close>.\<close>

definition stream_header_line :: "multipart_field \<times> string \<Rightarrow> string \<Rightarrow> multipart_field \<times> string" where
  "stream_header_line = (\<lambda>(f, fname) l.
     let line = chomp_cr l
     in case find_sub '':'' line of
          None \<Rightarrow> (f, fname)
        | Some colon_pos \<Rightarrow>
            let name = erase_both [CHR '' '', CHR 0x09] (take colon_pos line);
                v = erase_both [CHR '' '', CHR 0x09] (drop (colon_pos + 1) line);
                f = mf_add_header name v f
            in if name = ''Content-Disposition'' then
                 let (f, fname) = (case quoted_param (''name='' @ [dquote]) v of
                                     Some n \<Rightarrow> (f\<lparr>mf_name := n\<rparr>, n) | None \<Rightarrow> (f, fname));
                     f = (case quoted_param (''filename='' @ [dquote]) v of
                            Some n \<Rightarrow> f\<lparr>mf_filename := n\<rparr> | None \<Rightarrow> f)
                 in (f, fname)
               else (f, fname))"

definition process_headers :: "stream_parser \<Rightarrow> bool \<times> stream_parser" where
  "process_headers p =
     (case header_split (sp_buffer p) of
        None \<Rightarrow> (False, p)
      | Some (header_end, header_len) \<Rightarrow>
          let header_data = take header_len (sp_buffer p);
              p = p\<lparr>sp_buffer := drop header_end (sp_buffer p)\<rparr>;
              (f, fname) = foldl stream_header_line (new_multipart_field, sp_field_name p)
                             (getlines (CHR 0x0A) header_data)
          in (True, p\<lparr>sp_current := Some f, sp_field_name := fname, sp_field_size := 0,
                      sp_state := PS_Content\<rparr>))"

text \<open>\<open>while (content_end > 0 && (buffer_[content_end - 1] == '\n' || ... '\r')) content_end--;\<close>\<close>

fun content_end_loop :: "string \<Rightarrow> nat \<Rightarrow> nat" where
  "content_end_loop buf 0 = 0"
| "content_end_loop buf (Suc n) =
     (if buf ! n = CHR 0x0A \<or> buf ! n = CHR 0x0D then content_end_loop buf n else Suc n)"

definition process_content :: "stream_parser \<Rightarrow> bool \<times> stream_parser" where
  "process_content p =
     (case find_sub (sp_full_boundary p) (sp_buffer p) of
        None \<Rightarrow>
          if length (sp_full_boundary p) + 100 < length (sp_buffer p)
          then (False, (write_content_data
                  (take (length (sp_buffer p) - length (sp_full_boundary p) - 10) (sp_buffer p)) p)\<lparr>sp_buffer := []\<rparr>)
          else (False, p)
      | Some boundary_pos \<Rightarrow>
          let p = (if 0 < boundary_pos then
                     let content_end = content_end_loop (sp_buffer p) boundary_pos
                     in if 0 < content_end then write_content_data (take content_end (sp_buffer p)) p else p
                   else p);
              p = p\<lparr>sp_buffer := drop boundary_pos (sp_buffer p)\<rparr>;
              p = finalize_current_field p
          in (True, p\<lparr>sp_state := PS_Boundary\<rparr>))"

definition process_state :: "stream_parser \<Rightarrow> bool \<times> stream_parser" where
  "process_state p =
     (case sp_state p of
        PS_Boundary \<Rightarrow> process_boundary p
      | PS_Headers \<Rightarrow> process_headers p
      | PS_Content \<Rightarrow> process_content p
      | _ \<Rightarrow> (False, p))"

fun state_rank :: "parse_state \<Rightarrow> nat" where
  "state_rank PS_Content = 2"
| "state_rank PS_Boundary = 1"
| "state_rank _ = 0"

lemma handle_error_sels [simp]:
  "sp_buffer (handle_error e p) = sp_buffer p" "sp_state (handle_error e p) = PS_Error"
  "sp_full_boundary (handle_error e p) = sp_full_boundary p" "sp_boundary (handle_error e p) = sp_boundary p"
  "sp_end_boundary (handle_error e p) = sp_end_boundary p"
  "sp_current (handle_error e p) = sp_current p" "sp_result (handle_error e p) = sp_result p"
  "sp_bytes_processed (handle_error e p) = sp_bytes_processed p" "sp_config (handle_error e p) = sp_config p"
  by (simp_all add: handle_error_def Let_def)

lemma write_content_data_sels [simp]:
  "sp_buffer (write_content_data d p) = sp_buffer p"
  "sp_full_boundary (write_content_data d p) = sp_full_boundary p"
  "sp_boundary (write_content_data d p) = sp_boundary p"
  "sp_end_boundary (write_content_data d p) = sp_end_boundary p"
  "sp_current (write_content_data d p) = sp_current p" "sp_result (write_content_data d p) = sp_result p"
  "sp_bytes_processed (write_content_data d p) = sp_bytes_processed p"
  "sp_config (write_content_data d p) = sp_config p"
  by (simp_all add: write_content_data_def switch_to_temp_file_def Let_def split: option.splits)

lemma finalize_sels [simp]:
  "sp_buffer (finalize_current_field p) = sp_buffer p"
  "sp_full_boundary (finalize_current_field p) = sp_full_boundary p"
  "sp_boundary (finalize_current_field p) = sp_boundary p"
  "sp_end_boundary (finalize_current_field p) = sp_end_boundary p"
  "sp_current (finalize_current_field p) = None"
  "sp_result (finalize_current_field p) = sp_result p @ (case sp_current p of Some f \<Rightarrow> [f] | None \<Rightarrow> [])"
  "sp_bytes_processed (finalize_current_field p) = sp_bytes_processed p"
  "sp_config (finalize_current_field p) = sp_config p"
  by (simp_all add: finalize_current_field_def Let_def split: option.splits)

lemma header_split_bound: "header_split s = Some (e, l) \<Longrightarrow> 2 \<le> e \<and> e \<le> length s"
  by (auto simp: header_split_def split: option.splits dest!: find_sub_Some)

lemma process_state_decreases:
  assumes "process_state p = (True, q)"
  shows "3 * length (sp_buffer q) + state_rank (sp_state q) < 3 * length (sp_buffer p) + state_rank (sp_state p)"
proof (cases "sp_state p")
  case PS_Boundary
  with assms show ?thesis
    by (auto simp: process_state_def process_boundary_def Let_def split: option.splits if_splits)
next
  case PS_Headers
  with assms show ?thesis
    by (auto simp: process_state_def process_headers_def Let_def split: option.splits prod.splits
        dest!: header_split_bound)
next
  case PS_Content
  with assms show ?thesis
    by (auto simp: process_state_def process_content_def Let_def split: option.splits if_splits)
qed (use assms in \<open>auto simp: process_state_def\<close>)

function feed_loop :: "stream_parser \<Rightarrow> stream_parser" where
  "feed_loop p =
     (if sp_buffer p \<noteq> [] \<and> sp_state p \<noteq> PS_Complete \<and> sp_state p \<noteq> PS_Error
      then let r = process_state p in if fst r then feed_loop (snd r) else snd r
      else p)"
  by pat_completeness auto
termination
  by (relation "measure (\<lambda>p. 3 * length (sp_buffer p) + state_rank (sp_state p))")
     (auto intro: process_state_decreases simp: prod_eq_iff)

declare feed_loop.simps [simp del]

definition feed_data :: "string \<Rightarrow> stream_parser \<Rightarrow> bool \<times> stream_parser" where
  "feed_data data p =
     (let p = p\<lparr>sp_buffer := sp_buffer p @ data, sp_bytes_processed := sp_bytes_processed p + length data\<rparr>;
          p = feed_loop p
      in (sp_state p \<noteq> PS_Error, p))"

definition sp_is_complete :: "stream_parser \<Rightarrow> bool" where
  "sp_is_complete p = (sp_state p = PS_Complete)"

definition get_result :: "stream_parser \<Rightarrow> multipart_field list \<times> stream_parser" where
  "get_result p = (sp_result p, p\<lparr>sp_result := []\<rparr>)"

definition reset_stream :: "stream_parser \<Rightarrow> stream_parser" where
  "reset_stream p = p\<lparr>sp_buffer := [], sp_result := [], sp_state := PS_Boundary, sp_bytes_processed := 0,
     sp_field_size := 0\<rparr>"

definition abort_stream :: "stream_parser \<Rightarrow> stream_parser" where
  "abort_stream p = p\<lparr>sp_state := PS_Error\<rparr>"

definition set_progress_callback :: "bool \<Rightarrow> stream_parser \<Rightarrow> stream_parser" where
  "set_progress_callback cb p = p\<lparr>sp_progress_cb := cb\<rparr>"

definition set_error_callback :: "bool \<Rightarrow> stream_parser \<Rightarrow> stream_parser" where
  "set_error_callback cb p = p\<lparr>sp_error_cb := cb\<rparr>"

definition create_stream_parser :: "multipart_config \<Rightarrow> string \<Rightarrow> bool \<Rightarrow> bool \<Rightarrow> stream_parser" where
  "create_stream_parser cfg boundary progress_cb error_cb = new_stream_parser boundary cfg progress_cb error_cb"

text \<open>The overload of \<open>feed_data\<close> for strings; the sixteen random digits are a parameter.\<close>

definition feed_string :: "string \<Rightarrow> stream_parser \<Rightarrow> bool \<times> stream_parser" where
  "feed_string data p = feed_data data p"

definition stream_temp_filename :: "multipart_config \<Rightarrow> nat list \<Rightarrow> string" where
  "stream_temp_filename cfg digits =
     mc_temp_directory cfg @ ''/foxhttp_stream_'' @ map (\<lambda>d. ''0123456789abcdef'' ! d) digits"

text \<open>The loop over the result; the file system is threaded through it.\<close>

fun cleanup_fields :: "(string \<rightharpoonup> string) \<Rightarrow> multipart_field list \<Rightarrow> (string \<rightharpoonup> string) \<times> multipart_field list" where
  "cleanup_fields fs [] = (fs, [])"
| "cleanup_fields fs (f # rest) =
     (let (fs, f) = cleanup_temp_file (fs, f); (fs, rest) = cleanup_fields fs rest in (fs, f # rest))"

definition cleanup_temp_files :: "(string \<rightharpoonup> string) \<times> stream_parser \<Rightarrow> (string \<rightharpoonup> string) \<times> stream_parser" where
  "cleanup_temp_files = (\<lambda>(fs, p). let (fs, r) = cleanup_fields fs (sp_result p) in (fs, p\<lparr>sp_result := r\<rparr>))"

section \<open>The parser as a step machine\<close>

datatype stream_event =
    Feed string | Take_result | Reset_stream | Abort_stream | Set_progress bool | Set_error bool

fun stream_step :: "stream_parser \<Rightarrow> stream_event \<Rightarrow> stream_parser" where
  "stream_step p (Feed d) = snd (feed_data d p)"
| "stream_step p Take_result = snd (get_result p)"
| "stream_step p Reset_stream = reset_stream p"
| "stream_step p Abort_stream = abort_stream p"
| "stream_step p (Set_progress b) = set_progress_callback b p"
| "stream_step p (Set_error b) = set_error_callback b p"

text \<open>A field as the stream parser builds it: it never receives content.\<close>

definition bare_field :: "multipart_field \<Rightarrow> bool" where
  "bare_field f = (mf_content f = [] \<and> mf_binary f = [] \<and> mf_temp_file f = None)"

definition stream_inv :: "stream_parser \<Rightarrow> bool" where
  "stream_inv p = (sp_full_boundary p = ''--'' @ sp_boundary p \<and>
     sp_end_boundary p = ''--'' @ sp_boundary p @ ''--'' \<and>
     (sp_state p = PS_Content \<longrightarrow> sp_current p \<noteq> None) \<and>
     list_all bare_field (sp_result p) \<and> pred_option bare_field (sp_current p) \<and>
     length (sp_buffer p) \<le> sp_bytes_processed p \<and>
     (sp_state p \<in> {PS_Boundary, PS_Content} \<longrightarrow>
        length (sp_buffer p) \<le> length (sp_full_boundary p) + 100))"

text \<open>The part of the invariant that holds inside the loop, where the buffer is unbounded.\<close>

definition loop_inv :: "stream_parser \<Rightarrow> bool" where
  "loop_inv p = (sp_full_boundary p = ''--'' @ sp_boundary p \<and>
     sp_end_boundary p = ''--'' @ sp_boundary p @ ''--'' \<and>
     (sp_state p = PS_Content \<longrightarrow> sp_current p \<noteq> None) \<and>
     list_all bare_field (sp_result p) \<and> pred_option bare_field (sp_current p) \<and>
     length (sp_buffer p) \<le> sp_bytes_processed p)"

lemma bare_new_field: "bare_field new_multipart_field"
  by (simp add: bare_field_def new_multipart_field_def)

lemma bare_header_lines:
  "bare_field f \<Longrightarrow> bare_field (fst (foldl stream_header_line (f, n) ls))"
proof (induction ls arbitrary: f n)
  case (Cons l ls)
  have "bare_field (fst (stream_header_line (f, n) l))"
    using Cons.prems
    by (simp add: stream_header_line_def bare_field_def mf_add_header_def Let_def split: option.splits)
  with Cons.IH show ?case by (metis foldl_Cons prod.collapse)
qed simp

lemma loop_inv_process: "loop_inv p \<Longrightarrow> loop_inv (snd (process_state p))"
proof (cases "sp_state p")
  case PS_Boundary
  then show "loop_inv p \<Longrightarrow> loop_inv (snd (process_state p))"
    by (auto simp: process_state_def process_boundary_def loop_inv_def Let_def split: option.splits if_splits)
next
  case PS_Headers
  then show "loop_inv p \<Longrightarrow> loop_inv (snd (process_state p))"
    using bare_header_lines [OF bare_new_field, of "sp_field_name p"]
    by (auto simp: process_state_def process_headers_def loop_inv_def Let_def split: option.splits prod.splits
        dest!: header_split_bound) (metis fst_conv)
next
  case PS_Content
  then show "loop_inv p \<Longrightarrow> loop_inv (snd (process_state p))"
    by (auto simp: process_state_def process_content_def loop_inv_def Let_def
        split: option.splits if_splits)
qed (simp_all add: process_state_def)

lemma loop_inv_feed_loop: "loop_inv p \<Longrightarrow> loop_inv (feed_loop p)"
proof (induction p rule: feed_loop.induct)
  case (1 p)
  with loop_inv_process [of p] show ?case by (subst feed_loop.simps) (simp add: Let_def)
qed

text \<open>Where the loop stops, in a state that looks for a boundary, little is left in the buffer.\<close>

lemma process_state_stops:
  "\<not> fst (process_state p) \<Longrightarrow> sp_state (snd (process_state p)) \<in> {PS_Boundary, PS_Content} \<Longrightarrow>
   length (sp_buffer (snd (process_state p))) \<le> length (sp_full_boundary (snd (process_state p))) + 100"
  by (auto simp: process_state_def process_boundary_def process_headers_def process_content_def Let_def
      split: option.splits if_splits parse_state.splits prod.splits)

lemma feed_loop_buffer:
  "sp_state (feed_loop p) \<in> {PS_Boundary, PS_Content} \<Longrightarrow>
   length (sp_buffer (feed_loop p)) \<le> length (sp_full_boundary (feed_loop p)) + 100"
proof (induction p rule: feed_loop.induct)
  case (1 p)
  show ?case
  proof (cases "sp_buffer p \<noteq> [] \<and> sp_state p \<noteq> PS_Complete \<and> sp_state p \<noteq> PS_Error")
    case True
    then have step: "feed_loop p = (if fst (process_state p) then feed_loop (snd (process_state p)) else snd (process_state p))"
      by (subst feed_loop.simps) (simp add: Let_def)
    show ?thesis
    proof (cases "fst (process_state p)")
      case go: True
      with 1 True show ?thesis by (simp add: step)
    next
      case False
      with "1.prems" process_state_stops [OF False] show ?thesis by (simp add: step)
    qed
  next
    case False
    then have "feed_loop p = p" by (subst feed_loop.simps) auto
    with False 1 show ?thesis by auto
  qed
qed

lemma stream_inv_split:
  "stream_inv p \<longleftrightarrow> loop_inv p \<and> (sp_state p \<in> {PS_Boundary, PS_Content} \<longrightarrow>
        length (sp_buffer p) \<le> length (sp_full_boundary p) + 100)"
  by (auto simp: stream_inv_def loop_inv_def)

lemma stream_inv_feed: "stream_inv p \<Longrightarrow> stream_inv (snd (feed_data d p))"
proof -
  assume "stream_inv p"
  then have "loop_inv (p\<lparr>sp_buffer := sp_buffer p @ d, sp_bytes_processed := sp_bytes_processed p + length d\<rparr>)"
    by (simp add: stream_inv_split loop_inv_def)
  from loop_inv_feed_loop [OF this] feed_loop_buffer show ?thesis
    by (simp add: feed_data_def stream_inv_split Let_def)
qed

interpretation stream: step_machine
  "\<lambda>p. \<exists>b cfg pc ec. p = new_stream_parser b cfg pc ec" stream_step stream_inv
proof
  fix p :: stream_parser and e
  show "\<exists>b cfg pc ec. p = new_stream_parser b cfg pc ec \<Longrightarrow> stream_inv p"
    by (auto simp: new_stream_parser_def stream_inv_def)
  show "stream_inv p \<Longrightarrow> stream_inv (stream_step p e)"
    by (cases e)
       (simp_all add: stream_inv_feed,
        auto simp: stream_inv_def get_result_def reset_stream_def abort_stream_def
          set_progress_callback_def set_error_callback_def)
qed

section \<open>A well-formed body in one chunk\<close>

definition render_body :: "string \<Rightarrow> part list \<Rightarrow> string" where
  "render_body b ps =
     concat (map (\<lambda>p. ''--'' @ b @ [CHR 0x0D, CHR 0x0A] @ render_part p @ [CHR 0x0D, CHR 0x0A]) ps) @
     ''--'' @ b @ ''--''"

text \<open>The delimiter does not occur in the part's data before it ends the part; limits hold.\<close>

definition fits :: "multipart_config \<Rightarrow> string \<Rightarrow> part \<Rightarrow> bool" where
  "fits cfg b p =
     (let d = encode_data (pt_encoding p) (pt_data p)
      in find_sub (''--'' @ b) (d @ [CHR 0x0D, CHR 0x0A] @ ''--'' @ b) = Some (length d + 2) \<and>
         length d \<le> (if pt_filename p = [] then mc_max_field_size cfg else mc_max_file_size cfg))"

definition stream_field :: "part \<Rightarrow> multipart_field" where
  "stream_field p = (foldl (\<lambda>f (n, v). mf_add_header n v f) new_multipart_field (part_headers p))
     \<lparr>mf_name := pt_name p, mf_filename := pt_filename p\<rparr>"

lemma erase_both_trimmed:
  assumes "v \<noteq> [] \<Longrightarrow> hd v \<notin> set cs \<and> last v \<notin> set cs"
  shows "erase_both cs v = v" and "c \<in> set cs \<Longrightarrow> erase_both cs (c # v) = v"
proof -
  have lead: "dropWhile (\<lambda>c. c \<in> set cs) v = v" using assms by (cases v) auto
  have trail: "dropWhile (\<lambda>c. c \<in> set cs) (rev v) = rev v" using assms by (cases v rule: rev_cases) auto
  show "erase_both cs v = v" by (simp add: erase_both_def cpp_string lead trail)
  show "c \<in> set cs \<Longrightarrow> erase_both cs (c # v) = v" by (simp add: erase_both_def cpp_string lead trail)
qed

lemma stream_header_line_wf:
  assumes "wf_header (n, v)"
  shows "stream_header_line (f, fname) (header_line (n, v)) =
    (if n = ''Content-Disposition''
     then (set_disposition v (mf_add_header n v f),
           case quoted_param (''name='' @ [dquote]) v of Some m \<Rightarrow> m | None \<Rightarrow> fname)
     else (mf_add_header n v f, fname))"
proof -
  have "find_sub '':'' (n @ '': '' @ v) = Some (length n)"
    using assms find_sub_char_append [of "CHR '':''" n] by (simp add: wf_header_def)
  moreover have "chomp_cr (n @ '': '' @ v) = n @ '': '' @ v"
    using assms by (intro chomp_cr_simps(2)) (auto simp: wf_header_def clean_line_def)
  moreover have "erase_both [CHR '' '', CHR 0x09] n = n" "erase_both [CHR '' '', CHR 0x09] (CHR '' '' # v) = v"
    using assms by (intro erase_both_trimmed; auto simp: wf_header_def)+
  ultimately show ?thesis
    by (simp add: stream_header_line_def header_line_def set_disposition_def Let_def split: option.splits)
qed

lemma foldl_chomped:
  "\<forall>l\<in>set ls. clean_line l \<Longrightarrow>
   foldl stream_header_line x (getlines (CHR 0x0A) (crlf_join ls)) = foldl stream_header_line x ls"
proof (induction ls arbitrary: x rule: crlf_join.induct)
  case (2 l)
  then show ?case by (simp add: clean_line_def getlines_single)
next
  case (3 l k ls)
  then have "getlines (CHR 0x0A) (crlf_join (l # k # ls)) =
      (l @ [CHR 0x0D]) # getlines (CHR 0x0A) (crlf_join (k # ls))"
    using getlines_append [of "CHR 0x0A" "l @ [CHR 0x0D]"] by (simp add: clean_line_def)
  moreover have "stream_header_line x (l @ [CHR 0x0D]) = stream_header_line x l"
    using 3 by (simp add: stream_header_line_def chomp_cr_simps clean_line_def split: prod.splits)
  ultimately show ?case using 3 by simp
qed simp

lemma stream_headers_part:
  assumes "wf_part p"
  shows "foldl stream_header_line (new_multipart_field, fname) (getlines (CHR 0x0A) (part_header_text p)) =
    (stream_field p, pt_name p)"
proof -
  have params: "plain_param (pt_name p)" "plain_param (pt_filename p)" using assms by (simp_all add: wf_part_def)
  have wf: "\<forall>h\<in>set (part_headers p). wf_header h" by (rule wf_part_headers [OF assms])
  have disp: "set_disposition (disposition (pt_name p) (pt_filename p)) (mf_add_header n v new_multipart_field) =
      (mf_add_header n v new_multipart_field)\<lparr>mf_name := pt_name p, mf_filename := pt_filename p\<rparr>" for n v
    unfolding set_disposition_def name_param [OF params(1)] filename_param [OF params] Let_def
    by (simp add: mf_add_header_def new_multipart_field_def)
  have "foldl stream_header_line (new_multipart_field, fname) (getlines (CHR 0x0A) (part_header_text p)) =
      foldl stream_header_line (new_multipart_field, fname) (map header_line (part_headers p))"
    unfolding part_header_text_def using wf by (intro foldl_chomped) (auto simp: clean_header_line)
  also have "\<dots> = (stream_field p, pt_name p)"
    using wf unfolding part_headers_def stream_field_def
    by (simp add: stream_header_line_wf name_param [OF params(1)] disp del: append.simps)
       (simp add: mf_add_header_def)
  finally show ?thesis .
qed

lemma content_end_le: "content_end_loop buf n \<le> n"
  by (induction n) auto

lemma feed_loop_step:
  "sp_buffer p \<noteq> [] \<Longrightarrow> sp_state p \<in> {PS_Boundary, PS_Headers, PS_Content} \<Longrightarrow> process_state p = (True, q) \<Longrightarrow>
   feed_loop p = feed_loop q"
  by (subst feed_loop.simps) (auto simp: Let_def)

lemma write_content_data_ok:
  assumes "sp_current p = Some f" and
    "sp_field_size p + length d \<le> (if mf_filename f = [] then mc_max_field_size (sp_config p) else mc_max_file_size (sp_config p))"
  shows "write_content_data d p = p\<lparr>sp_field_size := sp_field_size p + length d\<rparr>"
  using assms by (auto simp: write_content_data_def mf_is_file_def switch_to_temp_file_def Let_def)

text \<open>One part: from the delimiter that opens it to the delimiter that follows it.\<close>

lemma feed_loop_part:
  assumes "wf_part p" and "fits (sp_config s) b p" and "sp_full_boundary s = ''--'' @ b"
    and "sp_state s = PS_Boundary"
    and "sp_buffer s = ''--'' @ b @ [CHR 0x0D, CHR 0x0A] @ render_part p @ [CHR 0x0D, CHR 0x0A] @ ''--'' @ b @ r"
  shows "\<exists>s'. feed_loop s = feed_loop s' \<and> sp_buffer s' = ''--'' @ b @ r \<and> sp_state s' = PS_Boundary \<and>
    sp_full_boundary s' = sp_full_boundary s \<and> sp_config s' = sp_config s \<and>
    sp_result s' = sp_result s @ [stream_field p] \<and> sp_error_log s' = sp_error_log s \<and>
    sp_bytes_processed s' = sp_bytes_processed s"
proof -
  let ?d = "encode_data (pt_encoding p) (pt_data p)" and ?t = "part_header_text p"
  let ?b1 = "?d @ [CHR 0x0D, CHR 0x0A] @ ''--'' @ b @ r"
  define s1 where "s1 = s\<lparr>sp_buffer := render_part p @ [CHR 0x0D, CHR 0x0A] @ ''--'' @ b @ r, sp_state := PS_Headers\<rparr>"
  define s2 where "s2 = s1\<lparr>sp_buffer := ?b1, sp_current := Some (stream_field p), sp_field_name := pt_name p,
      sp_field_size := 0, sp_state := PS_Content\<rparr>"
  define n where "n = content_end_loop ?b1 (length ?d + 2)"
  define s3 where "s3 = (if 0 < n then s2\<lparr>sp_field_size := n\<rparr> else s2)\<lparr>sp_buffer := ''--'' @ b @ r\<rparr>"
  define s4 where "s4 = (finalize_current_field s3)\<lparr>sp_state := PS_Boundary\<rparr>"
  have "find_sub (''--'' @ b) (sp_buffer s) = Some 0"
    unfolding assms(5) by (intro find_sub_first) simp_all
  then have 1: "process_state s = (True, s1)"
    using assms by (simp add: process_state_def process_boundary_def s1_def Let_def)
  have "header_split (?t @ [CHR 0x0D, CHR 0x0A, CHR 0x0D, CHR 0x0A] @ ?b1) = Some (length ?t + 4, length ?t)"
    unfolding part_header_text_def using assms(1) wf_part_headers [OF assms(1)]
    by (intro header_split_join) (auto simp: clean_header_line part_headers_def wf_part_def part_header_text_def)
  moreover have "sp_buffer s1 = ?t @ [CHR 0x0D, CHR 0x0A, CHR 0x0D, CHR 0x0A] @ ?b1"
    by (simp add: s1_def render_part_def)
  moreover have "sp_state s1 = PS_Headers" by (simp add: s1_def)
  ultimately have 2: "process_state s1 = (True, s2)"
    using stream_headers_part [OF assms(1)]
    by (simp add: process_state_def process_headers_def s2_def Let_def)
  have pos: "find_sub (''--'' @ b) ?b1 = Some (length ?d + 2)"
    using assms(2) find_sub_append [of "''--'' @ b" "?d @ [CHR 0x0D, CHR 0x0A] @ ''--'' @ b" _ r]
    by (simp add: fits_def Let_def)
  have "n \<le> length ?d"
    by (simp add: n_def numeral_2_eq_2 nth_append content_end_le)
  moreover have "length (take n ?b1) = n" using \<open>n \<le> length ?d\<close> by simp
  ultimately have "write_content_data (take n ?b1) s2 = s2\<lparr>sp_field_size := n\<rparr>"
    using assms(2) by (subst write_content_data_ok)
      (auto simp: s2_def s1_def stream_field_def fits_def Let_def split: if_splits)
  moreover have "sp_state s2 = PS_Content" "sp_buffer s2 = ?b1" "sp_full_boundary s2 = ''--'' @ b"
    using assms(3) by (simp_all add: s2_def s1_def)
  ultimately have 3: "process_state s2 = (True, s4)"
    unfolding process_state_def process_content_def Let_def
    by (simp only: parse_state.case pos option.case n_def [symmetric]) (simp add: s4_def s3_def)
  have "feed_loop s = feed_loop s4"
    using feed_loop_step [OF _ _ 1] feed_loop_step [OF _ _ 2] feed_loop_step [OF _ _ 3] assms(4,5)
    by (simp add: s1_def s2_def render_part_def)
  moreover have "sp_result s4 = sp_result s @ [stream_field p]" "sp_error_log s4 = sp_error_log s"
    by (simp_all add: s4_def s3_def s2_def s1_def finalize_current_field_def Let_def)
  ultimately show ?thesis
    by (intro exI [of _ s4]) (simp add: s4_def s3_def s2_def s1_def)
qed

lemma feed_loop_body:
  assumes "\<forall>p\<in>set ps. wf_part p \<and> fits (sp_config s) b p" and "sp_full_boundary s = ''--'' @ b"
    and "sp_state s = PS_Boundary" and "sp_buffer s = render_body b ps"
  shows "sp_state (feed_loop s) = PS_Complete \<and> sp_result (feed_loop s) = sp_result s @ map stream_field ps \<and>
    sp_error_log (feed_loop s) = sp_error_log s \<and> sp_bytes_processed (feed_loop s) = sp_bytes_processed s"
  using assms
proof (induction ps arbitrary: s)
  case Nil
  have "find_sub (''--'' @ b) (sp_buffer s) = Some 0"
    unfolding Nil(4) render_body_def by (intro find_sub_first) simp_all
  then have "process_state s = (True, s\<lparr>sp_buffer := ''--'', sp_state := PS_Complete\<rparr>)"
    using Nil by (simp add: process_state_def process_boundary_def render_body_def Let_def)
  then have "feed_loop s = feed_loop (s\<lparr>sp_buffer := ''--'', sp_state := PS_Complete\<rparr>)"
    using Nil by (intro feed_loop_step) (simp_all add: render_body_def)
  then show ?case by (simp add: feed_loop.simps [of "s\<lparr>sp_buffer := ''--'', sp_state := PS_Complete\<rparr>"])
next
  case (Cons p ps)
  have tail: "\<exists>r. render_body b ps = ''--'' @ b @ r"
    by (cases ps) (simp_all add: render_body_def)
  then obtain r where r: "render_body b ps = ''--'' @ b @ r" by blast
  have "sp_buffer s = ''--'' @ b @ [CHR 0x0D, CHR 0x0A] @ render_part p @ [CHR 0x0D, CHR 0x0A] @ ''--'' @ b @ r"
    using Cons.prems(4) r by (simp add: render_body_def)
  with Cons.prems obtain s' where "feed_loop s = feed_loop s'" "sp_buffer s' = render_body b ps"
    "sp_state s' = PS_Boundary" "sp_full_boundary s' = sp_full_boundary s" "sp_config s' = sp_config s"
    "sp_result s' = sp_result s @ [stream_field p]" "sp_error_log s' = sp_error_log s"
    "sp_bytes_processed s' = sp_bytes_processed s"
    using feed_loop_part [of p s b r] r by auto
  with Cons.IH [of s'] Cons.prems show ?case by simp
qed

section \<open>Properties\<close>

text \<open>
  C18: feeding a complete well-formed multipart body to a new stream parser in one chunk
  completes the parse without an error callback and yields one field per part, in order,
  with the part's name, file name and headers.
\<close>

theorem stream_parses_body:
  assumes "\<forall>p\<in>set ps. wf_part p \<and> fits cfg b p"
  shows "\<exists>s. feed_data (render_body b ps) (new_stream_parser b cfg pc ec) = (True, s) \<and>
    sp_is_complete s \<and> sp_result s = map stream_field ps \<and> sp_error_log s = [] \<and>
    sp_bytes_processed s = length (render_body b ps)"
proof -
  let ?s = "(new_stream_parser b cfg pc ec)\<lparr>sp_buffer := render_body b ps, sp_bytes_processed := length (render_body b ps)\<rparr>"
  have "sp_state (feed_loop ?s) = PS_Complete \<and> sp_result (feed_loop ?s) = sp_result ?s @ map stream_field ps \<and>
    sp_error_log (feed_loop ?s) = sp_error_log ?s \<and> sp_bytes_processed (feed_loop ?s) = sp_bytes_processed ?s"
    using assms by (intro feed_loop_body [where b = b]) (simp_all add: new_stream_parser_def)
  moreover have "feed_data (render_body b ps) (new_stream_parser b cfg pc ec) =
      (sp_state (feed_loop ?s) \<noteq> PS_Error, feed_loop ?s)"
    by (simp add: feed_data_def new_stream_parser_def Let_def)
  ultimately show ?thesis by (simp add: sp_is_complete_def) (simp add: new_stream_parser_def)
qed

theorem stream_parses_body_witness:
  "\<exists>s. feed_data (render_body ''x7'' [\<lparr>pt_name = ''a'', pt_filename = [], pt_type = [], pt_encoding = Enc_none, pt_data = ''1--x''\<rparr>])
      (new_stream_parser ''x7'' default_multipart_config True True) = (True, s) \<and>
    sp_is_complete s \<and> map mf_name (sp_result s) = [''a'']"
proof -
  let ?p = "\<lparr>pt_name = ''a'', pt_filename = [], pt_type = [], pt_encoding = Enc_none, pt_data = ''1--x''\<rparr>"
  have "wf_part ?p" by (simp add: wf_part_def plain_param_def part_header_text_def part_headers_def
        header_line_def disposition_def)
  moreover have "fits default_multipart_config ''x7'' ?p"
    by (simp add: fits_def default_multipart_config_def)
  ultimately have "\<forall>p\<in>set [?p]. wf_part p \<and> fits default_multipart_config ''x7'' p" by simp
  from stream_parses_body [OF this, of True True] show ?thesis by (auto simp: stream_field_def)
qed

text \<open>
  C37: in every state a stream parser reaches, whatever it is fed in whatever chunks and
  however it is reset, aborted or drained, the delimiters stay those of its boundary, a
  field is open while content is expected, the buffer holds at most what was fed, and at
  most 100 bytes more than a delimiter while the parser looks for one.
\<close>

theorem stream_reachable_states:
  "let s = foldl stream_step (new_stream_parser b cfg pc ec) es
   in sp_full_boundary s = ''--'' @ sp_boundary s \<and>
    (if sp_state s = PS_Content then \<exists>f. sp_current s = Some f else True) \<and>
    length (sp_buffer s) \<le> sp_bytes_processed s \<and>
    (if sp_state s = PS_Boundary \<or> sp_state s = PS_Content
     then length (sp_buffer s) \<le> length (sp_full_boundary s) + 100 else True)"
proof -
  have "stream_inv (foldl stream_step (new_stream_parser b cfg pc ec) es)"
    by (rule stream.run_from_initial) blast
  then show ?thesis by (auto simp: stream_inv_def Let_def)
qed

text \<open>
  No field ever receives content; a size limit exceeded in the chunk that also holds the
  next delimiter does not stop the parse; and a final delimiter cut between chunks is not
  recognised.
\<close>

lemma stream_content_lost:
  "list_all bare_field (sp_result (foldl stream_step (new_stream_parser b cfg pc ec) es))"
  using stream.run_from_initial [of "new_stream_parser b cfg pc ec" es] by (auto simp: stream_inv_def)

text \<open>Nor does any get a temporary file: cleaning up after a stream has nothing to do.\<close>

lemma cleanup_bare: "list_all bare_field rs \<Longrightarrow> cleanup_fields fs rs = (fs, rs)"
  by (induction rs) (simp_all add: cleanup_temp_file_def bare_field_def)

lemma stream_cleanup_idle:
  "let p = foldl stream_step (new_stream_parser b cfg pc ec) es in cleanup_temp_files (fs, p) = (fs, p)"
  using stream_content_lost by (simp add: cleanup_temp_files_def cleanup_bare)

definition tiny_config :: multipart_config where
  "tiny_config = \<lparr>mc_max_field_size = 1, mc_max_file_size = 1, mc_max_total_size = 1, mc_memory_threshold = 1,
     mc_temp_directory = [], mc_auto_cleanup = True, mc_temp_file_lifetime_s = 0, mc_strict_mode = True,
     mc_allow_empty_fields = False, mc_allowed_extensions = [], mc_allowed_content_types = []\<rparr>"

lemma stream_limit_overridden:
  "let r = feed_data (''--b'' @ [CHR 0x0A] @ ''H: 1'' @ [CHR 0x0D, CHR 0x0A, CHR 0x0D, CHR 0x0A] @ ''xyz--b--'')
             (new_stream_parser ''b'' tiny_config False True)
   in fst r \<and> sp_state (snd r) = PS_Complete \<and>
      map fst (sp_error_log (snd r)) = [''Field size exceeds maximum allowed size'']"
  by code_simp

lemma stream_split_end_delimiter:
  "sp_state (foldl stream_step (new_stream_parser ''b'' tiny_config False False) [Feed ''--b--'']) = PS_Complete"
  "sp_state (foldl stream_step (new_stream_parser ''b'' tiny_config False False) [Feed ''--b'', Feed ''--'']) = PS_Headers"
  by code_simp+

end
