(* ===== verification/Json_Parser.thy ===== *)
theory Json_Parser
  imports Configs Parser_Interface
begin

text \<open>
  \<open>JsonParser\<close> and \<open>JsonParserImpl\<close> of src/parser/json_parser.cpp. The JSON grammar is
  nlohmann's: \<open>jparse\<close> is the parameter that stands for \<open>nlohmann::json::parse\<close>, which
  returns a document or throws \<open>parse_error\<close> (or \<open>out_of_range\<close>, for a number too large).
\<close>

section \<open>JsonValidationResult\<close>

record json_validation_result =
  jv_is_valid :: bool
  jv_errors :: "string list"
  jv_warnings :: "string list"

definition new_validation :: json_validation_result where
  "new_validation = \<lparr>jv_is_valid = True, jv_errors = [], jv_warnings = []\<rparr>"

definition add_error :: "string \<Rightarrow> json_validation_result \<Rightarrow> json_validation_result" where
  "add_error e r = r\<lparr>jv_is_valid := False, jv_errors := jv_errors r @ [e]\<rparr>"

definition add_warning :: "string \<Rightarrow> json_validation_result \<Rightarrow> json_validation_result" where
  "add_warning w r = r\<lparr>jv_warnings := jv_warnings r @ [w]\<rparr>"

section \<open>JsonParserImpl\<close>

definition validate_size :: "json_config \<Rightarrow> string \<Rightarrow> json_validation_result" where
  "validate_size cfg s =
     (if jc_max_size cfg < length s
      then add_error (''JSON size ('' @ to_string (length s) @ '') exceeds maximum allowed size ('' @
             to_string (jc_max_size cfg) @ '')'') new_validation
      else new_validation)"

lemma size_in_object: "kv \<in> set kvs \<Longrightarrow> size (snd kv) < size (JObject kvs)"
  by (induction kvs) (auto split: prod.splits)

lemma size_in_array: "x \<in> set xs \<Longrightarrow> size x < size (JArray xs)"
  by (induction xs) auto

function calculate_depth :: "json \<Rightarrow> nat \<Rightarrow> nat" where
  "calculate_depth (JObject kvs) d = foldl max d (map (\<lambda>kv. calculate_depth (snd kv) (d + 1)) kvs)"
| "calculate_depth (JArray xs) d = foldl max d (map (\<lambda>x. calculate_depth x (d + 1)) xs)"
| "calculate_depth JNull d = d"
| "calculate_depth (JBool b) d = d"
| "calculate_depth (JInt i) d = d"
| "calculate_depth (JFloat q) d = d"
| "calculate_depth (JString s) d = d"
  by pat_completeness auto
termination
  by (relation "measure (\<lambda>(j, d). size j)")
     (simp_all del: json.size add: size_in_object size_in_array)

definition validate_depth :: "json_config \<Rightarrow> json \<Rightarrow> json_validation_result" where
  "validate_depth cfg j =
     (let depth = calculate_depth j 0
      in if jc_max_depth cfg < depth
         then add_error (''JSON depth ('' @ to_string depth @ '') exceeds maximum allowed depth ('' @
                to_string (jc_max_depth cfg) @ '')'') new_validation
         else new_validation)"

fun json_type_name :: "json \<Rightarrow> string" where
  "json_type_name (JString _) = ''string''"
| "json_type_name (JInt _) = ''number''"
| "json_type_name (JFloat _) = ''number''"
| "json_type_name (JBool _) = ''boolean''"
| "json_type_name (JArray _) = ''array''"
| "json_type_name (JObject _) = ''object''"
| "json_type_name JNull = ''null''"

fun check_required :: "json \<Rightarrow> json list \<Rightarrow> json_validation_result \<Rightarrow> json_validation_result" where
  "check_required j [] r = r"
| "check_required j (JString f # fs) r =
     check_required j fs (if contains j f then r else add_error (''Missing required field: '' @ f) r)"
| "check_required j (_ # fs) r = check_required j fs r"

text \<open>\<open>std::string expected_type = value["type"]\<close> throws \<open>type_error\<close> when it is no string.\<close>

fun check_properties ::
  "json \<Rightarrow> (string \<times> json) list \<Rightarrow> json_validation_result \<Rightarrow> json_validation_result throws" where
  "check_properties j [] r = Inr r"
| "check_properties j ((key, value) # props) r =
     (case (obj_find j key, obj_find value ''type'') of
        (Some actual, Some (JString expected)) \<Rightarrow>
          check_properties j props
            (if json_type_name actual \<noteq> expected
             then add_error (''Field '' @ [CHR 0x27] @ key @ [CHR 0x27] @ '' has wrong type. Expected: '' @ expected @
                    '', Got: '' @ json_type_name actual) r
             else r)
      | (Some actual, Some _) \<Rightarrow> Inl (Json_error ''type must be string'')
      | _ \<Rightarrow> check_properties j props r)"

definition validate_schema :: "json_config \<Rightarrow> json \<Rightarrow> json_validation_result throws" where
  "validate_schema cfg j =
     (if is_object (jc_schema cfg) then
        let r = (case obj_find (jc_schema cfg) ''required'' of
                   Some (JArray fs) \<Rightarrow> check_required j fs new_validation
                 | _ \<Rightarrow> new_validation)
        in (case obj_find (jc_schema cfg) ''properties'' of
              Some (JObject props) \<Rightarrow> check_properties j props r
            | _ \<Rightarrow> Inr r)
      else Inr new_validation)"

text \<open>
  \<open>preprocess_json\<close>. A position is \<open>None\<close> for \<open>npos\<close>: the second comma loop starts from
  the value the first one left in \<open>pos\<close>.
\<close>

function comment_loop :: "string \<Rightarrow> nat \<Rightarrow> string" where
  "comment_loop result pos =
     (case str_find result ''//'' pos of
        None \<Rightarrow> result
      | Some p \<Rightarrow>
          (case str_find result [CHR 0x0A] p of
             Some e \<Rightarrow> comment_loop (str_erase result p (e - p)) p
           | None \<Rightarrow> take p result))"
  by pat_completeness auto
termination
proof (relation "measure (\<lambda>(result, pos). length result)", simp)
  fix result pos p e
  assume p: "str_find result ''//'' pos = Some p" and e: "str_find result [CHR 0x0A] p = Some e"
  from str_find_Some [OF p] str_find_Some [OF e]
  have "p \<le> e" "e < length result" "p < length result" "prefix ''//'' (drop p result)" "prefix [CHR 0x0A] (drop e result)"
    by auto
  moreover from this have "p \<noteq> e" by (auto simp: prefix_def)
  ultimately show "((str_erase result p (e - p), p), (result, pos)) \<in> measure (\<lambda>(result, pos). length result)"
    by (simp add: str_erase_def)
qed

definition find_from :: "string \<Rightarrow> string \<Rightarrow> nat option \<Rightarrow> nat option" where
  "find_from s n pos = (case pos of None \<Rightarrow> None | Some p \<Rightarrow> str_find s n p)"

function comma_loop :: "char \<Rightarrow> string \<Rightarrow> nat option \<Rightarrow> string \<times> nat option" where
  "comma_loop close result pos =
     (case find_from result [CHR '','', close] pos of
        None \<Rightarrow> (result, None)
      | Some p \<Rightarrow> comma_loop close (str_replace result p 2 [close]) (Some p))"
  by pat_completeness auto
termination
  by (relation "measure (\<lambda>(close, result, pos). length result)")
     (auto simp: find_from_def str_replace_def split: option.splits dest!: str_find_Some)

declare comment_loop.simps [simp del] comma_loop.simps [simp del]

definition preprocess_json :: "json_config \<Rightarrow> string \<Rightarrow> string" where
  "preprocess_json cfg s =
     (let result = (if \<not> jc_allow_comments cfg then comment_loop s 0 else s)
      in if \<not> jc_allow_trailing_commas cfg
         then let (result, pos) = comma_loop (CHR ''}'') result (Some 0);
                  (result, pos) = comma_loop (CHR '']'') result pos
              in result
         else result)"

datatype json_outcome = Parsed json | Parse_error string | Out_of_range string

definition parse_with_validation :: "(string \<Rightarrow> json_outcome) \<Rightarrow> json_config \<Rightarrow> string \<Rightarrow> json throws" where
  "parse_with_validation jparse cfg s =
     (case jparse (preprocess_json cfg s) of
        Parse_error m \<Rightarrow> Inl (Runtime_error (''JSON parse error: '' @ m))
      | Out_of_range m \<Rightarrow> Inl (Json_error m)
      | Parsed j \<Rightarrow>
          let depth_result = validate_depth cfg j
          in if \<not> jv_is_valid depth_result
             then Inl (Runtime_error (''JSON depth validation failed: '' @ jv_errors depth_result ! 0))
             else Inr j)"

section \<open>JsonParser\<close>

definition json_supports :: "http_request \<Rightarrow> bool" where
  "json_supports req =
     (let content_type = rq_at req ''Content-Type''
      in content_type = ''application/json'' \<or> prefix ''application/json;'' content_type)"

definition json_parse :: "(string \<Rightarrow> json_outcome) \<Rightarrow> json_config \<Rightarrow> http_request \<Rightarrow> json throws" where
  "json_parse jparse cfg req =
     (if jc_max_size cfg < length (rq_body req)
      then Inl (Runtime_error ''JSON size exceeds maximum allowed size'')
      else parse_with_validation jparse cfg (rq_body req))"

interpretation json_body: body_parser "json_parse jparse cfg" "jc_max_size cfg" for jparse cfg
  by unfold_locales
     (auto simp: json_parse_def parse_with_validation_def Let_def split: if_splits json_outcome.splits)

section \<open>Depth\<close>

text \<open>The reference: a path selects children of arrays and objects by position.\<close>

fun children :: "json \<Rightarrow> json list" where
  "children (JObject kvs) = map snd kvs"
| "children (JArray xs) = xs"
| "children _ = []"

fun has_path :: "json \<Rightarrow> nat list \<Rightarrow> bool" where
  "has_path j [] = True"
| "has_path j (i # is) = (i < length (children j) \<and> has_path (children j ! i) is)"

lemma foldl_max_le: "foldl max d xs \<le> n \<longleftrightarrow> d \<le> n \<and> (\<forall>x\<in>set xs. x \<le> (n :: nat))"
  by (induction xs arbitrary: d) auto

lemma calculate_depth_children:
  "calculate_depth j d = foldl max d (map (\<lambda>x. calculate_depth x (d + 1)) (children j))"
  by (cases j) (simp_all add: comp_def)

lemma size_children: "x \<in> set (children j) \<Longrightarrow> size x < size j"
  by (cases j) (auto simp del: json.size simp: size_in_object [of "(k, v)" for k v, simplified] size_in_array)

lemma calculate_depth_le:
  "calculate_depth j d \<le> n \<longleftrightarrow> (\<forall>p. has_path j p \<longrightarrow> d + length p \<le> n)"
proof (induction "size j" arbitrary: j d rule: less_induct)
  case less
  have "calculate_depth j d \<le> n \<longleftrightarrow>
      d \<le> n \<and> (\<forall>x\<in>set (children j). \<forall>p. has_path x p \<longrightarrow> d + 1 + length p \<le> n)"
    using less size_children by (subst calculate_depth_children) (auto simp: foldl_max_le)
  also have "\<dots> \<longleftrightarrow> (\<forall>p. has_path j p \<longrightarrow> d + length p \<le> n)"
  proof (intro iffI allI impI)
    fix p assume A: "d \<le> n \<and> (\<forall>x\<in>set (children j). \<forall>p. has_path x p \<longrightarrow> d + 1 + length p \<le> n)"
      and "has_path j p"
    then show "d + length p \<le> n" by (cases p) auto
  next
    assume B: "\<forall>p. has_path j p \<longrightarrow> d + length p \<le> n"
    have "d + 1 + length p \<le> n" if x: "x \<in> set (children j)" and p: "has_path x p" for x p
    proof -
      from x obtain i where "i < length (children j)" "children j ! i = x" by (auto simp: in_set_conv_nth)
      with p have "has_path j (i # p)" by simp
      with B have "d + length (i # p) \<le> n" by blast
      then show ?thesis by simp
    qed
    moreover have "d + length ([] :: nat list) \<le> n" by (rule B [rule_format]) simp
    ultimately show "d \<le> n \<and> (\<forall>x\<in>set (children j). \<forall>p. has_path x p \<longrightarrow> d + 1 + length p \<le> n)"
      by (metis add_0_right list.size(3))
  qed
  finally show ?case .
qed

section \<open>Preprocessing\<close>

text \<open>The references: one structural pass each.\<close>

abbreviation newline :: char where
  "newline \<equiv> CHR 0x0A"

function strip_comments :: "string \<Rightarrow> string" where
  "strip_comments [] = []"
| "strip_comments (c # cs) =
     (if prefix ''//'' (c # cs) then strip_comments (dropWhile (\<lambda>x. x \<noteq> newline) cs)
      else c # strip_comments cs)"
  by pat_completeness auto
termination
  by (relation "measure length") (auto simp: le_imp_less_Suc length_dropWhile_le)

fun drop_commas :: "string \<Rightarrow> string" where
  "drop_commas [] = []"
| "drop_commas [c] = [c]"
| "drop_commas (c # d # cs) =
     (if c = CHR '','' \<and> d = CHR ''}'' then CHR ''}'' # drop_commas cs else c # drop_commas (d # cs))"

lemma strip_comments_find:
  "strip_comments s = (case find_sub ''//'' s of
     None \<Rightarrow> s | Some p \<Rightarrow> take p s @ strip_comments (dropWhile (\<lambda>x. x \<noteq> newline) (drop p s)))"
  by (induction s) (auto split: option.splits)

lemma dropWhile_newline: "dropWhile (\<lambda>x. x \<noteq> newline) v = (case find_sub [newline] v of None \<Rightarrow> [] | Some e \<Rightarrow> drop e v)"
  by (induction v) (auto split: option.splits)

lemma comment_loop_append: "comment_loop (u @ v) (length u) = u @ strip_comments v"
proof (induction "length v" arbitrary: u v rule: less_induct)
  case less
  show ?case
  proof (cases "find_sub ''//'' v")
    case None
    then show ?thesis
      by (subst comment_loop.simps, subst strip_comments_find) (simp add: str_find_append)
  next
    case (Some p)
    let ?u = "u @ take p v" and ?v = "drop p v"
    from find_sub_Some [OF Some] have p: "p + 2 \<le> length v" and pre: "prefix ''//'' ?v" by auto
    from p have at: "str_find (u @ v) [newline] (length u + p) =
        map_option ((+) (length u + p)) (find_sub [newline] ?v)"
      using str_find_append [of ?u ?v "[newline]"] by simp
    show ?thesis
    proof (cases "find_sub [newline] ?v")
      case None
      with Some at show ?thesis
        by (subst comment_loop.simps, subst strip_comments_find)
           (simp add: str_find_append dropWhile_newline)
    next
      case (Some e)
      from pre find_sub_Some [OF Some] have e: "0 < e" "e < length ?v"
        by (cases e; auto simp: prefix_def)+
      have "comment_loop (u @ v) (length u) = comment_loop (?u @ drop e ?v) (length ?u)"
        using \<open>find_sub ''//'' v = Some p\<close> at Some p
        by (subst comment_loop.simps) (simp add: str_find_append str_erase_def add.commute add.left_commute)
      also have "\<dots> = ?u @ strip_comments (drop e ?v)"
        using e p by (intro less) simp
      finally show ?thesis
        using \<open>find_sub ''//'' v = Some p\<close> Some
        by (subst strip_comments_find) (simp add: dropWhile_newline)
    qed
  qed
qed

lemma drop_commas_find:
  "drop_commas s = (case find_sub '',}'' s of
     None \<Rightarrow> s | Some p \<Rightarrow> take p s @ CHR ''}'' # drop_commas (drop (p + 2) s))"
  by (induction s rule: drop_commas.induct) (auto split: option.splits)

lemma find_sub_skip_brace: "find_sub '',}'' (CHR ''}'' # s) = map_option Suc (find_sub '',}'' s)"
  by simp

lemma comma_loop_append: "comma_loop (CHR ''}'') (u @ v) (Some (length u)) = (u @ drop_commas v, None)"
proof (induction "length v" arbitrary: u v rule: less_induct)
  case less
  show ?case
  proof (cases "find_sub '',}'' v")
    case None
    then show ?thesis
      by (subst comma_loop.simps, subst drop_commas_find) (simp add: str_find_append find_from_def)
  next
    case (Some p)
    let ?u = "u @ take p v" and ?v = "CHR ''}'' # drop (p + 2) v"
    from find_sub_Some [OF Some] have p: "p + 2 \<le> length v" by auto
    have "comma_loop (CHR ''}'') (u @ v) (Some (length u)) = comma_loop (CHR ''}'') (?u @ ?v) (Some (length ?u))"
      using Some p by (subst comma_loop.simps) (simp add: str_find_append find_from_def str_replace_def)
    also have "\<dots> = (?u @ drop_commas ?v, None)" using p by (intro less) simp
    also have "drop_commas ?v = CHR ''}'' # drop_commas (drop (p + 2) v)"
      by (cases "drop (p + 2) v") auto
    finally show ?thesis using Some by (subst drop_commas_find) simp
  qed
qed

text \<open>The position \<open>npos\<close> left by the first comma loop makes the second one do nothing.\<close>

lemma comma_loop_npos: "comma_loop c s None = (s, None)"
  by (subst comma_loop.simps) (simp add: find_from_def)

lemma preprocess_json_eq:
  "preprocess_json cfg s =
     (if jc_allow_trailing_commas cfg then id else drop_commas)
       ((if jc_allow_comments cfg then id else strip_comments) s)"
  using comment_loop_append [of "[]"] comma_loop_append [of "[]"]
  by (simp add: preprocess_json_def comma_loop_npos)

lemma strip_comments_id: "\<not> sublist ''//'' s \<Longrightarrow> strip_comments s = s"
  by (subst strip_comments_find) (simp flip: find_sub_None_iff)

lemma drop_commas_id: "\<not> sublist '',}'' s \<Longrightarrow> drop_commas s = s"
  by (subst drop_commas_find) (simp flip: find_sub_None_iff)

section \<open>Properties\<close>

text \<open>
  What \<open>JsonParser::parse\<close> does on every request, whatever the JSON library does: over
  the size limit it throws before parsing; the library is called on the preprocessed text;
  its \<open>parse_error\<close> is rethrown as \<open>runtime_error\<close>; a document is returned if and only if
  no path into it is longer than \<open>max_depth\<close>, and refused otherwise.
\<close>

theorem json_parse_outcome:
  "(if jc_max_size cfg < length (rq_body req)
    then json_parse jparse cfg req = Inl (Runtime_error ''JSON size exceeds maximum allowed size'')
    else case jparse (preprocess_json cfg (rq_body req)) of
        Parse_error m \<Rightarrow> json_parse jparse cfg req = Inl (Runtime_error (''JSON parse error: '' @ m))
      | Out_of_range m \<Rightarrow> json_parse jparse cfg req = Inl (Json_error m)
      | Parsed j \<Rightarrow>
          if \<exists>p. has_path j p \<and> jc_max_depth cfg < length p
          then \<exists>m. json_parse jparse cfg req = Inl (Runtime_error (''JSON depth validation failed: '' @ m))
          else json_parse jparse cfg req = Inr j)"
proof -
  have "(\<exists>p. has_path j p \<and> jc_max_depth cfg < length p) = (jc_max_depth cfg < calculate_depth j 0)" for j
    using calculate_depth_le [of j 0 "jc_max_depth cfg"] by (auto simp: not_le)
  then show ?thesis
    by (auto simp: json_parse_def parse_with_validation_def validate_depth_def new_validation_def
        add_error_def Let_def split: json_outcome.splits)
qed

text \<open>
  \<open>preprocess_json\<close> equals two structural passes: unless comments are allowed,
  everything from a \<open>//\<close> up to the end of its line is dropped, wherever it stands; unless
  trailing commas are allowed, a comma directly before a closing brace is dropped, and a
  comma before a closing bracket never is. Text with neither is passed on as it is.
\<close>

theorem preprocess_json_reference:
  "preprocess_json cfg s =
     (if jc_allow_trailing_commas cfg then id else drop_commas)
       ((if jc_allow_comments cfg then id else strip_comments) s) \<and>
   (sublist ''//'' s \<or> sublist '',}'' s \<or> preprocess_json cfg s = s)"
  using strip_comments_id [of s] drop_commas_id [of s]
  by (cases "sublist ''//'' s"; cases "sublist '',}'' s") (simp_all add: preprocess_json_eq)

text \<open>With the default configuration a URL inside a string is cut, a trailing comma is repaired.\<close>

lemma preprocess_json_cuts_url:
  "preprocess_json default_json_config ''{u:http://x}'' = ''{u:http:''"
  "preprocess_json default_json_config ''{a:1,}'' = ''{a:1}''"
  "preprocess_json default_json_config ''[1,]'' = ''[1,]''"
  by (simp_all add: preprocess_json_eq default_json_config_def)

end
