(* ===== verification/Plain_Text_Parser.thy ===== *)
theory Plain_Text_Parser
  imports Configs Parser_Interface
begin

text \<open>
  \<open>PlainTextParser\<close> and \<open>PlainTextParserImpl\<close> of src/parser/plaintext_parser.cpp: the
  in-place replacement loops on positions, the trimming loops on indices and the byte-wise
  UTF-8 check, each proved equal to a structural reference definition.
\<close>

unbundle bit_operations_syntax

section \<open>PlainTextParserImpl\<close>

definition default_allowed_types :: "string list" where
  "default_allowed_types = [''text/plain'', ''text/html'', ''text/css'', ''text/javascript'',
     ''text/xml'', ''text/csv'', ''text/markdown'']"

definition new_plain_text_parser :: "plain_text_config \<Rightarrow> plain_text_config" where
  "new_plain_text_parser cfg =
     (if pc_allowed_content_types cfg = [] then cfg\<lparr>pc_allowed_content_types := default_allowed_types\<rparr>
      else cfg)"

definition is_allowed_content_type :: "plain_text_config \<Rightarrow> string \<Rightarrow> bool" where
  "is_allowed_content_type cfg ct =
     (if pc_allowed_content_types cfg = [] then True
      else \<exists>allowed\<in>set (pc_allowed_content_types cfg). ct = allowed \<or> prefix (allowed @ '';'') ct)"

function crlf_loop :: "string \<Rightarrow> nat \<Rightarrow> string" where
  "crlf_loop result pos =
     (case str_find result [CHR 0x0D, CHR 0x0A] pos of
        None \<Rightarrow> result
      | Some p \<Rightarrow> crlf_loop (str_replace result p 2 [CHR 0x0A]) (p + 1))"
  by pat_completeness auto
termination
  by (relation "measure (\<lambda>(result, pos). length result - pos)")
     (auto dest!: str_find_Some simp: str_replace_def)

function cr_loop :: "string \<Rightarrow> nat \<Rightarrow> string" where
  "cr_loop result pos =
     (case str_find result [CHR 0x0D] pos of
        None \<Rightarrow> result
      | Some p \<Rightarrow> cr_loop (str_replace result p 1 [CHR 0x0A]) (p + 1))"
  by pat_completeness auto
termination
  by (relation "measure (\<lambda>(result, pos). length result - pos)")
     (auto dest!: str_find_Some simp: str_replace_def)

declare crlf_loop.simps [simp del] cr_loop.simps [simp del]

definition normalize_line_endings :: "string \<Rightarrow> string" where
  "normalize_line_endings text = cr_loop (crlf_loop text 0) 0"

text \<open>
  The trimming loops. The \<open>size_t\<close> variable \<open>end\<close> is an \<open>int\<close> here, and
  \<open>trim_end_lower\<close> below shows that the decrement never passes below zero.
\<close>

function trim_start_loop :: "string \<Rightarrow> nat \<Rightarrow> int \<Rightarrow> nat" where
  "trim_start_loop text start e =
     (if int start \<le> e \<and> isspace (text ! start) then trim_start_loop text (start + 1) e else start)"
  by pat_completeness auto
termination
  by (relation "measure (\<lambda>(text, start, e). nat (e + 1 - int start))") auto

function trim_end_loop :: "string \<Rightarrow> nat \<Rightarrow> int \<Rightarrow> int" where
  "trim_end_loop text start e =
     (if int start \<le> e \<and> isspace (text ! nat e) then trim_end_loop text start (e - 1) else e)"
  by pat_completeness auto
termination
  by (relation "measure (\<lambda>(text, start, e). nat (e + 1 - int start))") auto

declare trim_start_loop.simps [simp del] trim_end_loop.simps [simp del]

definition trim_whitespace :: "string \<Rightarrow> string" where
  "trim_whitespace text =
     (if text = [] then text
      else let start = trim_start_loop text 0 (int (length text) - 1);
               e = trim_end_loop text start (int (length text) - 1)
           in if e < int start then [] else substr text start (nat (e - int start + 1)))"

text \<open>The loop on the index \<open>i\<close> runs on the bytes from \<open>i\<close> on.\<close>

definition continuation :: "char \<Rightarrow> bool" where
  "continuation c = (byte c AND 0xC0 = 0x80)"

fun is_valid_utf8 :: "string \<Rightarrow> bool" where
  "is_valid_utf8 [] = True"
| "is_valid_utf8 (b # rest) =
     (if byte b < 0x80 then is_valid_utf8 rest
      else if byte b AND 0xE0 = 0xC0 then
        (case rest of c1 # rest' \<Rightarrow> continuation c1 \<and> is_valid_utf8 rest' | _ \<Rightarrow> False)
      else if byte b AND 0xF0 = 0xE0 then
        (case rest of c1 # c2 # rest' \<Rightarrow> continuation c1 \<and> continuation c2 \<and> is_valid_utf8 rest'
         | _ \<Rightarrow> False)
      else if byte b AND 0xF8 = 0xF0 then
        (case rest of c1 # c2 # c3 # rest' \<Rightarrow>
           continuation c1 \<and> continuation c2 \<and> continuation c3 \<and> is_valid_utf8 rest'
         | _ \<Rightarrow> False)
      else False)"

definition process_text :: "plain_text_config \<Rightarrow> string \<Rightarrow> string throws" where
  "process_text cfg text =
     (let result = (if pc_normalize_line_endings cfg then normalize_line_endings text else text);
          result = (if pc_trim_whitespace cfg then trim_whitespace result else result)
      in if pc_validate_encoding cfg \<and> \<not> is_valid_utf8 result
         then Inl (Runtime_error ''Invalid UTF-8 encoding detected'')
         else Inr result)"

section \<open>PlainTextParser\<close>

definition plain_text_supports :: "plain_text_config \<Rightarrow> http_request \<Rightarrow> bool" where
  "plain_text_supports cfg req =
     (let content_type = rq_at req ''Content-Type''
      in if pc_strict_mode cfg then is_allowed_content_type cfg content_type
         else prefix ''text/'' content_type)"

definition plain_text_parse :: "plain_text_config \<Rightarrow> http_request \<Rightarrow> string throws" where
  "plain_text_parse cfg req =
     (if pc_max_size cfg < length (rq_body req)
      then Inl (Runtime_error ''Text size exceeds maximum allowed size'')
      else if pc_strict_mode cfg \<and> \<not> is_allowed_content_type cfg (rq_at req ''Content-Type'')
      then Inl (Runtime_error (''Content type not allowed: '' @ rq_at req ''Content-Type''))
      else process_text cfg (rq_body req))"

interpretation plain_text_body: body_parser "plain_text_parse cfg" "pc_max_size cfg" for cfg
  by unfold_locales (auto simp: plain_text_parse_def process_text_def Let_def split: if_splits)

section \<open>Line endings\<close>

text \<open>The reference: one structural pass.\<close>

fun unix_lines :: "string \<Rightarrow> string" where
  "unix_lines [] = []"
| "unix_lines (c # cs) =
     (if c = CHR 0x0D then
        CHR 0x0A # (case cs of d # ds \<Rightarrow> if d = CHR 0x0A then unix_lines ds else unix_lines cs | [] \<Rightarrow> [])
      else c # unix_lines cs)"

fun crlf_to_lf :: "string \<Rightarrow> string" where
  "crlf_to_lf [] = []"
| "crlf_to_lf [c] = [c]"
| "crlf_to_lf (c # d # cs) =
     (if c = CHR 0x0D \<and> d = CHR 0x0A then CHR 0x0A # crlf_to_lf cs else c # crlf_to_lf (d # cs))"

lemma crlf_to_lf_find:
  "crlf_to_lf s = (case find_sub [CHR 0x0D, CHR 0x0A] s of
     None \<Rightarrow> s | Some p \<Rightarrow> take p s @ CHR 0x0A # crlf_to_lf (drop (p + 2) s))"
  by (induction s rule: crlf_to_lf.induct) (auto split: option.splits)

lemma crlf_loop_append: "crlf_loop (u @ v) (length u) = u @ crlf_to_lf v"
proof (induction "length v" arbitrary: u v rule: less_induct)
  case less
  show ?case
  proof (cases "find_sub [CHR 0x0D, CHR 0x0A] v")
    case None
    then show ?thesis
      by (subst crlf_loop.simps, subst crlf_to_lf_find) (simp add: str_find_append)
  next
    case (Some p)
    let ?u = "u @ take p v @ [CHR 0x0A]" and ?v = "drop (p + 2) v"
    from find_sub_Some [OF Some] have p: "p + 2 \<le> length v" by simp
    have "crlf_loop (u @ v) (length u) = crlf_loop (?u @ ?v) (length ?u)"
      using Some p by (subst crlf_loop.simps) (simp add: str_find_append str_replace_def)
    also have "\<dots> = ?u @ crlf_to_lf ?v" using p by (intro less) simp
    also have "\<dots> = u @ crlf_to_lf v" using Some by (subst (2) crlf_to_lf_find) simp
    finally show ?thesis .
  qed
qed

lemma map_find_char: "map (\<lambda>c. if c = d then e else c) v =
    (case find_sub [d] v of None \<Rightarrow> v | Some p \<Rightarrow> take p v @ e # map (\<lambda>c. if c = d then e else c) (drop (p + 1) v))"
  by (induction v) (auto split: option.splits)

lemma cr_loop_append: "cr_loop (u @ v) (length u) = u @ map (\<lambda>c. if c = CHR 0x0D then CHR 0x0A else c) v"
proof (induction "length v" arbitrary: u v rule: less_induct)
  case less
  let ?f = "map (\<lambda>c. if c = CHR 0x0D then CHR 0x0A else c)"
  show ?case
  proof (cases "find_sub [CHR 0x0D] v")
    case None
    then show ?thesis
      by (subst cr_loop.simps, subst map_find_char) (simp add: str_find_append)
  next
    case (Some p)
    let ?u = "u @ take p v @ [CHR 0x0A]" and ?v = "drop (p + 1) v"
    from find_sub_Some [OF Some] have p: "p + 1 \<le> length v" by simp
    have "cr_loop (u @ v) (length u) = cr_loop (?u @ ?v) (length ?u)"
      using Some p by (subst cr_loop.simps) (simp add: str_find_append str_replace_def)
    also have "\<dots> = ?u @ ?f ?v" using p by (intro less) simp
    also have "\<dots> = u @ ?f v" using Some by (subst (2) map_find_char) simp
    finally show ?thesis .
  qed
qed

lemma crlf_to_lf_Cons: "c \<noteq> CHR 0x0D \<Longrightarrow> crlf_to_lf (c # s) = c # crlf_to_lf s"
  by (cases s) auto

lemma normalize_line_endings_eq: "normalize_line_endings txt0 = unix_lines txt0"
proof -
  have "map (\<lambda>c. if c = CHR 0x0D then CHR 0x0A else c) (crlf_to_lf s) = unix_lines s" for s
    by (induction s rule: crlf_to_lf.induct) (auto simp: crlf_to_lf_Cons)
  then show ?thesis
    using crlf_loop_append [of "[]" txt0] cr_loop_append [of "[]" "crlf_to_lf txt0"]
    by (simp add: normalize_line_endings_def)
qed

lemma unix_lines_no_cr: "CHR 0x0D \<notin> set (unix_lines s)"
  by (induction s rule: unix_lines.induct) (auto split: list.splits)

lemma unix_lines_id: "CHR 0x0D \<notin> set s \<Longrightarrow> unix_lines s = s"
  by (induction s rule: unix_lines.induct) auto

section \<open>Trimming\<close>

lemma trim_start_loop_eq:
  "start \<le> length txt0 \<Longrightarrow>
   trim_start_loop txt0 start (int (length txt0) - 1) =
     start + length (takeWhile isspace (drop start txt0))"
proof (induction "length txt0 - start" arbitrary: start)
  case 0
  then show ?case by (subst trim_start_loop.simps) simp
next
  case (Suc n)
  then have less: "start < length txt0" by simp
  have "drop start txt0 = txt0 ! start # drop (Suc start) txt0"
    using less by (rule Cons_nth_drop_Suc [symmetric])
  with Suc(1) [of "start + 1"] Suc(2) less show ?case
    by (subst trim_start_loop.simps) simp
qed

lemma trim_end_loop_eq:
  "start < n \<Longrightarrow> n \<le> length txt0 \<Longrightarrow> \<not> isspace (txt0 ! start) \<Longrightarrow>
   trim_end_loop txt0 start (int n - 1) =
     int (n - length (takeWhile isspace (rev (take n txt0)))) - 1 \<and>
   start + length (takeWhile isspace (rev (take n txt0))) < n"
proof (induction n)
  case 0
  then show ?case by simp
next
  case (Suc n)
  have take: "take (Suc n) txt0 = take n txt0 @ [txt0 ! n]"
    using Suc.prems by (simp add: take_Suc_conv_app_nth)
  show ?case
  proof (cases "isspace (txt0 ! n)")
    case True
    with Suc.prems have "start < n" by (metis less_SucE)
    with Suc True show ?thesis
      by (subst trim_end_loop.simps) (auto simp: take)
  next
    case False
    with Suc.prems show ?thesis by (subst trim_end_loop.simps) (auto simp: take)
  qed
qed

lemma trim_end_lower:
  "start < length txt0 \<Longrightarrow> \<not> isspace (txt0 ! start) \<Longrightarrow>
   int start \<le> trim_end_loop txt0 start (int (length txt0) - 1)"
  using trim_end_loop_eq [of start "length txt0" txt0] by auto

definition strip_spaces :: "string \<Rightarrow> string" where
  "strip_spaces s = rev (dropWhile isspace (rev (dropWhile isspace s)))"

lemma trim_whitespace_eq: "trim_whitespace txt0 = strip_spaces txt0"
proof (cases "dropWhile isspace txt0 = []")
  case True
  then have tw: "takeWhile isspace txt0 = txt0"
    by (metis append_Nil2 takeWhile_dropWhile_id)
  show ?thesis
  proof (cases "txt0 = []")
    case False
    have "trim_start_loop txt0 0 (int (length txt0) - 1) = length txt0"
      using trim_start_loop_eq [of 0 txt0] tw by simp
    moreover have "trim_end_loop txt0 (length txt0) (int (length txt0) - 1) = int (length txt0) - 1"
      by (subst trim_end_loop.simps) simp
    ultimately show ?thesis using True False
      by (auto simp: trim_whitespace_def strip_spaces_def dest: set_dropWhileD)
  qed (simp add: trim_whitespace_def strip_spaces_def)
next
  case False
  let ?p = "takeWhile isspace txt0" and ?d = "dropWhile isspace txt0"
  let ?k = "length ?p" and ?m = "length (takeWhile isspace (rev txt0))"
  have split: "?p @ ?d = txt0" by simp
  then have len: "?k + length ?d = length txt0" by (metis length_append)
  have "0 < length ?d" using False by (simp only: length_greater_0_conv not_False_eq_True)
  with len have nosp: "?k < length txt0" by linarith
  then have nosp': "\<not> isspace (txt0 ! ?k)" by (rule nth_length_takeWhile)
  have start: "trim_start_loop txt0 0 (int (length txt0) - 1) = ?k"
    using trim_start_loop_eq [of 0 txt0] by simp
  have fin: "trim_end_loop txt0 ?k (int (length txt0) - 1) = int (length txt0 - ?m) - 1"
    and room: "?k + ?m < length txt0"
    using trim_end_loop_eq [OF nosp le_refl nosp'] by auto
  have "rev txt0 = rev ?d @ rev ?p" by (metis rev_append split)
  moreover have "\<exists>x\<in>set (rev ?d). \<not> isspace x"
    using False hd_dropWhile [of isspace txt0] by (metis hd_in_set set_rev)
  ultimately have tw: "takeWhile isspace (rev txt0) = takeWhile isspace (rev ?d)"
    by (metis takeWhile_append1)
  from room have size: "nat (int (length txt0 - ?m) - 1 - int ?k + 1) = length txt0 - ?m - ?k" by simp
  have "txt0 \<noteq> []" using False by auto
  then have "trim_whitespace txt0 = take (length txt0 - ?m - ?k) (drop ?k txt0)"
    using start fin room unfolding trim_whitespace_def Let_def substr_def
    by (simp only: if_False start fin size) simp
  also have "drop ?k txt0 = ?d" by (metis append_eq_conv_conj split)
  also have "take (length txt0 - ?m - ?k) ?d = rev (drop (length (takeWhile isspace (rev ?d))) (rev ?d))"
  proof -
    have "length txt0 - ?m - ?k = length ?d - length (takeWhile isspace (rev ?d))" using len tw by simp
    then show ?thesis by (simp only: rev_drop rev_rev_ident length_rev)
  qed
  also have "\<dots> = strip_spaces txt0"
    by (simp add: strip_spaces_def dropWhile_eq_drop)
  finally show ?thesis .
qed

section \<open>UTF-8\<close>

lemma and_push_mask: "(n :: nat) AND push_bit k (mask m) = 2 ^ k * (n div 2 ^ k mod 2 ^ m)"
proof -
  have "n AND push_bit k (mask m) = push_bit k (take_bit m (drop_bit k n))"
    by (rule bit_eqI) (auto simp: bit_simps)
  then show ?thesis by (simp add: push_bit_eq_mult take_bit_eq_mod drop_bit_eq_div)
qed

lemma lead_bytes:
  "byte c AND 0xC0 = 0x80 \<longleftrightarrow> 128 \<le> byte c \<and> byte c < 192"
  "byte c AND 0xE0 = 0xC0 \<longleftrightarrow> 192 \<le> byte c \<and> byte c < 224"
  "byte c AND 0xF0 = 0xE0 \<longleftrightarrow> 224 \<le> byte c \<and> byte c < 240"
  "byte c AND 0xF8 = 0xF0 \<longleftrightarrow> 240 \<le> byte c \<and> byte c < 248"
proof -
  have less: "byte c < 256" by simp
  have masks: "(0xC0 :: nat) = push_bit 6 (mask 2)" "(0xE0 :: nat) = push_bit 5 (mask 3)"
    "(0xF0 :: nat) = push_bit 4 (mask 4)" "(0xF8 :: nat) = push_bit 3 (mask 5)"
    by (simp_all add: mask_eq_exp_minus_1 push_bit_eq_mult)
  have ands: "byte c AND 0xC0 = 64 * (byte c div 64 mod 4)" "byte c AND 0xE0 = 32 * (byte c div 32 mod 8)"
    "byte c AND 0xF0 = 16 * (byte c div 16 mod 16)" "byte c AND 0xF8 = 8 * (byte c div 8 mod 32)"
    unfolding masks by (simp_all only: and_push_mask) simp_all
  have divs: "byte c div 64 mod 4 = byte c div 64" "byte c div 32 mod 8 = byte c div 32"
    "byte c div 16 mod 16 = byte c div 16" "byte c div 8 mod 32 = byte c div 8"
    by (intro mod_less less_mult_imp_div_less, simp)+
  show "byte c AND 0xC0 = 0x80 \<longleftrightarrow> 128 \<le> byte c \<and> byte c < 192"
    unfolding ands divs using less by auto
  show "byte c AND 0xE0 = 0xC0 \<longleftrightarrow> 192 \<le> byte c \<and> byte c < 224"
    unfolding ands divs using less by auto
  show "byte c AND 0xF0 = 0xE0 \<longleftrightarrow> 224 \<le> byte c \<and> byte c < 240"
    unfolding ands divs using less by auto
  show "byte c AND 0xF8 = 0xF0 \<longleftrightarrow> 240 \<le> byte c \<and> byte c < 248"
    unfolding ands divs using less by auto
qed

text \<open>
  The reference: a string is a sequence of units, a unit being a lead byte and the number
  of continuation bytes (ten-bits \<open>10xxxxxx\<close>) the lead byte announces.
\<close>

fun utf8_unit :: "string \<Rightarrow> bool" where
  "utf8_unit [] = False"
| "utf8_unit (b # cs) =
     ((\<forall>c\<in>set cs. 128 \<le> byte c \<and> byte c < 192) \<and>
      (byte b < 128 \<and> length cs = 0 \<or> 192 \<le> byte b \<and> byte b < 224 \<and> length cs = 1 \<or>
       224 \<le> byte b \<and> byte b < 240 \<and> length cs = 2 \<or> 240 \<le> byte b \<and> byte b < 248 \<and> length cs = 3))"

lemma utf8_units:
  "utf8_unit [b] \<longleftrightarrow> byte b < 128"
  "utf8_unit [b, c] \<longleftrightarrow> 192 \<le> byte b \<and> byte b < 224 \<and> continuation c"
  "utf8_unit [b, c, d] \<longleftrightarrow> 224 \<le> byte b \<and> byte b < 240 \<and> continuation c \<and> continuation d"
  "utf8_unit [b, c, d, e] \<longleftrightarrow>
     240 \<le> byte b \<and> byte b < 248 \<and> continuation c \<and> continuation d \<and> continuation e"
  by (auto simp: continuation_def lead_bytes)

lemma utf8_unit_shape:
  assumes "utf8_unit u"
  obtains b where "u = [b]" | b c where "u = [b, c]" | b c d where "u = [b, c, d]"
    | b c d e where "u = [b, c, d, e]"
proof -
  from assms obtain b cs where u: "u = b # cs" by (cases u) auto
  with assms have "length cs \<in> {0, 1, 2, 3}" by auto
  then consider "cs = []" | c where "cs = [c]" | c d where "cs = [c, d]" | c d e where "cs = [c, d, e]"
    by (auto simp: length_Suc_conv numeral_eq_Suc)
  then show ?thesis using u that by cases auto
qed

lemma is_valid_utf8_unit: "utf8_unit u \<Longrightarrow> is_valid_utf8 (u @ s) = is_valid_utf8 s"
proof -
  assume u: "utf8_unit u"
  from u show ?thesis
  proof (cases rule: utf8_unit_shape)
    case (1 b)
    with u show ?thesis by simp
  next
    case (2 b c)
    with u show ?thesis by (simp only: utf8_units) (simp add: lead_bytes)
  next
    case (3 b c d)
    with u show ?thesis by (simp only: utf8_units) (simp add: lead_bytes)
  next
    case (4 b c d e)
    with u show ?thesis by (simp only: utf8_units) (simp add: lead_bytes)
  qed
qed

lemma is_valid_utf8_split:
  "is_valid_utf8 s \<Longrightarrow> \<exists>us. s = concat us \<and> (\<forall>u\<in>set us. utf8_unit u)"
proof (induction "length s" arbitrary: s rule: less_induct)
  case less
  have step: ?case if "s = u @ t" "utf8_unit u" "is_valid_utf8 t" for u t
  proof -
    from that(1,2) have "length t < length s" by (cases u) auto
    from less(1) [OF this that(3)] obtain us where "t = concat us" "\<forall>u\<in>set us. utf8_unit u" by blast
    with that have "s = concat (u # us) \<and> (\<forall>u\<in>set (u # us). utf8_unit u)" by simp
    then show ?thesis by blast
  qed
  show ?case
  proof (cases s)
    case Nil
    then have "s = concat [] \<and> (\<forall>u\<in>set []. utf8_unit u)" by simp
    then show ?thesis by blast
  next
    case (Cons b r)
    consider "byte b < 128" | "128 \<le> byte b" "byte b < 192" | "192 \<le> byte b" "byte b < 224"
      | "224 \<le> byte b" "byte b < 240" | "240 \<le> byte b" "byte b < 248" | "248 \<le> byte b" by linarith
    then show ?thesis
    proof cases
      case 1
      with less(2) Cons show ?thesis by (intro step [of "[b]" r]) simp_all
    next
      case 3
      with less(2) Cons obtain c t where "r = c # t" "continuation c" "is_valid_utf8 t"
        by (auto simp: lead_bytes split: list.splits)
      with 3 Cons show ?thesis by (intro step [of "[b, c]" t]) (simp_all only: utf8_units, simp_all)
    next
      case 4
      with less(2) Cons obtain c d t where
        "r = c # d # t" "continuation c" "continuation d" "is_valid_utf8 t"
        by (auto simp: lead_bytes split: list.splits)
      with 4 Cons show ?thesis by (intro step [of "[b, c, d]" t]) (simp_all only: utf8_units, simp_all)
    next
      case 5
      with less(2) Cons obtain c d e t where
        "r = c # d # e # t" "continuation c" "continuation d" "continuation e" "is_valid_utf8 t"
        by (auto simp: lead_bytes split: list.splits)
      with 5 Cons show ?thesis by (intro step [of "[b, c, d, e]" t]) (simp_all only: utf8_units, simp_all)
    qed (use less(2) Cons in \<open>simp_all add: lead_bytes\<close>)
  qed
qed

lemma is_valid_utf8_concat: "\<forall>u\<in>set us. utf8_unit u \<Longrightarrow> is_valid_utf8 (concat us)"
  by (induction us) (auto simp: is_valid_utf8_unit)

lemma is_valid_utf8_iff: "is_valid_utf8 s \<longleftrightarrow> (\<exists>us. s = concat us \<and> (\<forall>u\<in>set us. utf8_unit u))"
  using is_valid_utf8_split is_valid_utf8_concat by blast

text \<open>The encoding of a code point (RFC 3629).\<close>

definition utf8_encode :: "nat \<Rightarrow> string" where
  "utf8_encode cp = map char_of
     (if cp < 0x80 then [cp]
      else if cp < 0x800 then [0xC0 + cp div 0x40, 0x80 + cp mod 0x40]
      else if cp < 0x10000 then [0xE0 + cp div 0x1000, 0x80 + cp div 0x40 mod 0x40, 0x80 + cp mod 0x40]
      else [0xF0 + cp div 0x40000, 0x80 + cp div 0x1000 mod 0x40, 0x80 + cp div 0x40 mod 0x40,
            0x80 + cp mod 0x40])"

lemma mod64_bound: "(128 + a mod 64 :: nat) mod 256 = 128 + a mod 64"
  by (rule mod_less) (simp add: less_le_trans [OF mod_less_divisor])

lemma utf8_encode_unit: "cp < 0x200000 \<Longrightarrow> utf8_unit (utf8_encode cp)"
proof -
  assume cp: "cp < 0x200000"
  have "cp < 0x800 \<Longrightarrow> cp div 64 < 32" "cp < 0x10000 \<Longrightarrow> cp div 4096 < 16" "cp div 0x40000 < 8"
    using cp by simp_all
  then show ?thesis by (auto simp: utf8_encode_def mod64_bound)
qed

section \<open>Properties\<close>

text \<open>
  What \<open>PlainTextParser::parse\<close> returns on every request: the size and content-type
  checks throw in this order; otherwise the body, with CRLF and lone CR turned into LF by
  one structural pass when configured, stripped of surrounding whitespace when configured,
  is refused exactly when encoding validation is on and it is not a sequence of UTF-8
  units (a lead byte with the continuation bytes it announces).
\<close>

theorem plain_text_parse_reference:
  "plain_text_parse cfg req =
     (if pc_max_size cfg < length (rq_body req)
      then Inl (Runtime_error ''Text size exceeds maximum allowed size'')
      else if pc_strict_mode cfg \<and> \<not> is_allowed_content_type cfg (rq_at req ''Content-Type'')
      then Inl (Runtime_error (''Content type not allowed: '' @ rq_at req ''Content-Type''))
      else let t = (if pc_trim_whitespace cfg then strip_spaces else id)
                    ((if pc_normalize_line_endings cfg then unix_lines else id) (rq_body req))
           in if pc_validate_encoding cfg \<and> (\<nexists>us. t = concat us \<and> us \<in> lists {u. utf8_unit u})
              then Inl (Runtime_error ''Invalid UTF-8 encoding detected'') else Inr t)"
proof -
  have "(\<exists>us. t = concat us \<and> us \<in> lists {u. utf8_unit u}) = is_valid_utf8 t" for t
    by (auto simp: is_valid_utf8_iff lists_eq_set)
  then show ?thesis
    by (simp add: plain_text_parse_def process_text_def normalize_line_endings_eq
        trim_whitespace_eq Let_def)
qed

text \<open>
  Text that is properly encoded survives: for a body that is the UTF-8 encoding of any
  sequence of code points, without carriage returns and within the size limit, the
  non-strict parser with the default switches returns the body unchanged.
\<close>

theorem plain_text_parse_accepts:
  assumes "rq_body req = concat (map utf8_encode cps)" and "\<forall>cp\<in>set cps. cp < 0x110000 \<and> cp \<noteq> 13"
    and "length (rq_body req) \<le> pc_max_size default_plain_text_config"
  shows "plain_text_parse default_plain_text_config req = Inr (rq_body req)"
proof -
  have "CHR 0x0D \<notin> set (utf8_encode cp)" if "cp < 0x110000" "cp \<noteq> 13" for cp
  proof -
    have "cp < 0x800 \<Longrightarrow> cp div 64 < 32" "cp < 0x10000 \<Longrightarrow> cp div 4096 < 16" "cp div 0x40000 < 8"
      using that by simp_all
    moreover have "x \<noteq> CHR 0x0D" if "byte x \<noteq> 13" for x using that by (auto simp: byte_def)
    ultimately show ?thesis using that
      by (auto simp: utf8_encode_def simp flip: byte_inject) (auto simp: byte_def mod64_bound)
  qed
  with assms have "CHR 0x0D \<notin> set (rq_body req)" by auto
  moreover have "is_valid_utf8 (rq_body req)"
    unfolding assms(1) using assms(2) by (intro is_valid_utf8_concat) (auto intro!: utf8_encode_unit)
  ultimately show ?thesis using assms(3)
    by (simp add: plain_text_parse_def process_text_def normalize_line_endings_eq unix_lines_id
        default_plain_text_config_def)
qed

theorem plain_text_parse_accepts_witness:
  "plain_text_parse default_plain_text_config
     (make_request Verb_post ''/'' [] (concat (map utf8_encode [104, 233, 0x20AC, 0x1F98A]))) =
   Inr (concat (map utf8_encode [104, 233, 0x20AC, 0x1F98A]))"
  using plain_text_parse_accepts
    [of "make_request Verb_post ''/'' [] (concat (map utf8_encode [104, 233, 0x20AC, 0x1F98A]))"
        "[104, 233, 0x20AC, 0x1F98A]"]
  by (simp add: utf8_encode_def default_plain_text_config_def)

text \<open>
  The check is on the shape of the units only: the two-byte encoding of code point 0, the
  surrogate U+D800 and a four-byte unit above U+10FFFF all pass.
\<close>

lemma utf8_overlong_accepted:
  "is_valid_utf8 [CHR 0xC0, CHR 0x80]" "is_valid_utf8 [CHR 0xED, CHR 0xA0, CHR 0x80]"
  "is_valid_utf8 [CHR 0xF7, CHR 0xBF, CHR 0xBF, CHR 0xBF]"
  by (simp_all add: lead_bytes continuation_def byte_def)

end
