(* ===== verification/Middleware.thy ===== *)
theory Middleware
  imports Request_Context
begin

text \<open>
  src/middleware/middleware.cpp and basic/functional_middleware.cpp: what a middleware is,
  the default asynchronous operator, the conditional wrapper, functional middlewares and
  their builder. A middleware body is a program that may call \<open>next()\<close> and, when
  asynchronous, the completion callback, any number of times; the chain interprets these
  calls.
\<close>

section \<open>Priorities\<close>

datatype mw_priority = Lowest | Low | Normal | High | Highest

fun priority_value :: "mw_priority \<Rightarrow> int" where
  "priority_value Lowest = - 1000"
| "priority_value Low = - 100"
| "priority_value Normal = 0"
| "priority_value High = 100"
| "priority_value Highest = 1000"

instantiation mw_priority :: linorder
begin

definition less_eq_mw_priority :: "mw_priority \<Rightarrow> mw_priority \<Rightarrow> bool" where
  "less_eq_mw_priority a b = (priority_value a \<le> priority_value b)"

definition less_mw_priority :: "mw_priority \<Rightarrow> mw_priority \<Rightarrow> bool" where
  "less_mw_priority a b = (priority_value a < priority_value b)"

instance
proof
  fix x y z :: mw_priority
  show "(x < y) = (x \<le> y \<and> \<not> y \<le> x)" by (auto simp: less_eq_mw_priority_def less_mw_priority_def)
  show "x \<le> x" by (simp add: less_eq_mw_priority_def)
  show "x \<le> y \<Longrightarrow> y \<le> z \<Longrightarrow> x \<le> z" by (simp add: less_eq_mw_priority_def)
  show "x \<le> y \<Longrightarrow> y \<le> x \<Longrightarrow> x = y"
    by (cases x; cases y) (simp_all add: less_eq_mw_priority_def)
  show "x \<le> y \<or> y \<le> x" by (auto simp: less_eq_mw_priority_def)
qed

end

section \<open>Statistics\<close>

record mw_stats =
  ms_execution_count :: nat
  ms_total_time :: int
  ms_error_count :: nat
  ms_timeout_count :: nat

definition reset_stats :: mw_stats where
  "reset_stats = \<lparr>ms_execution_count = 0, ms_total_time = 0, ms_error_count = 0, ms_timeout_count = 0\<rparr>"

section \<open>Programs\<close>

text \<open>
  What a middleware works on: the request context, the response, the monotonic clock in
  microseconds, and whatever else (its own members, other requests) as \<open>'x\<close>.
\<close>

record 'x world =
  w_ctx :: request_context
  w_res :: http_response
  w_now :: int
  w_ext :: 'x

datatype mw_result = R_Continue | R_Stop | R_Error | R_Timeout

text \<open>
  A body returns, throws, or calls \<open>next()\<close> and goes on with the world it finds then. An
  asynchronous body may also call the completion callback. Bodies do not catch what
  \<open>next()\<close> throws: every \<open>std::exception\<close> is caught by the chain before it gets there.
\<close>

datatype 'x mw_prog =
    Done "'x world"
  | Raise cpp_exn "'x world"
  | Call_next "'x world" "'x world \<Rightarrow> 'x mw_prog"

datatype 'x async_prog =
    A_Done "'x world"
  | A_Raise cpp_exn "'x world"
  | A_Next "'x world" "'x world \<Rightarrow> 'x async_prog"
  | A_Callback mw_result string "'x world" "'x world \<Rightarrow> 'x async_prog"

record 'x middleware =
  mw_id :: nat
  mw_name :: string
  mw_priority :: mw_priority
  mw_timeout :: int
  mw_should_execute :: "request_context \<Rightarrow> bool"
  mw_sync :: "'x world \<Rightarrow> 'x mw_prog"
  mw_async :: "'x world \<Rightarrow> 'x async_prog"

text \<open>
  The default asynchronous operator: the synchronous body, then the callback with
  \<open>Continue\<close>; an exception of the standard hierarchy becomes the callback with \<open>Error\<close>.
\<close>

primrec default_async :: "'x mw_prog \<Rightarrow> 'x async_prog" where
  "default_async (Done w) = A_Callback R_Continue [] w A_Done"
| "default_async (Raise e w) =
     (if is_std_exception e then A_Callback R_Error (what e) w A_Done else A_Raise e w)"
| "default_async (Call_next w k) = A_Next w (\<lambda>w. default_async (k w))"

text \<open>The defaults of the base class.\<close>

definition base_middleware :: "nat \<Rightarrow> ('x world \<Rightarrow> 'x mw_prog) \<Rightarrow> 'x middleware" where
  "base_middleware i f =
     \<lparr>mw_id = i, mw_name = ''AnonymousMiddleware'', mw_priority = Normal, mw_timeout = 0,
      mw_should_execute = (\<lambda>_. True), mw_sync = f, mw_async = (\<lambda>w. default_async (f w))\<rparr>"

section \<open>ConditionalMiddleware\<close>

definition conditional_middleware :: "'x middleware \<Rightarrow> (request_context \<Rightarrow> bool) \<Rightarrow> 'x middleware" where
  "conditional_middleware m cond =
     m\<lparr>mw_name := ''Conditional('' @ mw_name m @ '')'', mw_should_execute := cond,
       mw_sync := (\<lambda>w. if cond (w_ctx w) then mw_sync m w else Call_next w Done),
       mw_async := (\<lambda>w. if cond (w_ctx w) then mw_async m w
                        else A_Next w (\<lambda>w. A_Callback R_Continue [] w A_Done))\<rparr>"

section \<open>FunctionalMiddleware and MiddlewareBuilder\<close>

text \<open>An empty \<open>std::function\<close> is \<open>None\<close>; calling it throws \<open>std::bad_function_call\<close>.\<close>

definition functional_middleware ::
  "nat \<Rightarrow> string \<Rightarrow> ('x world \<Rightarrow> 'x mw_prog) option \<Rightarrow> ('x world \<Rightarrow> 'x async_prog) option \<Rightarrow>
   (request_context \<Rightarrow> bool) option \<Rightarrow> mw_priority \<Rightarrow> int \<Rightarrow> 'x middleware" where
  "functional_middleware i name sync_func async_func cond prio timeout =
     (let sync = (\<lambda>w. case sync_func of Some f \<Rightarrow> f w | None \<Rightarrow> Raise (Logic_error ''bad_function_call'') w)
      in \<lparr>mw_id = i, mw_name = name, mw_priority = prio, mw_timeout = timeout,
          mw_should_execute = (case cond of Some c \<Rightarrow> c | None \<Rightarrow> (\<lambda>_. True)),
          mw_sync = sync,
          mw_async = (case async_func of Some f \<Rightarrow> f | None \<Rightarrow> (\<lambda>w. default_async (sync w)))\<rparr>)"

text \<open>
  The builder's constructor leaves \<open>priority_\<close> and \<open>timeout_\<close> uninitialised: they are
  arguments of the model until set.
\<close>

record 'x middleware_builder =
  mb_name :: string
  mb_sync_func :: "('x world \<Rightarrow> 'x mw_prog) option"
  mb_async_func :: "('x world \<Rightarrow> 'x async_prog) option"
  mb_condition :: "(request_context \<Rightarrow> bool) option"
  mb_priority :: mw_priority
  mb_timeout :: int

definition new_builder :: "mw_priority \<Rightarrow> int \<Rightarrow> 'x middleware_builder" where
  "new_builder uninit_priority uninit_timeout =
     \<lparr>mb_name = [], mb_sync_func = None, mb_async_func = None, mb_condition = None,
      mb_priority = uninit_priority, mb_timeout = uninit_timeout\<rparr>"

definition mb_set_name :: "string \<Rightarrow> 'x middleware_builder \<Rightarrow> 'x middleware_builder" where
  "mb_set_name name b = b\<lparr>mb_name := name\<rparr>"

definition mb_set_priority :: "mw_priority \<Rightarrow> 'x middleware_builder \<Rightarrow> 'x middleware_builder" where
  "mb_set_priority p b = b\<lparr>mb_priority := p\<rparr>"

definition mb_set_timeout :: "int \<Rightarrow> 'x middleware_builder \<Rightarrow> 'x middleware_builder" where
  "mb_set_timeout t b = b\<lparr>mb_timeout := t\<rparr>"

definition mb_set_sync_func :: "('x world \<Rightarrow> 'x mw_prog) \<Rightarrow> 'x middleware_builder \<Rightarrow> 'x middleware_builder" where
  "mb_set_sync_func f b = b\<lparr>mb_sync_func := Some f\<rparr>"

definition mb_set_async_func :: "('x world \<Rightarrow> 'x async_prog) \<Rightarrow> 'x middleware_builder \<Rightarrow> 'x middleware_builder" where
  "mb_set_async_func f b = b\<lparr>mb_async_func := Some f\<rparr>"

definition mb_set_condition :: "(request_context \<Rightarrow> bool) \<Rightarrow> 'x middleware_builder \<Rightarrow> 'x middleware_builder" where
  "mb_set_condition c b = b\<lparr>mb_condition := Some c\<rparr>"

definition build :: "nat \<Rightarrow> 'x middleware_builder \<Rightarrow> 'x middleware" where
  "build i b = functional_middleware i (mb_name b) (mb_sync_func b) (mb_async_func b) (mb_condition b)
     (mb_priority b) (mb_timeout b)"

end
