(* ===== verification/Body_Middleware.thy ===== *)
theory Body_Middleware
  imports Json_Parser Plain_Text_Parser Middleware
begin

text \<open>
  src/middleware/basic/body_parser_middleware.cpp: parses the body by its content type with
  the parsers registered in \<open>ParserFactory\<close> and stores the result in the context.
\<close>

section \<open>The factory\<close>

text \<open>
  The registry of the singleton, split by result type, with the registrations that the four
  parser headers make. The JSON grammar is \<open>nlohmann::json\<close>'s, a parameter.
\<close>

record parser_factory =
  pf_json :: "(string, json) parser_registry"
  pf_form :: "(string, form_data) parser_registry"
  pf_multipart :: "(string, multipart_field list) parser_registry"
  pf_text :: "(string, string) parser_registry"

definition json_holder :: "(string \<Rightarrow> json_outcome) \<Rightarrow> json parser_holder" where
  "json_holder jparse = \<lparr>ph_name = ''json'', ph_content_type = ''application/json'', ph_supports = json_supports,
     ph_parse = json_parse jparse default_json_config\<rparr>"

definition form_holder :: "form_data parser_holder" where
  "form_holder = \<lparr>ph_name = ''form'', ph_content_type = ''application/x-www-form-urlencoded'',
     ph_supports = form_supports, ph_parse = form_parse default_form_config\<rparr>"

definition multipart_holder :: "multipart_field list parser_holder" where
  "multipart_holder = \<lparr>ph_name = ''multipart'', ph_content_type = ''multipart/form-data'',
     ph_supports = multipart_supports, ph_parse = multipart_parse\<rparr>"

definition text_holder :: "string parser_holder" where
  "text_holder = (let cfg = new_plain_text_parser default_plain_text_config
     in \<lparr>ph_name = ''plaintext'', ph_content_type = ''text/plain'',
         ph_supports = plain_text_supports cfg, ph_parse = plain_text_parse cfg\<rparr>)"

definition default_factory :: "(string \<Rightarrow> json_outcome) \<Rightarrow> parser_factory" where
  "default_factory jparse =
     \<lparr>pf_json = register_parser ''nlohmann::json'' (json_holder jparse) Map.empty,
      pf_form = register_parser ''FormData'' form_holder Map.empty,
      pf_multipart = register_parser ''MultipartData'' multipart_holder Map.empty,
      pf_text = register_parser ''std::string'' text_holder Map.empty\<rparr>"

section \<open>handle_body\<close>

definition content_type_base :: "string \<Rightarrow> string" where
  "content_type_base raw =
     (let s = (case find_sub '';'' raw of Some pos \<Rightarrow> take pos raw | None \<Rightarrow> raw)
      in to_lower (rev (dropWhile isspace (rev (dropWhile isspace s)))))"

text \<open>One branch: the best parser of the type, its \<open>supports\<close>, its \<open>parse\<close>, the store.\<close>

definition parse_and_store ::
  "(string, 'a) parser_registry \<Rightarrow> string \<Rightarrow> ('a \<Rightarrow> request_context \<Rightarrow> request_context) \<Rightarrow> request_context \<Rightarrow>
   request_context throws" where
  "parse_and_store reg key store ctx =
     (case get_best reg key (rc_req ctx) of
        Inl e \<Rightarrow> Inl e
      | Inr p \<Rightarrow> if \<not> ph_supports p (rc_req ctx) then Inr ctx
                 else case ph_parse p (rc_req ctx) of Inl e \<Rightarrow> Inl e | Inr v \<Rightarrow> Inr (store v ctx))"

definition parse_by_type :: "parser_factory \<Rightarrow> string \<Rightarrow> request_context \<Rightarrow> request_context throws" where
  "parse_by_type pf base ctx =
     (if base = ''application/json''
      then parse_and_store (pf_json pf) ''nlohmann::json'' (\<lambda>j. set_parsed_body ''nlohmann::json'' (Any_json j)) ctx
      else if base = ''application/x-www-form-urlencoded''
      then parse_and_store (pf_form pf) ''FormData'' (\<lambda>d. ctx_set ''foxhttp.body.form'' (Any_form d)) ctx
      else if prefix ''multipart/'' base
      then parse_and_store (pf_multipart pf) ''MultipartData'' (\<lambda>d. ctx_set ''foxhttp.body.multipart'' (Any_multipart d)) ctx
      else if prefix ''text/'' base
      then parse_and_store (pf_text pf) ''std::string'' (\<lambda>s. set_parsed_body ''std::string'' (Any_string s)) ctx
      else Inr ctx)"

definition bad_request :: "cpp_exn \<Rightarrow> http_response \<Rightarrow> http_response" where
  "bad_request e res =
     res_prepare_payload (res_set_body (what e) (res_set ''Content-Type'' ''text/plain; charset=utf-8'' (res_result 400 res)))"

text \<open>The flag of the result says whether the pipeline stops.\<close>

definition handle_body ::
  "bool \<Rightarrow> parser_factory \<Rightarrow> request_context \<Rightarrow> http_response \<Rightarrow> (bool \<times> request_context \<times> http_response) throws" where
  "handle_body bad_request_on_error pf ctx res =
     (if rq_body (rc_req ctx) = [] then Inr (False, ctx, res)
      else let ct_raw = ctx_header ctx ''Content-Type'' []
           in if ct_raw = [] then Inr (False, ctx, res)
              else case parse_by_type pf (content_type_base ct_raw) ctx of
                     Inr ctx' \<Rightarrow> Inr (False, ctx', res)
                   | Inl e \<Rightarrow> if \<not> is_std_exception e then Inl e
                              else if bad_request_on_error then Inr (True, ctx, bad_request e res)
                              else Inr (False, ctx, res))"

section \<open>The operators\<close>

definition body_sync :: "bool \<Rightarrow> parser_factory \<Rightarrow> 'x world \<Rightarrow> 'x mw_prog" where
  "body_sync b pf w =
     (case handle_body b pf (w_ctx w) (w_res w) of
        Inl e \<Rightarrow> Raise e w
      | Inr (stop, ctx, res) \<Rightarrow>
          let w = w\<lparr>w_ctx := ctx, w_res := res\<rparr> in if stop then Done w else Call_next w Done)"

definition body_async :: "bool \<Rightarrow> parser_factory \<Rightarrow> 'x world \<Rightarrow> 'x async_prog" where
  "body_async b pf w =
     (case handle_body b pf (w_ctx w) (w_res w) of
        Inl e \<Rightarrow> A_Raise e w
      | Inr (stop, ctx, res) \<Rightarrow>
          let w = w\<lparr>w_ctx := ctx, w_res := res\<rparr>
          in if stop then A_Callback R_Stop [] w A_Done
             else A_Next w (\<lambda>w. A_Callback R_Continue [] w A_Done))"

definition body_mw :: "nat \<Rightarrow> string \<Rightarrow> bool \<Rightarrow> parser_factory \<Rightarrow> 'x middleware" where
  "body_mw i name b pf = (base_middleware i (body_sync b pf))\<lparr>mw_name := name, mw_async := body_async b pf\<rparr>"

section \<open>Lemmas\<close>

lemma best_default:
  "get_best (register_parser k h Map.empty) k req =
     (if ph_supports h req then Inr h else Inl (Runtime_error ''No suitable parser supports this request''))"
  by (simp add: get_best_def register_parser_def)

lemma store_default:
  "parse_and_store (register_parser k h Map.empty) k store ctx =
     (if ph_supports h (rc_req ctx) then (case ph_parse h (rc_req ctx) of Inl e \<Rightarrow> Inl e | Inr v \<Rightarrow> Inr (store v ctx))
      else Inl (Runtime_error ''No suitable parser supports this request''))"
  by (simp add: parse_and_store_def best_default)

lemma store_default_std:
  assumes "\<And>e. ph_parse h (rc_req ctx) = Inl e \<Longrightarrow> is_std_exception e"
    and "parse_and_store (register_parser k h Map.empty) k store ctx = Inl e"
  shows "is_std_exception e"
  using assms by (auto simp: store_default split: if_splits sum.splits)

text \<open>Every failure of the registered parsers is a standard exception (their interface).\<close>

lemma default_factory_std:
  assumes "parse_by_type (default_factory jparse) base ctx = Inl e"
  shows "is_std_exception e"
proof -
  have j: "is_std_exception e" if "ph_parse (json_holder jparse) (rc_req ctx) = Inl e" for e
    using that json_body.failure_caught by (simp add: json_holder_def)
  have f: "is_std_exception e" if "ph_parse form_holder (rc_req ctx) = Inl e" for e
    using that form_body.failure_caught by (simp add: form_holder_def)
  have m: "is_std_exception e" if "ph_parse multipart_holder (rc_req ctx) = Inl e" for e
    using that by (simp add: multipart_holder_def multipart_parse_def Let_def)
  have t: "is_std_exception e" if "ph_parse text_holder (rc_req ctx) = Inl e" for e
    using that plain_text_body.failure_caught by (simp add: text_holder_def Let_def)
  show ?thesis
    using assms store_default_std [OF j] store_default_std [OF f] store_default_std [OF m] store_default_std [OF t]
    by (simp add: parse_by_type_def default_factory_def split: if_splits)
qed

lemma content_type_bases:
  "content_type_base ''application/json'' = ''application/json''"
  "content_type_base ''application/x-www-form-urlencoded'' = ''application/x-www-form-urlencoded''"
  "content_type_base ''text/plain'' = ''text/plain''"
  by code_simp+

section \<open>Properties\<close>

text \<open>
  C36: with the registered parsers no request makes the body middleware throw: either the
  pipeline goes on with the response untouched, or (only if configured so) it stops with a
  400 whose context is the one the request came with.
\<close>

theorem body_parsing_contained:
  "\<exists>stop ctx' res'. handle_body b (default_factory jparse) ctx res = Inr (stop, ctx', res') \<and>
     (if stop then b \<and> ctx' = ctx \<and> rs_status res' = 400 \<and> rs_prepared res' else res' = res)"
  using default_factory_std
  by (auto simp: handle_body_def bad_request_def Let_def split: sum.splits)

lemma json_body_handled:
  assumes "rq_body (rc_req ctx) \<noteq> []" and "rq_find (rc_req ctx) ''Content-Type'' = Some ''application/json''"
  shows "handle_body True (default_factory jparse) ctx res =
    (case json_parse jparse default_json_config (rc_req ctx) of
       Inl e \<Rightarrow> Inr (True, ctx, bad_request e res)
     | Inr j \<Rightarrow> Inr (False, set_parsed_body ''nlohmann::json'' (Any_json j) ctx, res))"
proof -
  have h: "ctx_header ctx ''Content-Type'' [] = ''application/json''" "rq_at (rc_req ctx) ''Content-Type'' = ''application/json''"
    using assms by (simp_all add: ctx_header_def rq_at_def)
  have "is_std_exception e" if "parse_by_type (default_factory jparse) (content_type_base ''application/json'') ctx = Inl e" for e
    using that by (rule default_factory_std)
  moreover have "json_supports (rc_req ctx)" by (simp add: json_supports_def h)
  ultimately show ?thesis
    by (auto simp: handle_body_def parse_by_type_def default_factory_def store_default assms h content_type_bases json_holder_def Let_def
        split: sum.splits)
qed

text \<open>
  A JSON, form or plain-text body ends up in the context as exactly what the parser of that
  type returns, form data under its own key, JSON and text as the parsed body of their type; a
  parser failure is answered with its message.
\<close>

theorem body_reaches_handler:
  assumes "rq_body req \<noteq> []" and "rc_req ctx = req" and "rq_find req ''Content-Type'' = Some ct"
  shows "(ct = ''application/json'' \<longrightarrow>
     handle_body True (default_factory jparse) ctx res =
       (case json_parse jparse default_json_config req of
          Inl e \<Rightarrow> Inr (True, ctx, bad_request e res)
        | Inr j \<Rightarrow> Inr (False, set_parsed_body ''nlohmann::json'' (Any_json j) ctx, res))) \<and>
   (ct = ''application/x-www-form-urlencoded'' \<longrightarrow>
     handle_body True (default_factory jparse) ctx res =
       (case form_parse default_form_config req of
          Inl e \<Rightarrow> Inr (True, ctx, bad_request e res)
        | Inr d \<Rightarrow> Inr (False, ctx_set ''foxhttp.body.form'' (Any_form d) ctx, res))) \<and>
   (ct = ''text/plain'' \<longrightarrow>
     handle_body True (default_factory jparse) ctx res =
       (case plain_text_parse (new_plain_text_parser default_plain_text_config) req of
          Inl e \<Rightarrow> Inr (True, ctx, bad_request e res)
        | Inr s \<Rightarrow> Inr (False, set_parsed_body ''std::string'' (Any_string s) ctx, res)))"
proof -
  have h: "ctx_header ctx ''Content-Type'' [] = ct" "rq_at req ''Content-Type'' = ct"
    using assms by (simp_all add: ctx_header_def rq_at_def)
  have std: "is_std_exception e" if "parse_by_type (default_factory jparse) (content_type_base ct) ctx = Inl e" for e
    using that by (rule default_factory_std)
  note defs = handle_body_def parse_by_type_def default_factory_def store_default assms(1,2) h content_type_bases
  have "ct = ''application/x-www-form-urlencoded'' \<Longrightarrow> form_supports req" by (simp add: form_supports_def h)
  moreover have "ct = ''text/plain'' \<Longrightarrow> plain_text_supports (new_plain_text_parser default_plain_text_config) req"
    by (simp add: plain_text_supports_def is_allowed_content_type_def new_plain_text_parser_def default_allowed_types_def
        default_plain_text_config_def h)
  ultimately show ?thesis
    using std json_body_handled [of ctx jparse res] assms
    by (auto simp: defs form_holder_def text_holder_def Let_def split: sum.splits)
qed

theorem body_reaches_handler_witness:
  "handle_body True (default_factory (\<lambda>_. Parse_error ''x''))
     (new_request_context (make_request Verb_post ''/'' [(''Content-Type'', ''application/x-www-form-urlencoded'')] ''a=1''))
     res_init =
   (case form_parse default_form_config (make_request Verb_post ''/'' [(''Content-Type'', ''application/x-www-form-urlencoded'')] ''a=1'') of
      Inl e \<Rightarrow> Inr (True, new_request_context (make_request Verb_post ''/'' [(''Content-Type'', ''application/x-www-form-urlencoded'')] ''a=1''),
        bad_request e res_init)
    | Inr d \<Rightarrow> Inr (False, ctx_set ''foxhttp.body.form'' (Any_form d)
        (new_request_context (make_request Verb_post ''/'' [(''Content-Type'', ''application/x-www-form-urlencoded'')] ''a=1'')), res_init))"
  using body_reaches_handler [of "make_request Verb_post ''/'' [(''Content-Type'', ''application/x-www-form-urlencoded'')] ''a=1''"
      "new_request_context (make_request Verb_post ''/'' [(''Content-Type'', ''application/x-www-form-urlencoded'')] ''a=1'')"
      "''application/x-www-form-urlencoded''" "\<lambda>_. Parse_error ''x''" "res_init"]
  by (simp add: new_request_context_def)

text \<open>
  The middleware folds the case of the content type, the parsers do not: a JSON request
  that spells its type with capitals is answered with 400.
\<close>

lemma content_type_case_rejected:
  assumes "rq_body (rc_req ctx) \<noteq> []" and "rq_find (rc_req ctx) ''Content-Type'' = Some ''Application/JSON''"
  shows "handle_body True (default_factory jparse) ctx res =
    Inr (True, ctx, bad_request (Runtime_error ''No suitable parser supports this request'') res)"
proof -
  have "content_type_base ''Application/JSON'' = ''application/json''" by code_simp
  with assms show ?thesis
    by (simp add: handle_body_def ctx_header_def parse_by_type_def default_factory_def store_default json_holder_def
        json_supports_def rq_at_def)
qed

end
