(* ===== verification/Auth_Middleware.thy ===== *)
theory Auth_Middleware
  imports Base64 Middleware
begin

text \<open>
  include/foxhttp/middleware/advanced/auth_middleware.hpp: the authentication middleware.
  The validators are supplied by the application and are parameters of its state; a
  validator returns a user or nothing, or throws. The built-in JWT verification is compiled
  only with \<open>FOXHTTP_ENABLE_JWT\<close> and uses members the class does not declare; it is left out.
\<close>

section \<open>State\<close>

datatype auth_scheme = BearerJwt | Basic | Digest | ApiKey | Oauth2 | SessionCookie

type_synonym 'a validator = "('a \<Rightarrow> auth_user option throws) option"

record auth_middleware =
  am_schemes :: "auth_scheme list"
  am_api_key_header :: string
  am_api_key_query_param :: string
  am_session_cookie_name :: string
  am_realm :: string
  am_jwt_validator :: "string validator"
  am_basic_validator :: "(string \<times> string) validator"
  am_digest_validator :: "((string \<times> string) list \<times> string) validator"
  am_api_key_validator :: "string validator"
  am_oauth2_validator :: "string validator"
  am_session_lookup :: "string validator"

definition new_auth_middleware :: "auth_scheme list \<Rightarrow> auth_middleware" where
  "new_auth_middleware schemes =
     \<lparr>am_schemes = schemes, am_api_key_header = ''X-API-Key'', am_api_key_query_param = ''api_key'',
      am_session_cookie_name = ''SESSIONID'', am_realm = ''foxhttp'', am_jwt_validator = None,
      am_basic_validator = None, am_digest_validator = None, am_api_key_validator = None,
      am_oauth2_validator = None, am_session_lookup = None\<rparr>"

text \<open>The setters return the middleware, so that they chain.\<close>

definition set_jwt_validator :: "string validator \<Rightarrow> auth_middleware \<Rightarrow> auth_middleware" where
  "set_jwt_validator v am = am\<lparr>am_jwt_validator := v\<rparr>"

definition set_basic_validator :: "(string \<times> string) validator \<Rightarrow> auth_middleware \<Rightarrow> auth_middleware" where
  "set_basic_validator v am = am\<lparr>am_basic_validator := v\<rparr>"

definition set_digest_validator :: "((string \<times> string) list \<times> string) validator \<Rightarrow> auth_middleware \<Rightarrow> auth_middleware" where
  "set_digest_validator v am = am\<lparr>am_digest_validator := v\<rparr>"

definition set_api_key_validator :: "string validator \<Rightarrow> auth_middleware \<Rightarrow> auth_middleware" where
  "set_api_key_validator v am = am\<lparr>am_api_key_validator := v\<rparr>"

definition set_oauth2_validator :: "string validator \<Rightarrow> auth_middleware \<Rightarrow> auth_middleware" where
  "set_oauth2_validator v am = am\<lparr>am_oauth2_validator := v\<rparr>"

definition set_session_lookup :: "string validator \<Rightarrow> auth_middleware \<Rightarrow> auth_middleware" where
  "set_session_lookup v am = am\<lparr>am_session_lookup := v\<rparr>"

definition set_api_key_header :: "string \<Rightarrow> auth_middleware \<Rightarrow> auth_middleware" where
  "set_api_key_header v am = am\<lparr>am_api_key_header := v\<rparr>"

definition set_api_keyquery_param :: "string \<Rightarrow> auth_middleware \<Rightarrow> auth_middleware" where
  "set_api_keyquery_param v am = am\<lparr>am_api_key_query_param := v\<rparr>"

definition set_session_cookie_name :: "string \<Rightarrow> auth_middleware \<Rightarrow> auth_middleware" where
  "set_session_cookie_name v am = am\<lparr>am_session_cookie_name := v\<rparr>"

definition set_realm :: "string \<Rightarrow> auth_middleware \<Rightarrow> auth_middleware" where
  "set_realm v am = am\<lparr>am_realm := v\<rparr>"

section \<open>Helpers\<close>

datatype kv_state = KV_key | KV_value | KV_quoted

text \<open>The loop of \<open>parse_kv\<close> over the characters of a \<open>Digest\<close> header.\<close>

fun parse_kv_loop ::
  "kv_state \<Rightarrow> string \<Rightarrow> string \<Rightarrow> (string \<times> string) list \<Rightarrow> string \<Rightarrow> (string \<times> string) list" where
  "parse_kv_loop st key val out [] = (if key \<noteq> [] then put key val out else out)"
| "parse_kv_loop KV_key key val out (c # cs) =
     (if c = CHR ''='' then parse_kv_loop KV_value key val out cs
      else if isalnum c \<or> c = CHR ''-'' \<or> c = CHR ''_'' then parse_kv_loop KV_key (key @ [c]) val out cs
      else parse_kv_loop KV_key key val out cs)"
| "parse_kv_loop KV_value key val out (c # cs) =
     (if c = CHR 0x22 then parse_kv_loop KV_quoted key val out cs
      else if c = CHR '','' then parse_kv_loop KV_key [] [] (put key val out) cs
      else if \<not> iscntrl c then parse_kv_loop KV_value key (val @ [c]) out cs
      else parse_kv_loop KV_value key val out cs)"
| "parse_kv_loop KV_quoted key val out (c # cs) =
     (if c = CHR 0x22 then parse_kv_loop KV_value key val out cs
      else if c \<noteq> CHR 0x0D \<and> c \<noteq> CHR 0x0A then parse_kv_loop KV_quoted key (val @ [c]) out cs
      else parse_kv_loop KV_quoted key val out cs)"

definition parse_kv :: "string \<Rightarrow> (string \<times> string) list" where
  "parse_kv s = parse_kv_loop KV_key [] [] [] s"

definition query_param :: "request_context \<Rightarrow> string \<Rightarrow> string option" where
  "query_param ctx key =
     (case map_of (rc_query_params ctx) key of
        Some (v # vs) \<Rightarrow> Some v
      | _ \<Rightarrow> None)"

definition split_first :: "string \<Rightarrow> char \<Rightarrow> string \<times> string" where
  "split_first s delim =
     (case find_sub [delim] s of None \<Rightarrow> (s, []) | Some p \<Rightarrow> (take p s, drop (p + 1) s))"

section \<open>Authentication\<close>

fun authenticate :: "auth_middleware \<Rightarrow> auth_scheme \<Rightarrow> request_context \<Rightarrow> auth_user option throws" where
  "authenticate am BearerJwt ctx =
     (let h = ctx_header ctx ''Authorization'' []
      in if length h < 8 \<or> \<not> prefix ''Bearer '' h then Inr None
         else let token = drop 7 h
              in if 8192 < length token then Inr None
                 else case am_jwt_validator am of Some v \<Rightarrow> v token | None \<Rightarrow> Inr None)"
| "authenticate am Basic ctx =
     (case am_basic_validator am of
        None \<Rightarrow> Inr None
      | Some v \<Rightarrow>
          let h = ctx_header ctx ''Authorization'' []
          in if prefix ''Basic '' h
             then v (split_first (auth_base64_decode (drop 6 h)) (CHR '':''))
             else Inr None)"
| "authenticate am Digest ctx =
     (case am_digest_validator am of
        None \<Rightarrow> Inr None
      | Some v \<Rightarrow>
          let h = ctx_header ctx ''Authorization'' []
          in if prefix ''Digest '' h then v (parse_kv (drop 7 h), ctx_method_string ctx) else Inr None)"
| "authenticate am ApiKey ctx =
     (case am_api_key_validator am of
        None \<Rightarrow> Inr None
      | Some v \<Rightarrow>
          let key = ctx_header ctx (am_api_key_header am) [];
              key = (if key = [] then (case query_param ctx (am_api_key_query_param am) of
                                         Some q \<Rightarrow> q | None \<Rightarrow> key)
                     else key)
          in if key \<noteq> [] then (if 256 < length key then Inr None else v key) else Inr None)"
| "authenticate am Oauth2 ctx =
     (case am_oauth2_validator am of
        None \<Rightarrow> Inr None
      | Some v \<Rightarrow>
          let h = ctx_header ctx ''Authorization'' []
          in if prefix ''Bearer '' h then v (drop 7 h) else Inr None)"
| "authenticate am SessionCookie ctx =
     (case am_session_lookup am of
        None \<Rightarrow> Inr None
      | Some v \<Rightarrow>
          let sid = ctx_cookie ctx (am_session_cookie_name am)
          in if sid \<noteq> [] then v sid else Inr None)"

section \<open>The response to an unauthenticated request\<close>

fun scheme_challenge :: "string \<Rightarrow> auth_scheme \<Rightarrow> string list" where
  "scheme_challenge realm BearerJwt = [''Bearer realm='' @ [CHR 0x22] @ realm @ [CHR 0x22]]"
| "scheme_challenge realm Oauth2 = [''Bearer realm='' @ [CHR 0x22] @ realm @ [CHR 0x22]]"
| "scheme_challenge realm Basic = [''Basic realm='' @ [CHR 0x22] @ realm @ [CHR 0x22]]"
| "scheme_challenge realm Digest = [''Digest realm='' @ [CHR 0x22] @ realm @ [CHR 0x22]]"
| "scheme_challenge realm ApiKey = [''ApiKey'']"
| "scheme_challenge realm SessionCookie = []"

fun join_comma :: "string list \<Rightarrow> string" where
  "join_comma [] = []"
| "join_comma [x] = x"
| "join_comma (x # xs) = x @ '', '' @ join_comma xs"

definition set_www_authenticate_header :: "auth_middleware \<Rightarrow> http_response \<Rightarrow> http_response" where
  "set_www_authenticate_header am res =
     (let parts = concat (map (scheme_challenge (am_realm am)) (am_schemes am))
      in if parts \<noteq> [] then res_set ''WWW-Authenticate'' (join_comma parts) res else res)"

definition auth_refusal :: "auth_middleware \<Rightarrow> string \<Rightarrow> http_response \<Rightarrow> http_response" where
  "auth_refusal am body res =
     res_prepare_payload (res_set_body body (set_www_authenticate_header am
       (res_set ''Content-Type'' ''application/json'' (res_result 401 res))))"

definition quoted :: "string \<Rightarrow> string" where
  "quoted s = [CHR 0x22] @ s @ [CHR 0x22]"

definition unauthorized_body :: string where
  "unauthorized_body = ''{'' @ quoted ''error'' @ '':'' @ quoted ''unauthorized'' @ ''}''"

definition auth_error_body :: "string \<Rightarrow> string" where
  "auth_error_body msg =
     ''{'' @ quoted ''error'' @ '':'' @ quoted ''auth_error'' @ '','' @ quoted ''message'' @ '':'' @ quoted msg @ ''}''"

section \<open>The operator\<close>

text \<open>The loop over the schemes: the first user, or the exception of a validator.\<close>

fun first_user :: "auth_middleware \<Rightarrow> request_context \<Rightarrow> auth_scheme list \<Rightarrow> auth_user option throws" where
  "first_user am ctx [] = Inr None"
| "first_user am ctx (s # ss) =
     (case authenticate am s ctx of
        Inl e \<Rightarrow> Inl e
      | Inr (Some u) \<Rightarrow> Inr (Some u)
      | Inr None \<Rightarrow> first_user am ctx ss)"

definition auth_operator :: "auth_middleware \<Rightarrow> 'x world \<Rightarrow> 'x mw_prog" where
  "auth_operator am w =
     (case first_user am (w_ctx w) (am_schemes am) of
        Inr (Some u) \<Rightarrow> Call_next (w\<lparr>w_ctx := ctx_set ''auth.user'' (Any_user u) (w_ctx w)\<rparr>) Done
      | Inr None \<Rightarrow> Done (w\<lparr>w_res := auth_refusal am unauthorized_body (w_res w)\<rparr>)
      | Inl e \<Rightarrow> if is_std_exception e
                 then Done (w\<lparr>w_res := auth_refusal am (auth_error_body (what e)) (w_res w)\<rparr>)
                 else Raise e w)"

definition auth_mw :: "nat \<Rightarrow> auth_middleware \<Rightarrow> 'x middleware" where
  "auth_mw i am = (base_middleware i (auth_operator am))\<lparr>mw_name := ''advanced_auth_middleware'', mw_priority := High\<rparr>"

section \<open>Lemmas\<close>

text \<open>The header a client writes: comma-separated names with quoted values.\<close>

fun render_params :: "(string \<times> string) list \<Rightarrow> string" where
  "render_params [] = []"
| "render_params [(k, v)] = k @ ''='' @ quoted v"
| "render_params ((k, v) # kvs) = k @ ''='' @ quoted v @ '', '' @ render_params kvs"

definition param_name :: "string \<Rightarrow> bool" where
  "param_name k = (k \<noteq> [] \<and> list_all (\<lambda>c. isalnum c \<or> c = CHR ''-'' \<or> c = CHR ''_'') k)"

definition param_value :: "string \<Rightarrow> bool" where
  "param_value v = (CHR 0x22 \<notin> set v \<and> CHR 0x0D \<notin> set v \<and> CHR 0x0A \<notin> set v)"

lemma equals_not_alnum: "\<not> isalnum (CHR ''='')" "\<not> isalnum (CHR '' '')"
  by code_simp+

lemma parse_key:
  "list_all (\<lambda>c. isalnum c \<or> c = CHR ''-'' \<or> c = CHR ''_'') k \<Longrightarrow>
   parse_kv_loop KV_key key val out (k @ cs) = parse_kv_loop KV_key (key @ k) val out cs"
  by (induction k arbitrary: key) (auto simp: equals_not_alnum)

lemma parse_quoted:
  "param_value v \<Longrightarrow>
   parse_kv_loop KV_quoted key val out (v @ CHR 0x22 # cs) = parse_kv_loop KV_value key (val @ v) out cs"
  by (induction v arbitrary: val) (auto simp: param_value_def)

lemma parse_rendered_param:
  assumes "param_name k" and "param_value v"
  shows "parse_kv_loop KV_key [] [] out (k @ ''='' @ quoted v @ cs) = parse_kv_loop KV_value k v out cs"
  using assms parse_key [of k "[]"] parse_quoted [of v k "[]"]
  by (simp add: param_name_def quoted_def)

lemma parse_rendered:
  "list_all (\<lambda>(k, v). param_name k \<and> param_value v) kvs \<Longrightarrow>
   parse_kv_loop KV_key [] [] out (render_params kvs) = foldl (\<lambda>m (k, v). put k v m) out kvs"
proof (induction kvs arbitrary: out rule: render_params.induct)
  case (2 k v)
  then show ?case using parse_rendered_param [of k v out "[]"] by (simp add: param_name_def)
next
  case (3 k v kv kvs)
  then show ?case
    using parse_rendered_param [of k v out "'', '' @ render_params (kv # kvs)"]
    by (simp add: equals_not_alnum)
qed simp

lemma first_user_from:
  "first_user am ctx ss = Inr (Some u) \<Longrightarrow> \<exists>s\<in>set ss. authenticate am s ctx = Inr (Some u)"
  by (induction ss) (auto split: sum.splits option.splits)

lemma first_user_none: "first_user am ctx ss = Inr None \<longleftrightarrow> (\<forall>s\<in>set ss. authenticate am s ctx = Inr None)"
  by (induction ss) (auto split: sum.splits option.splits)

lemma split_first_append: "c \<notin> set a \<Longrightarrow> split_first (a @ c # b) c = (a, b)"
  by (simp add: split_first_def find_sub_char_append)

section \<open>Properties\<close>


text \<open>
  Basic credentials reach the validator as they were sent: for every user name without a
  colon and every password, the header a client builds from them authenticates exactly
  when the validator accepts that pair.
\<close>

theorem basic_credentials_roundtrip:
  assumes "am_basic_validator am = Some v" and "CHR '':'' \<notin> set user"
    and "rq_find (rc_req ctx) ''Authorization'' = Some (''Basic '' @ b64_encode (user @ CHR '':'' # password))"
  shows "authenticate am Basic ctx = v (user, password)"
  using assms by (simp add: ctx_header_def auth_b64.roundtrip split_first_append)

definition password_validator :: "(string \<times> string) validator" where
  "password_validator = Some (\<lambda>(u, p). Inr (if p = ''a:b'' then Some \<lparr>au_id = u, au_roles = []\<rparr> else None))"

theorem basic_credentials_roundtrip_witness:
  "authenticate ((new_auth_middleware [Basic])\<lparr>am_basic_validator := password_validator\<rparr>) Basic
     (new_request_context (make_request Verb_get ''/'' [(''Authorization'', ''Basic '' @ b64_encode (''joe'' @ CHR '':'' # ''a:b''))] [])) =
   Inr (Some \<lparr>au_id = ''joe'', au_roles = []\<rparr>)"
  by (subst basic_credentials_roundtrip [where v = "the password_validator" and user = "''joe''" and password = "''a:b''"])
     (simp_all add: password_validator_def new_request_context_def)

text \<open>
  The parameters of a \<open>Digest\<close> header are parsed back from the form a client writes them
  in, a later value of a name replacing an earlier one, and they are what the validator gets.
\<close>

theorem digest_params_roundtrip:
  assumes "list_all (\<lambda>(k, v). param_name k \<and> param_value v) kvs" and "am_digest_validator am = Some f"
    and "rq_find (rc_req ctx) ''Authorization'' = Some (''Digest '' @ render_params kvs)"
  shows "\<exists>params. authenticate am Digest ctx = f (params, rq_method_string (rc_req ctx)) \<and>
    map_of params = map_of (rev kvs) \<and> distinct (map fst params)"
proof -
  have p: "parse_kv (render_params kvs) = foldl (\<lambda>m (k, v). put k v m) [] kvs"
    using parse_rendered [OF assms(1)] by (simp add: parse_kv_def)
  have d: "distinct (map fst m) \<Longrightarrow> distinct (map fst (foldl (\<lambda>m (k, v). put k v m) m kvs))" for m
    by (induction kvs arbitrary: m) auto
  have "authenticate am Digest ctx = f (parse_kv (render_params kvs), rq_method_string (rc_req ctx))"
    using assms(2,3) by (simp add: ctx_header_def ctx_method_string_def)
  with p d [of "[]"] map_of_foldl_put [of "[]" kvs] show ?thesis by auto
qed

theorem digest_params_roundtrip_witness:
  "\<exists>params. authenticate ((new_auth_middleware [Digest])\<lparr>am_digest_validator := Some (\<lambda>(ps, m). Inr (map_option (\<lambda>u. \<lparr>au_id = u, au_roles = [m]\<rparr>) (map_of ps ''username'')))\<rparr>) Digest
       (new_request_context (make_request Verb_get ''/'' [(''Authorization'', ''Digest '' @ render_params [(''username'', ''Mufasa''), (''nonce'', ''a,b=c'')])] [])) =
     Inr (map_option (\<lambda>u. \<lparr>au_id = u, au_roles = [''GET'']\<rparr>) (map_of params ''username'')) \<and>
     map_of params ''username'' = Some ''Mufasa''"
proof -
  let ?kvs = "[(''username'', ''Mufasa''), (''nonce'', ''a,b=c'')]"
  let ?f = "\<lambda>(ps, m). Inr (map_option (\<lambda>u. \<lparr>au_id = u, au_roles = [m]\<rparr>) (map_of ps ''username''))"
  let ?ctx = "new_request_context (make_request Verb_get ''/'' [(''Authorization'', ''Digest '' @ render_params ?kvs)] [])"
  have "list_all (\<lambda>(k, v). param_name k \<and> param_value v) ?kvs" by code_simp
  moreover have "rq_find (rc_req ?ctx) ''Authorization'' = Some (''Digest '' @ render_params ?kvs)"
    by (simp add: new_request_context_def)
  moreover have "rq_method_string (rc_req ?ctx) = ''GET''" by (simp add: new_request_context_def)
  ultimately show ?thesis
    using digest_params_roundtrip [of ?kvs "(new_auth_middleware [Digest])\<lparr>am_digest_validator := Some ?f\<rparr>" ?f ?ctx]
    by auto
qed

end
