(* ===== verification/Slots.thy ===== *)
theory Slots
  imports Fox_Prelude
begin

text \<open>
  Components that keep one state per key, as the buckets of the rate limiter and the tables
  that routers share are kept: an operation names a key, works on the state of that key and
  reports something. What is reported for a key then depends on the operations on
  that key alone, however those on other keys interleave.
\<close>

fun run_reports :: "('m \<Rightarrow> 'e \<Rightarrow> 'r \<times> 'm) \<Rightarrow> 'm \<Rightarrow> 'e list \<Rightarrow> ('e \<times> 'r) list" where
  "run_reports step m [] = []"
| "run_reports step m (e # es) = (let (r, m') = step m e in (e, r) # run_reports step m' es)"

definition run_state :: "('m \<Rightarrow> 'e \<Rightarrow> 'r \<times> 'm) \<Rightarrow> 'm \<Rightarrow> 'e list \<Rightarrow> 'm" where
  "run_state step = foldl (\<lambda>m e. snd (step m e))"

lemma in_run_reports: "(e, r) \<in> set (run_reports step m es) \<Longrightarrow> e \<in> set es"
  by (induction es arbitrary: m) (auto split: prod.splits)

locale isolated_slots =
  fixes step :: "('k \<Rightarrow> 's) \<Rightarrow> 'e \<Rightarrow> 'r \<times> ('k \<Rightarrow> 's)"
    and slot :: "'e \<Rightarrow> 'k"
    and act :: "'s \<Rightarrow> 'e \<Rightarrow> 'r \<times> 's"
  assumes step_report: "fst (step m e) = fst (act (m (slot e)) e)"
    and step_state: "snd (step m e) = m(slot e := snd (act (m (slot e)) e))"
begin

lemma slot_state: "run_state step m es k = run_state act (m k) (filter (\<lambda>e. slot e = k) es)"
  by (induction es arbitrary: m) (simp_all add: run_state_def step_state)

lemma slot_reports:
  "filter (\<lambda>(e, r). slot e = k) (run_reports step m es) = run_reports act (m k) (filter (\<lambda>e. slot e = k) es)"
proof (induction es arbitrary: m)
  case (Cons e es)
  obtain r s where a: "act (m (slot e)) e = (r, s)" by fastforce
  then have "step m e = (r, m(slot e := s))" using step_report [of m e] step_state [of m e] by (simp add: prod_eq_iff)
  then have "filter (\<lambda>(e, r). slot e = k) (run_reports step m (e # es)) =
      (if slot e = k then [(e, r)] else []) @ run_reports act ((m(slot e := s)) k) (filter (\<lambda>e. slot e = k) es)"
    using Cons.IH [of "m(slot e := s)"] by (cases "slot e = k") (simp_all del: fun_upd_apply)
  with a show ?case by auto
qed simp

text \<open>Two runs that agree on a key, in its state and in the operations on it, report the same for it.\<close>

lemma slot_reports_agree:
  assumes "m k = m' k" and "filter (\<lambda>e. slot e = k) es = filter (\<lambda>e. slot e = k) es'"
  shows "filter (\<lambda>(e, r). slot e = k) (run_reports step m es) = filter (\<lambda>(e, r). slot e = k) (run_reports step m' es')"
  using assms by (simp add: slot_reports)

end

end
