(* ===== verification/Rate_Limit.thy ===== *)
theory Rate_Limit
  imports Middleware Slots
begin

text \<open>
  include/foxhttp/middleware/advanced/rate_limit_middleware.hpp. The buckets are the
  middleware's own state, the last component of the world; the mutex makes \<open>is_limited\<close>
  atomic. Times are those of the monotonic clock in microseconds; a start time of 0, which
  a default-constructed time point has, marks a bucket that was never used.
\<close>

section \<open>State and operations\<close>

record rate_bucket =
  rb_count :: nat
  rb_start :: int

record rate_limiter =
  rl_max_requests :: nat
  rl_window :: int
  rl_extractor :: "(request_context \<Rightarrow> string) option"

type_synonym rate_buckets = "string \<rightharpoonup> rate_bucket"

definition default_rate_limiter :: rate_limiter where
  "default_rate_limiter = \<lparr>rl_max_requests = 60, rl_window = 60, rl_extractor = None\<rparr>"

definition set_key_extractor :: "(request_context \<Rightarrow> string) \<Rightarrow> rate_limiter \<Rightarrow> rate_limiter" where
  "set_key_extractor f rl = rl\<lparr>rl_extractor := Some f\<rparr>"

definition make_key :: "rate_limiter \<Rightarrow> request_context \<Rightarrow> string" where
  "make_key rl ctx =
     (case rl_extractor rl of
        Some f \<Rightarrow> f ctx
      | None \<Rightarrow> let ip = ctx_header ctx ''X-Forwarded-For'' []; ip = (if ip = [] then ''unknown'' else ip)
                in ip @ ''|'' @ ctx_path ctx)"

text \<open>\<open>buckets_[key]\<close> creates a default bucket.\<close>

definition is_limited :: "rate_limiter \<Rightarrow> string \<Rightarrow> int \<Rightarrow> rate_buckets \<Rightarrow> bool \<times> rate_buckets" where
  "is_limited rl key now bs =
     (let b = (case bs key of Some b \<Rightarrow> b | None \<Rightarrow> \<lparr>rb_count = 0, rb_start = 0\<rparr>)
      in if rb_start b = 0 then (False, bs(key \<mapsto> \<lparr>rb_count = 1, rb_start = now\<rparr>))
         else if rl_window rl * 1000000 \<le> now - rb_start b
         then (False, bs(key \<mapsto> \<lparr>rb_count = 1, rb_start = now\<rparr>))
         else if rl_max_requests rl \<le> rb_count b then (True, bs(key \<mapsto> b))
         else (False, bs(key \<mapsto> b\<lparr>rb_count := rb_count b + 1\<rparr>)))"

definition rate_limited_response :: "rate_limiter \<Rightarrow> http_response \<Rightarrow> http_response" where
  "rate_limited_response rl res =
     res_prepare_payload (res_set_body (''{'' @ [CHR 0x22] @ ''error'' @ [CHR 0x22] @ '':'' @ [CHR 0x22] @ ''rate_limited'' @ [CHR 0x22] @ ''}'')
       (res_set ''Retry-After'' (to_string_int (rl_window rl))
         (res_set ''Content-Type'' ''application/json'' (res_result 429 res))))"

definition rate_operator :: "rate_limiter \<Rightarrow> rate_buckets world \<Rightarrow> rate_buckets mw_prog" where
  "rate_operator rl w =
     (let (limited, bs) = is_limited rl (make_key rl (w_ctx w)) (w_now w) (w_ext w);
          w = w\<lparr>w_ext := bs\<rparr>
      in if limited then Done (w\<lparr>w_res := rate_limited_response rl (w_res w)\<rparr>) else Call_next w Done)"

definition rate_mw :: "nat \<Rightarrow> rate_limiter \<Rightarrow> rate_buckets middleware" where
  "rate_mw i rl = (base_middleware i (rate_operator rl))\<lparr>mw_name := ''advanced_rate_limit_middleware'', mw_priority := High\<rparr>"

section \<open>Sequences of requests\<close>

text \<open>The arrivals that are let through, in order.\<close>

fun admitted :: "rate_limiter \<Rightarrow> rate_buckets \<Rightarrow> (string \<times> int) list \<Rightarrow> (string \<times> int) list" where
  "admitted rl bs [] = []"
| "admitted rl bs ((key, t) # rs) =
     (let (limited, bs') = is_limited rl key t bs
      in if limited then admitted rl bs' rs else (key, t) # admitted rl bs' rs)"

text \<open>How many of them carry a key and arrive in the interval that starts at \<open>a\<close>.\<close>

definition count_in :: "string \<Rightarrow> int \<Rightarrow> int \<Rightarrow> (string \<times> int) list \<Rightarrow> nat" where
  "count_in key a w xs = length (filter (\<lambda>(k, t). k = key \<and> a \<le> t \<and> t < a + w) xs)"

lemma count_in_Cons:
  "count_in key a w ((k, t) # xs) = (if k = key \<and> a \<le> t \<and> t < a + w then 1 else 0) + count_in key a w xs"
  by (simp add: count_in_def)

lemma is_limited_other: "k \<noteq> key \<Longrightarrow> snd (is_limited rl key t bs) k = bs k"
  by (simp add: is_limited_def Let_def)

text \<open>
  How many more admissions a bucket allows inside an interval: none when its window began
  after it, the rest of the window when it began inside, otherwise the rest of its window and one
  more full window, or two full windows when its own is over before the interval begins.
\<close>

definition budget :: "nat \<Rightarrow> int \<Rightarrow> int \<Rightarrow> rate_bucket option \<Rightarrow> nat" where
  "budget m a w b =
     (case b of
        None \<Rightarrow> 2 * m
      | Some b \<Rightarrow> if a + w \<le> rb_start b then 0
                  else if a \<le> rb_start b then m - rb_count b
                  else if a < rb_start b + w then (m - rb_count b) + m
                  else 2 * m)"

definition bucket_ok :: "nat \<Rightarrow> int \<Rightarrow> rate_bucket option \<Rightarrow> bool" where
  "bucket_ok m t b = (case b of None \<Rightarrow> True
     | Some b \<Rightarrow> 0 < rb_start b \<and> rb_start b \<le> t \<and> 1 \<le> rb_count b \<and> rb_count b \<le> m)"

lemma budget_step:
  assumes "0 < t" and "0 < rl_window rl" and "m = max 1 (rl_max_requests rl)"
    and "bucket_ok m t (bs key)" and "is_limited rl key t bs = (limited, bs')"
  shows "bucket_ok m t (bs' key) \<and>
    (if \<not> limited \<and> a \<le> t \<and> t < a + rl_window rl * 1000000 then 1 else 0) + budget m a (rl_window rl * 1000000) (bs' key)
      \<le> budget m a (rl_window rl * 1000000) (bs key)"
proof (cases "bs key")
  case None
  with assms show ?thesis by (auto simp: is_limited_def bucket_ok_def budget_def)
next
  case (Some b)
  let ?w = "rl_window rl * 1000000"
  have b: "0 < rb_start b" "rb_start b \<le> t" "1 \<le> rb_count b" "rb_count b \<le> m"
    using assms(4) Some by (simp_all add: bucket_ok_def)
  consider (fresh) "?w \<le> t - rb_start b" | (full) "t - rb_start b < ?w" "rl_max_requests rl \<le> rb_count b"
    | (room) "t - rb_start b < ?w" "rb_count b < rl_max_requests rl" by linarith
  then show ?thesis
  proof cases
    case fresh
    with assms b Some have "limited = False \<and> bs' key = Some \<lparr>rb_count = 1, rb_start = t\<rparr>"
      by (auto simp: is_limited_def)
    with fresh assms b Some show ?thesis by (auto simp: bucket_ok_def budget_def)
  next
    case full
    with assms b Some have "limited = True \<and> bs' key = Some b"
      by (auto simp: is_limited_def)
    with assms(4) Some show ?thesis by simp
  next
    case room
    with assms b Some have "limited = False \<and> bs' key = Some (b\<lparr>rb_count := rb_count b + 1\<rparr>)"
      by (auto simp: is_limited_def)
    with room assms(3) b Some show ?thesis by (auto simp: bucket_ok_def budget_def)
  qed
qed

lemma admitted_budget:
  assumes "0 < rl_window rl" and "m = max 1 (rl_max_requests rl)"
  shows "sorted (map snd rs) \<Longrightarrow> (\<forall>r\<in>set rs. 0 < snd r \<and> t0 \<le> snd r) \<Longrightarrow> bucket_ok m t0 (bs key) \<Longrightarrow>
    count_in key a (rl_window rl * 1000000) (admitted rl bs rs) \<le> budget m a (rl_window rl * 1000000) (bs key)"
proof (induction rs arbitrary: bs t0)
  case (Cons r rs)
  obtain k t where r: "r = (k, t)" by (cases r)
  obtain limited bs' where l: "is_limited rl k t bs = (limited, bs')" by (cases "is_limited rl k t bs")
  have ok: "bucket_ok m t (bs key)"
    using Cons.prems(2,3) r by (auto simp: bucket_ok_def split: option.splits)
  have rest: "sorted (map snd rs)" "\<forall>x\<in>set rs. 0 < snd x \<and> t \<le> snd x"
    using Cons.prems(1,2) r by auto
  show ?case
  proof (cases "k = key")
    case True
    from budget_step [of t rl m bs key limited bs' a] assms ok l True Cons.prems(2) r
    have "bucket_ok m t (bs' key)" and
      "(if \<not> limited \<and> a \<le> t \<and> t < a + rl_window rl * 1000000 then 1 else 0) + budget m a (rl_window rl * 1000000) (bs' key)
        \<le> budget m a (rl_window rl * 1000000) (bs key)" by auto
    with Cons.IH [OF rest, of bs'] l r True show ?thesis
      by (auto simp: count_in_Cons)
  next
    case False
    then have "bs' key = bs key" using is_limited_other [of key k rl t bs] l by simp
    with Cons.IH [OF rest, of bs'] ok l r False show ?thesis by (auto simp: count_in_Cons)
  qed
qed (simp add: count_in_def)

section \<open>One bucket\<close>

text \<open>
  The limiter as a group of buckets: a request works on the bucket of its key, which is
  created when it is missing, and the report is whether it is limited.
\<close>

definition bucket_limited :: "rate_limiter \<Rightarrow> rate_bucket option \<Rightarrow> int \<Rightarrow> bool \<times> rate_bucket option" where
  "bucket_limited rl b now =
     (let b = (case b of Some b \<Rightarrow> b | None \<Rightarrow> \<lparr>rb_count = 0, rb_start = 0\<rparr>)
      in if rb_start b = 0 \<or> rl_window rl * 1000000 \<le> now - rb_start b then (False, Some \<lparr>rb_count = 1, rb_start = now\<rparr>)
         else if rl_max_requests rl \<le> rb_count b then (True, Some b)
         else (False, Some (b\<lparr>rb_count := rb_count b + 1\<rparr>)))"

interpretation buckets: isolated_slots "\<lambda>bs (key, t). is_limited rl key t bs" fst "\<lambda>b (key, t). bucket_limited rl b t"
  for rl
  by unfold_locales (simp_all add: bucket_limited_def is_limited_def Let_def split: prod.split)

lemma admitted_reports:
  "admitted rl bs rs = map fst (filter (\<lambda>(r, limited). \<not> limited) (run_reports (\<lambda>bs (key, t). is_limited rl key t bs) bs rs))"
  by (induction rs arbitrary: bs) (auto simp: Let_def split: prod.split)

lemma filter_admitted:
  "filter (\<lambda>r. fst r = key) (admitted rl bs rs) =
   map fst (filter (\<lambda>(r, limited). \<not> limited)
     (filter (\<lambda>(r, limited). fst r = key) (run_reports (\<lambda>bs (key, t). is_limited rl key t bs) bs rs)))"
  unfolding admitted_reports by (simp add: filter_map comp_def case_prod_beta conj_commute)

section \<open>Properties\<close>

text \<open>
  C22: clients do not use up each other's allowance. Which requests of a key are let
  through does not depend on the requests of other keys: taking these away, or starting
  with other buckets for them, changes nothing, however they interleave.
\<close>

theorem rate_limits_isolated:
  assumes "bs key = bs' key"
  shows "filter (\<lambda>r. fst r = key) (admitted rl bs rs) = admitted rl bs' (filter (\<lambda>r. fst r = key) rs)"
proof -
  let ?own = "filter (\<lambda>r. fst r = key) rs"
  have "filter (\<lambda>r. fst r = key) (admitted rl bs rs) = filter (\<lambda>r. fst r = key) (admitted rl bs' ?own)"
    unfolding filter_admitted using assms by (subst buckets.slot_reports_agree [of bs key bs' rs ?own]) simp_all
  moreover have "filter (\<lambda>r. fst r = key) (admitted rl bs' ?own) = admitted rl bs' ?own"
    by (rule filter_True) (auto simp: admitted_reports dest!: in_run_reports)
  ultimately show ?thesis by simp
qed

theorem rate_limits_isolated_witness:
  "let rl = default_rate_limiter\<lparr>rl_max_requests := 1\<rparr>; busy = (\<lambda>_. None)(''b'' \<mapsto> \<lparr>rb_count = 9, rb_start = 1\<rparr>)
   in filter (\<lambda>r. fst r = ''a'') (admitted rl busy [(''b'', 2), (''a'', 3), (''b'', 4), (''a'', 5)]) =
        admitted rl Map.empty [(''a'', 3), (''a'', 5)] \<and>
      admitted rl Map.empty [(''a'', 3), (''a'', 5)] = [(''a'', 3)]"
proof -
  let ?rl = "default_rate_limiter\<lparr>rl_max_requests := 1\<rparr>"
  have "admitted ?rl Map.empty [(''a'', 3), (''a'', 5)] = [(''a'', 3)]"
    by (simp add: is_limited_def default_rate_limiter_def)
  then show ?thesis
    using rate_limits_isolated [of "(\<lambda>_. None)(''b'' \<mapsto> \<lparr>rb_count = 9, rb_start = 1\<rparr>)" "''a''" Map.empty ?rl
        "[(''b'', 2), (''a'', 3), (''b'', 4), (''a'', 5)]"]
    by (simp add: Let_def del: admitted.simps)
qed



text \<open>The bound is not the configured number: the window is fixed, not sliding.\<close>

lemma rate_limit_not_sliding:
  "let rl = default_rate_limiter\<lparr>rl_max_requests := 2\<rparr>;
       rs = [(''a'', 1000000), (''a'', 60500000), (''a'', 61000000), (''a'', 61500000), (''a'', 61600000)]
   in count_in ''a'' 60000000 60000000 (admitted rl Map.empty rs) = 3"
  by (simp add: default_rate_limiter_def is_limited_def count_in_def)

text \<open>
  A limited request gets 429 with the window as \<open>Retry-After\<close> and does not enter the
  pipeline; an admitted one continues with the response untouched.
\<close>

lemma rate_operator_outcome:
  "case rate_operator rl w of
      Done w' \<Rightarrow> rs_status (w_res w') = 429 \<and> last_set (w_res w') ''Retry-After'' = Some (to_string_int (rl_window rl))
    | Call_next w' k \<Rightarrow> w_res w' = w_res w \<and> k = Done
    | Raise e w' \<Rightarrow> False"
  by (auto simp: rate_operator_def rate_limited_response_def Let_def split: prod.splits)

end
