(* ===== verification/Middleware_Chain.thy ===== *)
theory Middleware_Chain
  imports Middleware
begin

text \<open>
  src/middleware/middleware_chain.cpp, the management of the pipeline and its synchronous
  execution. Asynchronous execution is in \<open>Middleware_Async\<close>. \<open>std::sort\<close> is a parameter.
\<close>

section \<open>The chain\<close>

record 'x chain =
  mc_mws :: "'x middleware list"
  mc_active_runs :: "nat list"
  mc_statistics_enabled :: bool
  mc_auto_sort :: bool
  mc_error_handler :: "('x world \<Rightarrow> cpp_exn \<Rightarrow> 'x world) option"
  mc_timeout_handler :: "('x world \<Rightarrow> 'x world) option"
  mc_global_timeout :: int
  mc_paused :: bool
  mc_has_io_context :: bool

definition new_chain :: "bool \<Rightarrow> 'x chain" where
  "new_chain io = \<lparr>mc_mws = [], mc_active_runs = [], mc_statistics_enabled = True, mc_auto_sort = True,
     mc_error_handler = None, mc_timeout_handler = None, mc_global_timeout = 0, mc_paused = False,
     mc_has_io_context = io\<rparr>"

type_synonym 'x mw_sort =
  "('x middleware \<Rightarrow> 'x middleware \<Rightarrow> bool) \<Rightarrow> 'x middleware list \<Rightarrow> 'x middleware list"

definition priority_less :: "'x middleware \<Rightarrow> 'x middleware \<Rightarrow> bool" where
  "priority_less a b = (priority_value (mw_priority a) < priority_value (mw_priority b))"

definition sort_middlewares_by_priority :: "'x mw_sort \<Rightarrow> 'x chain \<Rightarrow> 'x chain" where
  "sort_middlewares_by_priority srt c = c\<lparr>mc_mws := srt priority_less (mc_mws c)\<rparr>"

definition chain_use :: "'x mw_sort \<Rightarrow> 'x middleware \<Rightarrow> 'x chain \<Rightarrow> 'x chain" where
  "chain_use srt m c =
     (let c = c\<lparr>mc_mws := mc_mws c @ [m]\<rparr>
      in if mc_auto_sort c then sort_middlewares_by_priority srt c else c)"

definition chain_use_all :: "'x mw_sort \<Rightarrow> 'x middleware list \<Rightarrow> 'x chain \<Rightarrow> 'x chain" where
  "chain_use_all srt ms c =
     (let c = c\<lparr>mc_mws := mc_mws c @ ms\<rparr>
      in if mc_auto_sort c then sort_middlewares_by_priority srt c else c)"

definition chain_insert :: "nat \<Rightarrow> 'x middleware \<Rightarrow> 'x chain \<Rightarrow> 'x chain" where
  "chain_insert i m c =
     (if length (mc_mws c) \<le> i then c\<lparr>mc_mws := mc_mws c @ [m]\<rparr>
      else c\<lparr>mc_mws := take i (mc_mws c) @ m # drop i (mc_mws c)\<rparr>)"

definition insert_by_priority :: "'x mw_sort \<Rightarrow> 'x middleware \<Rightarrow> 'x chain \<Rightarrow> 'x chain" where
  "insert_by_priority srt m c = sort_middlewares_by_priority srt (c\<lparr>mc_mws := mc_mws c @ [m]\<rparr>)"

definition chain_remove :: "string \<Rightarrow> 'x chain \<Rightarrow> 'x chain" where
  "chain_remove name c = c\<lparr>mc_mws := filter (\<lambda>m. mw_name m \<noteq> name) (mc_mws c)\<rparr>"

definition chain_clear :: "'x chain \<Rightarrow> 'x chain" where
  "chain_clear c = c\<lparr>mc_mws := []\<rparr>"

definition set_error_handler :: "('x world \<Rightarrow> cpp_exn \<Rightarrow> 'x world) option \<Rightarrow> 'x chain \<Rightarrow> 'x chain" where
  "set_error_handler h c = c\<lparr>mc_error_handler := h\<rparr>"

definition set_timeout_handler :: "('x world \<Rightarrow> 'x world) option \<Rightarrow> 'x chain \<Rightarrow> 'x chain" where
  "set_timeout_handler h c = c\<lparr>mc_timeout_handler := h\<rparr>"

definition set_global_timeout :: "int \<Rightarrow> 'x chain \<Rightarrow> 'x chain" where
  "set_global_timeout t c = c\<lparr>mc_global_timeout := t\<rparr>"

definition set_io_context :: "'x chain \<Rightarrow> 'x chain" where
  "set_io_context c = c\<lparr>mc_has_io_context := True\<rparr>"

definition enable_statistics :: "bool \<Rightarrow> 'x chain \<Rightarrow> 'x chain" where
  "enable_statistics b c = c\<lparr>mc_statistics_enabled := b\<rparr>"

definition chain_pause :: "'x chain \<Rightarrow> 'x chain" where
  "chain_pause c = c\<lparr>mc_paused := True\<rparr>"

definition chain_resume :: "'x chain \<Rightarrow> 'x chain" where
  "chain_resume c = c\<lparr>mc_paused := False\<rparr>"

definition register_run :: "nat \<Rightarrow> 'x chain \<Rightarrow> 'x chain" where
  "register_run r c = c\<lparr>mc_active_runs := mc_active_runs c @ [r]\<rparr>"

definition unregister_run :: "nat \<Rightarrow> 'x chain \<Rightarrow> 'x chain" where
  "unregister_run r c = c\<lparr>mc_active_runs := filter (\<lambda>x. x \<noteq> r) (mc_active_runs c)\<rparr>"

definition chain_size :: "'x chain \<Rightarrow> nat" where
  "chain_size c = length (mc_mws c)"

definition chain_empty :: "'x chain \<Rightarrow> bool" where
  "chain_empty c = (mc_mws c = [])"

definition chain_is_running :: "'x chain \<Rightarrow> bool" where
  "chain_is_running c = (mc_active_runs c \<noteq> [])"

definition get_middleware_names :: "'x chain \<Rightarrow> string list" where
  "get_middleware_names c = map mw_name (mc_mws c)"

text \<open>The statistics live in the middleware objects, here by their identity.\<close>

definition get_statistics :: "(nat \<Rightarrow> mw_stats) \<Rightarrow> 'x chain \<Rightarrow> (string \<times> mw_stats) list" where
  "get_statistics st c = foldl (\<lambda>m x. put (mw_name x) (st (mw_id x)) m) [] (mc_mws c)"

definition reset_statistics :: "'x chain \<Rightarrow> (nat \<Rightarrow> mw_stats) \<Rightarrow> nat \<Rightarrow> mw_stats" where
  "reset_statistics c st = foldl (\<lambda>st m. st(mw_id m := reset_stats)) st (mc_mws c)"

section \<open>Synchronous execution\<close>

text \<open>
  \<open>PipelineExecutionState\<close> of a synchronous run with the world and the statistics;
  \<open>next()\<close> finds no middleware timer to cancel, because only the asynchronous path sets one.
\<close>

record 'x sync_run =
  sy_index :: nat
  sy_timed_out :: bool
  sy_cancelled :: bool
  sy_start :: int
  sy_world :: "'x world"
  sy_stats :: "nat \<Rightarrow> mw_stats"

text \<open>The fixed arguments of the steps: the snapshot of the chain that \<open>execute\<close> takes.\<close>

record 'x run_env =
  re_pipeline :: "'x middleware list"
  re_eh :: "('x world \<Rightarrow> cpp_exn \<Rightarrow> 'x world) option"
  re_th :: "('x world \<Rightarrow> 'x world) option"
  re_global_timeout :: int
  re_stats :: bool
  re_paused :: bool

definition timeout_response :: "'x world \<Rightarrow> 'x world" where
  "timeout_response w = w\<lparr>w_res := res_set_body ''Request timeout''
     (res_set ''Content-Type'' ''text/plain'' (res_result 504 (w_res w)))\<rparr>"

definition sync_error_response :: "cpp_exn \<Rightarrow> 'x world \<Rightarrow> 'x world" where
  "sync_error_response e w = w\<lparr>w_res := res_set_body (''middleware error: '' @ what e)
     (res_set ''Content-Type'' ''text/plain'' (res_result 500 (w_res w)))\<rparr>"

definition count_execution :: "nat \<Rightarrow> int \<Rightarrow> (nat \<Rightarrow> mw_stats) \<Rightarrow> nat \<Rightarrow> mw_stats" where
  "count_execution i dt st = st(i := (st i)\<lparr>ms_execution_count := ms_execution_count (st i) + 1,
     ms_total_time := ms_total_time (st i) + dt\<rparr>)"

definition count_error :: "nat \<Rightarrow> (nat \<Rightarrow> mw_stats) \<Rightarrow> nat \<Rightarrow> mw_stats" where
  "count_error i st = st(i := (st i)\<lparr>ms_error_count := ms_error_count (st i) + 1\<rparr>)"

definition count_timeout :: "nat \<Rightarrow> (nat \<Rightarrow> mw_stats) \<Rightarrow> nat \<Rightarrow> mw_stats" where
  "count_timeout i st = st(i := (st i)\<lparr>ms_timeout_count := ms_timeout_count (st i) + 1\<rparr>)"

text \<open>
  Running a body: \<open>next\<close> runs the rest of the pipeline; its exception, if any, ends the
  body. \<open>None\<close> is an exhausted step bound (see \<open>execute_next_sync\<close>).
\<close>

primrec run_body ::
  "('x sync_run \<Rightarrow> (cpp_exn option \<times> 'x sync_run) option) \<Rightarrow> 'x mw_prog \<Rightarrow> 'x sync_run \<Rightarrow>
   (cpp_exn option \<times> 'x sync_run) option" where
  "run_body next_fn (Done w) r = Some (None, r\<lparr>sy_world := w\<rparr>)"
| "run_body next_fn (Raise e w) r = Some (Some e, r\<lparr>sy_world := w\<rparr>)"
| "run_body next_fn (Call_next w k) r =
     (case next_fn (r\<lparr>sy_world := w\<rparr>) of
        None \<Rightarrow> None
      | Some (Some e, r') \<Rightarrow> Some (Some e, r')
      | Some (None, r') \<Rightarrow> run_body next_fn (k (sy_world r')) r')"

text \<open>
  What follows a body: the statistics when it returned, the error handler or a 500 answer
  when it threw an exception of the standard hierarchy; any other exception goes on.
\<close>

definition after_body ::
  "'x run_env \<Rightarrow> 'x middleware \<Rightarrow> int \<Rightarrow> cpp_exn option \<times> 'x sync_run \<Rightarrow> cpp_exn option \<times> 'x sync_run" where
  "after_body env m start = (\<lambda>(x, r).
     case x of
       None \<Rightarrow> (None, if re_stats env
                     then r\<lparr>sy_stats := count_execution (mw_id m) (w_now (sy_world r) - start) (sy_stats r)\<rparr>
                     else r)
     | Some e \<Rightarrow>
         if is_std_exception e then
           (let r = (if re_stats env then r\<lparr>sy_stats := count_error (mw_id m) (sy_stats r)\<rparr> else r)
            in (None, r\<lparr>sy_world := (case re_eh env of
                     Some eh \<Rightarrow> eh (sy_world r) e
                   | None \<Rightarrow> sync_error_response e (sy_world r))\<rparr>))
         else (Some e, r))"

text \<open>
  The recursion of \<open>execute_next_sync\<close> through \<open>next\<close> is bounded by the number of
  middlewares not yet started; the first argument bounds it, and \<open>sync_enough_fuel\<close> shows
  that one more than their number is always enough.
\<close>

fun execute_next_sync :: "nat \<Rightarrow> 'x run_env \<Rightarrow> 'x sync_run \<Rightarrow> (cpp_exn option \<times> 'x sync_run) option" where
  "execute_next_sync 0 env r = None"
| "execute_next_sync (Suc fuel) env r =
     (if sy_cancelled r \<or> sy_timed_out r \<or> re_paused env \<or> length (re_pipeline env) \<le> sy_index r
      then Some (None, r)
      else if 0 < re_global_timeout env \<and> re_global_timeout env * 1000 < w_now (sy_world r) - sy_start r
      then Some (None, r\<lparr>sy_timed_out := True,
             sy_world := (case re_th env of Some th \<Rightarrow> th (sy_world r) | None \<Rightarrow> timeout_response (sy_world r))\<rparr>)
      else
        let m = re_pipeline env ! sy_index r;
            r = r\<lparr>sy_index := sy_index r + 1\<rparr>;
            start = w_now (sy_world r)
        in if \<not> mw_should_execute m (w_ctx (sy_world r)) then execute_next_sync fuel env r
           else map_option (after_body env m start)
                  (run_body (execute_next_sync fuel env) (mw_sync m (sy_world r)) r))"

definition env_of_chain :: "'x chain \<Rightarrow> 'x run_env" where
  "env_of_chain c = \<lparr>re_pipeline = mc_mws c, re_eh = mc_error_handler c, re_th = mc_timeout_handler c,
     re_global_timeout = mc_global_timeout c, re_stats = mc_statistics_enabled c, re_paused = mc_paused c\<rparr>"

definition new_sync_run :: "(nat \<Rightarrow> mw_stats) \<Rightarrow> 'x world \<Rightarrow> 'x sync_run" where
  "new_sync_run st w = \<lparr>sy_index = 0, sy_timed_out = False, sy_cancelled = False, sy_start = w_now w,
     sy_world = w, sy_stats = st\<rparr>"

text \<open>
  \<open>execute\<close>: the exception that leaves it, the world and statistics after, and the chain.
  The run is registered before the first step and unregistered on every way out.
\<close>

definition execute ::
  "nat \<Rightarrow> 'x chain \<Rightarrow> (nat \<Rightarrow> mw_stats) \<Rightarrow> 'x world \<Rightarrow>
   (cpp_exn option \<times> 'x world \<times> (nat \<Rightarrow> mw_stats) \<times> 'x chain) option" where
  "execute run_id c st w =
     (if mc_mws c = [] then Some (None, w, st, c)
      else
        let c1 = register_run run_id c
        in case execute_next_sync (Suc (length (mc_mws c))) (env_of_chain c) (new_sync_run st w) of
             None \<Rightarrow> None
           | Some (e, r) \<Rightarrow> Some (e, sy_world r, sy_stats r, unregister_run run_id c1))"

section \<open>Lemmas on synchronous execution\<close>

lemma run_body_mono:
  assumes "\<And>r x r'. f r = Some (x, r') \<Longrightarrow> sy_index r \<le> sy_index r'"
  shows "run_body f p r = Some (x, r') \<Longrightarrow> sy_index r \<le> sy_index r'"
proof (induction p arbitrary: r)
  case (Call_next w k)
  then obtain y r1 where next_call: "f (r\<lparr>sy_world := w\<rparr>) = Some (y, r1)" by (auto split: option.splits)
  from assms [OF this] have le: "sy_index r \<le> sy_index r1" by simp
  show ?case
  proof (cases y)
    case None
    with Call_next.prems next_call have "run_body f (k (sy_world r1)) r1 = Some (x, r')" by simp
    from Call_next.IH [OF _ this] le show ?thesis by auto
  next
    case (Some e)
    with Call_next.prems next_call le show ?thesis by simp
  qed
qed auto

lemma after_body_sels [simp]:
  "sy_index (snd (after_body env m t y)) = sy_index (snd y)"
  by (auto simp: after_body_def Let_def split: prod.splits option.splits)

lemma after_body_exn: "fst (after_body env m t y) = Some e \<Longrightarrow> \<not> is_std_exception e"
  by (auto simp: after_body_def Let_def split: prod.splits option.splits if_splits)

text \<open>A step that starts a middleware, as one equation.\<close>

definition may_start :: "'x run_env \<Rightarrow> 'x sync_run \<Rightarrow> bool" where
  "may_start env r = (\<not> sy_cancelled r \<and> \<not> sy_timed_out r \<and> \<not> re_paused env \<and> sy_index r < length (re_pipeline env) \<and>
     \<not> (0 < re_global_timeout env \<and> re_global_timeout env * 1000 < w_now (sy_world r) - sy_start r))"

lemma sync_step:
  "may_start env r \<Longrightarrow>
   execute_next_sync (Suc n) env r =
     (let m = re_pipeline env ! sy_index r; r1 = r\<lparr>sy_index := sy_index r + 1\<rparr>
      in if mw_should_execute m (w_ctx (sy_world r))
         then map_option (after_body env m (w_now (sy_world r)))
                (run_body (execute_next_sync n env) (mw_sync m (sy_world r)) r1)
         else execute_next_sync n env r1)"
  by (auto simp: may_start_def Let_def)

lemma sync_no_step:
  "\<not> may_start env r \<Longrightarrow>
   \<exists>r'. execute_next_sync (Suc n) env r = Some (None, r') \<and> sy_index r' = sy_index r \<and> sy_stats r' = sy_stats r"
  by (auto simp: may_start_def not_less)

lemma sync_index_mono: "execute_next_sync n env r = Some (x, r') \<Longrightarrow> sy_index r \<le> sy_index r'"
proof (induction n arbitrary: r x r')
  case (Suc n)
  show ?case
  proof (cases "may_start env r")
    case True
    let ?m = "re_pipeline env ! sy_index r" and ?r = "r\<lparr>sy_index := sy_index r + 1\<rparr>"
    show ?thesis
    proof (cases "mw_should_execute ?m (w_ctx (sy_world r))")
      case True
      with Suc.prems \<open>may_start env r\<close> obtain y r1
        where body: "run_body (execute_next_sync n env) (mw_sync ?m (sy_world r)) ?r = Some (y, r1)"
          and after: "(x, r') = after_body env ?m (w_now (sy_world r)) (y, r1)"
        by (auto simp: sync_step Let_def simp del: execute_next_sync.simps)
      have "sy_index ?r \<le> sy_index r1" using run_body_mono [OF Suc.IH body] .
      moreover have "sy_index r' = sy_index r1" using after after_body_sels by (metis snd_conv)
      ultimately show ?thesis by simp
    next
      case False
      with Suc.prems \<open>may_start env r\<close> have "execute_next_sync n env ?r = Some (x, r')"
        by (simp add: sync_step Let_def del: execute_next_sync.simps)
      from Suc.IH [OF this] show ?thesis by simp
    qed
  next
    case False
    with Suc.prems sync_no_step [OF False, of n] show ?thesis by auto
  qed
qed simp

lemma run_body_bound:
  assumes "\<And>r x r'. f r = Some (x, r') \<Longrightarrow> sy_index r \<le> b \<Longrightarrow> sy_index r' \<le> b"
  shows "run_body f p r = Some (x, r') \<Longrightarrow> sy_index r \<le> b \<Longrightarrow> sy_index r' \<le> b"
proof (induction p arbitrary: r)
  case (Call_next w k)
  then obtain y r1 where f: "f (r\<lparr>sy_world := w\<rparr>) = Some (y, r1)" by (auto split: option.splits)
  from assms [OF f] Call_next.prems(2) have "sy_index r1 \<le> b" by simp
  with Call_next f show ?case by (cases y) auto
qed auto

lemma sync_index_bound:
  "execute_next_sync n env r = Some (x, r') \<Longrightarrow> sy_index r \<le> length (re_pipeline env) \<Longrightarrow>
   sy_index r' \<le> length (re_pipeline env)"
proof (induction n arbitrary: r x r')
  case (Suc n)
  show ?case
  proof (cases "may_start env r")
    case True
    then have less: "sy_index r + 1 \<le> length (re_pipeline env)" by (simp add: may_start_def)
    have body: "run_body (execute_next_sync n env) p (r\<lparr>sy_index := sy_index r + 1\<rparr>) = Some (y, r1) \<Longrightarrow>
        sy_index r1 \<le> length (re_pipeline env)" for p y r1
      using run_body_bound [where f = "execute_next_sync n env" and b = "length (re_pipeline env)", OF Suc.IH] less
      by fastforce
    from True Suc.prems(1) consider
        m t p y where "after_body env m t y = (x, r')"
          "run_body (execute_next_sync n env) p (r\<lparr>sy_index := sy_index r + 1\<rparr>) = Some y"
      | "execute_next_sync n env (r\<lparr>sy_index := sy_index r + 1\<rparr>) = Some (x, r')"
      by (auto simp: sync_step Let_def simp del: execute_next_sync.simps split: if_splits)
    then show ?thesis
    proof cases
      case 1
      then show ?thesis using body [of p "fst y" "snd y"] after_body_sels [of env m t y] by (metis prod.collapse snd_conv)
    next
      case 2
      then show ?thesis using Suc.IH [OF 2] less by simp
    qed
  next
    case False
    with Suc.prems sync_no_step [OF False, of n] show ?thesis by auto
  qed
qed simp

lemma run_body_total:
  assumes "\<And>r. i \<le> sy_index r \<Longrightarrow> \<exists>y. f r = Some y"
    and "\<And>r x r'. f r = Some (x, r') \<Longrightarrow> sy_index r \<le> sy_index r'"
  shows "i \<le> sy_index r \<Longrightarrow> \<exists>y. run_body f p r = Some y"
proof (induction p arbitrary: r)
  case (Call_next w k)
  from Call_next.prems assms(1) [of "r\<lparr>sy_world := w\<rparr>"] obtain x r1 where f: "f (r\<lparr>sy_world := w\<rparr>) = Some (x, r1)"
    by auto
  with assms(2) [OF f] Call_next.prems have "i \<le> sy_index r1" by simp
  with Call_next.IH f show ?case by (cases x) auto
qed auto

lemma sync_enough_fuel:
  "length (re_pipeline env) - sy_index r < n \<Longrightarrow> \<exists>y. execute_next_sync n env r = Some y"
proof (induction n arbitrary: r)
  case (Suc n)
  show ?case
  proof (cases "may_start env r")
    case True
    let ?m = "re_pipeline env ! sy_index r" and ?r = "r\<lparr>sy_index := sy_index r + 1\<rparr>"
    from True have less: "sy_index r < length (re_pipeline env)" by (simp add: may_start_def)
    have IH: "\<exists>y. execute_next_sync n env r1 = Some y" if "sy_index r + 1 \<le> sy_index r1" for r1
      using Suc.IH [of r1] Suc.prems less that by simp
    have "\<exists>y. run_body (execute_next_sync n env) (mw_sync ?m (sy_world r)) ?r = Some y"
      by (rule run_body_total [where i = "sy_index r + 1", OF IH sync_index_mono]) simp_all
    with True IH [of ?r] show ?thesis by (auto simp: sync_step Let_def simp del: execute_next_sync.simps)
  next
    case False
    then show ?thesis using sync_no_step by blast
  qed
qed simp

lemma sync_exn: "execute_next_sync n env r = Some (Some e, r') \<Longrightarrow> \<not> is_std_exception e"
proof (induction n arbitrary: r e r')
  case (Suc n)
  show ?case
  proof (cases "may_start env r")
    case True
    with Suc show ?thesis
      by (auto simp: sync_step Let_def simp del: execute_next_sync.simps split: if_splits)
         (metis after_body_exn fst_conv)
  next
    case False
    with Suc.prems sync_no_step [OF False, of n] show ?thesis by auto
  qed
qed simp

subsection \<open>Every middleware at most once\<close>

text \<open>How often the statistics have counted a middleware, as run or as failed.\<close>

definition times_counted :: "(nat \<Rightarrow> mw_stats) \<Rightarrow> nat \<Rightarrow> nat" where
  "times_counted st i = ms_execution_count (st i) + ms_error_count (st i)"

definition slots :: "'x run_env \<Rightarrow> nat \<Rightarrow> nat \<Rightarrow> nat \<Rightarrow> nat set" where
  "slots env i a b = {j. a \<le> j \<and> j < b \<and> mw_id (re_pipeline env ! j) = i}"

lemma card_slots: "a \<le> b \<Longrightarrow> b \<le> c \<Longrightarrow> card (slots env i a c) = card (slots env i a b) + card (slots env i b c)"
proof -
  assume "a \<le> b" "b \<le> c"
  then have "slots env i a c = slots env i a b \<union> slots env i b c" by (auto simp: slots_def)
  moreover have "finite (slots env i a b)" "finite (slots env i b c)" "slots env i a b \<inter> slots env i b c = {}"
    by (auto simp: slots_def)
  ultimately show ?thesis by (simp add: card_Un_disjoint)
qed

definition counted_between :: "'x run_env \<Rightarrow> 'x sync_run \<Rightarrow> 'x sync_run \<Rightarrow> bool" where
  "counted_between env r r' = (sy_index r \<le> sy_index r' \<and>
     (\<forall>i. times_counted (sy_stats r') i \<le> times_counted (sy_stats r) i + card (slots env i (sy_index r) (sy_index r'))))"

lemma counted_refl: "sy_index r = sy_index r' \<Longrightarrow> sy_stats r = sy_stats r' \<Longrightarrow> counted_between env r r'"
  by (simp add: counted_between_def)

lemma counted_trans: "counted_between env r r' \<Longrightarrow> counted_between env r' r'' \<Longrightarrow> counted_between env r r''"
proof -
  assume A: "counted_between env r r'" "counted_between env r' r''"
  have "times_counted (sy_stats r'') i \<le> times_counted (sy_stats r) i + card (slots env i (sy_index r) (sy_index r''))" for i
  proof -
    have "times_counted (sy_stats r'') i \<le> times_counted (sy_stats r') i + card (slots env i (sy_index r') (sy_index r''))"
      "times_counted (sy_stats r') i \<le> times_counted (sy_stats r) i + card (slots env i (sy_index r) (sy_index r'))"
      using A by (auto simp: counted_between_def)
    moreover have "card (slots env i (sy_index r) (sy_index r'')) =
        card (slots env i (sy_index r) (sy_index r')) + card (slots env i (sy_index r') (sy_index r''))"
      using A by (intro card_slots) (auto simp: counted_between_def)
    ultimately show ?thesis by linarith
  qed
  with A show ?thesis by (auto simp: counted_between_def)
qed

lemma run_body_counted:
  assumes "\<And>r x r'. f r = Some (x, r') \<Longrightarrow> counted_between env r r'"
  shows "run_body f p r = Some (x, r') \<Longrightarrow> counted_between env r r'"
proof (induction p arbitrary: r)
  case (Call_next w k)
  then obtain y r1 where f: "f (r\<lparr>sy_world := w\<rparr>) = Some (y, r1)" by (auto split: option.splits)
  have "counted_between env r (r\<lparr>sy_world := w\<rparr>)" by (rule counted_refl) simp_all
  with assms [OF f] have c: "counted_between env r r1" by (blast intro: counted_trans)
  show ?case
  proof (cases y)
    case None
    with Call_next.prems f have "run_body f (k (sy_world r1)) r1 = Some (x, r')" by simp
    from Call_next.IH [OF _ this] c show ?thesis by (blast intro: counted_trans)
  next
    case (Some e)
    with Call_next.prems f c show ?thesis by simp
  qed
qed (auto intro: counted_refl)

lemma after_body_counted:
  "times_counted (sy_stats (snd (after_body env m t y))) i \<le>
     times_counted (sy_stats (snd y)) i + (if mw_id m = i then 1 else 0)"
  by (auto simp: after_body_def times_counted_def count_execution_def count_error_def Let_def
      split: prod.splits option.splits)

lemma sync_counted: "execute_next_sync n env r = Some (x, r') \<Longrightarrow> counted_between env r r'"
proof (induction n arbitrary: r x r')
  case (Suc n)
  show ?case
  proof (cases "may_start env r")
    case True
    let ?m = "re_pipeline env ! sy_index r" and ?r = "r\<lparr>sy_index := sy_index r + 1\<rparr>"
    have first: "card (slots env i (sy_index r) (sy_index r + 1)) = (if mw_id ?m = i then 1 else 0)" for i
    proof -
      have "slots env i (sy_index r) (sy_index r + 1) = (if mw_id ?m = i then {sy_index r} else {})"
        by (auto simp: slots_def less_Suc_eq_le)
      then show ?thesis by simp
    qed
    show ?thesis
    proof (cases "mw_should_execute ?m (w_ctx (sy_world r))")
      case True
      with Suc.prems \<open>may_start env r\<close> obtain y r1
        where body: "run_body (execute_next_sync n env) (mw_sync ?m (sy_world r)) ?r = Some (y, r1)"
          and after: "(x, r') = after_body env ?m (w_now (sy_world r)) (y, r1)"
        by (auto simp: sync_step Let_def simp del: execute_next_sync.simps)
      from run_body_counted [OF Suc.IH body] have c: "counted_between env ?r r1" .
      have idx: "sy_index r' = sy_index r1" using after after_body_sels by (metis snd_conv)
      have "times_counted (sy_stats r') i \<le> times_counted (sy_stats r) i + card (slots env i (sy_index r) (sy_index r'))" for i
      proof -
        have "times_counted (sy_stats r') i \<le> times_counted (sy_stats r1) i + (if mw_id ?m = i then 1 else 0)"
          using after_body_counted [of env ?m "w_now (sy_world r)" "(y, r1)" i] after by (metis snd_conv)
        moreover have "times_counted (sy_stats r1) i \<le> times_counted (sy_stats r) i + card (slots env i (sy_index r + 1) (sy_index r1))"
          using c by (auto simp: counted_between_def)
        moreover have "card (slots env i (sy_index r) (sy_index r1)) =
            card (slots env i (sy_index r) (sy_index r + 1)) + card (slots env i (sy_index r + 1) (sy_index r1))"
          using c by (intro card_slots) (auto simp: counted_between_def)
        ultimately show ?thesis unfolding idx using first [of i] by linarith
      qed
      with c idx show ?thesis by (auto simp: counted_between_def)
    next
      case False
      with Suc.prems \<open>may_start env r\<close> have "execute_next_sync n env ?r = Some (x, r')"
        by (simp add: sync_step Let_def del: execute_next_sync.simps)
      from Suc.IH [OF this] have "counted_between env ?r r'" .
      moreover have "counted_between env r ?r" by (simp add: counted_between_def)
      ultimately show ?thesis by (blast intro: counted_trans)
    qed
  next
    case False
    with Suc.prems sync_no_step [OF False, of n] show ?thesis by (auto intro: counted_refl)
  qed
qed simp

subsection \<open>Order of effects\<close>

text \<open>A middleware that works before and after one call of \<open>next()\<close>.\<close>

record 'x wrapper =
  wr_mw :: "'x middleware"
  wr_pre :: "'x world \<Rightarrow> 'x world"
  wr_post :: "'x world \<Rightarrow> 'x world"

definition wraps :: "'x wrapper \<Rightarrow> bool" where
  "wraps x = (mw_sync (wr_mw x) = (\<lambda>w. Call_next (wr_pre x w) (\<lambda>w. Done (wr_post x w))))"

text \<open>The reference: the first middleware is outermost, those that do not apply are left out.\<close>

fun onion :: "'x wrapper list \<Rightarrow> 'x world \<Rightarrow> 'x world" where
  "onion [] w = w"
| "onion (x # xs) w =
     (if mw_should_execute (wr_mw x) (w_ctx w) then wr_post x (onion xs (wr_pre x w)) else onion xs w)"

lemma sync_onion:
  assumes "\<forall>x\<in>set xs. wraps x" and "re_global_timeout env \<le> 0" and "\<not> re_paused env"
    and "drop (sy_index r) (re_pipeline env) = map wr_mw xs" and "sy_index r \<le> length (re_pipeline env)"
    and "\<not> sy_cancelled r" and "\<not> sy_timed_out r"
  shows "\<exists>r'. execute_next_sync (Suc (length xs)) env r = Some (None, r') \<and> sy_world r' = onion xs (sy_world r) \<and>
    sy_index r' = length (re_pipeline env) \<and> \<not> sy_cancelled r' \<and> \<not> sy_timed_out r'"
  using assms
proof (induction xs arbitrary: r)
  case Nil
  then show ?case by simp
next
  case (Cons x xs)
  let ?r = "r\<lparr>sy_index := sy_index r + 1\<rparr>"
  from Cons.prems(4) have less: "sy_index r < length (re_pipeline env)" by (metis drop_eq_Nil list.distinct(1) list.simps(9) not_le)
  then have m: "re_pipeline env ! sy_index r = wr_mw x" and rest: "drop (sy_index ?r) (re_pipeline env) = map wr_mw xs"
    using Cons.prems(4) Cons_nth_drop_Suc [OF less] by auto
  have start: "may_start env r" using Cons.prems less by (simp add: may_start_def)
  have wx: "wraps x" using Cons.prems(1) by simp
  show ?case
  proof (cases "mw_should_execute (wr_mw x) (w_ctx (sy_world r))")
    case True
    have "\<exists>r'. execute_next_sync (Suc (length xs)) env (?r\<lparr>sy_world := wr_pre x (sy_world r)\<rparr>) = Some (None, r') \<and>
        sy_world r' = onion xs (sy_world (?r\<lparr>sy_world := wr_pre x (sy_world r)\<rparr>)) \<and>
        sy_index r' = length (re_pipeline env) \<and> \<not> sy_cancelled r' \<and> \<not> sy_timed_out r'"
      using Cons.prems rest less by (intro Cons.IH) simp_all
    then obtain r1 where r1: "execute_next_sync (Suc (length xs)) env (?r\<lparr>sy_world := wr_pre x (sy_world r)\<rparr>) = Some (None, r1)"
        "sy_world r1 = onion xs (wr_pre x (sy_world r))" "sy_index r1 = length (re_pipeline env)"
        "\<not> sy_cancelled r1" "\<not> sy_timed_out r1" by auto
    then have "run_body (execute_next_sync (Suc (length xs)) env) (mw_sync (wr_mw x) (sy_world r)) ?r =
        Some (None, r1\<lparr>sy_world := wr_post x (sy_world r1)\<rparr>)"
      using wx by (simp add: wraps_def del: execute_next_sync.simps)
    with start True m r1 show ?thesis
      by (auto simp: sync_step Let_def after_body_def simp del: execute_next_sync.simps)
  next
    case False
    have "\<exists>r'. execute_next_sync (Suc (length xs)) env ?r = Some (None, r') \<and> sy_world r' = onion xs (sy_world ?r) \<and>
        sy_index r' = length (re_pipeline env) \<and> \<not> sy_cancelled r' \<and> \<not> sy_timed_out r'"
      using Cons.prems rest less by (intro Cons.IH) simp_all
    with start False m show ?thesis by (simp add: sync_step Let_def del: execute_next_sync.simps)
  qed
qed

section \<open>The chain as a step machine\<close>

datatype 'x chain_event =
    Use "'x middleware" | Use_all "'x middleware list" | Insert_by_priority "'x middleware"
  | Remove_mw string | Clear_mws | Set_timeout int | Enable_stats bool | Pause_chain | Resume_chain

text \<open>Every operation of a chain that sorts itself; \<open>insert\<close> places by position instead.\<close>

fun chain_step :: "'x mw_sort \<Rightarrow> 'x chain \<Rightarrow> 'x chain_event \<Rightarrow> 'x chain" where
  "chain_step srt c (Use m) = chain_use srt m c"
| "chain_step srt c (Use_all ms) = chain_use_all srt ms c"
| "chain_step srt c (Insert_by_priority m) = insert_by_priority srt m c"
| "chain_step srt c (Remove_mw n) = chain_remove n c"
| "chain_step srt c Clear_mws = chain_clear c"
| "chain_step srt c (Set_timeout t) = set_global_timeout t c"
| "chain_step srt c (Enable_stats b) = enable_statistics b c"
| "chain_step srt c Pause_chain = chain_pause c"
| "chain_step srt c Resume_chain = chain_resume c"

definition chain_inv :: "'x chain \<Rightarrow> bool" where
  "chain_inv c = (mc_auto_sort c \<and> sorted (map (\<lambda>m. priority_value (mw_priority m)) (mc_mws c)))"

lemma strict_weak_priority: "strict_weak priority_less"
  unfolding priority_less_def by (rule strict_weak_key)

lemma ordered_sorted: "ordered_by priority_less ms = sorted (map (\<lambda>m. priority_value (mw_priority m)) ms)"
  by (auto simp: ordered_by_def priority_less_def sorted_wrt_map not_less)

locale mw_sorting = std_sort srt
  for srt :: "('x middleware \<Rightarrow> 'x middleware \<Rightarrow> bool) \<Rightarrow> 'x middleware list \<Rightarrow> 'x middleware list"
begin

lemma sorted_after_sort: "sorted (map (\<lambda>m. priority_value (mw_priority m)) (srt priority_less ms))"
  using sort_ordered [OF strict_weak_priority] by (simp add: ordered_sorted)

end

sublocale mw_sorting \<subseteq> chain: step_machine "\<lambda>c. \<exists>io. c = new_chain io" "chain_step srt" chain_inv
proof
  fix c :: "'x chain" and e :: "'x chain_event"
  show "\<exists>io. c = new_chain io \<Longrightarrow> chain_inv c" by (auto simp: new_chain_def chain_inv_def)
  show "chain_inv c \<Longrightarrow> chain_inv (chain_step srt c e)"
    by (cases e)
       (auto simp: chain_inv_def chain_use_def chain_use_all_def insert_by_priority_def sort_middlewares_by_priority_def
         chain_remove_def chain_clear_def set_global_timeout_def enable_statistics_def chain_pause_def chain_resume_def
         sorted_after_sort Let_def intro: sorted_filter)
qed

context mw_sorting
begin

lemma reachable_chain: "chain_inv (foldl (chain_step srt) (new_chain io) es)"
  by (rule chain.run_from_initial) blast

end

interpretation insertion_mws: mw_sorting insertion_sort
  by unfold_locales

section \<open>Properties\<close>


text \<open>Two concrete middlewares: one adds a header around \<open>next()\<close>, one answers by itself.\<close>

definition tag_middleware :: "nat \<Rightarrow> mw_priority \<Rightarrow> string \<Rightarrow> unit middleware" where
  "tag_middleware i p t = (base_middleware i (\<lambda>w. Call_next (w\<lparr>w_res := res_set ''X-In'' t (w_res w)\<rparr>)
     (\<lambda>w. Done (w\<lparr>w_res := res_set ''X-Out'' t (w_res w)\<rparr>))))\<lparr>mw_name := t, mw_priority := p\<rparr>"

definition answer_middleware :: "nat \<Rightarrow> nat \<Rightarrow> unit middleware" where
  "answer_middleware i status = base_middleware i (\<lambda>w. Done (w\<lparr>w_res := res_result status (w_res w)\<rparr>))"

definition sample_world :: "unit world" where
  "sample_world = \<lparr>w_ctx = sample_ctx, w_res = res_init, w_now = 0, w_ext = ()\<rparr>"


lemma execute_wraps:
  assumes "mc_mws c = map wr_mw xs" and "\<forall>x\<in>set xs. wraps x"
    and "mc_global_timeout c \<le> 0" and "\<not> mc_paused c"
  shows "\<exists>st' c'. execute run c st w = Some (None, onion xs w, st', c')"
proof (cases "xs = []")
  case True
  with assms(1) show ?thesis by (simp add: execute_def)
next
  case False
  have "\<exists>r'. execute_next_sync (Suc (length xs)) (env_of_chain c) (new_sync_run st w) = Some (None, r') \<and>
      sy_world r' = onion xs (sy_world (new_sync_run st w)) \<and>
      sy_index r' = length (re_pipeline (env_of_chain c)) \<and> \<not> sy_cancelled r' \<and> \<not> sy_timed_out r'"
    using assms by (intro sync_onion) (simp_all add: env_of_chain_def new_sync_run_def)
  then obtain r' where "execute_next_sync (Suc (length (mc_mws c))) (env_of_chain c) (new_sync_run st w) = Some (None, r')"
    "sy_world r' = onion xs w"
    using assms(1) by (auto simp: new_sync_run_def simp del: execute_next_sync.simps)
  with False assms(1) show ?thesis by (simp add: execute_def Let_def del: execute_next_sync.simps)
qed

text \<open>
  C23: middlewares that each work before and after one call of \<open>next()\<close> are nested in the
  order of the pipeline, those that do not apply to the request being left out.
\<close>

theorem execute_onion:
  assumes "mc_mws c = map wr_mw xs" and "\<forall>x\<in>set xs. wraps x"
    and "mc_global_timeout c \<le> 0" and "\<not> mc_paused c"
  shows "\<exists>st' c'. execute run c st w = Some (None, onion xs w, st', c')"
  by (rule execute_wraps [OF assms])

theorem execute_onion_witness:
  "\<exists>st' c'. execute 0 ((new_chain False)\<lparr>mc_mws := [tag_middleware 1 Low ''a'', tag_middleware 2 High ''b'']\<rparr>) (\<lambda>_. reset_stats) sample_world =
     Some (None, sample_world\<lparr>w_res := res_set ''X-Out'' ''a'' (res_set ''X-Out'' ''b''
       (res_set ''X-In'' ''b'' (res_set ''X-In'' ''a'' (w_res sample_world))))\<rparr>, st', c')"
proof -
  let ?x = "\<lambda>i p t. \<lparr>wr_mw = tag_middleware i p t, wr_pre = (\<lambda>w. w\<lparr>w_res := res_set ''X-In'' t (w_res w)\<rparr>),
     wr_post = (\<lambda>w. w\<lparr>w_res := res_set ''X-Out'' t (w_res w)\<rparr>)\<rparr>"
  let ?xs = "[?x 1 Low ''a'', ?x 2 High ''b'']"
  have "onion ?xs sample_world = sample_world\<lparr>w_res := res_set ''X-Out'' ''a'' (res_set ''X-Out'' ''b''
       (res_set ''X-In'' ''b'' (res_set ''X-In'' ''a'' (w_res sample_world))))\<rparr>"
    by (simp add: tag_middleware_def base_middleware_def)
  with execute_onion [of "(new_chain False)\<lparr>mc_mws := [tag_middleware 1 Low ''a'', tag_middleware 2 High ''b'']\<rparr>" ?xs 0 "\<lambda>_. reset_stats" sample_world]
  show ?thesis
    by (simp add: new_chain_def wraps_def) (simp add: tag_middleware_def base_middleware_def)
qed

text \<open>
  A middleware that does not call \<open>next()\<close> ends a synchronous run: the world is the one
  it left, whatever follows it in the pipeline.
\<close>

theorem execute_stops:
  assumes "mc_mws c = m # ms" and "mw_should_execute m (w_ctx w)" and "mw_sync m w = Done w'"
    and "mc_global_timeout c \<le> 0" and "\<not> mc_paused c"
  shows "\<exists>st' c'. execute run c st w = Some (None, w', st', c')"
  using assms by (simp add: execute_def env_of_chain_def new_sync_run_def after_body_def Let_def)

theorem execute_stops_witness:
  "\<exists>st' c'. execute 0 ((new_chain False)\<lparr>mc_mws := [answer_middleware 1 401, tag_middleware 2 High ''b'']\<rparr>) (\<lambda>_. reset_stats) sample_world =
     Some (None, sample_world\<lparr>w_res := res_result 401 (w_res sample_world)\<rparr>, st', c')"
  by (rule execute_stops [where m = "answer_middleware 1 401" and ms = "[tag_middleware 2 High ''b'']"])
     (simp_all add: new_chain_def answer_middleware_def base_middleware_def)

text \<open>
  Whatever is registered, removed or reconfigured, in whatever order, the pipeline stays
  sorted by ascending priority value, and registering a middleware adds exactly that one.
\<close>

theorem chain_priority_order:
  assumes "std_sort srt"
  shows "let c = foldl (chain_step srt) (new_chain io) es
    in sorted (map mw_priority (mc_mws c)) \<and> mset (mc_mws (chain_use srt m c)) = add_mset m (mset (mc_mws c))"
proof -
  have ms: "mw_sorting srt" using assms by (simp add: mw_sorting_def)
  have "chain_inv (foldl (chain_step srt) (new_chain io) es)"
    by (rule mw_sorting.reachable_chain [OF ms])
  moreover have "sorted (map (\<lambda>m. priority_value (mw_priority m)) ms) = sorted (map mw_priority ms)" for ms :: "'a middleware list"
    by (simp add: sorted_wrt_map less_eq_mw_priority_def)
  ultimately show ?thesis
    using std_sort.sort_perm [OF assms strict_weak_priority]
    by (simp add: chain_inv_def chain_use_def sort_middlewares_by_priority_def Let_def)
qed

theorem chain_priority_order_witness:
  "let c = foldl (chain_step insertion_sort) (new_chain False)
       [Use (tag_middleware 1 Highest ''route''), Use (tag_middleware 2 Low ''time'')]
   in sorted (map mw_priority (mc_mws c))"
  using chain_priority_order [OF insertion.std_sort_axioms, where io = False and m = "tag_middleware 3 Low ''c''"
      and es = "[Use (tag_middleware 1 Highest ''route''), Use (tag_middleware 2 Low ''time'')]"]
  by (simp add: Let_def)

end
