(* ===== verification/Error_Codes.thy ===== *)
theory Error_Codes
  imports Fox_Prelude
begin

text \<open>
  include/foxhttp/core/error_codes.hpp: the error codes with their numbers and texts, which
  the asynchronous chain puts into its error responses.
\<close>

datatype error_code =
    EC_Success
  | EC_NetworkTimeout
  | EC_NetworkConnectionRefused
  | EC_NetworkConnectionReset
  | EC_NetworkUnreachable
  | EC_NetworkDnsResolutionFailed
  | EC_ParseInvalidFormat
  | EC_ParseSizeExceeded
  | EC_ParseEncodingError
  | EC_ParseJsonInvalid
  | EC_ParseMultipartInvalid
  | EC_MiddlewareTimeout
  | EC_MiddlewareError
  | EC_MiddlewareCancelled
  | EC_MiddlewareChainExhausted
  | EC_RouteNotFound
  | EC_RouteInvalidPattern
  | EC_RouteParameterMissing
  | EC_ServerInternalError
  | EC_ServerShutdown
  | EC_ServerAcceptFailed
  | EC_ServerSessionError
  | EC_TlsHandshakeFailed
  | EC_TlsCertificateInvalid
  | EC_TlsCertificateExpired
  | EC_WebsocketHandshakeFailed
  | EC_WebsocketConnectionClosed
  | EC_WebsocketMessageTooLarge
  | EC_WebsocketProtocolError
  | EC_ClientRequestFailed
  | EC_ClientResponseInvalid
  | EC_ClientConnectionPoolExhausted
  | EC_Unknown

fun error_code_value :: "error_code \<Rightarrow> int" where
  "error_code_value EC_Success = 0"
| "error_code_value EC_NetworkTimeout = 1000"
| "error_code_value EC_NetworkConnectionRefused = 1001"
| "error_code_value EC_NetworkConnectionReset = 1002"
| "error_code_value EC_NetworkUnreachable = 1003"
| "error_code_value EC_NetworkDnsResolutionFailed = 1004"
| "error_code_value EC_ParseInvalidFormat = 2000"
| "error_code_value EC_ParseSizeExceeded = 2001"
| "error_code_value EC_ParseEncodingError = 2002"
| "error_code_value EC_ParseJsonInvalid = 2003"
| "error_code_value EC_ParseMultipartInvalid = 2004"
| "error_code_value EC_MiddlewareTimeout = 3000"
| "error_code_value EC_MiddlewareError = 3001"
| "error_code_value EC_MiddlewareCancelled = 3002"
| "error_code_value EC_MiddlewareChainExhausted = 3003"
| "error_code_value EC_RouteNotFound = 4000"
| "error_code_value EC_RouteInvalidPattern = 4001"
| "error_code_value EC_RouteParameterMissing = 4002"
| "error_code_value EC_ServerInternalError = 5000"
| "error_code_value EC_ServerShutdown = 5001"
| "error_code_value EC_ServerAcceptFailed = 5002"
| "error_code_value EC_ServerSessionError = 5003"
| "error_code_value EC_TlsHandshakeFailed = 6000"
| "error_code_value EC_TlsCertificateInvalid = 6001"
| "error_code_value EC_TlsCertificateExpired = 6002"
| "error_code_value EC_WebsocketHandshakeFailed = 7000"
| "error_code_value EC_WebsocketConnectionClosed = 7001"
| "error_code_value EC_WebsocketMessageTooLarge = 7002"
| "error_code_value EC_WebsocketProtocolError = 7003"
| "error_code_value EC_ClientRequestFailed = 8000"
| "error_code_value EC_ClientResponseInvalid = 8001"
| "error_code_value EC_ClientConnectionPoolExhausted = 8002"
| "error_code_value EC_Unknown = 9999"

fun error_code_to_string :: "error_code \<Rightarrow> string" where
  "error_code_to_string EC_Success = ''Success''"
| "error_code_to_string EC_NetworkTimeout = ''Network timeout''"
| "error_code_to_string EC_NetworkConnectionRefused = ''Connection refused''"
| "error_code_to_string EC_NetworkConnectionReset = ''Connection reset''"
| "error_code_to_string EC_NetworkUnreachable = ''Network unreachable''"
| "error_code_to_string EC_NetworkDnsResolutionFailed = ''DNS resolution failed''"
| "error_code_to_string EC_ParseInvalidFormat = ''Invalid format''"
| "error_code_to_string EC_ParseSizeExceeded = ''Size exceeded''"
| "error_code_to_string EC_ParseEncodingError = ''Encoding error''"
| "error_code_to_string EC_ParseJsonInvalid = ''Invalid JSON''"
| "error_code_to_string EC_ParseMultipartInvalid = ''Invalid multipart''"
| "error_code_to_string EC_MiddlewareTimeout = ''Middleware timeout''"
| "error_code_to_string EC_MiddlewareError = ''Middleware error''"
| "error_code_to_string EC_MiddlewareCancelled = ''Middleware cancelled''"
| "error_code_to_string EC_MiddlewareChainExhausted = ''Middleware chain exhausted''"
| "error_code_to_string EC_RouteNotFound = ''Route not found''"
| "error_code_to_string EC_RouteInvalidPattern = ''Invalid route pattern''"
| "error_code_to_string EC_RouteParameterMissing = ''Route parameter missing''"
| "error_code_to_string EC_ServerInternalError = ''Internal server error''"
| "error_code_to_string EC_ServerShutdown = ''Server shutdown''"
| "error_code_to_string EC_ServerAcceptFailed = ''Accept failed''"
| "error_code_to_string EC_ServerSessionError = ''Session error''"
| "error_code_to_string EC_TlsHandshakeFailed = ''TLS handshake failed''"
| "error_code_to_string EC_TlsCertificateInvalid = ''Invalid certificate''"
| "error_code_to_string EC_TlsCertificateExpired = ''Certificate expired''"
| "error_code_to_string EC_WebsocketHandshakeFailed = ''WebSocket handshake failed''"
| "error_code_to_string EC_WebsocketConnectionClosed = ''WebSocket Connection closed''"
| "error_code_to_string EC_WebsocketMessageTooLarge = ''WebSocket message too large''"
| "error_code_to_string EC_WebsocketProtocolError = ''WebSocket protocol error''"
| "error_code_to_string EC_ClientRequestFailed = ''Client request failed''"
| "error_code_to_string EC_ClientResponseInvalid = ''Invalid response''"
| "error_code_to_string EC_ClientConnectionPoolExhausted = ''Connection pool exhausted''"
| "error_code_to_string EC_Unknown = ''Unknown error''"

text \<open>A description of an error: its code, a message and details, empty unless given.\<close>

record error_info =
  ei_code :: error_code
  ei_message :: string
  ei_details :: string

definition new_error_info :: "error_code \<Rightarrow> string \<Rightarrow> string \<Rightarrow> error_info" where
  "new_error_info c msg det = \<lparr>ei_code = c, ei_message = msg, ei_details = det\<rparr>"

text \<open>
  The four exception classes with a code; nothing in the library throws the last three. One
  that reaches the chain is seen there as an exception with its message, and only the
  first class keeps its code.
\<close>

datatype coded_exception =
    MiddlewareException string error_code
  | RouterException string error_code
  | ParserException string error_code
  | NetworkException string error_code

fun coded_what :: "coded_exception \<Rightarrow> string" where
  "coded_what (MiddlewareException m c) = m"
| "coded_what (RouterException m c) = m"
| "coded_what (ParserException m c) = m"
| "coded_what (NetworkException m c) = m"

fun coded_code :: "coded_exception \<Rightarrow> error_code" where
  "coded_code (MiddlewareException m c) = c"
| "coded_code (RouterException m c) = c"
| "coded_code (ParserException m c) = c"
| "coded_code (NetworkException m c) = c"

fun as_exn :: "coded_exception \<Rightarrow> cpp_exn" where
  "as_exn (MiddlewareException m c) = Middleware_exception m (error_code_value c)"
| "as_exn e = Runtime_error (coded_what e)"

lemma as_exn_what: "what (as_exn e) = coded_what e" "is_std_exception (as_exn e)"
  by (cases e; simp)+

text \<open>
  \<open>code\<close> in the error handler of the chain: the code an exception of class
  \<open>MiddlewareException\<close> carries, and the internal server error for all others.
\<close>

fun exception_code :: "cpp_exn \<Rightarrow> int" where
  "exception_code (Middleware_exception m c) = c"
| "exception_code _ = error_code_value EC_ServerInternalError"

lemma coded_exceptions_reported:
  "exception_code (as_exn e) =
     error_code_value (case e of MiddlewareException m c \<Rightarrow> c | _ \<Rightarrow> EC_ServerInternalError)"
  by (cases e) simp_all

lemma error_code_value_inject: "error_code_value a = error_code_value b \<Longrightarrow> a = b"
  by (cases a; cases b; simp)

end
