(* ===== verification/Middleware_Async.thy ===== *)
theory Middleware_Async
  imports Middleware_Chain Error_Codes
begin

text \<open>
  The asynchronous execution of src/middleware/middleware_chain.cpp: one run of the
  pipeline as a state machine. Its events are the calls a started middleware may make at
  any later time (\<open>next()\<close>, its callback), the expiry of the two timers, and cancelling
  and pausing of the chain. The strand on which a session runs serialises the events.
\<close>

section \<open>State of a run\<close>

text \<open>
  \<open>PipelineExecutionState\<close>, with the world, the statistics, the pause flag of the chain and
  the calls of the completion callback so far, with the world at the first of them
  (\<open>ar_answer\<close>). A timer is present when its pointer is set and pending when it can still
  expire.
\<close>

record 'x async_run =
  ar_index :: nat
  ar_timed_out :: bool
  ar_cancelled :: bool
  ar_finished :: bool
  ar_paused :: bool
  ar_start :: int
  ar_global_timer :: bool
  ar_global_pending :: bool
  ar_mw_timer :: "nat option"
  ar_mw_pending :: bool
  ar_mw_start :: "nat \<Rightarrow> int"
  ar_world :: "'x world"
  ar_stats :: "nat \<Rightarrow> mw_stats"
  ar_completions :: "(mw_result \<times> string) list"
  ar_answer :: "'x world option"

record 'x async_env =
  ae_pipeline :: "'x middleware list"
  ae_eh :: "('x world \<Rightarrow> cpp_exn \<Rightarrow> 'x world) option"
  ae_th :: "('x world \<Rightarrow> 'x world) option"
  ae_global_timeout :: int
  ae_stats :: bool
  ae_has_callback :: bool
  ae_has_io :: bool

section \<open>Steps\<close>

definition try_finish_run :: "'x async_run \<Rightarrow> bool \<times> 'x async_run" where
  "try_finish_run r =
     (if ar_finished r then (False, r)
      else (True, r\<lparr>ar_finished := True, ar_global_pending := False, ar_mw_pending := False\<rparr>))"

definition complete_async_run :: "'x async_env \<Rightarrow> mw_result \<Rightarrow> string \<Rightarrow> 'x async_run \<Rightarrow> 'x async_run" where
  "complete_async_run env result msg r =
     (let (first, r) = try_finish_run r
      in if first \<and> ae_has_callback env
         then r\<lparr>ar_completions := ar_completions r @ [(result, msg)], ar_answer := Some (ar_world r)\<rparr>
         else r)"

definition async_error_response :: "cpp_exn \<Rightarrow> 'x world \<Rightarrow> 'x world" where
  "async_error_response e w = w\<lparr>w_res := res_set_body
     (''{'' @ [CHR 0x22] @ ''error'' @ [CHR 0x22] @ '': '' @ [CHR 0x22] @ what e @ [CHR 0x22] @ '', '' @
      [CHR 0x22] @ ''code'' @ [CHR 0x22] @ '': '' @ to_string_int (exception_code e) @ ''}'')
     (res_set ''Content-Type'' ''application/json'' (res_result 500 (w_res w)))\<rparr>"

definition handle_error_run :: "'x async_env \<Rightarrow> cpp_exn \<Rightarrow> 'x async_run \<Rightarrow> 'x async_run" where
  "handle_error_run env e r =
     complete_async_run env R_Error (what e)
       (r\<lparr>ar_world := (case ae_eh env of Some eh \<Rightarrow> eh (ar_world r) e | None \<Rightarrow> async_error_response e (ar_world r))\<rparr>)"

definition run_timeout_handler :: "'x async_env \<Rightarrow> 'x async_run \<Rightarrow> 'x async_run" where
  "run_timeout_handler env r =
     r\<lparr>ar_world := (case ae_th env of Some th \<Rightarrow> th (ar_world r) | None \<Rightarrow> timeout_response (ar_world r))\<rparr>"

definition handle_timeout_run :: "'x async_env \<Rightarrow> 'x async_run \<Rightarrow> 'x async_run" where
  "handle_timeout_run env r =
     complete_async_run env R_Timeout ''Request timeout'' (run_timeout_handler env r)"

text \<open>What \<open>next\<close> and the callback do first: cancel and drop the middleware's timer.\<close>

definition drop_mw_timer :: "'x async_run \<Rightarrow> 'x async_run" where
  "drop_mw_timer r =
     (if ar_mw_timer r \<noteq> None then r\<lparr>ar_mw_timer := None, ar_mw_pending := False\<rparr> else r)"

definition setup_middleware_timeout :: "'x async_env \<Rightarrow> 'x middleware \<Rightarrow> 'x async_run \<Rightarrow> 'x async_run" where
  "setup_middleware_timeout env m r =
     (if \<not> ae_has_io env then r else r\<lparr>ar_mw_timer := Some (mw_id m), ar_mw_pending := True\<rparr>)"

text \<open>The expiry of a middleware's timer, which does not complete the run.\<close>

definition on_middleware_timer :: "'x async_env \<Rightarrow> 'x async_run \<Rightarrow> 'x async_run" where
  "on_middleware_timer env r =
     (case ar_mw_timer r of
        None \<Rightarrow> r
      | Some i \<Rightarrow>
          if \<not> ar_mw_pending r then r
          else let r = r\<lparr>ar_mw_pending := False\<rparr>
               in if ar_timed_out r then r
                  else run_timeout_handler env
                         (let r = r\<lparr>ar_timed_out := True\<rparr>
                          in if ae_stats env then r\<lparr>ar_stats := count_timeout i (ar_stats r)\<rparr> else r))"

definition on_global_timer :: "'x async_env \<Rightarrow> 'x async_run \<Rightarrow> 'x async_run" where
  "on_global_timer env r =
     (if \<not> ar_global_pending r then r
      else let r = r\<lparr>ar_global_pending := False\<rparr>
           in if ar_timed_out r then r else handle_timeout_run env (r\<lparr>ar_timed_out := True\<rparr>))"

primrec run_async_body ::
  "('x async_run \<Rightarrow> (cpp_exn option \<times> 'x async_run) option) \<Rightarrow>
   (mw_result \<Rightarrow> string \<Rightarrow> 'x async_run \<Rightarrow> (cpp_exn option \<times> 'x async_run) option) \<Rightarrow>
   'x async_prog \<Rightarrow> 'x async_run \<Rightarrow> (cpp_exn option \<times> 'x async_run) option" where
  "run_async_body nxt cb (A_Done w) r = Some (None, r\<lparr>ar_world := w\<rparr>)"
| "run_async_body nxt cb (A_Raise e w) r = Some (Some e, r\<lparr>ar_world := w\<rparr>)"
| "run_async_body nxt cb (A_Next w k) r =
     (case nxt (r\<lparr>ar_world := w\<rparr>) of
        None \<Rightarrow> None
      | Some (Some e, r') \<Rightarrow> Some (Some e, r')
      | Some (None, r') \<Rightarrow> run_async_body nxt cb (k (ar_world r')) r')"
| "run_async_body nxt cb (A_Callback res msg w k) r =
     (case cb res msg (r\<lparr>ar_world := w\<rparr>) of
        None \<Rightarrow> None
      | Some (Some e, r') \<Rightarrow> Some (Some e, r')
      | Some (None, r') \<Rightarrow> run_async_body nxt cb (k (ar_world r')) r')"

text \<open>The callback handed to a middleware, with the rest of the pipeline as \<open>step\<close>.\<close>

definition count_result :: "'x async_env \<Rightarrow> 'x middleware \<Rightarrow> int \<Rightarrow> mw_result \<Rightarrow> 'x async_run \<Rightarrow> 'x async_run" where
  "count_result env m start result r =
     (if ae_stats env then
        let st = count_execution (mw_id m) (w_now (ar_world r) - start) (ar_stats r)
        in r\<lparr>ar_stats := (case result of R_Error \<Rightarrow> count_error (mw_id m) st
                          | R_Timeout \<Rightarrow> count_timeout (mw_id m) st | _ \<Rightarrow> st)\<rparr>
      else r)"

definition handle_middleware_result_run ::
  "'x async_env \<Rightarrow> ('x async_run \<Rightarrow> (cpp_exn option \<times> 'x async_run) option) \<Rightarrow> mw_result \<Rightarrow> string \<Rightarrow>
   'x async_run \<Rightarrow> (cpp_exn option \<times> 'x async_run) option" where
  "handle_middleware_result_run env step result msg r =
     (case result of
        R_Continue \<Rightarrow> step r
      | R_Stop \<Rightarrow> Some (None, complete_async_run env R_Stop [] r)
      | R_Error \<Rightarrow> Some (None, complete_async_run env R_Error msg r)
      | R_Timeout \<Rightarrow> Some (None, complete_async_run env R_Timeout msg r))"

definition async_callback ::
  "'x async_env \<Rightarrow> ('x async_run \<Rightarrow> (cpp_exn option \<times> 'x async_run) option) \<Rightarrow> 'x middleware \<Rightarrow> int \<Rightarrow>
   mw_result \<Rightarrow> string \<Rightarrow> 'x async_run \<Rightarrow> (cpp_exn option \<times> 'x async_run) option" where
  "async_callback env step m start result msg r =
     handle_middleware_result_run env step result msg (count_result env m start result (drop_mw_timer r))"

text \<open>\<open>catch (const std::exception &)\<close> around the body.\<close>

definition after_async_body ::
  "'x async_env \<Rightarrow> 'x middleware \<Rightarrow> cpp_exn option \<times> 'x async_run \<Rightarrow> cpp_exn option \<times> 'x async_run" where
  "after_async_body env m = (\<lambda>(x, r).
     case x of
       None \<Rightarrow> (None, r)
     | Some e \<Rightarrow>
         if is_std_exception e
         then (None, handle_error_run env e
                 (if ae_stats env then r\<lparr>ar_stats := count_error (mw_id m) (ar_stats r)\<rparr> else r))
         else (Some e, r))"

text \<open>
  \<open>execute_next_async_step\<close>; the first argument bounds the recursion through \<open>next\<close> and the
  callback as in the synchronous case (\<open>async_enough_fuel\<close>).
\<close>

fun execute_next_async_step ::
  "nat \<Rightarrow> 'x async_env \<Rightarrow> 'x async_run \<Rightarrow> (cpp_exn option \<times> 'x async_run) option" where
  "execute_next_async_step 0 env r = None"
| "execute_next_async_step (Suc fuel) env r =
     (if ar_cancelled r \<or> ar_timed_out r \<or> ar_paused r \<or> length (ae_pipeline env) \<le> ar_index r
      then Some (None, complete_async_run env
             (if ar_cancelled r then R_Stop else if ar_timed_out r then R_Timeout else R_Continue) [] r)
      else if 0 < ae_global_timeout env \<and> \<not> ar_global_timer r \<and>
              ae_global_timeout env * 1000 < w_now (ar_world r) - ar_start r
      then Some (None, handle_timeout_run env (r\<lparr>ar_timed_out := True\<rparr>))
      else
        let i = ar_index r; m = ae_pipeline env ! i;
            r = r\<lparr>ar_index := i + 1\<rparr>;
            step = execute_next_async_step fuel env
        in if \<not> mw_should_execute m (w_ctx (ar_world r)) then step r
           else let start = w_now (ar_world r);
                    r = r\<lparr>ar_mw_start := (ar_mw_start r)(i := start)\<rparr>;
                    r = (if 0 < mw_timeout m \<and> ae_has_io env then setup_middleware_timeout env m r else r)
                in map_option (after_async_body env m)
                     (run_async_body (\<lambda>r. step (drop_mw_timer r)) (async_callback env step m start)
                        (mw_async m (ar_world r)) r))"

definition new_async_run :: "'x async_env \<Rightarrow> bool \<Rightarrow> (nat \<Rightarrow> mw_stats) \<Rightarrow> 'x world \<Rightarrow> 'x async_run" where
  "new_async_run env paused st w =
     (let timer = (0 < ae_global_timeout env \<and> ae_has_io env)
      in \<lparr>ar_index = 0, ar_timed_out = False, ar_cancelled = False, ar_finished = False, ar_paused = paused,
          ar_start = w_now w, ar_global_timer = timer, ar_global_pending = timer,
          ar_mw_timer = None, ar_mw_pending = False, ar_mw_start = (\<lambda>_. 0), ar_world = w, ar_stats = st,
          ar_completions = [], ar_answer = None\<rparr>)"

text \<open>\<open>execute_async\<close>: the exception that leaves it and the run after the first burst of work.\<close>

definition execute_async ::
  "'x async_env \<Rightarrow> bool \<Rightarrow> (nat \<Rightarrow> mw_stats) \<Rightarrow> 'x world \<Rightarrow> (cpp_exn option \<times> 'x async_run) option" where
  "execute_async env paused st w =
     (let r0 = new_async_run env paused st w
      in if ae_pipeline env = []
         then Some (None, if ae_has_callback env
                          then r0\<lparr>ar_completions := [(R_Continue, [])], ar_answer := Some w, ar_finished := True\<rparr>
                          else r0\<lparr>ar_finished := True\<rparr>)
         else case execute_next_async_step (Suc (length (ae_pipeline env))) env r0 of
                None \<Rightarrow> None
              | Some (None, r) \<Rightarrow> Some (None, r)
              | Some (Some e, r) \<Rightarrow>
                  if is_std_exception e then Some (None, handle_error_run env e r)
                  else Some (Some e, complete_async_run env R_Error ''unknown error'' r))"

section \<open>Events\<close>

datatype 'x async_event =
    Ev_callback nat mw_result string "'x world \<Rightarrow> 'x world"
  | Ev_next nat "'x world \<Rightarrow> 'x world"
  | Ev_global_timer "'x world \<Rightarrow> 'x world"
  | Ev_mw_timer "'x world \<Rightarrow> 'x world"
  | Ev_cancel
  | Ev_pause bool

definition cancel_run :: "'x async_run \<Rightarrow> 'x async_run" where
  "cancel_run r = r\<lparr>ar_cancelled := True, ar_global_pending := False, ar_mw_pending := False\<rparr>"

text \<open>
  A middleware that has been started may call at any time; the function of the event is
  what happened to the world meanwhile. The step bound is the one that always suffices.
\<close>

fun async_step :: "'x async_env \<Rightarrow> 'x async_run \<Rightarrow> 'x async_event \<Rightarrow> 'x async_run" where
  "async_step env r (Ev_callback i result msg f) =
     (if i < ar_index r then
        case async_callback env (execute_next_async_step (Suc (length (ae_pipeline env))) env) (ae_pipeline env ! i)
               (ar_mw_start r i) result msg (r\<lparr>ar_world := f (ar_world r)\<rparr>) of
          Some (_, r') \<Rightarrow> r' | None \<Rightarrow> r
      else r)"
| "async_step env r (Ev_next i f) =
     (if i < ar_index r then
        case execute_next_async_step (Suc (length (ae_pipeline env))) env (drop_mw_timer (r\<lparr>ar_world := f (ar_world r)\<rparr>)) of
          Some (_, r') \<Rightarrow> r' | None \<Rightarrow> r
      else r)"
| "async_step env r (Ev_global_timer f) = on_global_timer env (r\<lparr>ar_world := f (ar_world r)\<rparr>)"
| "async_step env r (Ev_mw_timer f) = on_middleware_timer env (r\<lparr>ar_world := f (ar_world r)\<rparr>)"
| "async_step env r Ev_cancel = cancel_run r"
| "async_step env r (Ev_pause b) = r\<lparr>ar_paused := b\<rparr>"

section \<open>At most one completion\<close>

definition async_inv :: "'x async_env \<Rightarrow> 'x async_run \<Rightarrow> bool" where
  "async_inv env r = (ar_index r \<le> length (ae_pipeline env) \<and>
     (if ar_finished r \<and> ae_has_callback env then length (ar_completions r) = 1 else ar_completions r = []) \<and>
     (ar_answer r = None \<longleftrightarrow> ar_completions r = []))"

text \<open>What any amount of work may do to a run.\<close>

definition goes_to :: "'x async_env \<Rightarrow> 'x async_run \<Rightarrow> 'x async_run \<Rightarrow> bool" where
  "goes_to env r r' = ((async_inv env r \<longrightarrow> async_inv env r') \<and> ar_index r \<le> ar_index r' \<and>
     (ar_finished r \<longrightarrow> ar_finished r' \<and> ar_completions r' = ar_completions r \<and> ar_answer r' = ar_answer r))"

lemma goes_to_refl [simp]: "goes_to env r r"
  by (simp add: goes_to_def)

lemma goes_to_trans: "goes_to env r r' \<Longrightarrow> goes_to env r' r'' \<Longrightarrow> goes_to env r r''"
  by (auto simp: goes_to_def)

lemma goes_to_simple:
  "ar_index r' = ar_index r \<Longrightarrow> ar_finished r' = ar_finished r \<Longrightarrow> ar_completions r' = ar_completions r \<Longrightarrow>
   ar_answer r' = ar_answer r \<Longrightarrow> goes_to env r r'"
  by (simp add: goes_to_def async_inv_def)

lemma goes_to_complete: "goes_to env r (complete_async_run env res msg r)"
  by (auto simp: goes_to_def async_inv_def complete_async_run_def try_finish_run_def Let_def split: prod.splits)

lemma goes_to_complete': "goes_to env r r1 \<Longrightarrow> goes_to env r (complete_async_run env res msg r1)"
  using goes_to_complete goes_to_trans by blast

lemma goes_to_drop: "goes_to env r (drop_mw_timer r)"
  by (rule goes_to_simple) (simp_all add: drop_mw_timer_def)

lemma goes_to_error: "goes_to env r (handle_error_run env e r)"
  unfolding handle_error_run_def by (rule goes_to_complete') (rule goes_to_simple; simp)

lemma goes_to_timeout: "goes_to env r (handle_timeout_run env r)"
  unfolding handle_timeout_run_def run_timeout_handler_def by (rule goes_to_complete') (rule goes_to_simple; simp)

lemma goes_to_count: "goes_to env r (count_result env m t res r)"
  by (rule goes_to_simple) (simp_all add: count_result_def Let_def)

lemma goes_to_async_callback:
  assumes "\<And>r x r'. step r = Some (x, r') \<Longrightarrow> goes_to env r r'"
    and "async_callback env step m t res msg r = Some (x, r')"
  shows "goes_to env r r'"
proof -
  let ?r = "count_result env m t res (drop_mw_timer r)"
  have "goes_to env r ?r" using goes_to_drop goes_to_count goes_to_trans by blast
  moreover have "goes_to env ?r r'"
    using assms by (auto simp: async_callback_def handle_middleware_result_run_def goes_to_complete split: mw_result.splits)
  ultimately show ?thesis by (rule goes_to_trans)
qed

lemma run_async_body_goes_to:
  assumes "\<And>r x r'. nxt r = Some (x, r') \<Longrightarrow> goes_to env r r'"
    and "\<And>res msg r x r'. cb res msg r = Some (x, r') \<Longrightarrow> goes_to env r r'"
  shows "run_async_body nxt cb p r = Some (x, r') \<Longrightarrow> goes_to env r r'"
proof (induction p arbitrary: r)
  case (A_Next w k)
  then obtain y r1 where f: "nxt (r\<lparr>ar_world := w\<rparr>) = Some (y, r1)" by (auto split: option.splits)
  have "goes_to env r (r\<lparr>ar_world := w\<rparr>)" by (rule goes_to_simple) simp_all
  with assms(1) [OF f] have c: "goes_to env r r1" by (blast intro: goes_to_trans)
  show ?case
  proof (cases y)
    case None
    with A_Next.prems f have "run_async_body nxt cb (k (ar_world r1)) r1 = Some (x, r')" by simp
    from goes_to_trans [OF c A_Next.IH [OF rangeI this]] show ?thesis .
  qed (use A_Next.prems f c in simp)
next
  case (A_Callback res msg w k)
  then obtain y r1 where f: "cb res msg (r\<lparr>ar_world := w\<rparr>) = Some (y, r1)" by (auto split: option.splits)
  have "goes_to env r (r\<lparr>ar_world := w\<rparr>)" by (rule goes_to_simple) simp_all
  with assms(2) [OF f] have c: "goes_to env r r1" by (blast intro: goes_to_trans)
  show ?case
  proof (cases y)
    case None
    with A_Callback.prems f have "run_async_body nxt cb (k (ar_world r1)) r1 = Some (x, r')" by simp
    from goes_to_trans [OF c A_Callback.IH [OF rangeI this]] show ?thesis .
  qed (use A_Callback.prems f c in simp)
qed (auto intro: goes_to_simple)

text \<open>A step that starts a middleware, as one equation.\<close>

definition may_start_async :: "'x async_env \<Rightarrow> 'x async_run \<Rightarrow> bool" where
  "may_start_async env r = (\<not> ar_cancelled r \<and> \<not> ar_timed_out r \<and> \<not> ar_paused r \<and>
     ar_index r < length (ae_pipeline env) \<and>
     \<not> (0 < ae_global_timeout env \<and> \<not> ar_global_timer r \<and>
        ae_global_timeout env * 1000 < w_now (ar_world r) - ar_start r))"

definition started :: "'x async_env \<Rightarrow> 'x async_run \<Rightarrow> 'x async_run" where
  "started env r = (let m = ae_pipeline env ! ar_index r;
        r = r\<lparr>ar_index := ar_index r + 1, ar_mw_start := (ar_mw_start r)(ar_index r := w_now (ar_world r))\<rparr>
      in if 0 < mw_timeout m \<and> ae_has_io env then setup_middleware_timeout env m r else r)"

lemma async_start_step:
  assumes "may_start_async env r"
  shows "execute_next_async_step (Suc n) env r =
    (let m = ae_pipeline env ! ar_index r
     in if mw_should_execute m (w_ctx (ar_world r))
        then map_option (after_async_body env m)
               (run_async_body (\<lambda>r. execute_next_async_step n env (drop_mw_timer r))
                  (async_callback env (execute_next_async_step n env) m (w_now (ar_world r)))
                  (mw_async m (ar_world r)) (started env r))
        else execute_next_async_step n env (r\<lparr>ar_index := ar_index r + 1\<rparr>))"
  using assms by (auto simp: may_start_async_def started_def setup_middleware_timeout_def Let_def)

lemma async_no_start:
  assumes "\<not> may_start_async env r"
  shows "(\<exists>res. execute_next_async_step (Suc n) env r = Some (None, complete_async_run env res [] r)) \<or>
    execute_next_async_step (Suc n) env r = Some (None, handle_timeout_run env (r\<lparr>ar_timed_out := True\<rparr>))"
proof (cases "ar_cancelled r \<or> ar_timed_out r \<or> ar_paused r \<or> length (ae_pipeline env) \<le> ar_index r")
  case True
  then show ?thesis by auto
next
  case False
  with assms show ?thesis by (simp add: may_start_async_def)
qed

lemma goes_to_started: "may_start_async env r \<Longrightarrow> goes_to env r (started env r)"
  by (auto simp: goes_to_def async_inv_def started_def setup_middleware_timeout_def may_start_async_def Let_def)

lemma started_sels [simp]:
  "ar_index (started env r) = ar_index r + 1" "ar_world (started env r) = ar_world r"
  "ar_finished (started env r) = ar_finished r" "ar_completions (started env r) = ar_completions r"
  by (simp_all add: started_def setup_middleware_timeout_def Let_def)

lemma goes_to_after: "goes_to env (snd y) (snd (after_async_body env m y))"
proof -
  have "goes_to env r (handle_error_run env e (r\<lparr>ar_stats := s\<rparr>))" for r e s
    by (rule goes_to_trans [OF _ goes_to_error], rule goes_to_simple) simp_all
  then show ?thesis
    by (auto simp: after_async_body_def goes_to_error split: prod.splits option.splits)
qed

lemma async_goes_to: "execute_next_async_step n env r = Some (x, r') \<Longrightarrow> goes_to env r r'"
proof (induction n arbitrary: r x r')
  case (Suc n)
  have nxt: "goes_to env r r'" if "execute_next_async_step n env (drop_mw_timer r) = Some (x, r')" for r x r'
    using goes_to_trans [OF goes_to_drop Suc.IH [OF that]] .
  show ?case
  proof (cases "may_start_async env r")
    case True
    let ?m = "ae_pipeline env ! ar_index r"
    show ?thesis
    proof (cases "mw_should_execute ?m (w_ctx (ar_world r))")
      case run: True
      with Suc.prems True obtain y where
          body: "run_async_body (\<lambda>r. execute_next_async_step n env (drop_mw_timer r))
                  (async_callback env (execute_next_async_step n env) ?m (w_now (ar_world r)))
                  (mw_async ?m (ar_world r)) (started env r) = Some y"
          and after: "after_async_body env ?m y = (x, r')"
        by (auto simp: async_start_step Let_def simp del: execute_next_async_step.simps)
      have cb: "goes_to env r r'" if "async_callback env (execute_next_async_step n env) m t res msg r = Some (x, r')"
        for m t res msg r x r'
        using goes_to_async_callback [OF Suc.IH that] .
      have "goes_to env (started env r) (snd y)"
        using run_async_body_goes_to [OF nxt cb] body by (cases y) auto
      with goes_to_started [OF True] goes_to_after [of env y ?m] after show ?thesis
        by (metis goes_to_trans snd_conv)
    next
      case False
      with Suc.prems True have "execute_next_async_step n env (r\<lparr>ar_index := ar_index r + 1\<rparr>) = Some (x, r')"
        by (simp add: async_start_step Let_def del: execute_next_async_step.simps)
      moreover have "goes_to env r (r\<lparr>ar_index := ar_index r + 1\<rparr>)"
        using True by (auto simp: goes_to_def async_inv_def may_start_async_def)
      ultimately show ?thesis using Suc.IH goes_to_trans by blast
    qed
  next
    case False
    have "goes_to env r (handle_timeout_run env (r\<lparr>ar_timed_out := True\<rparr>))"
      by (rule goes_to_trans [OF _ goes_to_timeout], rule goes_to_simple) simp_all
    with async_no_start [OF False, of n] Suc.prems show ?thesis
      by (auto simp: goes_to_complete simp del: execute_next_async_step.simps)
  qed
qed simp

section \<open>Termination of a burst of work\<close>

lemma async_index_mono: "execute_next_async_step n env r = Some (x, r') \<Longrightarrow> ar_index r \<le> ar_index r'"
  by (drule async_goes_to) (simp add: goes_to_def)

lemma run_async_body_total:
  assumes "\<And>r. i \<le> ar_index r \<Longrightarrow> \<exists>x r'. nxt r = Some (x, r') \<and> ar_index r \<le> ar_index r'"
    and "\<And>res msg r. i \<le> ar_index r \<Longrightarrow> \<exists>x r'. cb res msg r = Some (x, r') \<and> ar_index r \<le> ar_index r'"
  shows "i \<le> ar_index r \<Longrightarrow> \<exists>y. run_async_body nxt cb p r = Some y"
proof (induction p arbitrary: r)
  case (A_Next w k)
  then obtain x r1 where n: "nxt (r\<lparr>ar_world := w\<rparr>) = Some (x, r1)" "ar_index r \<le> ar_index r1"
    using assms(1) [of "r\<lparr>ar_world := w\<rparr>"] by auto
  with A_Next show ?case by (cases x) auto
next
  case (A_Callback res msg w k)
  then obtain x r1 where n: "cb res msg (r\<lparr>ar_world := w\<rparr>) = Some (x, r1)" "ar_index r \<le> ar_index r1"
    using assms(2) [of "r\<lparr>ar_world := w\<rparr>" res msg] by auto
  with A_Callback show ?case by (cases x) auto
qed auto

lemma drop_index [simp]: "ar_index (drop_mw_timer r) = ar_index r"
  by (simp add: drop_mw_timer_def)

lemma count_index [simp]: "ar_index (count_result env m t res r) = ar_index r"
  by (simp add: count_result_def Let_def)

lemma async_callback_total:
  assumes "\<exists>y. step (count_result env m t res (drop_mw_timer r)) = Some y"
  shows "\<exists>y. async_callback env step m t res msg r = Some y"
  using assms by (cases res) (auto simp: async_callback_def handle_middleware_result_run_def)

lemma async_enough_fuel:
  "length (ae_pipeline env) - ar_index r < n \<Longrightarrow> \<exists>y. execute_next_async_step n env r = Some y"
proof (induction n arbitrary: r)
  case (Suc n)
  show ?case
  proof (cases "may_start_async env r")
    case True
    let ?m = "ae_pipeline env ! ar_index r"
    from True have less: "ar_index r < length (ae_pipeline env)" by (simp add: may_start_async_def)
    have IH: "\<exists>y. execute_next_async_step n env r1 = Some y" if "ar_index r + 1 \<le> ar_index r1" for r1
      using Suc.IH [of r1] Suc.prems less that by simp
    have nxt: "\<exists>x r'. execute_next_async_step n env (drop_mw_timer r1) = Some (x, r') \<and> ar_index r1 \<le> ar_index r'"
      if "ar_index r + 1 \<le> ar_index r1" for r1
    proof -
      from IH [of "drop_mw_timer r1"] that obtain x r' where e: "execute_next_async_step n env (drop_mw_timer r1) = Some (x, r')"
        by auto
      from async_index_mono [OF e] e show ?thesis by simp
    qed
    have cb: "\<exists>x r'. async_callback env (execute_next_async_step n env) ?m t res msg r1 = Some (x, r') \<and> ar_index r1 \<le> ar_index r'"
      if "ar_index r + 1 \<le> ar_index r1" for r1 t res msg
    proof -
      from IH [of "count_result env ?m t res (drop_mw_timer r1)"] that
      have "\<exists>y. async_callback env (execute_next_async_step n env) ?m t res msg r1 = Some y"
        by (intro async_callback_total) simp
      then obtain x r' where "async_callback env (execute_next_async_step n env) ?m t res msg r1 = Some (x, r')"
        by auto
      moreover from goes_to_async_callback [OF async_goes_to this] have "ar_index r1 \<le> ar_index r'"
        by (simp add: goes_to_def)
      ultimately show ?thesis by blast
    qed
    have "\<exists>y. run_async_body (\<lambda>r. execute_next_async_step n env (drop_mw_timer r))
        (async_callback env (execute_next_async_step n env) ?m (w_now (ar_world r)))
        (mw_async ?m (ar_world r)) (started env r) = Some y"
      by (rule run_async_body_total [where i = "ar_index r + 1", OF nxt cb]) simp_all
    with True IH [of "r\<lparr>ar_index := ar_index r + 1\<rparr>"] show ?thesis
      by (auto simp: async_start_step Let_def simp del: execute_next_async_step.simps)
  next
    case False
    from async_no_start [OF False, of n] show ?thesis by blast
  qed
qed simp

section \<open>The run as a step machine\<close>

lemma inv_new: "async_inv env (new_async_run env paused st w)"
  by (simp add: async_inv_def new_async_run_def Let_def)

lemma execute_async_inv: "execute_async env paused st w = Some (x, r) \<Longrightarrow> async_inv env r"
proof (cases "ae_pipeline env = []")
  case True
  then show "execute_async env paused st w = Some (x, r) \<Longrightarrow> async_inv env r"
    by (auto simp: execute_async_def async_inv_def new_async_run_def Let_def)
next
  case False
  assume A: "execute_async env paused st w = Some (x, r)"
  then obtain y r1 where y: "execute_next_async_step (Suc (length (ae_pipeline env))) env (new_async_run env paused st w) = Some (y, r1)"
    using False by (auto simp: execute_async_def Let_def simp del: execute_next_async_step.simps split: option.splits)
  from async_goes_to [OF y] inv_new have "async_inv env r1" by (auto simp: goes_to_def)
  moreover have "goes_to env r1 r"
    using A False y goes_to_error goes_to_complete
    by (auto simp: execute_async_def Let_def simp del: execute_next_async_step.simps split: option.splits if_splits)
  ultimately show ?thesis by (simp add: goes_to_def)
qed

lemma execute_async_total: "\<exists>y. execute_async env paused st w = Some y"
proof -
  have "\<exists>y. execute_next_async_step (Suc (length (ae_pipeline env))) env (new_async_run env paused st w) = Some y"
    by (rule async_enough_fuel) simp
  then show ?thesis
    by (auto simp: execute_async_def Let_def simp del: execute_next_async_step.simps split: option.splits)
qed

lemma async_step_inv: "async_inv env r \<Longrightarrow> async_inv env (async_step env r e)"
proof (cases e)
  case (Ev_callback i res msg f)
  assume inv: "async_inv env r"
  then have "async_inv env (r\<lparr>ar_world := f (ar_world r)\<rparr>)" by (simp add: async_inv_def)
  then have "async_inv env r'" if "async_callback env (execute_next_async_step n env) m t res msg (r\<lparr>ar_world := f (ar_world r)\<rparr>) = Some (x, r')"
    for n m t x r'
    using goes_to_async_callback [OF async_goes_to that] by (simp add: goes_to_def)
  with inv Ev_callback show ?thesis
    by (auto simp del: execute_next_async_step.simps split: option.splits)
next
  case (Ev_next i f)
  assume inv: "async_inv env r"
  then have "async_inv env (drop_mw_timer (r\<lparr>ar_world := f (ar_world r)\<rparr>))"
    by (simp add: async_inv_def drop_mw_timer_def)
  then have "async_inv env r'" if "execute_next_async_step n env (drop_mw_timer (r\<lparr>ar_world := f (ar_world r)\<rparr>)) = Some (x, r')"
    for n x r'
    using async_goes_to [OF that] by (simp add: goes_to_def)
  with inv Ev_next show ?thesis
    by (auto simp del: execute_next_async_step.simps split: option.splits)
next
  case (Ev_global_timer f)
  assume inv: "async_inv env r"
  have "goes_to env r (on_global_timer env (r\<lparr>ar_world := f (ar_world r)\<rparr>))"
    unfolding on_global_timer_def Let_def
    by (auto intro!: goes_to_simple goes_to_trans [OF goes_to_simple goes_to_timeout])
  with inv Ev_global_timer show ?thesis by (simp add: goes_to_def)
next
  case (Ev_mw_timer f)
  assume "async_inv env r"
  with Ev_mw_timer show ?thesis
    by (simp add: async_inv_def on_middleware_timer_def run_timeout_handler_def Let_def split: option.splits)
qed (simp_all add: async_inv_def cancel_run_def)

interpretation async: step_machine "\<lambda>r. \<exists>paused st w x. execute_async env paused st w = Some (x, r)"
  "async_step env" "async_inv env" for env
  by unfold_locales (auto intro: execute_async_inv async_step_inv)

section \<open>Middlewares with the default asynchronous operator\<close>

definition has_default_async :: "'x middleware \<Rightarrow> bool" where
  "has_default_async m = (mw_async m = (\<lambda>w. default_async (mw_sync m w)))"

lemma finished_complete [simp]: "ar_finished (complete_async_run env res msg r)"
  by (simp add: complete_async_run_def try_finish_run_def Let_def split: prod.splits if_splits)

lemma finished_error [simp]: "ar_finished (handle_error_run env e r)"
  by (simp add: handle_error_run_def)

lemma finished_timeout [simp]: "ar_finished (handle_timeout_run env r)"
  by (simp add: handle_timeout_run_def)

lemma default_body_finishes:
  assumes "\<And>r r'. i \<le> ar_index r \<Longrightarrow> step r = Some (None, r') \<Longrightarrow> ar_finished r'"
    and "\<And>r x r'. step r = Some (x, r') \<Longrightarrow> goes_to env r r'"
  shows "i \<le> ar_index r \<Longrightarrow>
    run_async_body (\<lambda>r. step (drop_mw_timer r)) (async_callback env step m t) (default_async p) r = Some (None, r') \<Longrightarrow>
    ar_finished r'"
proof (induction p arbitrary: r)
  case (Done w)
  then show ?case
    using assms(1) [of "count_result env m t R_Continue (drop_mw_timer (r\<lparr>ar_world := w\<rparr>))"]
    by (auto simp: async_callback_def handle_middleware_result_run_def split: option.splits)
next
  case (Raise e w)
  then show ?case
    by (auto simp: async_callback_def handle_middleware_result_run_def split: if_splits)
next
  case (Call_next w k)
  then obtain y r1 where n: "step (drop_mw_timer (r\<lparr>ar_world := w\<rparr>)) = Some (y, r1)" by (auto split: option.splits)
  with Call_next.prems have y: "y = None"
    and rest: "run_async_body (\<lambda>r. step (drop_mw_timer r)) (async_callback env step m t) (default_async (k (ar_world r1))) r1 = Some (None, r')"
    by (auto split: option.splits)
  have fin: "ar_finished r1" using assms(1) [of "drop_mw_timer (r\<lparr>ar_world := w\<rparr>)"] n y Call_next.prems(1) by simp
  have nx: "goes_to env r r'" if "step (drop_mw_timer r) = Some (x, r')" for r x r'
    using goes_to_trans [OF goes_to_drop assms(2) [OF that]] .
  have cb: "goes_to env r r'" if "async_callback env step m t res msg r = Some (x, r')" for res msg r x r'
    using goes_to_async_callback [OF assms(2) that] .
  from run_async_body_goes_to [OF nx cb rest] fin show ?case by (simp add: goes_to_def)
qed

lemma default_finishes:
  "\<forall>m\<in>set (ae_pipeline env). has_default_async m \<Longrightarrow> length (ae_pipeline env) - ar_index r < n \<Longrightarrow>
   execute_next_async_step n env r = Some (None, r') \<Longrightarrow> ar_finished r'"
proof (induction n arbitrary: r r')
  case (Suc n)
  show ?case
  proof (cases "may_start_async env r")
    case True
    let ?m = "ae_pipeline env ! ar_index r"
    from True have less: "ar_index r < length (ae_pipeline env)" by (simp add: may_start_async_def)
    then have dm: "mw_async ?m = (\<lambda>w. default_async (mw_sync ?m w))"
      using Suc.prems(1) by (simp add: has_default_async_def)
    have IH: "ar_finished r'" if "ar_index r + 1 \<le> ar_index r1" "execute_next_async_step n env r1 = Some (None, r')" for r1 r'
      using Suc.IH [OF Suc.prems(1) _ that(2)] Suc.prems(2) less that(1) by simp
    show ?thesis
    proof (cases "mw_should_execute ?m (w_ctx (ar_world r))")
      case run: True
      with Suc.prems(3) True obtain x r1 where
          body: "run_async_body (\<lambda>r. execute_next_async_step n env (drop_mw_timer r))
                  (async_callback env (execute_next_async_step n env) ?m (w_now (ar_world r)))
                  (default_async (mw_sync ?m (ar_world r))) (started env r) = Some (x, r1)"
          and after: "after_async_body env ?m (x, r1) = (None, r')"
        by (auto simp: async_start_step dm Let_def simp del: execute_next_async_step.simps)
      show ?thesis
      proof (cases x)
        case None
        have "ar_finished r1"
          by (rule default_body_finishes [where i = "ar_index r + 1" and step = "execute_next_async_step n env",
                OF IH async_goes_to _ body [unfolded None]]) simp_all
        with after None show ?thesis by (simp add: after_async_body_def)
      next
        case (Some e)
        with after show ?thesis by (auto simp: after_async_body_def split: if_splits)
      qed
    next
      case False
      with Suc.prems(3) True have "execute_next_async_step n env (r\<lparr>ar_index := ar_index r + 1\<rparr>) = Some (None, r')"
        by (simp add: async_start_step Let_def del: execute_next_async_step.simps)
      from IH [OF _ this] show ?thesis by simp
    qed
  next
    case False
    from async_no_start [OF False, of n] Suc.prems(3) show ?thesis
      by (auto simp del: execute_next_async_step.simps)
  qed
qed simp

section \<open>Middlewares that answer by themselves\<close>

definition answers_with :: "'x middleware \<Rightarrow> ('x world \<Rightarrow> 'x world) \<Rightarrow> bool" where
  "answers_with m f = (has_default_async m \<and> mw_should_execute m = (\<lambda>_. True) \<and> mw_sync m = (\<lambda>w. Done (f w)))"

definition run_open :: "'x async_env \<Rightarrow> 'x async_run \<Rightarrow> bool" where
  "run_open env r = (\<not> ar_cancelled r \<and> \<not> ar_timed_out r \<and> \<not> ar_paused r \<and> ae_global_timeout env \<le> 0)"

lemma run_open_keeps:
  "run_open env (drop_mw_timer r) = run_open env r" "ar_world (drop_mw_timer r) = ar_world r"
  "run_open env (count_result env m t res r) = run_open env r" "ar_world (count_result env m t res r) = ar_world r"
  "run_open env (started env r) = run_open env r" "run_open env (r\<lparr>ar_world := w\<rparr>) = run_open env r"
  by (simp_all add: run_open_def drop_mw_timer_def count_result_def started_def setup_middleware_timeout_def Let_def)

lemma async_world_complete [simp]: "ar_world (complete_async_run env res msg r) = ar_world r"
  by (simp add: complete_async_run_def try_finish_run_def Let_def)

lemma answering_start:
  assumes "run_open env r" and "ar_index r < length (ae_pipeline env)" and "answers_with (ae_pipeline env ! ar_index r) f"
  shows "\<exists>r1. run_open env r1 \<and> ar_index r1 = Suc (ar_index r) \<and> ar_world r1 = f (ar_world r) \<and>
    execute_next_async_step (Suc n) env r = map_option (after_async_body env (ae_pipeline env ! ar_index r))
      (case execute_next_async_step n env r1 of None \<Rightarrow> None | Some (Some e, r') \<Rightarrow> Some (Some e, r')
       | Some (None, r') \<Rightarrow> Some (None, r'))"
proof -
  let ?m = "ae_pipeline env ! ar_index r"
  let ?r = "count_result env ?m (w_now (ar_world r)) R_Continue (drop_mw_timer ((started env r)\<lparr>ar_world := f (ar_world r)\<rparr>))"
  have "may_start_async env r" using assms by (simp add: may_start_async_def run_open_def)
  then have "execute_next_async_step (Suc n) env r = map_option (after_async_body env ?m)
      (case execute_next_async_step n env ?r of None \<Rightarrow> None | Some (Some e, r') \<Rightarrow> Some (Some e, r')
       | Some (None, r') \<Rightarrow> Some (None, r'))"
    using assms(3)
    by (auto simp: async_start_step answers_with_def has_default_async_def async_callback_def handle_middleware_result_run_def
        Let_def simp del: execute_next_async_step.simps split: option.split)
  moreover have "run_open env ?r" "ar_index ?r = Suc (ar_index r)" "ar_world ?r = f (ar_world r)"
    using assms(1) by (simp_all add: run_open_keeps)
  ultimately show ?thesis by blast
qed

lemma answering_run:
  "run_open env r \<Longrightarrow> list_all2 answers_with (drop (ar_index r) (ae_pipeline env)) fs \<Longrightarrow> length fs < n \<Longrightarrow>
   \<exists>r'. execute_next_async_step n env r = Some (None, r') \<and> ar_world r' = foldl (\<lambda>w f. f w) (ar_world r) fs"
proof (induction fs arbitrary: r n)
  case Nil
  then obtain n' where n: "n = Suc n'" by (cases n) auto
  from Nil show ?case by (simp add: n)
next
  case (Cons f fs)
  then obtain n' where n: "n = Suc n'" "length fs < n'" by (cases n) auto
  from Cons.prems(2) have less: "ar_index r < length (ae_pipeline env)"
    by (metis drop_all linorder_not_less list_all2_Nil list.distinct(1))
  then have split: "drop (ar_index r) (ae_pipeline env) = ae_pipeline env ! ar_index r # drop (Suc (ar_index r)) (ae_pipeline env)"
    by (simp add: Cons_nth_drop_Suc)
  from answering_start [OF Cons.prems(1) less, of f n'] Cons.prems(2) split obtain r1 where
      r1: "run_open env r1" "ar_index r1 = Suc (ar_index r)" "ar_world r1 = f (ar_world r)"
      and step: "execute_next_async_step (Suc n') env r = map_option (after_async_body env (ae_pipeline env ! ar_index r))
        (case execute_next_async_step n' env r1 of None \<Rightarrow> None | Some (Some e, r') \<Rightarrow> Some (Some e, r')
         | Some (None, r') \<Rightarrow> Some (None, r'))"
    by auto
  have "list_all2 answers_with (drop (ar_index r1) (ae_pipeline env)) fs"
    using Cons.prems(2) split r1(2) by simp
  from Cons.IH [OF r1(1) this n(2)] obtain r' where
      "execute_next_async_step n' env r1 = Some (None, r')" "ar_world r' = foldl (\<lambda>w f. f w) (f (ar_world r)) fs"
    using r1(3) by auto
  with step n(1) show ?case
    by (simp add: after_async_body_def del: execute_next_async_step.simps)
qed

section \<open>Properties\<close>

text \<open>
  C9: however the callbacks, the calls of \<open>next()\<close>, the timers, cancelling and pausing are
  interleaved after \<open>execute_async\<close>, the completion callback is called at most once, and
  exactly once by the time the run is finished when there is one.
\<close>

theorem async_completes_once:
  assumes "execute_async env paused st w = Some (x, r)"
  shows "let r' = foldl (async_step env) r es
    in length (ar_completions r') \<le> 1 \<and> (ar_finished r' \<and> ae_has_callback env \<longleftrightarrow> length (ar_completions r') = 1)"
proof -
  have "async_inv env (foldl (async_step env) r es)"
    using assms by (intro async.run_from_initial) blast
  then show ?thesis by (simp add: async_inv_def Let_def split: if_splits)
qed

definition sample_env :: "unit middleware list \<Rightarrow> unit async_env" where
  "sample_env ms = \<lparr>ae_pipeline = ms, ae_eh = None, ae_th = None, ae_global_timeout = 0, ae_stats = True,
     ae_has_callback = True, ae_has_io = False\<rparr>"

definition slow_middleware :: "nat \<Rightarrow> int \<Rightarrow> unit middleware" where
  "slow_middleware i timeout = (base_middleware i Done)\<lparr>mw_timeout := timeout, mw_async := A_Done\<rparr>"

theorem async_completes_once_witness:
  "length (ar_completions (foldl (async_step (sample_env [slow_middleware 1 0]))
     (snd (the (execute_async (sample_env [slow_middleware 1 0]) False (\<lambda>_. reset_stats) sample_world)))
     [Ev_callback 0 R_Stop [] id, Ev_callback 0 R_Error ''late'' id])) \<le> 1"
proof -
  let ?env = "sample_env [slow_middleware 1 0]"
  obtain x r where e: "execute_async ?env False (\<lambda>_. reset_stats) sample_world = Some (x, r)"
    by (simp add: execute_async_def sample_env_def slow_middleware_def base_middleware_def new_async_run_def
        after_async_body_def Let_def)
  with async_completes_once [OF e, of "[Ev_callback 0 R_Stop [] id, Ev_callback 0 R_Error ''late'' id]"] show ?thesis
    by (simp add: Let_def del: async_step.simps)
qed

text \<open>
  A pipeline whose middlewares all use the default asynchronous operator completes
  within \<open>execute_async\<close> itself: the call returns, the run is finished and the callback has
  been called exactly once, whatever the bodies do or throw.
\<close>

theorem async_default_completes:
  assumes "\<forall>m\<in>set (ae_pipeline env). has_default_async m" and "ae_has_callback env"
  shows "\<exists>x r. execute_async env paused st w = Some (x, r) \<and> ar_finished r \<and> length (ar_completions r) = 1"
proof -
  have "\<exists>x r. execute_async env paused st w = Some (x, r) \<and> ar_finished r"
  proof (cases "ae_pipeline env = []")
    case True
    then show ?thesis by (simp add: execute_async_def Let_def)
  next
    case False
    let ?r0 = "new_async_run env paused st w"
    have idx: "ar_index ?r0 = 0" by (simp add: new_async_run_def Let_def)
    have "\<exists>y. execute_next_async_step (Suc (length (ae_pipeline env))) env ?r0 = Some y"
      by (rule async_enough_fuel) simp
    then obtain x r where y: "execute_next_async_step (Suc (length (ae_pipeline env))) env ?r0 = Some (x, r)" by auto
    show ?thesis
    proof (cases x)
      case None
      with default_finishes [OF assms(1) _ y [unfolded None]] y False show ?thesis
        by (simp add: execute_async_def Let_def idx del: execute_next_async_step.simps)
    next
      case (Some e)
      with y False show ?thesis by (simp add: execute_async_def Let_def del: execute_next_async_step.simps)
    qed
  qed
  then obtain x r where e: "execute_async env paused st w = Some (x, r)" "ar_finished r" by blast
  from execute_async_inv [OF e(1)] e(2) assms(2) have "length (ar_completions r) = 1" by (simp add: async_inv_def)
  with e show ?thesis by blast
qed

theorem async_default_completes_witness:
  "\<exists>x r. execute_async (sample_env [tag_middleware 1 Low ''a'', answer_middleware 2 404]) False (\<lambda>_. reset_stats) sample_world =
     Some (x, r) \<and> length (ar_completions r) = 1"
  using async_default_completes [of "sample_env [tag_middleware 1 Low ''a'', answer_middleware 2 404]" False "\<lambda>_. reset_stats" sample_world]
  by (auto simp: sample_env_def has_default_async_def tag_middleware_def answer_middleware_def base_middleware_def)

text \<open>
  In an asynchronous run a middleware with the default operator does not end the run by
  leaving out \<open>next()\<close>: every middleware that answers by itself is executed, one after the
  other, and the last one has the response. A synchronous run stops at the first.
\<close>

theorem async_answers_accumulate:
  assumes "list_all2 answers_with (ae_pipeline env) fs" and "ae_global_timeout env \<le> 0"
  shows "\<exists>r. execute_async env False st w = Some (None, r) \<and> ar_world r = foldl (\<lambda>w f. f w) w fs"
proof (cases "ae_pipeline env = []")
  case True
  with assms(1) show ?thesis by (simp add: execute_async_def new_async_run_def Let_def)
next
  case False
  let ?r0 = "new_async_run env False st w"
  have "run_open env ?r0" "ar_world ?r0 = w" "ar_index ?r0 = 0"
    using assms(2) by (simp_all add: run_open_def new_async_run_def Let_def)
  with answering_run [of env ?r0 fs "Suc (length (ae_pipeline env))"] assms(1) False show ?thesis
    by (auto simp: execute_async_def Let_def list_all2_lengthD simp del: execute_next_async_step.simps)
qed

theorem async_answers_accumulate_witness:
  "\<exists>r. execute_async (sample_env [answer_middleware 1 401, answer_middleware 2 200]) False (\<lambda>_. reset_stats) sample_world =
     Some (None, r) \<and> rs_status (w_res (ar_world r)) = 200"
proof -
  let ?f = "\<lambda>status (w :: unit world). w\<lparr>w_res := res_result status (w_res w)\<rparr>"
  have "\<exists>r. execute_async (sample_env [answer_middleware 1 401, answer_middleware 2 200]) False (\<lambda>_. reset_stats) sample_world =
     Some (None, r) \<and> ar_world r = foldl (\<lambda>w f. f w) sample_world [?f 401, ?f 200]"
    by (rule async_answers_accumulate)
       (simp_all add: sample_env_def answers_with_def has_default_async_def answer_middleware_def base_middleware_def)
  then show ?thesis by (auto simp: res_result_def)
qed

text \<open>
  The expiry of a middleware's timer writes the timeout response but never completes the
  run, and the global timer that expires afterwards does not either.
\<close>

theorem middleware_timeout_never_completes:
  assumes "ar_mw_timer r = Some i" and "ar_mw_pending r" and "\<not> ar_timed_out r" and "ae_th env = None"
  shows "let r' = async_step env (async_step env r (Ev_mw_timer id)) (Ev_global_timer id)
    in rs_status (w_res (ar_world r')) = 504 \<and> ar_completions r' = ar_completions r \<and> ar_finished r' = ar_finished r"
  using assms
  by (simp add: on_middleware_timer_def on_global_timer_def run_timeout_handler_def timeout_response_def res_result_def
      res_set_def res_set_body_def Let_def)

theorem middleware_timeout_never_completes_witness:
  "let r = (new_async_run (sample_env []) False (\<lambda>_. reset_stats) sample_world)\<lparr>ar_mw_timer := Some 1, ar_mw_pending := True\<rparr>;
       r' = async_step (sample_env []) (async_step (sample_env []) r (Ev_mw_timer id)) (Ev_global_timer id)
   in ar_completions r' = []"
  using middleware_timeout_never_completes [of "(new_async_run (sample_env []) False (\<lambda>_. reset_stats) sample_world)
      \<lparr>ar_mw_timer := Some 1, ar_mw_pending := True\<rparr>" 1 "sample_env []"]
  by (simp add: new_async_run_def sample_env_def Let_def del: async_step.simps)

end
