(* ===== verification/Connection_Pool.thy ===== *)
theory Connection_Pool
  imports Fox_Prelude
begin

text \<open>
  src/client/connection_pool.cpp: the pool of idle client connections per host and port. A
  connection is an address into a store that holds the state of its socket, because
  connections are shared between the pool and its clients. The two counters are
  \<open>std::size_t\<close>, kept as 64-bit words: they are decremented below zero.
\<close>

section \<open>State\<close>

record connection =
  cn_open :: bool
  cn_in_use :: bool
  cn_last_activity :: int

type_synonym conn_store = "nat \<Rightarrow> connection"

record conn_pool =
  cp_max_size :: "64 word"
  cp_idle_timeout :: int
  cp_pools :: "(string \<times> nat list) list"
  cp_total :: "64 word"
  cp_active :: "64 word"
  cp_store :: conn_store

definition new_conn_pool :: "64 word \<Rightarrow> int \<Rightarrow> conn_store \<Rightarrow> conn_pool" where
  "new_conn_pool max_size idle_timeout store =
     \<lparr>cp_max_size = max_size, cp_idle_timeout = idle_timeout, cp_pools = [], cp_total = 0, cp_active = 0,
      cp_store = store\<rparr>"

section \<open>Operations\<close>

definition new_connection :: "int \<Rightarrow> connection" where
  "new_connection now = \<lparr>cn_open = True, cn_in_use = False, cn_last_activity = now\<rparr>"

definition mark_in_use :: "int \<Rightarrow> connection \<Rightarrow> connection" where
  "mark_in_use now c = c\<lparr>cn_in_use := True, cn_last_activity := now\<rparr>"

definition mark_idle :: "int \<Rightarrow> connection \<Rightarrow> connection" where
  "mark_idle now c = c\<lparr>cn_in_use := False, cn_last_activity := now\<rparr>"

definition is_alive :: "connection \<Rightarrow> bool" where
  "is_alive c = cn_open c"

definition conn_key :: "string \<Rightarrow> nat \<Rightarrow> string" where
  "conn_key host port = host @ '':'' @ to_string port"

text \<open>\<open>pools_[key]\<close> creates an empty queue.\<close>

definition pool_at :: "conn_pool \<Rightarrow> string \<Rightarrow> nat list" where
  "pool_at p key = (case map_of (cp_pools p) key of Some q \<Rightarrow> q | None \<Rightarrow> [])"

text \<open>The loop of \<open>acquire\<close>: the first live connection, the rest of the queue, the dead ones dropped.\<close>

fun acquire_loop :: "conn_store \<Rightarrow> nat list \<Rightarrow> 64 word \<Rightarrow> nat option \<times> nat list \<times> 64 word" where
  "acquire_loop store [] tot = (None, [], tot)"
| "acquire_loop store (c # q) tot =
     (if is_alive (store c) then (Some c, q, tot) else acquire_loop store q (tot - 1))"

definition acquire :: "int \<Rightarrow> string \<Rightarrow> nat \<Rightarrow> conn_pool \<Rightarrow> nat option \<times> conn_pool" where
  "acquire now host port p =
     (let key = conn_key host port;
          (found, q, tot) = acquire_loop (cp_store p) (pool_at p key) (cp_total p);
          p = p\<lparr>cp_pools := put key q (cp_pools p), cp_total := tot\<rparr>
      in case found of
           None \<Rightarrow> (None, p)
         | Some c \<Rightarrow> (Some c, p\<lparr>cp_store := (cp_store p)(c := mark_in_use now (cp_store p c)),
                               cp_active := cp_active p + 1\<rparr>))"

definition release :: "int \<Rightarrow> nat option \<Rightarrow> string \<Rightarrow> nat \<Rightarrow> conn_pool \<Rightarrow> conn_pool" where
  "release now conn host port p =
     (case conn of
        None \<Rightarrow> p
      | Some c \<Rightarrow>
          let key = conn_key host port;
              q = pool_at p key;
              p = p\<lparr>cp_pools := put key q (cp_pools p),
                    cp_store := (cp_store p)(c := mark_idle now (cp_store p c)), cp_active := cp_active p - 1\<rparr>
          in if \<not> is_alive (cp_store p c) then p\<lparr>cp_total := cp_total p - 1\<rparr>
             else if cp_max_size p \<le> cp_total p then p\<lparr>cp_total := cp_total p - 1\<rparr>
             else p\<lparr>cp_pools := put key (q @ [c]) (cp_pools p)\<rparr>)"

definition pool_size :: "conn_pool \<Rightarrow> 64 word" where
  "pool_size p = cp_total p"

definition active_count :: "conn_pool \<Rightarrow> 64 word" where
  "active_count p = cp_active p"

definition pool_clear :: "conn_pool \<Rightarrow> conn_pool" where
  "pool_clear p = p\<lparr>cp_pools := [], cp_total := 0, cp_active := 0\<rparr>"

text \<open>Idle times are compared in seconds of the monotonic clock, kept in microseconds.\<close>

fun cleanup_pool :: "int \<Rightarrow> int \<Rightarrow> conn_store \<Rightarrow> nat list \<Rightarrow> 64 word \<Rightarrow> nat list \<times> 64 word" where
  "cleanup_pool now timeout store [] tot = ([], tot)"
| "cleanup_pool now timeout store (c # q) tot =
     (if \<not> is_alive (store c) then cleanup_pool now timeout store q (tot - 1)
      else if timeout * 1000000 < now - cn_last_activity (store c)
      then cleanup_pool now timeout store q (tot - 1)
      else let (q', tot') = cleanup_pool now timeout store q tot in (c # q', tot'))"

fun cleanup_pools ::
  "int \<Rightarrow> int \<Rightarrow> conn_store \<Rightarrow> (string \<times> nat list) list \<Rightarrow> 64 word \<Rightarrow> (string \<times> nat list) list \<times> 64 word" where
  "cleanup_pools now timeout store [] tot = ([], tot)"
| "cleanup_pools now timeout store ((k, q) # ps) tot =
     (let (q', tot') = cleanup_pool now timeout store q tot;
          (ps', tot'') = cleanup_pools now timeout store ps tot'
      in (if q' = [] then ps' else (k, q') # ps', tot''))"

definition cleanup_expired :: "int \<Rightarrow> conn_pool \<Rightarrow> conn_pool" where
  "cleanup_expired now p =
     (let (ps, tot) = cleanup_pools now (cp_idle_timeout p) (cp_store p) (cp_pools p) (cp_total p)
      in p\<lparr>cp_pools := ps, cp_total := tot\<rparr>)"

section \<open>Steps\<close>

text \<open>All connections that wait in some queue.\<close>

definition idle_conns :: "conn_pool \<Rightarrow> nat list" where
  "idle_conns p = concat (map snd (cp_pools p))"

text \<open>
  What can happen to a pool. A client gives back only a connection that it holds, that is,
  one that is in no queue; sockets close at any time, also while they wait; a new
  connection is one the pool does not hold.
\<close>

datatype pool_event =
    Ev_acquire int string nat "nat option"
  | Ev_release int nat string nat
  | Ev_cleanup int
  | Ev_clear
  | Ev_close nat
  | Ev_connect nat int

inductive pool_step :: "conn_pool \<Rightarrow> pool_event \<Rightarrow> conn_pool \<Rightarrow> bool" where
  Acquire: "acquire now host port p = (found, p') \<Longrightarrow> pool_step p (Ev_acquire now host port found) p'"
| Release: "c \<notin> set (idle_conns p) \<Longrightarrow> pool_step p (Ev_release now c host port) (release now (Some c) host port p)"
| Cleanup: "pool_step p (Ev_cleanup now) (cleanup_expired now p)"
| Clear: "pool_step p Ev_clear (pool_clear p)"
| Close: "pool_step p (Ev_close c) (p\<lparr>cp_store := (cp_store p)(c := (cp_store p c)\<lparr>cn_open := False\<rparr>)\<rparr>)"
| Connect: "c \<notin> set (idle_conns p) \<Longrightarrow>
    pool_step p (Ev_connect c now) (p\<lparr>cp_store := (cp_store p)(c := new_connection now)\<rparr>)"

inductive pool_run :: "conn_pool \<Rightarrow> pool_event list \<Rightarrow> conn_pool \<Rightarrow> bool" where
  Stop: "pool_run p [] p"
| Step: "pool_step p e p' \<Longrightarrow> pool_run p' es p'' \<Longrightarrow> pool_run p (e # es) p''"

inductive_cases pool_run_ConsE: "pool_run p (e # es) p'"
inductive_cases pool_run_NilE: "pool_run p [] p'"

fun releases :: "nat \<Rightarrow> pool_event \<Rightarrow> bool" where
  "releases c (Ev_release t d host port) = (d = c)"
| "releases c _ = False"

fun hands_out :: "nat \<Rightarrow> pool_event \<Rightarrow> bool" where
  "hands_out c (Ev_acquire t host port found) = (found = Some c)"
| "hands_out c _ = False"

definition pool_inv :: "conn_pool \<Rightarrow> bool" where
  "pool_inv p = (distinct (map fst (cp_pools p)) \<and> distinct (idle_conns p) \<and>
     (\<forall>c\<in>set (idle_conns p). \<not> cn_in_use (cp_store p c)))"

section \<open>Lemmas\<close>

lemma acquire_loop_suffix:
  "acquire_loop store q tot = (found, q', tot') \<Longrightarrow>
   (case found of None \<Rightarrow> q' = [] \<and> (\<forall>c\<in>set q. \<not> is_alive (store c))
    | Some c \<Rightarrow> is_alive (store c) \<and> (\<exists>dead. q = dead @ c # q' \<and> (\<forall>d\<in>set dead. \<not> is_alive (store d))))"
proof (induction q arbitrary: tot)
  case (Cons c q)
  show ?case
  proof (cases "is_alive (store c)")
    case False
    with Cons have IH: "case found of None \<Rightarrow> q' = [] \<and> (\<forall>c\<in>set q. \<not> is_alive (store c))
      | Some c \<Rightarrow> is_alive (store c) \<and> (\<exists>dead. q = dead @ c # q' \<and> (\<forall>d\<in>set dead. \<not> is_alive (store d)))" by simp
    show ?thesis
    proof (cases found)
      case (Some d)
      with IH obtain dead where "is_alive (store d)" "q = dead @ d # q'" "\<forall>d\<in>set dead. \<not> is_alive (store d)" by auto
      with False Some show ?thesis by (auto intro!: exI [of _ "c # dead"])
    qed (use IH False in simp)
  qed (use Cons.prems in auto)
qed auto

lemma split_pools:
  assumes "distinct (map fst ps)" and "map_of ps k = Some q"
  shows "\<exists>xs ys. ps = xs @ (k, q) # ys \<and> (\<forall>v. put k v ps = xs @ (k, v) # ys)"
  using assms
proof (induction ps)
  case (Cons e ps)
  show ?case
  proof (cases "fst e = k")
    case True
    with Cons.prems show ?thesis by (cases e) (intro exI [of _ "[]"] exI [of _ ps], simp)
  next
    case False
    with Cons obtain xs ys where "ps = xs @ (k, q) # ys" "\<forall>v. put k v ps = xs @ (k, v) # ys" by (cases e) auto
    with False show ?thesis by (cases e) (intro exI [of _ "e # xs"] exI [of _ ys], simp)
  qed
qed simp

lemma put_fresh: "map_of ps k = None \<Longrightarrow> put k v ps = ps @ [(k, v)]"
  by (induction ps) (auto split: if_splits)

text \<open>Replacing the queue of a key: the idle connections around it stay.\<close>

lemma idle_put:
  assumes "distinct (map fst (cp_pools p))"
  shows "\<exists>xs ys. idle_conns p = xs @ pool_at p k @ ys \<and>
    (\<forall>q. concat (map snd (put k q (cp_pools p))) = xs @ q @ ys)"
proof (cases "map_of (cp_pools p) k")
  case None
  then show ?thesis
    by (intro exI [of _ "idle_conns p"] exI [of _ "[]"]) (simp add: pool_at_def put_fresh idle_conns_def)
next
  case (Some q)
  from split_pools [OF assms Some] obtain xs ys where
    "cp_pools p = xs @ (k, q) # ys" "\<forall>v. put k v (cp_pools p) = xs @ (k, v) # ys" by blast
  with Some show ?thesis
    by (intro exI [of _ "concat (map snd xs)"] exI [of _ "concat (map snd ys)"])
       (simp add: pool_at_def idle_conns_def)
qed

lemma inv_acquire:
  assumes inv: "pool_inv p" and acq: "acquire now host port p = (found, p')"
  shows "pool_inv p' \<and> (case found of None \<Rightarrow> True
    | Some c \<Rightarrow> c \<in> set (pool_at p (conn_key host port)) \<and> is_alive (cp_store p c) \<and>
        cn_in_use (cp_store p' c) \<and> c \<notin> set (idle_conns p'))"
proof -
  let ?k = "conn_key host port"
  obtain q' tot' f where loop: "acquire_loop (cp_store p) (pool_at p ?k) (cp_total p) = (f, q', tot')"
    by (metis prod_cases3)
  from acq loop have f: "f = found" by (auto simp: acquire_def Let_def split: option.splits)
  from inv have keys: "distinct (map fst (cp_pools p))" by (simp add: pool_inv_def)
  from idle_put [OF keys] obtain xs ys where
    idle: "idle_conns p = xs @ pool_at p ?k @ ys"
    and put: "\<And>q. concat (map snd (put ?k q (cp_pools p))) = xs @ q @ ys" by metis
  show ?thesis
  proof (cases found)
    case None
    with acq loop f have p': "p' = p\<lparr>cp_pools := put ?k [] (cp_pools p), cp_total := tot'\<rparr>"
      using acquire_loop_suffix [OF loop] by (simp add: acquire_def Let_def)
    then have "idle_conns p' = xs @ ys" using put [of "[]"] by (simp add: idle_conns_def del: set_concat)
    with inv None idle show ?thesis
      by (auto simp: p' pool_inv_def)
  next
    case (Some c)
    with acquire_loop_suffix [OF loop] f obtain dead where
      c: "is_alive (cp_store p c)" "pool_at p ?k = dead @ c # q'" by auto
    from acq loop f Some have p': "p' = p\<lparr>cp_pools := put ?k q' (cp_pools p), cp_total := tot',
        cp_store := (cp_store p)(c := mark_in_use now (cp_store p c)), cp_active := cp_active p + 1\<rparr>"
      by (simp add: acquire_def Let_def)
    then have "idle_conns p' = xs @ q' @ ys" using put [of q'] by (simp add: idle_conns_def)
    with inv idle c(2) Some c(1) show ?thesis
      by (auto simp: p' pool_inv_def mark_in_use_def)
  qed
qed

lemma release_shape:
  assumes "distinct (map fst (cp_pools p))"
  shows "\<exists>q. q \<in> {pool_at p (conn_key host port), pool_at p (conn_key host port) @ [c]} \<and>
    cp_pools (release now (Some c) host port p) = put (conn_key host port) q (cp_pools p) \<and>
    cp_store (release now (Some c) host port p) = (cp_store p)(c := mark_idle now (cp_store p c))"
  by (auto simp: release_def Let_def)

lemma inv_release:
  assumes inv: "pool_inv p" and c: "c \<notin> set (idle_conns p)"
  shows "pool_inv (release now (Some c) host port p)"
proof -
  let ?k = "conn_key host port" and ?p = "release now (Some c) host port p"
  from inv have keys: "distinct (map fst (cp_pools p))" by (simp add: pool_inv_def)
  from release_shape [OF keys, of host port c now] obtain q where
    q: "q \<in> {pool_at p ?k, pool_at p ?k @ [c]}" "cp_pools ?p = put ?k q (cp_pools p)"
       "cp_store ?p = (cp_store p)(c := mark_idle now (cp_store p c))" by blast
  from idle_put [OF keys] obtain xs ys where
    idle: "idle_conns p = xs @ pool_at p ?k @ ys"
    and put: "\<And>q. concat (map snd (put ?k q (cp_pools p))) = xs @ q @ ys" by metis
  have "idle_conns ?p = xs @ q @ ys" using put q(2) by (simp add: idle_conns_def)
  moreover have "distinct (map fst (cp_pools ?p))" using q(2) keys by simp
  ultimately show ?thesis using q(1,3) inv c idle by (auto simp: pool_inv_def mark_idle_def)
qed

lemma cleanup_pool_subseq: "cleanup_pool now t store q tot = (q', tot') \<Longrightarrow> subseq q' q"
  by (induction q arbitrary: q' tot tot') (auto split: if_splits prod.splits)

lemma cleanup_pools_subseq:
  "cleanup_pools now t store ps tot = (ps', tot') \<Longrightarrow>
   subseq (map fst ps') (map fst ps) \<and> subseq (concat (map snd ps')) (concat (map snd ps))"
proof (induction now t store ps tot arbitrary: ps' tot' rule: cleanup_pools.induct)
  case (2 now t store k q ps tot)
  obtain q1 t1 where q1: "cleanup_pool now t store q tot = (q1, t1)" by fastforce
  obtain ps1 t2 where ps1: "cleanup_pools now t store ps t1 = (ps1, t2)" by fastforce
  from "2.IH" [OF _ _ ps1] q1 have IH: "subseq (map fst ps1) (map fst ps)" "subseq (concat (map snd ps1)) (concat (map snd ps))"
    by auto
  from cleanup_pool_subseq [OF q1] IH have "subseq (q1 @ concat (map snd ps1)) (q @ concat (map snd ps))"
    by (intro list_emb_append_mono) 
  moreover from IH have "subseq (concat (map snd ps1)) (q @ concat (map snd ps))" by (simp add: list_emb_append2)
  ultimately show ?case using "2.prems" q1 ps1 IH by (auto split: if_splits)
qed auto

lemma subseq_keeps: "subseq xs ys \<Longrightarrow> set xs \<subseteq> set ys \<and> (distinct ys \<longrightarrow> distinct xs)"
  by (auto simp: subseq_conv_nths distinct_nthsI dest: in_set_nthsD)

lemma inv_cleanup: "pool_inv p \<Longrightarrow> pool_inv (cleanup_expired now p)"
proof -
  assume inv: "pool_inv p"
  obtain ps t where c: "cleanup_pools now (cp_idle_timeout p) (cp_store p) (cp_pools p) (cp_total p) = (ps, t)" by fastforce
  from cleanup_pools_subseq [OF c] have
    "distinct (map fst (cp_pools p)) \<longrightarrow> distinct (map fst ps)"
    "set (concat (map snd ps)) \<subseteq> set (idle_conns p)" "distinct (idle_conns p) \<longrightarrow> distinct (concat (map snd ps))"
    using subseq_keeps unfolding idle_conns_def by blast+
  moreover have "idle_conns (cleanup_expired now p) = concat (map snd ps)" "cp_pools (cleanup_expired now p) = ps"
    "cp_store (cleanup_expired now p) = cp_store p"
    by (simp_all add: cleanup_expired_def c idle_conns_def)
  ultimately show ?thesis using inv unfolding pool_inv_def by auto
qed

lemma pool_step_inv: "pool_step p e p' \<Longrightarrow> pool_inv p \<Longrightarrow> pool_inv p'"
proof (induction rule: pool_step.induct)
  case (Acquire now host port p found p')
  then show ?case using inv_acquire by blast
next
  case (Release c p now host port)
  then show ?case using inv_release by blast
next
  case (Cleanup p now)
  then show ?case using inv_cleanup by blast
qed (auto simp: pool_inv_def idle_conns_def pool_clear_def new_connection_def)

lemma pool_run_inv: "pool_run p es p' \<Longrightarrow> pool_inv p \<Longrightarrow> pool_inv p'"
  by (induction rule: pool_run.induct) (auto intro: pool_step_inv)

lemma new_pool_inv: "pool_inv (new_conn_pool max_size idle_timeout store)"
  by (simp add: pool_inv_def new_conn_pool_def idle_conns_def)

lemma pool_at_idle: "set (pool_at p k) \<subseteq> set (idle_conns p)"
proof (cases "map_of (cp_pools p) k")
  case (Some q)
  from map_of_SomeD [OF this] Some show ?thesis by (force simp: pool_at_def idle_conns_def)
qed (simp add: pool_at_def)

lemma idle_pool_at:
  assumes "pool_inv p" and "c \<in> set (idle_conns p)"
  shows "\<exists>k. c \<in> set (pool_at p k)"
proof -
  from assms(2) obtain k q where "(k, q) \<in> set (cp_pools p)" "c \<in> set q" by (auto simp: idle_conns_def)
  with assms(1) show ?thesis by (intro exI [of _ k]) (simp add: pool_at_def pool_inv_def)
qed

lemma acquire_pool_at:
  assumes "acquire now host port p = (found, p')"
  shows "set (pool_at p' k) \<subseteq> set (pool_at p k) \<and> set_option found \<subseteq> set (pool_at p (conn_key host port))"
proof -
  obtain q' tot' f where loop: "acquire_loop (cp_store p) (pool_at p (conn_key host port)) (cp_total p) = (f, q', tot')"
    by (metis prod_cases3)
  from acquire_loop_suffix [OF loop]
  have "set q' \<subseteq> set (pool_at p (conn_key host port)) \<and> set_option f \<subseteq> set (pool_at p (conn_key host port))"
    by (auto split: option.splits)
  with assms loop show ?thesis
    by (auto simp: acquire_def pool_at_def Let_def split: option.splits if_splits)
qed

lemma release_pool_at:
  assumes "pool_inv p" and "c \<in> set (pool_at (release now (Some d) host port p) k)"
  shows "c \<in> set (pool_at p k) \<or> (c = d \<and> k = conn_key host port)"
proof -
  from assms(1) have "distinct (map fst (cp_pools p))" by (simp add: pool_inv_def)
  from release_shape [OF this, of host port d now] assms(2) show ?thesis
    by (auto simp: pool_at_def split: if_splits)
qed

lemma cleanup_pools_at:
  "cleanup_pools now t store ps tot = (ps', tot') \<Longrightarrow> distinct (map fst ps) \<Longrightarrow> map_of ps' k = Some q' \<Longrightarrow>
   \<exists>q. map_of ps k = Some q \<and> set q' \<subseteq> set q"
proof (induction now t store ps tot arbitrary: ps' tot' rule: cleanup_pools.induct)
  case (2 now t store l q ps tot)
  obtain q1 t1 where q1: "cleanup_pool now t store q tot = (q1, t1)" by fastforce
  obtain ps1 t2 where ps1: "cleanup_pools now t store ps t1 = (ps1, t2)" by fastforce
  have keys: "set (map fst ps1) \<subseteq> set (map fst ps)" using cleanup_pools_subseq [OF ps1] subseq_keeps by blast
  show ?case
  proof (cases "k = l")
    case True
    have "map_of ps1 l = None"
      using keys "2.prems"(2) by (auto simp: map_of_eq_None_iff)
    with True "2.prems" q1 ps1 show ?thesis
      using subseq_keeps [OF cleanup_pool_subseq [OF q1]] by (auto split: if_splits)
  next
    case False
    with "2.prems" q1 ps1 have "map_of ps1 k = Some q'" by (auto split: if_splits)
    with "2.IH" [OF _ _ ps1] q1 "2.prems"(2) False show ?thesis by auto
  qed
qed auto

lemma cleanup_pool_at:
  assumes "pool_inv p"
  shows "set (pool_at (cleanup_expired now p) k) \<subseteq> set (pool_at p k)"
proof -
  obtain ps t where c: "cleanup_pools now (cp_idle_timeout p) (cp_store p) (cp_pools p) (cp_total p) = (ps, t)" by fastforce
  from cleanup_pools_at [OF c, of k] assms show ?thesis
    by (force simp: pool_inv_def cleanup_expired_def c pool_at_def split: option.splits)
qed

text \<open>A step puts a connection into a queue only by releasing it to that host and port.\<close>

lemma step_pool_at:
  "pool_step p e p' \<Longrightarrow> pool_inv p \<Longrightarrow> c \<in> set (pool_at p' k) \<Longrightarrow>
   if releases c e then \<exists>t host port. e = Ev_release t c host port \<and> k = conn_key host port
   else c \<in> set (pool_at p k) \<and> \<not> hands_out c e"
proof (induction rule: pool_step.induct)
  case (Acquire now host port p found p')
  have "c \<notin> set (idle_conns p')" if "found = Some c"
    using inv_acquire [OF Acquire.prems(1) Acquire.hyps] that by simp
  with acquire_pool_at [OF Acquire.hyps, of k] Acquire.prems(2) pool_at_idle [of p' k] show ?case by auto
next
  case (Release d p now host port)
  then show ?case
    using release_pool_at [OF Release.prems(1,2)] pool_at_idle [of p k] by (cases "d = c") auto
next
  case (Cleanup p now)
  then show ?case using cleanup_pool_at [of p now k] by auto
qed (auto simp: pool_at_def pool_clear_def)

lemma not_idle_run:
  "pool_run p es p' \<Longrightarrow> pool_inv p \<Longrightarrow> c \<notin> set (idle_conns p) \<Longrightarrow> list_all (\<lambda>e. \<not> releases c e) es \<Longrightarrow>
   list_all (\<lambda>e. \<not> hands_out c e) es"
proof (induction rule: pool_run.induct)
  case (Step p e p' es p'')
  have inv: "pool_inv p'" using Step.hyps(1) Step.prems(1) by (rule pool_step_inv)
  have none: "c \<notin> set (pool_at p k)" for k using Step.prems(2) pool_at_idle by blast
  have "c \<notin> set (idle_conns p')"
    using idle_pool_at [OF inv, of c] step_pool_at [OF Step.hyps(1) Step.prems(1), of c] none Step.prems(3) by auto
  moreover have "\<not> hands_out c e"
    using Step.hyps(1) none acquire_pool_at by (cases rule: pool_step.cases) fastforce+
  ultimately show ?case using Step.IH [OF inv] Step.prems(3) by simp
qed simp

text \<open>The last release of a waiting connection named the queue it waits in.\<close>

definition released_for :: "nat \<Rightarrow> string \<Rightarrow> pool_event list \<Rightarrow> bool" where
  "released_for c k es = (\<exists>es1 t host port es2. es = es1 @ Ev_release t c host port # es2 \<and>
     k = conn_key host port \<and> list_all (\<lambda>e. \<not> releases c e) es2)"

lemma released_for_snoc:
  "released_for c k es \<Longrightarrow> \<not> releases c e \<Longrightarrow> released_for c k (es @ [e])"
  by (force simp: released_for_def)

lemma run_released:
  "pool_run p es p' \<Longrightarrow> pool_inv p \<Longrightarrow> (\<And>c k. c \<in> set (pool_at p k) \<Longrightarrow> released_for c k es0) \<Longrightarrow>
   c \<in> set (pool_at p' k) \<Longrightarrow> released_for c k (es0 @ es)"
proof (induction arbitrary: es0 rule: pool_run.induct)
  case (Step p e p' es p'')
  have "released_for d l (es0 @ [e])" if "d \<in> set (pool_at p' l)" for d l
  proof (cases "releases d e")
    case True
    with step_pool_at [OF Step.hyps(1) Step.prems(1) that] obtain t host port
      where "e = Ev_release t d host port" "l = conn_key host port" by auto
    then show ?thesis unfolding released_for_def by (intro exI [of _ es0] exI [of _ t] exI [of _ host] exI [of _ port] exI [of _ "[]"]) simp
  next
    case False
    with step_pool_at [OF Step.hyps(1) Step.prems(1) that] Step.prems(2) released_for_snoc show ?thesis by auto
  qed
  from Step.IH [OF pool_step_inv [OF Step.hyps(1) Step.prems(1)] this Step.prems(3)] show ?case by simp
qed simp

lemma conn_key_inject: "conn_key h p = conn_key h' p' \<longleftrightarrow> h = h' \<and> p = p'"
proof
  assume eq: "conn_key h p = conn_key h' p'"
  have port: "takeWhile (\<lambda>c. c \<noteq> CHR '':'') (rev (conn_key h p)) = rev (to_string p)" for h p
  proof -
    have "CHR '':'' \<notin> set (to_string p)" using to_string_digits [of "CHR '':''" p] by (auto simp: isdigit_def byte_def)
    then show ?thesis by (simp add: conn_key_def takeWhile_append)
  qed
  from port [of h p] port [of h' p'] eq have "to_string p = to_string p'" by simp
  with eq show "h = h' \<and> p = p'" by (simp add: conn_key_def)
qed simp

section \<open>Properties\<close>



text \<open>
  The limit is not a limit: the total is never incremented, so connections given back to a
  pool are all kept, however many and however small the maximum (if positive).
\<close>

fun release_all :: "nat list \<Rightarrow> conn_pool \<Rightarrow> conn_pool" where
  "release_all [] p = p"
| "release_all (c # cs) p = release_all cs (release 0 (Some c) ''h'' 80 p)"

lemma pool_limit_ignored:
  assumes "cp_total p < cp_max_size p" and "\<forall>c. cn_open (cp_store p c)"
  shows "pool_at (release_all cs p) (conn_key ''h'' 80) = pool_at p (conn_key ''h'' 80) @ cs"
  using assms
proof (induction cs arbitrary: p)
  case (Cons c cs)
  have "pool_at (release 0 (Some c) ''h'' 80 p) (conn_key ''h'' 80) = pool_at p (conn_key ''h'' 80) @ [c]"
    "cp_total (release 0 (Some c) ''h'' 80 p) < cp_max_size (release 0 (Some c) ''h'' 80 p)"
    "\<forall>d. cn_open (cp_store (release 0 (Some c) ''h'' 80 p) d)"
    using Cons.prems by (auto simp: release_def is_alive_def mark_idle_def pool_at_def Let_def not_le)
  with Cons.IH show ?case by simp
qed simp

text \<open>
  The counters underflow: giving back a connection that \<open>acquire\<close> did not hand out makes the
  number of active ones 2^64 - 1, and one dead connection does the same to the total,
  after which the pool keeps nothing.
\<close>

lemma active_underflow:
  "cp_active p = 0 \<Longrightarrow> unat (active_count (release now (Some c) host port p)) = 2 ^ 64 - 1"
  by (simp add: release_def active_count_def Let_def unsigned_minus_1_eq_mask mask_eq_exp_minus_1)

lemma dead_connection_closes_pool:
  assumes "cp_total p = 0" and "\<not> cn_open (cp_store p c)"
  shows "let p' = release now (Some c) host port p
    in unat (pool_size p') = 2 ^ 64 - 1 \<and> pool_at (release now' (Some d) host' port' p') k = pool_at p' k"
  using assms
  by (simp add: release_def pool_size_def is_alive_def mark_idle_def pool_at_def Let_def unsigned_minus_1_eq_mask mask_eq_exp_minus_1 split: option.split)

end
