(* ===== verification/Strand_Pool.thy ===== *)
theory Strand_Pool
  imports Configs "HOL-Library.Product_Lexorder"
begin

text \<open>
  src/server/strand_pool.cpp: the pool of strands and its five ways of choosing one. A
  strand is an identity. \<open>std::hash\<close>, \<open>std::sort\<close> on the load factors and the numbers drawn
  by the random generator are parameters; the clock is an argument. The round-robin counter
  is a 64-bit word. The doubles of the load factor are rationals, exact here because no
  operation counts a completed request (part of the invariant).
\<close>

section \<open>State\<close>

record strand_stats =
  sk_total :: nat
  sk_active :: nat
  sk_completed :: nat
  sk_failed :: nat
  sk_exec_time :: int
  sk_last_used :: int
  sk_healthy :: bool

definition new_strand_stats :: "int \<Rightarrow> strand_stats" where
  "new_strand_stats now = \<lparr>sk_total = 0, sk_active = 0, sk_completed = 0, sk_failed = 0, sk_exec_time = 0,
     sk_last_used = now, sk_healthy = True\<rparr>"

definition average_strand_time :: "strand_stats \<Rightarrow> int" where
  "average_strand_time s = (if sk_completed s = 0 then 0 else sk_exec_time s div int (sk_completed s))"

definition load_factor :: "strand_stats \<Rightarrow> rat" where
  "load_factor s = (if sk_active s + sk_completed s = 0 then 0
     else of_nat (sk_active s) / of_nat (sk_active s + sk_completed s))"

record strand_pool =
  sd_config :: strand_pool_config
  sd_strands :: "nat list"
  sd_stats :: "strand_stats list"
  sd_size :: nat
  sd_rr :: "64 word"
  sd_ring :: "(nat \<times> nat) list"
  sd_health_cb :: "(nat \<Rightarrow> bool) option"
  sd_running :: bool
  sd_next_id :: nat

section \<open>Strands\<close>

definition create_strand :: "int \<Rightarrow> strand_pool \<Rightarrow> strand_pool" where
  "create_strand now p = p\<lparr>sd_strands := sd_strands p @ [sd_next_id p], sd_stats := sd_stats p @ [new_strand_stats now],
     sd_next_id := sd_next_id p + 1\<rparr>"

definition remove_at :: "nat \<Rightarrow> 'a list \<Rightarrow> 'a list" where
  "remove_at i xs = take i xs @ drop (Suc i) xs"

definition remove_strand :: "strand_pool \<Rightarrow> nat \<Rightarrow> strand_pool" where
  "remove_strand p i =
     (if i < length (sd_strands p)
      then p\<lparr>sd_strands := remove_at i (sd_strands p), sd_stats := remove_at i (sd_stats p)\<rparr> else p)"

definition virtual_node :: "nat \<Rightarrow> nat \<Rightarrow> string" where
  "virtual_node i j = ''strand_'' @ to_string i @ ''_'' @ to_string j"

text \<open>\<open>std::sort\<close> on pairs: the order is total, so the result is determined.\<close>

definition ring_nodes :: "(string \<Rightarrow> nat) \<Rightarrow> nat \<Rightarrow> (nat \<times> nat) list" where
  "ring_nodes hash n = concat (map (\<lambda>i. map (\<lambda>j. (hash (virtual_node i j), i)) [0..<100]) [0..<n])"

definition update_consistent_hash_ring :: "(string \<Rightarrow> nat) \<Rightarrow> strand_pool \<Rightarrow> strand_pool" where
  "update_consistent_hash_ring hash p = p\<lparr>sd_ring := sort (ring_nodes hash (sd_size p))\<rparr>"

definition new_strand_pool :: "(string \<Rightarrow> nat) \<Rightarrow> strand_pool_config \<Rightarrow> int \<Rightarrow> strand_pool" where
  "new_strand_pool hash cfg now =
     (let p = \<lparr>sd_config = cfg, sd_strands = [], sd_stats = [], sd_size = 0, sd_rr = 0, sd_ring = [],
               sd_health_cb = None, sd_running = False, sd_next_id = 0\<rparr>;
          p = (create_strand now ^^ sc_initial_size cfg) p
      in update_consistent_hash_ring hash (p\<lparr>sd_size := sc_initial_size cfg\<rparr>))"

section \<open>Resizing\<close>

type_synonym load_sort = "(nat \<times> rat \<Rightarrow> nat \<times> rat \<Rightarrow> bool) \<Rightarrow> (nat \<times> rat) list \<Rightarrow> (nat \<times> rat) list"

text \<open>The pool after the call and the exception it threw, if any.\<close>

definition resize :: "load_sort \<Rightarrow> (string \<Rightarrow> nat) \<Rightarrow> int \<Rightarrow> nat \<Rightarrow> strand_pool \<Rightarrow> cpp_exn option \<times> strand_pool" where
  "resize srt hash now new_size p =
     (if new_size < sc_min_size (sd_config p) \<or> sc_max_size (sd_config p) < new_size
      then (Some (Invalid_argument ''Invalid strand pool size''), p)
      else if new_size = sd_size p then (None, p)
      else let p' =
             (if sd_size p < new_size then (create_strand now ^^ (new_size - sd_size p)) p
              else let load_factors = map (\<lambda>i. (i, load_factor (sd_stats p ! i))) [0..<sd_size p];
                       by_load = srt (\<lambda>a b. snd a < snd b) load_factors
                   in foldl remove_strand p (map fst (take (sd_size p - new_size) by_load)))
           in (None, update_consistent_hash_ring hash (p'\<lparr>sd_size := new_size\<rparr>)))"

definition update_strand_config ::
  "load_sort \<Rightarrow> (string \<Rightarrow> nat) \<Rightarrow> int \<Rightarrow> strand_pool_config \<Rightarrow> strand_pool \<Rightarrow> cpp_exn option \<times> strand_pool" where
  "update_strand_config srt hash now cfg p =
     (let p = p\<lparr>sd_config := cfg\<rparr>
      in if sc_initial_size cfg \<noteq> sd_size p then resize srt hash now (sc_initial_size cfg) p else (None, p))"

section \<open>Choosing a strand\<close>

text \<open>
  The null pointer of an empty pool, a strand, or undefined behaviour (a remainder by zero,
  an access outside a vector).
\<close>

datatype pick = No_strand | Picked nat | Undefined_behaviour

definition update_strand_stats :: "int \<Rightarrow> nat \<Rightarrow> strand_pool \<Rightarrow> strand_pool" where
  "update_strand_stats now i p =
     (if i < length (sd_stats p)
      then let s = sd_stats p ! i
           in p\<lparr>sd_stats := (sd_stats p)[i := s\<lparr>sk_total := sk_total s + 1, sk_active := sk_active s + 1, sk_last_used := now\<rparr>]\<rparr>
      else p)"

definition pick_index :: "int \<Rightarrow> nat \<Rightarrow> strand_pool \<Rightarrow> pick \<times> strand_pool" where
  "pick_index now i p =
     (if i < length (sd_strands p) then (Picked (sd_strands p ! i), update_strand_stats now i p)
      else (Undefined_behaviour, p))"

definition round_robin_strand :: "int \<Rightarrow> strand_pool \<Rightarrow> pick \<times> strand_pool" where
  "round_robin_strand now p =
     (if sd_strands p = [] then (No_strand, p)
      else if sd_size p = 0 then (Undefined_behaviour, p)
      else pick_index now (unat (sd_rr p) mod sd_size p) (p\<lparr>sd_rr := sd_rr p + 1\<rparr>))"

fun least_step :: "strand_stats list \<Rightarrow> nat \<times> nat \<Rightarrow> nat \<Rightarrow> nat \<times> nat" where
  "least_step stats (best, least) i =
     (let connections = sk_active (stats ! i)
      in if connections < least \<and> sk_healthy (stats ! i) then (i, connections) else (best, least))"

definition least_connections_strand :: "int \<Rightarrow> strand_pool \<Rightarrow> pick \<times> strand_pool" where
  "least_connections_strand now p =
     (if sd_strands p = [] then (No_strand, p)
      else let (best, least) = foldl (least_step (sd_stats p)) (0, sk_active (sd_stats p ! 0)) [1..<sd_size p]
           in pick_index now best p)"

text \<open>\<open>std::lower_bound\<close> on the sorted ring, wrapping to its beginning.\<close>

definition ring_lookup :: "(nat \<times> nat) list \<Rightarrow> nat \<Rightarrow> (nat \<times> nat) option" where
  "ring_lookup ring h =
     (case find (\<lambda>e. h \<le> fst e) ring of
        Some e \<Rightarrow> Some e
      | None \<Rightarrow> (case ring of [] \<Rightarrow> None | e # _ \<Rightarrow> Some e))"

definition consistent_hash_strand :: "int \<Rightarrow> nat \<Rightarrow> strand_pool \<Rightarrow> pick \<times> strand_pool" where
  "consistent_hash_strand now h p =
     (if sd_strands p = [] then (No_strand, p)
      else case ring_lookup (sd_ring p) h of
             None \<Rightarrow> (Undefined_behaviour, p)
           | Some (_, i) \<Rightarrow> pick_index now i p)"

text \<open>\<open>draw n\<close> is the number that \<open>uniform_int_distribution(0, n - 1)\<close> yields.\<close>

definition random_strand :: "(nat \<Rightarrow> nat) \<Rightarrow> int \<Rightarrow> strand_pool \<Rightarrow> pick \<times> strand_pool" where
  "random_strand draw now p =
     (if sd_strands p = [] then (No_strand, p)
      else if sd_size p = 0 then (Undefined_behaviour, p)
      else pick_index now (draw (sd_size p)) p)"

definition load_weight :: "strand_stats \<Rightarrow> nat" where
  "load_weight s = 100 - nat \<lfloor>load_factor s * 100\<rfloor>"

fun weight_pick :: "strand_stats list \<Rightarrow> nat \<Rightarrow> nat \<Rightarrow> nat list \<Rightarrow> nat option" where
  "weight_pick stats r acc [] = None"
| "weight_pick stats r acc (i # is) =
     (if sk_healthy (stats ! i)
      then let acc = acc + load_weight (stats ! i)
           in if r < acc then Some i else weight_pick stats r acc is
      else weight_pick stats r acc is)"

definition weighted_round_robin_strand :: "(nat \<Rightarrow> nat) \<Rightarrow> int \<Rightarrow> strand_pool \<Rightarrow> pick \<times> strand_pool" where
  "weighted_round_robin_strand draw now p =
     (if sd_strands p = [] then (No_strand, p)
      else let total_weight = sum_list (map (\<lambda>i. load_weight (sd_stats p ! i))
                                (filter (\<lambda>i. sk_healthy (sd_stats p ! i)) [0..<sd_size p]))
           in if total_weight = 0 then round_robin_strand now p
              else case weight_pick (sd_stats p) (draw total_weight) 0 [0..<sd_size p] of
                     Some i \<Rightarrow> pick_index now i p
                   | None \<Rightarrow> round_robin_strand now p)"

text \<open>The hash of the calling thread's identity is an argument.\<close>

definition next_strand :: "(nat \<Rightarrow> nat) \<Rightarrow> nat \<Rightarrow> int \<Rightarrow> strand_pool \<Rightarrow> pick \<times> strand_pool" where
  "next_strand draw thread_hash now p =
     (case sc_strategy (sd_config p) of
        RoundRobin \<Rightarrow> round_robin_strand now p
      | LeastConnections \<Rightarrow> least_connections_strand now p
      | ConsistentHash \<Rightarrow> consistent_hash_strand now thread_hash p
      | Random \<Rightarrow> random_strand draw now p
      | WeightedRoundRobin \<Rightarrow> weighted_round_robin_strand draw now p)"

definition strand_for_session :: "(string \<Rightarrow> nat) \<Rightarrow> int \<Rightarrow> string \<Rightarrow> strand_pool \<Rightarrow> pick \<times> strand_pool" where
  "strand_for_session hash now session_id p = consistent_hash_strand now (hash session_id) p"

definition strand_by_hash :: "int \<Rightarrow> nat \<Rightarrow> strand_pool \<Rightarrow> pick \<times> strand_pool" where
  "strand_by_hash now h p = consistent_hash_strand now h p"

section \<open>Other operations\<close>

definition set_load_balance_strategy :: "load_balance_strategy \<Rightarrow> strand_pool \<Rightarrow> strand_pool" where
  "set_load_balance_strategy s p = p\<lparr>sd_config := (sd_config p)\<lparr>sc_strategy := s\<rparr>\<rparr>"

definition set_health_check_callback :: "(nat \<Rightarrow> bool) option \<Rightarrow> strand_pool \<Rightarrow> strand_pool" where
  "set_health_check_callback cb p = p\<lparr>sd_health_cb := cb\<rparr>"

definition perform_health_check :: "strand_pool \<Rightarrow> strand_pool" where
  "perform_health_check p =
     (case sd_health_cb p of
        None \<Rightarrow> p
      | Some cb \<Rightarrow> p\<lparr>sd_stats := foldl (\<lambda>st i. st[i := (st ! i)\<lparr>sk_healthy := cb i\<rparr>]) (sd_stats p) [0..<sd_size p]\<rparr>)"

definition start_pool :: "strand_pool \<Rightarrow> strand_pool" where
  "start_pool p = p\<lparr>sd_running := True\<rparr>"

definition stop_pool :: "strand_pool \<Rightarrow> strand_pool" where
  "stop_pool p = p\<lparr>sd_running := False\<rparr>"

definition strand_statistics :: "strand_pool \<Rightarrow> strand_stats list" where
  "strand_statistics p = sd_stats p"

definition strand_pool_size :: "strand_pool \<Rightarrow> nat" where
  "strand_pool_size p = sd_size p"

text \<open>The calls of the metrics callback, per strand.\<close>

definition report_metrics :: "strand_pool \<Rightarrow> (string \<times> string \<times> rat) list" where
  "report_metrics p = concat (map (\<lambda>i. let s = sd_stats p ! i
     in [(''strand_total_requests'', to_string i, of_nat (sk_total s)),
         (''strand_active_requests'', to_string i, of_nat (sk_active s)),
         (''strand_load_factor'', to_string i, load_factor s),
         (''strand_avg_execution_time'', to_string i, of_int (average_strand_time s))]) [0..<sd_size p])"

section \<open>The pool as a step machine\<close>

datatype strand_event =
    Next_strand nat int
  | By_hash nat int
  | Resize nat int
  | Update_config strand_pool_config int
  | Set_strategy load_balance_strategy
  | Set_health_cb "(nat \<Rightarrow> bool) option"
  | Health_check
  | Start_pool
  | Stop_pool

fun strand_step :: "load_sort \<Rightarrow> (string \<Rightarrow> nat) \<Rightarrow> (nat \<Rightarrow> nat) \<Rightarrow> strand_pool \<Rightarrow> strand_event \<Rightarrow> strand_pool" where
  "strand_step srt hash draw p (Next_strand th now) = snd (next_strand draw th now p)"
| "strand_step srt hash draw p (By_hash h now) = snd (strand_by_hash now h p)"
| "strand_step srt hash draw p (Resize n now) = snd (resize srt hash now n p)"
| "strand_step srt hash draw p (Update_config cfg now) = snd (update_strand_config srt hash now cfg p)"
| "strand_step srt hash draw p (Set_strategy s) = set_load_balance_strategy s p"
| "strand_step srt hash draw p (Set_health_cb cb) = set_health_check_callback cb p"
| "strand_step srt hash draw p Health_check = perform_health_check p"
| "strand_step srt hash draw p Start_pool = start_pool p"
| "strand_step srt hash draw p Stop_pool = stop_pool p"

definition strand_inv :: "(string \<Rightarrow> nat) \<Rightarrow> strand_pool \<Rightarrow> bool" where
  "strand_inv hash p = (length (sd_stats p) = length (sd_strands p) \<and> sd_size p \<le> length (sd_strands p) \<and>
     sd_ring p = sort (ring_nodes hash (sd_size p)) \<and>
     distinct (sd_strands p) \<and> (\<forall>s\<in>set (sd_strands p). s < sd_next_id p) \<and>
     (\<forall>s\<in>set (sd_stats p). sk_completed s = 0))"

text \<open>The part of the invariant that does not mention the size and the ring.\<close>

definition strands_ok :: "strand_pool \<Rightarrow> bool" where
  "strands_ok p = (length (sd_stats p) = length (sd_strands p) \<and> distinct (sd_strands p) \<and>
     (\<forall>s\<in>set (sd_strands p). s < sd_next_id p) \<and> (\<forall>s\<in>set (sd_stats p). sk_completed s = 0))"

lemma strand_inv_iff: "strand_inv hash p \<longleftrightarrow>
  strands_ok p \<and> sd_size p \<le> length (sd_strands p) \<and> sd_ring p = sort (ring_nodes hash (sd_size p))"
  by (auto simp: strand_inv_def strands_ok_def)

lemma strands_ok_create: "strands_ok p \<Longrightarrow> strands_ok (create_strand now p)"
  by (auto simp: strands_ok_def create_strand_def new_strand_stats_def less_Suc_eq)

lemma create_many:
  "strands_ok p \<Longrightarrow> strands_ok ((create_strand now ^^ n) p) \<and>
   length (sd_strands ((create_strand now ^^ n) p)) = length (sd_strands p) + n"
proof (induction n)
  case (Suc n)
  have "length (sd_strands (create_strand now q)) = length (sd_strands q) + 1" for q by (simp add: create_strand_def)
  with Suc show ?case by (simp add: strands_ok_create)
qed simp

lemma remove_at_keeps: "i < length xs \<Longrightarrow> length (remove_at i xs) = length xs - 1"
  "set (remove_at i xs) \<subseteq> set xs" "distinct xs \<Longrightarrow> distinct (remove_at i xs)"
proof -
  show "i < length xs \<Longrightarrow> length (remove_at i xs) = length xs - 1" by (simp add: remove_at_def)
  show "set (remove_at i xs) \<subseteq> set xs" by (auto simp: remove_at_def dest: in_set_takeD in_set_dropD)
  show "distinct xs \<Longrightarrow> distinct (remove_at i xs)"
    using set_take_disj_set_drop_if_distinct [of xs i "Suc i"] by (simp add: remove_at_def)
qed

lemma remove_strand_ok:
  "strands_ok p \<Longrightarrow> strands_ok (remove_strand p i) \<and> length (sd_strands p) \<le> length (sd_strands (remove_strand p i)) + 1"
  using remove_at_keeps(1) [of i "sd_strands p"] remove_at_keeps(1) [of i "sd_stats p"]
    remove_at_keeps(2) [of i "sd_strands p"] remove_at_keeps(2) [of i "sd_stats p"] remove_at_keeps(3) [of "sd_strands p" i]
  by (auto simp: strands_ok_def remove_strand_def)

lemma remove_many:
  "strands_ok p \<Longrightarrow> strands_ok (foldl remove_strand p is) \<and>
   length (sd_strands p) \<le> length (sd_strands (foldl remove_strand p is)) + length is"
proof (induction "is" arbitrary: p)
  case (Cons i "is")
  from remove_strand_ok [OF Cons.prems, of i] Cons.IH [of "remove_strand p i"] show ?case by auto
qed simp

lemma strand_inv_new: "strand_inv hash (new_strand_pool hash cfg now)"
proof -
  let ?p = "\<lparr>sd_config = cfg, sd_strands = [], sd_stats = [], sd_size = 0, sd_rr = 0, sd_ring = [],
    sd_health_cb = None, sd_running = False, sd_next_id = 0\<rparr>"
  have "strands_ok ?p" by (simp add: strands_ok_def)
  from create_many [OF this, where now = now and n = "sc_initial_size cfg"] show ?thesis
    by (simp add: strand_inv_iff new_strand_pool_def update_consistent_hash_ring_def strands_ok_def)
qed

lemma strand_inv_resize: "strand_inv hash p \<Longrightarrow> strand_inv hash (snd (resize srt hash now n p))"
proof -
  assume inv: "strand_inv hash p"
  then have ok: "strands_ok p" by (simp add: strand_inv_iff)
  have upd: "strand_inv hash (update_consistent_hash_ring hash (p'\<lparr>sd_size := n\<rparr>))"
    if "strands_ok p'" "n \<le> length (sd_strands p')" for p'
    using that by (simp add: strand_inv_iff update_consistent_hash_ring_def strands_ok_def)
  show ?thesis
  proof (cases "sd_size p < n")
    case True
    have "n \<le> length (sd_strands ((create_strand now ^^ (n - sd_size p)) p))"
      using create_many [OF ok, where now = now and n = "n - sd_size p"] inv True by (auto simp: strand_inv_iff)
    with True upd create_many [OF ok, where now = now and n = "n - sd_size p"] inv show ?thesis by (simp add: resize_def)
  next
    case False
    let ?is = "map fst (take (sd_size p - n) (srt (\<lambda>a b. snd a < snd b) (map (\<lambda>i. (i, load_factor (sd_stats p ! i))) [0..<sd_size p])))"
    have "n \<le> length (sd_strands (foldl remove_strand p ?is))"
      using remove_many [OF ok, of ?is] inv False by (auto simp: strand_inv_iff)
    with False upd remove_many [OF ok, of ?is] inv show ?thesis by (simp add: resize_def Let_def)
  qed
qed

lemma strand_inv_stats:
  "strand_inv hash p \<Longrightarrow> length st = length (sd_stats p) \<Longrightarrow> (\<forall>s\<in>set st. sk_completed s = 0) \<Longrightarrow>
   strand_inv hash (p\<lparr>sd_stats := st\<rparr>)"
  by (simp add: strand_inv_def)

lemma strand_inv_pick: "strand_inv hash p \<Longrightarrow> strand_inv hash (snd (pick_index now i p))"
proof -
  assume inv: "strand_inv hash p"
  have "sk_completed s = 0" if "s \<in> set ((sd_stats p)[i := t])" "sk_completed t = sk_completed (sd_stats p ! i)" "i < length (sd_stats p)" for s t
  proof -
    from set_update_subset_insert that(1) have "s = t \<or> s \<in> set (sd_stats p)" by fastforce
    with inv that(2,3) show ?thesis by (auto simp: strand_inv_def)
  qed
  with inv show ?thesis
    by (auto simp: pick_index_def update_strand_stats_def Let_def intro!: strand_inv_stats)
qed

lemma strand_inv_rr: "strand_inv hash p \<Longrightarrow> strand_inv hash (p\<lparr>sd_rr := r\<rparr>)"
  by (simp add: strand_inv_def)

lemma strand_inv_round_robin: "strand_inv hash p \<Longrightarrow> strand_inv hash (snd (round_robin_strand now p))"
  by (simp add: round_robin_strand_def strand_inv_pick strand_inv_rr)

lemma strand_inv_hash: "strand_inv hash p \<Longrightarrow> strand_inv hash (snd (consistent_hash_strand now h p))"
  by (auto simp: consistent_hash_strand_def strand_inv_pick split: option.split)

lemma strand_inv_next: "strand_inv hash p \<Longrightarrow> strand_inv hash (snd (next_strand draw th now p))"
  by (auto simp: next_strand_def least_connections_strand_def random_strand_def weighted_round_robin_strand_def Let_def
      strand_inv_pick strand_inv_round_robin strand_inv_hash split: load_balance_strategy.split option.split prod.split)

lemma health_check_stats:
  "\<forall>i\<in>set is. i < length st \<Longrightarrow> \<forall>s\<in>set st. sk_completed s = 0 \<Longrightarrow>
   length (foldl (\<lambda>st i. st[i := (st ! i)\<lparr>sk_healthy := cb i\<rparr>]) st is) = length st \<and>
   (\<forall>s\<in>set (foldl (\<lambda>st i. st[i := (st ! i)\<lparr>sk_healthy := cb i\<rparr>]) st is). sk_completed s = 0)"
proof (induction "is" arbitrary: st)
  case (Cons i "is")
  have "\<forall>s\<in>set (st[i := (st ! i)\<lparr>sk_healthy := cb i\<rparr>]). sk_completed s = 0"
    using set_update_subset_insert [of st i "(st ! i)\<lparr>sk_healthy := cb i\<rparr>"] Cons.prems by auto
  with Cons.IH [of "st[i := (st ! i)\<lparr>sk_healthy := cb i\<rparr>]"] Cons.prems show ?case by simp
qed simp

lemma strand_inv_health: "strand_inv hash p \<Longrightarrow> strand_inv hash (perform_health_check p)"
proof -
  assume inv: "strand_inv hash p"
  then have "\<forall>i\<in>set [0..<sd_size p]. i < length (sd_stats p)" by (auto simp: strand_inv_def)
  from health_check_stats [OF this] inv show ?thesis
    by (auto simp: perform_health_check_def strand_inv_def split: option.split)
qed

interpretation strands: step_machine "\<lambda>p. \<exists>cfg now. p = new_strand_pool hash cfg now"
  "strand_step srt hash draw" "strand_inv hash" for srt hash draw
proof
  fix p e
  show "\<exists>cfg now. p = new_strand_pool hash cfg now \<Longrightarrow> strand_inv hash p" by (auto simp: strand_inv_new)
  show "strand_inv hash p \<Longrightarrow> strand_inv hash (strand_step srt hash draw p e)"
  proof (cases e)
    case (Update_config cfg now)
    assume "strand_inv hash p"
    then have "strand_inv hash (p\<lparr>sd_config := cfg\<rparr>)" by (simp add: strand_inv_def)
    with Update_config show ?thesis by (simp add: update_strand_config_def strand_inv_resize Let_def)
  next
    case (By_hash h now)
    assume "strand_inv hash p"
    with By_hash show ?thesis by (simp add: strand_by_hash_def strand_inv_hash)
  qed (simp_all add: strand_inv_next strand_inv_resize strand_inv_health,
       simp_all add: set_load_balance_strategy_def set_health_check_callback_def start_pool_def stop_pool_def strand_inv_def)
qed

section \<open>Lookups in the ring\<close>

lemma find_sorted_least:
  "sorted xs \<Longrightarrow> find P xs = Some e \<Longrightarrow> e \<in> set xs \<and> P e \<and> (\<forall>x\<in>set xs. P x \<longrightarrow> e \<le> (x :: 'a :: linorder))"
  by (induction xs) (auto split: if_splits)

lemma ring_lookup_least:
  "ring_lookup (sort xs) h = Some e \<longleftrightarrow>
   e \<in> set xs \<and> (if \<exists>x\<in>set xs. h \<le> fst x then h \<le> fst e \<and> (\<forall>x\<in>set xs. h \<le> fst x \<longrightarrow> e \<le> x)
                  else \<forall>x\<in>set xs. e \<le> x)"
proof (cases "find (\<lambda>e. h \<le> fst e) (sort xs)")
  case None
  then have none: "\<not> (\<exists>x\<in>set xs. h \<le> fst x)" by (auto simp: find_None_iff)
  show ?thesis
  proof (cases "sort xs")
    case Nil
    then have "xs = []" by (metis length_0_conv length_sort)
    then show ?thesis by (simp add: ring_lookup_def)
  next
    case (Cons y ys)
    have sorted: "sorted (y # ys)" using sorted_sort Cons by metis
    have set: "set xs = set (y # ys)" using set_sort Cons by metis
    have "ring_lookup (sort xs) h = Some y" using None Cons by (simp add: ring_lookup_def)
    moreover have "(e \<in> set xs \<and> (\<forall>x\<in>set xs. e \<le> x)) = (y = e)" using sorted set by (auto intro: antisym)
    ultimately show ?thesis using none by auto
  qed
next
  case (Some y)
  from find_sorted_least [OF sorted_sort Some] have
    y: "y \<in> set xs" "h \<le> fst y" "\<forall>x\<in>set xs. h \<le> fst x \<longrightarrow> y \<le> x" by auto
  moreover have "ring_lookup (sort xs) h = Some y" using Some by (simp add: ring_lookup_def)
  ultimately show ?thesis by (auto intro: antisym)
qed

lemma ring_nodes_index: "e \<in> set (ring_nodes hash n) \<longleftrightarrow> snd e < n \<and> e \<in> set (ring_nodes hash (Suc (snd e)))"
  by (auto simp: ring_nodes_def)

lemma ring_nodes_nonempty: "0 < n \<Longrightarrow> \<exists>e. ring_lookup (sort (ring_nodes hash n)) h = Some e"
proof -
  assume "0 < n"
  then have "(hash (virtual_node 0 0), 0) \<in> set (ring_nodes hash n)" by (force simp: ring_nodes_def)
  then have "sort (ring_nodes hash n) \<noteq> []" by (metis empty_iff list.set(1) set_sort)
  then show ?thesis by (auto simp: ring_lookup_def split: option.split list.split)
qed

lemma ring_lookup_index: "ring_lookup (sort (ring_nodes hash n)) h = Some e \<Longrightarrow> snd e < n"
  by (simp add: ring_lookup_least ring_nodes_index [of e hash n])

text \<open>Adding strands to the ring moves a hash to an added strand or not at all.\<close>

lemma ring_growth:
  assumes "n \<le> m" and "ring_lookup (sort (ring_nodes hash n)) h = Some e"
    and "ring_lookup (sort (ring_nodes hash m)) h = Some e'" and "snd e' < n"
  shows "e' = e"
proof -
  have sub: "set (ring_nodes hash n) \<subseteq> set (ring_nodes hash m)" using assms(1) by (force simp: ring_nodes_def)
  have e': "e' \<in> set (ring_nodes hash n)"
    using assms(3,4) by (simp add: ring_lookup_least ring_nodes_index [of e' hash n] ring_nodes_index [of e' hash m])
  have "ring_lookup (sort (ring_nodes hash n)) h = Some e'"
    using assms(2,3) sub e' unfolding ring_lookup_least by (auto split: if_splits)
  with assms(2) show ?thesis by simp
qed

section \<open>Selection\<close>

definition used :: "int \<Rightarrow> strand_stats \<Rightarrow> strand_stats" where
  "used now s = s\<lparr>sk_total := sk_total s + 1, sk_active := sk_active s + 1, sk_last_used := now\<rparr>"

text \<open>A valid choice: a strand of the pool, and its statistics (only) count the request.\<close>

definition valid_choice :: "int \<Rightarrow> nat \<Rightarrow> strand_pool \<Rightarrow> pick \<times> strand_pool \<Rightarrow> bool" where
  "valid_choice now i p r = (i < sd_size p \<and> fst r = Picked (sd_strands p ! i) \<and>
     sd_stats (snd r) = (sd_stats p)[i := used now (sd_stats p ! i)] \<and> sd_strands (snd r) = sd_strands p)"

lemma pick_valid:
  "strand_inv hash p \<Longrightarrow> i < sd_size p \<Longrightarrow> valid_choice now i p (pick_index now i p)"
  by (auto simp: strand_inv_def valid_choice_def pick_index_def update_strand_stats_def used_def Let_def)

lemma valid_choice_rr: "valid_choice now i (p\<lparr>sd_rr := x\<rparr>) r = valid_choice now i p r"
  by (simp add: valid_choice_def)

lemma strands_nonempty: "strand_inv hash p \<Longrightarrow> 0 < sd_size p \<Longrightarrow> sd_strands p \<noteq> []"
  by (auto simp: strand_inv_def)

lemma round_robin_valid:
  assumes "strand_inv hash p" and "0 < sd_size p"
  shows "valid_choice now (unat (sd_rr p) mod sd_size p) p (round_robin_strand now p)"
  using pick_valid [OF strand_inv_rr [OF assms(1)], of "unat (sd_rr p) mod sd_size p"] assms strands_nonempty [OF assms]
  by (simp add: round_robin_strand_def valid_choice_rr)

lemma consistent_hash_valid:
  assumes "strand_inv hash p" and "0 < sd_size p" and "ring_lookup (sort (ring_nodes hash (sd_size p))) h = Some e"
  shows "valid_choice now (snd e) p (consistent_hash_strand now h p)"
proof -
  have "sd_ring p = sort (ring_nodes hash (sd_size p))" using assms(1) by (simp add: strand_inv_def)
  with assms(3) strands_nonempty [OF assms(1,2)]
  have "consistent_hash_strand now h p = pick_index now (snd e) p"
    by (cases e) (simp add: consistent_hash_strand_def)
  then show ?thesis using pick_valid [OF assms(1) ring_lookup_index [OF assms(3)]] by simp
qed

lemma least_loop:
  assumes "foldl (least_step stats) (0, sk_active (stats ! 0)) [1..<n] = (best, least)" and "0 < n"
  shows "best < n \<and> least = sk_active (stats ! best) \<and>
    (\<forall>j<n. sk_healthy (stats ! j) \<longrightarrow> least \<le> sk_active (stats ! j)) \<and> (best = 0 \<or> sk_healthy (stats ! best))"
  using assms
proof (induction n arbitrary: best least)
  case (Suc n)
  show ?case
  proof (cases "n = 0")
    case False
    obtain b l where bl: "foldl (least_step stats) (0, sk_active (stats ! 0)) [1..<n] = (b, l)" by fastforce
    have "least_step stats (b, l) n = (best, least)" using Suc.prems(1) False bl by simp
    with Suc.IH [OF bl] False show ?thesis
      by (auto simp: Let_def less_Suc_eq split: if_splits)
  qed (use Suc.prems in auto)
qed simp

lemma weight_pick_in: "weight_pick stats r acc is = Some i \<Longrightarrow> i \<in> set is"
  by (induction "is" arbitrary: acc) (auto simp: Let_def split: if_splits)

lemma next_strand_valid:
  assumes inv: "strand_inv hash p" and pos: "0 < sd_size p" and draw: "\<And>n. 0 < n \<Longrightarrow> draw n < n"
  shows "\<exists>i. valid_choice now i p (next_strand draw th now p)"
proof (cases "sc_strategy (sd_config p)")
  case RoundRobin
  then show ?thesis using round_robin_valid [OF inv pos] by (auto simp: next_strand_def)
next
  case LeastConnections
  obtain b l where bl: "foldl (least_step (sd_stats p)) (0, sk_active (sd_stats p ! 0)) [1..<sd_size p] = (b, l)" by fastforce
  from least_loop [OF bl pos] pick_valid [OF inv, of b now] LeastConnections strands_nonempty [OF inv pos] bl show ?thesis
    by (auto simp: next_strand_def least_connections_strand_def)
next
  case ConsistentHash
  obtain e where "ring_lookup (sort (ring_nodes hash (sd_size p))) th = Some e" using ring_nodes_nonempty [OF pos] by blast
  with consistent_hash_valid [OF inv pos this] ConsistentHash show ?thesis by (auto simp: next_strand_def)
next
  case Random
  with pick_valid [OF inv draw [OF pos], of now] strands_nonempty [OF inv pos] pos show ?thesis
    by (auto simp: next_strand_def random_strand_def)
next
  case WeightedRoundRobin
  have "\<exists>i. valid_choice now i p (weighted_round_robin_strand draw now p)"
    using round_robin_valid [OF inv pos, of now] strands_nonempty [OF inv pos] pick_valid [OF inv, of _ now]
    by (fastforce simp: weighted_round_robin_strand_def Let_def split: option.split dest!: weight_pick_in)
  with WeightedRoundRobin show ?thesis by (simp add: next_strand_def)
qed

lemma nth_notin_take: "distinct xs \<Longrightarrow> n \<le> i \<Longrightarrow> i < length xs \<Longrightarrow> xs ! i \<notin> set (take n xs)"
  by (auto simp: in_set_conv_nth nth_eq_iff_index_eq)

section \<open>Round robin\<close>

fun round_robin_picks :: "int \<Rightarrow> nat \<Rightarrow> strand_pool \<Rightarrow> pick list" where
  "round_robin_picks now 0 p = []"
| "round_robin_picks now (Suc n) p =
     (let (c, p') = round_robin_strand now p in c # round_robin_picks now n p')"

lemma round_robin_keeps:
  assumes "strand_inv hash p" and "0 < sd_size p"
  shows "sd_size (snd (round_robin_strand now p)) = sd_size p" "sd_rr (snd (round_robin_strand now p)) = sd_rr p + 1"
  using strands_nonempty [OF assms] assms
  by (auto simp: round_robin_strand_def pick_index_def update_strand_stats_def strand_inv_def Let_def
      intro: less_le_trans [OF mod_less_divisor])

lemma round_robin_sequence:
  "strand_inv hash p \<Longrightarrow> 0 < sd_size p \<Longrightarrow> unat (sd_rr p) + n < 2 ^ 64 \<Longrightarrow>
   round_robin_picks now n p = map (\<lambda>t. Picked (sd_strands p ! ((unat (sd_rr p) + t) mod sd_size p))) [0..<n]"
proof (induction n arbitrary: p)
  case (Suc n)
  let ?p = "snd (round_robin_strand now p)"
  note v = round_robin_valid [OF Suc.prems(1,2), of now]
  have keep: "sd_size ?p = sd_size p" "sd_rr ?p = sd_rr p + 1" "sd_strands ?p = sd_strands p"
    using round_robin_keeps [OF Suc.prems(1,2)] v by (auto simp: valid_choice_def)
  have rr: "unat (sd_rr p + 1) = unat (sd_rr p) + 1" using Suc.prems(3) by (simp add: unat_word_ariths)
  have "round_robin_picks now n ?p = map (\<lambda>t. Picked (sd_strands p ! ((unat (sd_rr p) + 1 + t) mod sd_size p))) [0..<n]"
    using Suc.IH [OF strand_inv_round_robin [OF Suc.prems(1)]] Suc.prems(2,3) keep rr by simp
  moreover have "[0..<Suc n] = 0 # map Suc [0..<n]" by (simp add: map_Suc_upt upt_conv_Cons)
  ultimately show ?case
    using v by (simp add: valid_choice_def case_prod_beta comp_def del: upt_Suc)
qed simp

lemma residues_once:
  assumes "j < (n :: nat)"
  shows "length (filter (\<lambda>t. (a + t) mod n = j) [b..<b + n]) = 1"
proof -
  have le: "t = u" if "t \<le> u" "b \<le> t" "u < b + n" "(a + t) mod n = (a + u) mod n" for t u
  proof -
    have "n dvd (a + u) - (a + t)" using that(1,4) by (metis mod_eq_dvd_iff_nat add_le_mono1 add.commute)
    moreover have "(a + u) - (a + t) < n" using that(1-3) by simp
    ultimately show ?thesis using that(1) nat_dvd_not_less by fastforce
  qed
  have inj: "inj_on (\<lambda>t. (a + t) mod n) {b..<b + n}"
    by (rule inj_onI) (metis atLeastLessThan_iff le nat_le_linear)
  have "(\<lambda>t. (a + t) mod n) ` {b..<b + n} = {..<n}"
    by (rule card_subset_eq) (use assms inj in \<open>auto simp: card_image\<close>)
  with assms obtain t where t: "t \<in> {b..<b + n}" "(a + t) mod n = j" by (metis (no_types, lifting) imageE lessThan_iff)
  have "{u \<in> {b..<b + n}. (a + u) mod n = j} = {t}" using t inj by (auto dest: inj_onD)
  then have "card {u \<in> {b..<b + n}. (a + u) mod n = j} = 1" by simp
  moreover have "length (filter (\<lambda>t. (a + t) mod n = j) [b..<b + n]) = card (set (filter (\<lambda>t. (a + t) mod n = j) [b..<b + n]))"
    by (rule distinct_card [symmetric]) simp
  ultimately show ?thesis by simp
qed

lemma residues_count:
  "j < (n :: nat) \<Longrightarrow> length (filter (\<lambda>t. (a + t) mod n = j) [0..<k * n]) = k"
proof (induction k)
  case (Suc k)
  have "[0..<Suc k * n] = [0..<k * n] @ [k * n..<k * n + n]"
    using upt_add_eq_append [of 0 "k * n" n] by (simp add: add.commute)
  with Suc residues_once [of j n a "k * n"] show ?case by simp
qed simp

section \<open>Properties\<close>


text \<open>A configuration with two strands (for concrete instances).\<close>

definition small_config :: "load_balance_strategy \<Rightarrow> nat \<Rightarrow> strand_pool_config" where
  "small_config s n = (default_strand_pool_config n)\<lparr>sc_strategy := s\<rparr>"

lemma new_pool_size: "sd_size (new_strand_pool hash cfg t) = sc_initial_size cfg"
  by (simp add: new_strand_pool_def update_consistent_hash_ring_def Let_def)


text \<open>
  Round robin is fair. From any state of the pool, any number of full rounds gives every
  strand in use the same number of requests (until the 64-bit counter wraps).
\<close>

theorem round_robin_fair:
  assumes "p = foldl (strand_step srt hash draw) (new_strand_pool hash cfg t0) es"
    and "i < sd_size p" and "unat (sd_rr p) + k * sd_size p < 2 ^ 64"
  shows "count_list (round_robin_picks now (k * sd_size p) p) (Picked (sd_strands p ! i)) = k"
proof -
  let ?n = "sd_size p" and ?a = "unat (sd_rr p)"
  have inv: "strand_inv hash p" unfolding assms(1) by (rule strands.run_from_initial) blast
  have pos: "0 < ?n" using assms(2) by simp
  have idx: "sd_strands p ! ((?a + t) mod ?n) = sd_strands p ! i \<longleftrightarrow> (?a + t) mod ?n = i" for t
  proof -
    have "(?a + t) mod ?n < length (sd_strands p)" "i < length (sd_strands p)"
      using inv assms(2) mod_less_divisor [OF pos, of "?a + t"] by (auto simp: strand_inv_def simp del: mod_less_divisor)
    with inv show ?thesis by (simp add: strand_inv_def nth_eq_iff_index_eq)
  qed
  have "count_list (round_robin_picks now (k * ?n) p) (Picked (sd_strands p ! i)) =
      length (filter (\<lambda>t. (?a + t) mod ?n = i) [0..<k * ?n])"
    unfolding round_robin_sequence [OF inv pos assms(3)] count_list_eq_length_filter filter_map
    by (simp add: comp_def idx eq_commute [of "sd_strands p ! i"])
  then show ?thesis using residues_count [OF assms(2)] by simp
qed

theorem round_robin_fair_witness:
  "count_list (round_robin_picks 0 (2 * 3) (new_strand_pool length (small_config RoundRobin 3) 0))
     (Picked (sd_strands (new_strand_pool length (small_config RoundRobin 3) 0) ! 1)) = 2"
proof -
  let ?p = "new_strand_pool length (small_config RoundRobin 3) 0"
  have size: "sd_size ?p = 3" by (simp add: new_pool_size small_config_def default_strand_pool_config_def)
  have "sd_rr (create_strand 0 q) = sd_rr q" for q by (simp add: create_strand_def)
  then have "sd_rr ((create_strand 0 ^^ n) q) = sd_rr q" for n q by (induction n) simp_all
  then have "sd_rr ?p = 0" by (simp add: new_strand_pool_def update_consistent_hash_ring_def Let_def)
  with size round_robin_fair [of ?p insertion_sort length id "small_config RoundRobin 3" 0 "[]" 1 2 0] show ?thesis
    by simp
qed

text \<open>
  C35: consistent hashing. When the pool grows, the strand for a hash stays the same or becomes
  one that was not in use before: no hash moves between the strands that were in use.
\<close>

theorem consistent_hash_growth:
  assumes "p = foldl (strand_step srt hash draw) (new_strand_pool hash cfg t0) es"
    and "0 < sd_size p" and "sd_size p < m" and "resize srt hash now m p = (None, p')"
  shows "fst (strand_by_hash now h p') = fst (strand_by_hash now h p) \<or>
    (\<exists>s. fst (strand_by_hash now h p') = Picked s \<and> s \<notin> set (take (sd_size p) (sd_strands p)))"
proof -
  have inv: "strand_inv hash p" unfolding assms(1) by (rule strands.run_from_initial) blast
  then have inv': "strand_inv hash p'" using strand_inv_resize [OF inv, of srt now m] assms(4) by simp
  have create: "\<exists>new. sd_strands ((create_strand now ^^ n) q) = sd_strands q @ new" for n q
    by (induction n) (auto simp: create_strand_def)
  have size': "sd_size p' = m" using assms(3,4)
    by (auto simp: resize_def update_consistent_hash_ring_def Let_def split: if_splits)
  obtain new where strands': "sd_strands p' = sd_strands p @ new"
    using assms(3,4) create [of "m - sd_size p" p]
    by (auto simp: resize_def update_consistent_hash_ring_def Let_def split: if_splits)
  obtain e where e: "ring_lookup (sort (ring_nodes hash (sd_size p))) h = Some e"
    using ring_nodes_nonempty [OF assms(2)] by blast
  obtain e' where e': "ring_lookup (sort (ring_nodes hash (sd_size p'))) h = Some e'"
    using ring_nodes_nonempty [of "sd_size p'"] size' assms(3) by fastforce
  have picks: "fst (strand_by_hash now h p) = Picked (sd_strands p ! snd e)"
    "fst (strand_by_hash now h p') = Picked (sd_strands p' ! snd e')"
    using consistent_hash_valid [OF inv assms(2) e] consistent_hash_valid [OF inv' _ e'] size' assms(3)
    by (auto simp: strand_by_hash_def valid_choice_def)
  show ?thesis
  proof (cases "snd e' < sd_size p")
    case True
    then have "e' = e" using ring_growth [OF _ e e' [unfolded size']] assms(3) by simp
    with picks True inv strands' show ?thesis by (auto simp: nth_append strand_inv_def)
  next
    case False
    have "snd e' < length (sd_strands p')" using ring_lookup_index [OF e'] inv' by (simp add: strand_inv_def)
    with False inv' have "sd_strands p' ! snd e' \<notin> set (take (sd_size p) (sd_strands p'))"
      by (intro nth_notin_take) (simp_all add: strand_inv_def)
    with picks strands' inv show ?thesis by (auto simp: strand_inv_def)
  qed
qed

theorem consistent_hash_growth_witness:
  "let p = new_strand_pool length (small_config ConsistentHash 2) 0;
       p' = snd (resize insertion_sort length 1 4 p)
   in fst (strand_by_hash 1 9 p') = fst (strand_by_hash 1 9 p) \<or>
      (\<exists>s. fst (strand_by_hash 1 9 p') = Picked s \<and> s \<notin> set (take 2 (sd_strands p)))"
proof -
  let ?p = "new_strand_pool length (small_config ConsistentHash 2) 0"
  have size: "sd_size ?p = 2" by (simp add: new_pool_size small_config_def default_strand_pool_config_def)
  have "sd_config (create_strand t q) = sd_config q" for t q by (simp add: create_strand_def)
  then have "sd_config ((create_strand t ^^ n) q) = sd_config q" for t n q by (induction n) simp_all
  then have "sd_config ?p = small_config ConsistentHash 2"
    by (simp add: new_strand_pool_def update_consistent_hash_ring_def Let_def)
  with size have "resize insertion_sort length 1 4 ?p = (None, snd (resize insertion_sort length 1 4 ?p))"
    by (simp add: resize_def small_config_def default_strand_pool_config_def Let_def)
  from consistent_hash_growth [of ?p insertion_sort length id "small_config ConsistentHash 2" 0 "[]", OF _ _ _ this] size
  show ?thesis by (simp add: Let_def)
qed

text \<open>
  The strand chosen by least connections has no more active requests than any healthy one,
  and is healthy unless it is the first.
\<close>

lemma least_connections_minimal:
  assumes "strand_inv hash p" and "0 < sd_size p"
  shows "\<exists>i. valid_choice now i p (least_connections_strand now p) \<and>
    (\<forall>j. j < sd_size p \<longrightarrow> sk_healthy (sd_stats p ! j) \<longrightarrow> sk_active (sd_stats p ! i) \<le> sk_active (sd_stats p ! j)) \<and>
    (i = 0 \<or> sk_healthy (sd_stats p ! i))"
proof -
  obtain b l where bl: "foldl (least_step (sd_stats p)) (0, sk_active (sd_stats p ! 0)) [1..<sd_size p] = (b, l)" by fastforce
  from least_loop [OF bl assms(2)] pick_valid [OF assms(1), of b now] strands_nonempty [OF assms] bl show ?thesis
    by (auto simp: least_connections_strand_def)
qed

text \<open>
  Shrinking removes by indices that the earlier removals have shifted: of four strands, the
  two idle ones (0 and 1) should go, but the busy strand 2 is removed and the idle strand 1 stays.
\<close>

lemma shrink_removes_busy_strand:
  "let idle = new_strand_stats 0; busy = used 0 idle;
       p = (new_strand_pool length (small_config RoundRobin 0) 0)
             \<lparr>sd_strands := [0, 1, 2, 3], sd_stats := [idle, idle, busy, busy], sd_size := 4\<rparr>
   in sd_strands (snd (resize insertion_sort length 0 2 p)) = [1, 3]"
  by (simp add: resize_def new_strand_pool_def small_config_def default_strand_pool_config_def new_strand_stats_def
      used_def load_factor_def remove_strand_def remove_at_def update_consistent_hash_ring_def upt_rec)

end
