(* ===== verification/Session.thy ===== *)
theory Session
  imports Middleware_Async Configs
begin

text \<open>
  src/server/session_base.cpp, session.cpp and ssl_session.cpp (the coroutine builds) with
  detail/await_middleware_async.hpp: the connection of one client as a state machine. Its
  events are the completions of the asynchronous operations the session started and the
  expiry of its timers. Boost.Beast decides whether a request is a WebSocket upgrade and
  whether a response keeps the connection: both are parameters.
\<close>

section \<open>SessionBase\<close>

text \<open>
  A timer is \<open>Some\<close> of the milliseconds it was armed with while it can still expire. The
  calls of the error callback are recorded.
\<close>

record session_base =
  sb_limits :: session_limits
  sb_idle :: "int option"
  sb_header :: "int option"
  sb_body :: "int option"
  sb_error_cb :: bool
  sb_notified :: "cpp_exn list"

definition set_limits :: "session_limits \<Rightarrow> 'a session_base_scheme \<Rightarrow> 'a session_base_scheme" where
  "set_limits l s = s\<lparr>sb_limits := l\<rparr>"

definition arm_idle_timer :: "'a session_base_scheme \<Rightarrow> 'a session_base_scheme" where
  "arm_idle_timer s = s\<lparr>sb_idle := Some (sl_idle_timeout (sb_limits s))\<rparr>"

definition cancel_idle_timer :: "'a session_base_scheme \<Rightarrow> 'a session_base_scheme" where
  "cancel_idle_timer s = s\<lparr>sb_idle := None\<rparr>"

definition arm_header_timer :: "'a session_base_scheme \<Rightarrow> 'a session_base_scheme" where
  "arm_header_timer s = s\<lparr>sb_header := Some (sl_header_read_timeout (sb_limits s))\<rparr>"

definition cancel_header_timer :: "'a session_base_scheme \<Rightarrow> 'a session_base_scheme" where
  "cancel_header_timer s = s\<lparr>sb_header := None\<rparr>"

definition arm_body_timer :: "'a session_base_scheme \<Rightarrow> 'a session_base_scheme" where
  "arm_body_timer s = s\<lparr>sb_body := Some (sl_body_read_timeout (sb_limits s))\<rparr>"

definition cancel_body_timer :: "'a session_base_scheme \<Rightarrow> 'a session_base_scheme" where
  "cancel_body_timer s = s\<lparr>sb_body := None\<rparr>"

definition on_activity :: "'a session_base_scheme \<Rightarrow> 'a session_base_scheme" where
  "on_activity s = arm_idle_timer (cancel_idle_timer s)"

definition sb_set_error_callback :: "bool \<Rightarrow> 'a session_base_scheme \<Rightarrow> 'a session_base_scheme" where
  "sb_set_error_callback present s = s\<lparr>sb_error_cb := present\<rparr>"

definition notify_error :: "cpp_exn \<Rightarrow> 'a session_base_scheme \<Rightarrow> 'a session_base_scheme" where
  "notify_error e s = (if sb_error_cb s then s\<lparr>sb_notified := sb_notified s @ [e]\<rparr> else s)"

lemmas session_timer_defs = set_limits_def arm_idle_timer_def cancel_idle_timer_def arm_header_timer_def
  cancel_header_timer_def arm_body_timer_def cancel_body_timer_def on_activity_def

section \<open>State of a session\<close>

datatype abort_reason = Abort_none | Header_timeout | Body_timeout | Handshake_timeout

text \<open>Where the coroutine is suspended, or how it ended.\<close>

datatype session_phase =
    Created | Handshaking | Reading | In_chain | Writing | Writing_timeout | Upgraded | Ended

datatype io_error = Ec_aborted | Ec_end_of_stream | Ec_other string

text \<open>
  \<open>sn_open\<close> is false after \<open>socket_.shutdown\<close>. The last three components record what
  crossed the connection: the requests read, the responses of the chain written, each with
  the request it answers, and the timeout response.
\<close>

record 'x session = session_base +
  sn_phase :: session_phase
  sn_abort :: abort_reason
  sn_handshake :: "int option"
  sn_open :: bool
  sn_req :: http_request
  sn_res :: http_response
  sn_run :: "'x async_run option"
  sn_served :: nat
  sn_read :: "http_request list"
  sn_sent :: "(http_request \<times> http_response) list"
  sn_final :: "http_response option"

text \<open>What the shared chain and the clock are like when a request starts through it.\<close>

record 'x chain_view =
  cv_paused :: bool
  cv_stats :: "nat \<Rightarrow> mw_stats"
  cv_now :: int
  cv_ext :: 'x

record 'x session_env =
  se_chain :: "'x async_env"
  se_upgrade :: "http_request \<Rightarrow> bool"
  se_keep_alive :: "http_response \<Rightarrow> bool"

text \<open>\<open>http::request\<close>'s default: version 11 and no method.\<close>

definition empty_request :: http_request where
  "empty_request = \<lparr>rq_method = Verb_unknown, rq_method_string = [], rq_target = [], rq_find = (\<lambda>_. None),
     rq_body = [], rq_keep_alive = True, rq_version = 11\<rparr>"

definition new_session :: "'x session" where
  "new_session =
     \<lparr>sb_limits = default_session_limits, sb_idle = None, sb_header = None, sb_body = None,
      sb_error_cb = False, sb_notified = [],
      sn_phase = Created, sn_abort = Abort_none, sn_handshake = None, sn_open = True,
      sn_req = empty_request, sn_res = res_init, sn_run = None, sn_served = 0,
      sn_read = [], sn_sent = [], sn_final = None\<rparr>"

section \<open>The steps of Session::run\<close>

text \<open>The head of the loop: the header timer is armed and a read is started.\<close>

definition begin_read :: "'x session \<Rightarrow> 'x session" where
  "begin_read s = (arm_header_timer s)\<lparr>sn_abort := Abort_none, sn_phase := Reading\<rparr>"

definition start_session :: "'x session \<Rightarrow> 'x session" where
  "start_session s = begin_read (arm_idle_timer s)"

definition shutdown_socket :: "'x session \<Rightarrow> 'x session" where
  "shutdown_socket s = s\<lparr>sn_open := False\<rparr>"

text \<open>
  \<open>co_return\<close>: the coroutine held the last reference to the session, whose destruction
  cancels the timers.
\<close>

definition end_session :: "session_phase \<Rightarrow> 'x session \<Rightarrow> 'x session" where
  "end_session ph s = s\<lparr>sn_phase := ph, sb_idle := None, sb_header := None, sb_body := None,
     sn_handshake := None, sn_run := None\<rparr>"

definition write_timeout :: "string \<Rightarrow> 'x session \<Rightarrow> 'x session" where
  "write_timeout text s =
     s\<lparr>sn_res := res_prepare_payload (res_set_body text (res_set ''Content-Type'' ''text/plain''
                   (new_response 408 (rq_version (sn_req s))))),
       sn_phase := Writing_timeout\<rparr>"

definition read_failed :: "io_error \<Rightarrow> 'x session \<Rightarrow> 'x session" where
  "read_failed ec s =
     (let s = cancel_header_timer s
      in if ec = Ec_aborted
         then let why = sn_abort s; s = s\<lparr>sn_abort := Abort_none\<rparr>
              in case why of
                   Header_timeout \<Rightarrow> write_timeout ''Header read timeout'' s
                 | Body_timeout \<Rightarrow> write_timeout ''Body read timeout'' s
                 | _ \<Rightarrow> end_session Ended s
         else end_session Ended s)"

text \<open>
  \<open>await_middleware_chain_async\<close>: the chain is started on a new context; what its first
  burst of work throws ends the coroutine through its handlers.
\<close>

definition enter_chain :: "'x session_env \<Rightarrow> 'x chain_view \<Rightarrow> 'x session \<Rightarrow> 'x session" where
  "enter_chain env cv s =
     (case execute_async (se_chain env) (cv_paused cv) (cv_stats cv)
             \<lparr>w_ctx = new_request_context (sn_req s), w_res = sn_res s, w_now = cv_now cv, w_ext = cv_ext cv\<rparr> of
        Some (None, r) \<Rightarrow> s\<lparr>sn_phase := In_chain, sn_run := Some r\<rparr>
      | Some (Some e, r) \<Rightarrow> end_session Ended (notify_error e (s\<lparr>sn_res := w_res (ar_world r)\<rparr>))
      | None \<Rightarrow> s)"

definition read_done :: "'x session_env \<Rightarrow> http_request \<Rightarrow> 'x chain_view \<Rightarrow> 'x session \<Rightarrow> 'x session" where
  "read_done env rq cv s =
     (let s = on_activity (cancel_header_timer (s\<lparr>sn_req := rq, sn_read := sn_read s @ [rq]\<rparr>))
      in if se_upgrade env rq
         then end_session Upgraded (cancel_body_timer (cancel_header_timer (cancel_idle_timer s)))
         else enter_chain env cv s)"

text \<open>The posted completion resumes the coroutine, which writes the response.\<close>

definition chain_resumed :: "'x async_run \<Rightarrow> 'x session \<Rightarrow> 'x session" where
  "chain_resumed r s =
     (if ar_completions r = [] then s
      else s\<lparr>sn_res := res_prepare_payload (w_res (ar_world r)), sn_phase := Writing, sn_run := None\<rparr>)"

definition keep_open :: "'x session_env \<Rightarrow> 'x session \<Rightarrow> bool" where
  "keep_open env s \<longleftrightarrow> sl_enable_keep_alive (sb_limits s) \<and> se_keep_alive env (sn_res s) \<and>
     (sl_max_requests_per_connection (sb_limits s) = 0 \<or>
      sn_served s < sl_max_requests_per_connection (sb_limits s))"

definition write_done :: "'x session_env \<Rightarrow> 'x session \<Rightarrow> 'x session" where
  "write_done env s =
     (let s = s\<lparr>sn_sent := sn_sent s @ [(sn_req s, sn_res s)], sn_served := sn_served s + 1\<rparr>
      in if \<not> keep_open env s then end_session Ended (shutdown_socket s)
         else begin_read (on_activity
                (s\<lparr>sn_req := empty_request, sn_res := new_response 200 (rq_version (sn_req s))\<rparr>)))"

definition write_failed :: "'x session \<Rightarrow> 'x session" where
  "write_failed s = end_session Ended (shutdown_socket s)"

text \<open>The timers' handlers. Cancelling the socket makes the pending operation fail later.\<close>

definition on_timeout_idle :: "'x session \<Rightarrow> 'x session" where
  "on_timeout_idle s = shutdown_socket s"

definition on_timeout_header :: "'x session \<Rightarrow> 'x session" where
  "on_timeout_header s = s\<lparr>sn_abort := Header_timeout\<rparr>"

definition on_timeout_body :: "'x session \<Rightarrow> 'x session" where
  "on_timeout_body s = s\<lparr>sn_abort := Body_timeout\<rparr>"

section \<open>The machine\<close>

datatype 'x session_event =
    Ev_read http_request "'x chain_view"
  | Ev_read_error io_error
  | Ev_chain "'x async_event"
  | Ev_resume
  | Ev_written
  | Ev_write_error io_error
  | Ev_idle
  | Ev_header
  | Ev_body
  | Ev_handshake "io_error option"
  | Ev_handshake_timer

text \<open>
  An event that cannot occur in a state leaves it alone: completions of operations that are
  not under way, timers that are not armed, and a successful write after a shutdown.
\<close>

fun session_step :: "'x session_env \<Rightarrow> 'x session \<Rightarrow> 'x session_event \<Rightarrow> 'x session" where
  "session_step env s (Ev_read rq cv) = (if sn_phase s = Reading then read_done env rq cv s else s)"
| "session_step env s (Ev_read_error ec) = (if sn_phase s = Reading then read_failed ec s else s)"
| "session_step env s (Ev_chain e) =
     (case sn_run s of Some r \<Rightarrow> s\<lparr>sn_run := Some (async_step (se_chain env) r e)\<rparr> | None \<Rightarrow> s)"
| "session_step env s Ev_resume = (case sn_run s of Some r \<Rightarrow> chain_resumed r s | None \<Rightarrow> s)"
| "session_step env s Ev_written =
     (if \<not> sn_open s then s
      else if sn_phase s = Writing then write_done env s
      else if sn_phase s = Writing_timeout then end_session Ended (s\<lparr>sn_final := Some (sn_res s)\<rparr>) else s)"
| "session_step env s (Ev_write_error ec) =
     (if sn_phase s = Writing then write_failed s
      else if sn_phase s = Writing_timeout then end_session Ended s else s)"
| "session_step env s Ev_idle = (if sb_idle s = None then s else on_timeout_idle (s\<lparr>sb_idle := None\<rparr>))"
| "session_step env s Ev_header = (if sb_header s = None then s else on_timeout_header (s\<lparr>sb_header := None\<rparr>))"
| "session_step env s Ev_body = (if sb_body s = None then s else on_timeout_body (s\<lparr>sb_body := None\<rparr>))"
| "session_step env s (Ev_handshake ec) = s"
| "session_step env s Ev_handshake_timer = s"

section \<open>SslSession\<close>

definition arm_handshake_timer :: "'x session \<Rightarrow> 'x session" where
  "arm_handshake_timer s = s\<lparr>sn_handshake := Some 30000\<rparr>"

definition cancel_handshake_timer :: "'x session \<Rightarrow> 'x session" where
  "cancel_handshake_timer s = s\<lparr>sn_handshake := None\<rparr>"

definition start_ssl_session :: "'x session \<Rightarrow> 'x session" where
  "start_ssl_session s = arm_handshake_timer ((arm_idle_timer s)\<lparr>sn_phase := Handshaking\<rparr>)"

definition handshake_done :: "io_error option \<Rightarrow> 'x session \<Rightarrow> 'x session" where
  "handshake_done ec s =
     (let s = cancel_handshake_timer s
      in case ec of
           Some e \<Rightarrow> if e = Ec_aborted \<and> sn_abort s = Handshake_timeout then end_session Ended (shutdown_socket s)
                     else end_session Ended s
         | None \<Rightarrow> begin_read (on_activity s))"

definition on_handshake_timer :: "'x session \<Rightarrow> 'x session" where
  "on_handshake_timer s = s\<lparr>sn_abort := Handshake_timeout\<rparr>"

text \<open>After the handshake the loop is that of the plain session over the TLS stream.\<close>

fun ssl_session_step :: "'x session_env \<Rightarrow> 'x session \<Rightarrow> 'x session_event \<Rightarrow> 'x session" where
  "ssl_session_step env s (Ev_handshake ec) = (if sn_phase s = Handshaking then handshake_done ec s else s)"
| "ssl_session_step env s Ev_handshake_timer =
     (if sn_handshake s = None then s else on_handshake_timer (s\<lparr>sn_handshake := None\<rparr>))"
| "ssl_session_step env s e = session_step env s e"

section \<open>Invariant\<close>

text \<open>
  Room for one more request; what has been read and sent, by phase; and the timers: the
  body timer is never armed, so a body timeout is never the reason of an abort.
\<close>

definition room :: "'x session \<Rightarrow> bool" where
  "room s = (sl_max_requests_per_connection (sb_limits s) = 0 \<or>
     length (sn_sent s) < sl_max_requests_per_connection (sb_limits s))"

definition header_timeout_response :: "http_response \<Rightarrow> bool" where
  "header_timeout_response r = (rs_status r = 408 \<and> rs_body r = ''Header read timeout'' \<and> rs_prepared r)"

definition answered_all :: "'x session \<Rightarrow> bool" where
  "answered_all s = (sn_read s = map fst (sn_sent s))"

definition one_pending :: "'x session \<Rightarrow> bool" where
  "one_pending s = (sn_read s = map fst (sn_sent s) @ [sn_req s] \<and> room s)"

definition phase_inv :: "'x session \<Rightarrow> bool" where
  "phase_inv s \<longleftrightarrow>
     (sn_phase s = In_chain \<longleftrightarrow> sn_run s \<noteq> None) \<and>
     (sn_phase s = In_chain \<or> sn_phase s = Writing \<longrightarrow> one_pending s) \<and>
     (sn_phase s = Created \<or> sn_phase s = Handshaking \<longrightarrow> sn_sent s = []) \<and>
     (sn_phase s \<in> {Created, Handshaking, Reading, Writing_timeout} \<longrightarrow> answered_all s) \<and>
     (sn_phase s = Reading \<longrightarrow> room s) \<and>
     (sn_phase s = Writing_timeout \<longrightarrow> header_timeout_response (sn_res s)) \<and>
     (answered_all s \<or> one_pending s) \<and>
     (\<forall>r. sn_final s = Some r \<longrightarrow> answered_all s \<and> header_timeout_response r \<and> sn_phase s = Ended)"

definition session_inv :: "session_limits \<Rightarrow> 'x session \<Rightarrow> bool" where
  "session_inv l s \<longleftrightarrow> sb_limits s = l \<and> sn_served s = length (sn_sent s) \<and>
     (sl_max_requests_per_connection l = 0 \<or> length (sn_sent s) \<le> sl_max_requests_per_connection l) \<and>
     sb_body s = None \<and> sn_abort s \<noteq> Body_timeout \<and> phase_inv s"

lemmas session_inv_defs = session_inv_def phase_inv_def room_def answered_all_def one_pending_def

lemma limits_end [simp]:
  "sb_limits (end_session ph s) = sb_limits s" "sb_limits (shutdown_socket s) = sb_limits s"
  "sb_limits (notify_error e s) = sb_limits s"
  by (simp_all add: end_session_def shutdown_socket_def notify_error_def)

lemma inv_end:
  assumes "sb_limits s = l" "sn_served s = length (sn_sent s)" "sn_abort s \<noteq> Body_timeout"
    and "sl_max_requests_per_connection l = 0 \<or> length (sn_sent s) \<le> sl_max_requests_per_connection l"
    and "answered_all s \<or> one_pending s"
    and "\<And>r. sn_final s = Some r \<Longrightarrow> answered_all s \<and> header_timeout_response r \<and> ph = Ended"
    and "ph = Ended \<or> ph = Upgraded"
  shows "session_inv l (end_session ph s)"
  using assms by (auto simp: session_inv_defs end_session_def)

lemma inv_shutdown [simp]: "session_inv l (shutdown_socket s) = session_inv l s"
  by (simp add: session_inv_defs shutdown_socket_def)

lemma inv_run [simp]: "sn_run s = Some r \<Longrightarrow> session_inv l (s\<lparr>sn_run := Some r'\<rparr>) = session_inv l s"
  by (simp add: session_inv_defs)

lemma inv_timers [simp]:
  "session_inv l (s\<lparr>sb_idle := x\<rparr>) = session_inv l s"
  "session_inv l (s\<lparr>sb_header := x\<rparr>) = session_inv l s"
  by (simp_all add: session_inv_defs)

lemma inv_abort: "session_inv l s \<Longrightarrow> a \<noteq> Body_timeout \<Longrightarrow> session_inv l (s\<lparr>sn_abort := a\<rparr>)"
  unfolding session_inv_def phase_inv_def one_pending_def room_def answered_all_def by (elim conjE, intro conjI) simp_all

lemma inv_resumed:
  assumes "session_inv l s" "sn_run s = Some r"
  shows "session_inv l (chain_resumed r s)"
proof -
  from assms have "sn_phase s = In_chain" by (simp add: session_inv_def phase_inv_def)
  with assms show ?thesis by (auto simp: chain_resumed_def session_inv_defs)
qed

lemma inv_read_failed:
  assumes "session_inv l s" "sn_phase s = Reading"
  shows "session_inv l (read_failed ec s)"
proof -
  have "session_inv l (end_session Ended (cancel_header_timer s\<lparr>sn_abort := a\<rparr>))" if "a \<noteq> Body_timeout" for a
    using assms that by (intro inv_end) (auto simp: session_inv_defs session_timer_defs)
  from this [of Abort_none] this [of "sn_abort s"] assms(1)
  have e: "session_inv l (end_session Ended (cancel_header_timer s\<lparr>sn_abort := Abort_none\<rparr>))"
    "session_inv l (end_session Ended (cancel_header_timer s))"
    by (simp_all add: session_inv_def session_timer_defs)
  have w: "session_inv l (write_timeout ''Header read timeout'' (cancel_header_timer s\<lparr>sn_abort := Abort_none\<rparr>))"
    using assms by (simp add: session_inv_defs session_timer_defs write_timeout_def header_timeout_response_def)
  have "sn_abort s \<noteq> Body_timeout" using assms(1) by (simp add: session_inv_def)
  moreover have "sn_abort (cancel_header_timer s) = sn_abort s" by (simp add: cancel_header_timer_def)
  ultimately show ?thesis
    by (cases "sn_abort s"; cases ec) (simp_all add: read_failed_def Let_def e w)
qed

lemma inv_enter_chain:
  assumes "sb_limits s = l" "sn_served s = length (sn_sent s)" "sn_abort s \<noteq> Body_timeout" "sb_body s = None"
    and "sl_max_requests_per_connection l = 0 \<or> length (sn_sent s) \<le> sl_max_requests_per_connection l"
    and "one_pending s" "sn_final s = None"
  shows "session_inv l (enter_chain env cv s)"
proof -
  obtain x r where x: "execute_async (se_chain env) (cv_paused cv) (cv_stats cv)
             \<lparr>w_ctx = new_request_context (sn_req s), w_res = sn_res s, w_now = cv_now cv, w_ext = cv_ext cv\<rparr> = Some (x, r)"
    using execute_async_total by (metis surj_pair)
  show ?thesis
  proof (cases x)
    case None
    with x assms show ?thesis by (simp add: enter_chain_def session_inv_defs)
  next
    case (Some e)
    have "session_inv l (end_session Ended (notify_error e (s\<lparr>sn_res := w_res (ar_world r)\<rparr>)))"
      using assms by (intro inv_end) (auto simp: notify_error_def one_pending_def room_def)
    with x Some show ?thesis by (simp add: enter_chain_def)
  qed
qed

lemma inv_read_done:
  assumes "session_inv l s" "sn_phase s = Reading"
  shows "session_inv l (read_done env rq cv s)"
proof -
  let ?s = "on_activity (cancel_header_timer (s\<lparr>sn_req := rq, sn_read := sn_read s @ [rq]\<rparr>))"
  have "session_inv l (enter_chain env cv ?s)"
    using assms by (intro inv_enter_chain) (auto simp: session_inv_defs session_timer_defs)
  moreover have "session_inv l (end_session Upgraded (cancel_body_timer (cancel_header_timer (cancel_idle_timer ?s))))"
    using assms by (intro inv_end) (auto simp: session_inv_defs session_timer_defs)
  ultimately show ?thesis by (simp add: read_done_def Let_def)
qed

lemma inv_write_done:
  assumes "session_inv l s" "sn_phase s = Writing"
  shows "session_inv l (write_done env s)"
proof -
  let ?s = "s\<lparr>sn_sent := sn_sent s @ [(sn_req s, sn_res s)], sn_served := sn_served s + 1\<rparr>"
  have "session_inv l (end_session Ended (shutdown_socket ?s))"
    using assms by (intro inv_end) (auto simp: session_inv_defs shutdown_socket_def)
  moreover have "session_inv l (begin_read (on_activity
      (?s\<lparr>sn_req := empty_request, sn_res := new_response 200 (rq_version (sn_req ?s))\<rparr>)))" if "keep_open env ?s"
    using assms that by (auto simp: session_inv_defs session_timer_defs begin_read_def keep_open_def)
  ultimately show ?thesis by (simp add: write_done_def Let_def)
qed

lemma inv_session_step:
  assumes "session_inv l s"
  shows "session_inv l (session_step env s e)"
proof (cases e)
  case Ev_written
  have "session_inv l (end_session Ended (s\<lparr>sn_final := Some (sn_res s)\<rparr>))" if "sn_phase s = Writing_timeout"
    using assms that by (intro inv_end) (auto simp: session_inv_defs)
  with assms Ev_written inv_write_done show ?thesis by auto
next
  case (Ev_write_error ec)
  have "session_inv l (end_session Ended s)" if "sn_phase s \<in> {Writing, Writing_timeout}"
    using assms that by (intro inv_end) (auto simp: session_inv_defs)
  moreover have "session_inv l (write_failed s)" if "sn_phase s = Writing"
    unfolding write_failed_def using assms that by (intro inv_end) (auto simp: session_inv_defs shutdown_socket_def)
  ultimately show ?thesis using assms Ev_write_error by simp
next
  case (Ev_chain a)
  with assms show ?thesis by (cases "sn_run s") simp_all
next
  case Ev_resume
  with assms show ?thesis by (cases "sn_run s") (simp_all add: inv_resumed)
next
  case Ev_body
  from assms have "sb_body s = None" by (simp add: session_inv_def)
  with assms Ev_body show ?thesis by simp
qed (use assms in \<open>simp_all add: inv_read_done inv_read_failed inv_abort on_timeout_idle_def on_timeout_header_def\<close>)

lemma inv_started [simp]: "session_inv l (start_session (set_limits l new_session))"
  by (auto simp: session_inv_defs start_session_def begin_read_def session_timer_defs new_session_def)

interpretation plain: step_machine "\<lambda>s. s = start_session (set_limits l new_session)" "session_step env" "session_inv l" for env l
  by unfold_locales (simp_all add: inv_session_step)

section \<open>Serving a sequence of requests\<close>

text \<open>
  The specification: the responses of the chain, each on a new context and a new response
  that has the version of the request before, until the connection is to be closed.
\<close>

definition chain_response ::
  "'x session_env \<Rightarrow> 'x chain_view \<Rightarrow> http_response \<Rightarrow> http_request \<Rightarrow> http_response option" where
  "chain_response env cv res rq =
     (case execute_async (se_chain env) (cv_paused cv) (cv_stats cv)
             \<lparr>w_ctx = new_request_context rq, w_res = res, w_now = cv_now cv, w_ext = cv_ext cv\<rparr> of
        Some (None, r) \<Rightarrow> if ar_completions r = [] then None else Some (res_prepare_payload (w_res (ar_world r)))
      | _ \<Rightarrow> None)"

fun serve ::
  "'x session_env \<Rightarrow> session_limits \<Rightarrow> nat \<Rightarrow> nat \<Rightarrow> (http_request \<times> 'x chain_view) list \<Rightarrow>
   (http_request \<times> http_response) list" where
  "serve env l n v [] = []"
| "serve env l n v ((rq, cv) # rest) =
     (if se_upgrade env rq then []
      else case chain_response env cv (new_response 200 v) rq of
             None \<Rightarrow> []
           | Some r \<Rightarrow> (rq, r) #
               (if sl_enable_keep_alive l \<and> se_keep_alive env r \<and>
                   (sl_max_requests_per_connection l = 0 \<or> n + 1 < sl_max_requests_per_connection l)
                then serve env l (n + 1) (rq_version rq) rest else []))"

definition exchange :: "http_request \<times> 'x chain_view \<Rightarrow> 'x session_event list" where
  "exchange = (\<lambda>(rq, cv). [Ev_read rq cv, Ev_resume, Ev_written])"

definition stuck :: "'x session \<Rightarrow> bool" where
  "stuck s = (sn_phase s \<notin> {Reading, Writing, Writing_timeout} \<and>
     (case sn_run s of None \<Rightarrow> True | Some r \<Rightarrow> ar_completions r = []))"

lemma stuck_exchanges: "stuck s \<Longrightarrow> foldl (session_step env) s (concat (map exchange rs)) = s"
  by (induction rs) (auto simp: exchange_def stuck_def chain_resumed_def split: option.splits)

lemma stuck_tail: "stuck s \<Longrightarrow> session_step env (session_step env s Ev_resume) Ev_written = s"
  by (auto simp: stuck_def chain_resumed_def split: option.splits)

lemma stuck_end: "ph \<notin> {Reading, Writing, Writing_timeout} \<Longrightarrow> stuck (end_session ph s)"
  by (simp add: stuck_def end_session_def)

lemma stuck_running: "ar_completions r = [] \<Longrightarrow> stuck (s\<lparr>sn_phase := In_chain, sn_run := Some r\<rparr>)"
  by (simp add: stuck_def)

lemma sent_ends [simp]:
  "sn_sent (end_session ph s) = sn_sent s" "sn_sent (notify_error e s) = sn_sent s"
  "sn_sent (shutdown_socket s) = sn_sent s"
  by (simp_all add: end_session_def notify_error_def shutdown_socket_def)

text \<open>A session between two requests.\<close>

definition waiting :: "session_limits \<Rightarrow> nat \<Rightarrow> nat \<Rightarrow> 'x session \<Rightarrow> bool" where
  "waiting l n v s = (sn_phase s = Reading \<and> sn_open s \<and> sb_limits s = l \<and> sn_served s = n \<and>
     sn_res s = new_response 200 v)"

definition request_read :: "http_request \<Rightarrow> 'x session \<Rightarrow> 'x session" where
  "request_read rq s = on_activity (cancel_header_timer (s\<lparr>sn_req := rq, sn_read := sn_read s @ [rq]\<rparr>))"

lemma exchange_served:
  assumes "waiting l n v s" "\<not> se_upgrade env rq" "chain_response env cv (new_response 200 v) rq = Some r"
  shows "\<exists>s'. foldl (session_step env) s (exchange (rq, cv)) = s' \<and> sn_sent s' = sn_sent s @ [(rq, r)] \<and>
    (if sl_enable_keep_alive l \<and> se_keep_alive env r \<and>
        (sl_max_requests_per_connection l = 0 \<or> n + 1 < sl_max_requests_per_connection l)
     then waiting l (n + 1) (rq_version rq) s' else stuck s')"
proof -
  from assms(3) obtain ar where x: "execute_async (se_chain env) (cv_paused cv) (cv_stats cv)
      \<lparr>w_ctx = new_request_context rq, w_res = new_response 200 v, w_now = cv_now cv, w_ext = cv_ext cv\<rparr> = Some (None, ar)"
      "ar_completions ar \<noteq> []" "r = res_prepare_payload (w_res (ar_world ar))"
    by (auto simp: chain_response_def split: option.splits prod.splits if_splits)
  let ?s = "(request_read rq s)\<lparr>sn_phase := In_chain, sn_run := Some ar\<rparr>"
  have "session_step env s (Ev_read rq cv) = ?s"
    using assms(1,2) x(1) by (simp add: waiting_def read_done_def enter_chain_def request_read_def Let_def session_timer_defs)
  then have run: "foldl (session_step env) s (exchange (rq, cv)) = write_done env (chain_resumed ar ?s)"
    using assms(1) x(2) by (simp add: exchange_def chain_resumed_def request_read_def session_timer_defs waiting_def)
  from assms(1) x(2,3) show ?thesis unfolding run
    by (simp add: write_done_def chain_resumed_def request_read_def keep_open_def Let_def waiting_def
        begin_read_def session_timer_defs stuck_end)
qed

lemma serve_from:
  "waiting l n v s \<Longrightarrow>
   sn_sent (foldl (session_step env) s (concat (map exchange rs))) = sn_sent s @ serve env l n v rs"
proof (induction rs arbitrary: s n v)
  case (Cons a rs)
  obtain rq cv where a: "a = (rq, cv)" by fastforce
  show ?case
  proof (cases "se_upgrade env rq \<or> chain_response env cv (new_response 200 v) rq = None")
    case True
    let ?s = "session_step env s (Ev_read rq cv)"
    have "stuck ?s \<and> sn_sent ?s = sn_sent s"
    proof (cases "se_upgrade env rq")
      case True
      with Cons.prems show ?thesis
        by (simp add: waiting_def read_done_def Let_def stuck_end session_timer_defs)
    next
      case False
      obtain x r where x: "execute_async (se_chain env) (cv_paused cv) (cv_stats cv)
          \<lparr>w_ctx = new_request_context rq, w_res = new_response 200 v, w_now = cv_now cv, w_ext = cv_ext cv\<rparr> = Some (x, r)"
        using execute_async_total by (metis surj_pair)
      with False True Cons.prems show ?thesis
        by (cases x) (auto simp: waiting_def read_done_def enter_chain_def chain_response_def Let_def stuck_end
            session_timer_defs stuck_running split: if_splits)
    qed
    then have st: "stuck ?s" and sent: "sn_sent ?s = sn_sent s" by simp_all
    then have "foldl (session_step env) s (exchange (rq, cv)) = ?s"
      by (simp add: exchange_def stuck_tail del: session_step.simps)
    with stuck_exchanges [OF st] sent True show ?thesis by (auto simp: a)
  next
    case False
    then obtain r where r: "chain_response env cv (new_response 200 v) rq = Some r" and "\<not> se_upgrade env rq" by auto
    from exchange_served [OF Cons.prems this(2,1)] Cons.IH [of "n + 1" "rq_version rq"] this(2) r
    show ?thesis by (auto simp: a stuck_exchanges)
  qed
qed simp

lemma waiting_started: "waiting l 0 11 (start_session (set_limits l new_session))"
  by (simp add: waiting_def start_session_def begin_read_def session_timer_defs new_session_def)

lemma sent_started [simp]: "sn_sent (start_session (set_limits l new_session)) = []"
  by (simp add: start_session_def begin_read_def session_timer_defs new_session_def)

section \<open>TLS sessions\<close>

definition before_handshake :: "'x session \<Rightarrow> bool" where
  "before_handshake s = (sn_phase s \<in> {Handshaking, Ended} \<and> sn_run s = None \<and> sb_header s = None \<and>
     sb_body s = None \<and> sn_read s = [] \<and> sn_sent s = [] \<and> sn_final s = None)"

lemma before_handshake_step:
  "before_handshake s \<Longrightarrow> e \<noteq> Ev_handshake None \<Longrightarrow> before_handshake (ssl_session_step env s e)"
  by (cases e) (auto simp: before_handshake_def handshake_done_def cancel_handshake_timer_def end_session_def
      on_timeout_idle_def shutdown_socket_def on_handshake_timer_def Let_def split: if_splits)

lemma before_handshake_run:
  "before_handshake s \<Longrightarrow> Ev_handshake None \<notin> set es \<Longrightarrow> before_handshake (foldl (ssl_session_step env) s es)"
  by (induction es arbitrary: s) (auto simp: before_handshake_step simp del: ssl_session_step.simps)

lemma ssl_started: "before_handshake (start_ssl_session (set_limits l new_session))"
  by (simp add: before_handshake_def start_ssl_session_def arm_handshake_timer_def session_timer_defs new_session_def)

text \<open>No plain step goes back to the handshake or arms its timer.\<close>

lemma no_handshake_step:
  assumes "sn_phase s \<noteq> Handshaking" "sn_handshake s = None"
  shows "sn_phase (session_step env s e) \<noteq> Handshaking \<and> sn_handshake (session_step env s e) = None"
proof -
  have "sn_phase (enter_chain env cv t) \<noteq> Handshaking \<and> sn_handshake (enter_chain env cv t) = None"
    if "sn_phase t \<noteq> Handshaking" "sn_handshake t = None" for cv and t :: "'a session"
    using that by (auto simp: enter_chain_def end_session_def split: option.splits)
  with assms show ?thesis
    by (cases e) (auto simp: read_done_def read_failed_def write_done_def write_failed_def write_timeout_def
        chain_resumed_def end_session_def begin_read_def session_timer_defs on_timeout_idle_def on_timeout_header_def
        on_timeout_body_def shutdown_socket_def Let_def split: option.splits abort_reason.splits)
qed

lemma ssl_step_plain:
  "sn_phase s \<noteq> Handshaking \<Longrightarrow> sn_handshake s = None \<Longrightarrow> ssl_session_step env s e = session_step env s e"
  by (cases e) simp_all

lemma ssl_run_plain:
  "sn_phase s \<noteq> Handshaking \<Longrightarrow> sn_handshake s = None \<Longrightarrow>
   foldl (ssl_session_step env) s es = foldl (session_step env) s es"
  by (induction es arbitrary: s) (simp_all add: ssl_step_plain no_handshake_step del: ssl_session_step.simps session_step.simps)

lemma handshake_starts_plain:
  "handshake_done None (start_ssl_session (set_limits l new_session)) = start_session (set_limits l new_session)"
  by (simp add: handshake_done_def start_ssl_session_def start_session_def begin_read_def arm_handshake_timer_def
      cancel_handshake_timer_def session_timer_defs new_session_def Let_def)

text \<open>A server without middlewares, for concrete instances.\<close>

definition plain_env :: "unit session_env" where
  "plain_env = \<lparr>se_chain = sample_env [], se_upgrade = (\<lambda>_. False),
     se_keep_alive = (\<lambda>r. rs_version r = 11 \<and> rs_keep_alive r \<noteq> Some False \<and> last_set r ''Connection'' \<noteq> Some ''close'')\<rparr>"

definition plain_view :: "unit chain_view" where
  "plain_view = \<lparr>cv_paused = False, cv_stats = (\<lambda>_. reset_stats), cv_now = 0, cv_ext = ()\<rparr>"

section \<open>Properties\<close>

text \<open>
  C8: on one connection, whatever the order of completions and timer expiries, responses are
  sent in the order of the requests, at most one request is unanswered at any time, no more
  than the configured number of requests is ever read, and the only other response is the
  header timeout's, which ends the session when everything read has been answered.
\<close>

theorem session_exchanges:
  "let s = foldl (session_step env) (start_session (set_limits l new_session)) es;
       n = sl_max_requests_per_connection l
   in map fst (sn_sent s) = take (length (sn_sent s)) (sn_read s) \<and>
      length (sn_read s) \<le> length (sn_sent s) + 1 \<and>
      (if n = 0 then True else length (sn_read s) \<le> n) \<and>
      (case sn_final s of
         None \<Rightarrow> True
       | Some r \<Rightarrow> rs_status r = 408 \<and> rs_body r = ''Header read timeout'' \<and>
                   length (sn_read s) = length (sn_sent s) \<and> sn_phase s = Ended)"
proof -
  let ?s = "foldl (session_step env) (start_session (set_limits l new_session)) es"
  have inv: "session_inv l ?s" by (rule plain.run_from_initial) simp
  then have pend: "answered_all ?s \<or> one_pending ?s" and ph: "phase_inv ?s"
    by (simp_all add: session_inv_def phase_inv_def)
  from inv pend have "sl_max_requests_per_connection l = 0 \<or> length (sn_read ?s) \<le> sl_max_requests_per_connection l"
    by (auto simp: session_inv_def answered_all_def one_pending_def room_def)
  moreover from ph have "case sn_final ?s of None \<Rightarrow> True
       | Some r \<Rightarrow> rs_status r = 408 \<and> rs_body r = ''Header read timeout'' \<and>
                   length (sn_read ?s) = length (sn_sent ?s) \<and> sn_phase ?s = Ended"
    by (auto simp: phase_inv_def header_timeout_response_def answered_all_def split: option.splits)
  ultimately show ?thesis using pend by (auto simp: Let_def answered_all_def one_pending_def)
qed

text \<open>
  C4: a client that sends requests one after the other gets exactly the responses the chain
  computes for them, each from a new context and a new response, up to the first one that
  does not keep the connection, reaches the limit of requests, or is not answered.
\<close>

theorem session_serves_in_order:
  "sn_sent (foldl (session_step env) (start_session (set_limits l new_session)) (concat (map exchange rs))) =
     serve env l 0 11 rs"
  using serve_from [OF waiting_started] by simp



section \<open>Behaviours worth knowing\<close>

text \<open>
  The request's own wish is never looked at: after a request that asks to close, and after a
  first request of HTTP/1.0, the connection stays open for another one.
\<close>

lemma connection_close_ignored:
  "sn_phase (foldl (session_step plain_env) (start_session new_session)
     (exchange (rq\<lparr>rq_keep_alive := False\<rparr>, plain_view))) = Reading"
  by (simp add: exchange_def plain_env_def plain_view_def sample_env_def start_session_def begin_read_def
      session_timer_defs new_session_def read_done_def enter_chain_def execute_async_def new_async_run_def
      chain_resumed_def write_done_def keep_open_def default_session_limits_def res_prepare_payload_def last_set_def Let_def)

text \<open>No session arms the body timer, so the limit on the body's time is never applied.\<close>

lemma body_timer_never_armed:
  "sb_body (foldl (session_step env) (start_session (set_limits l new_session)) es) = None"
  using plain.run_from_initial [OF refl, of l env es] by (simp add: session_inv_def)

text \<open>The handshake's time is the constant 30 s, whatever the limits say.\<close>

lemma handshake_timeout_ignored: "sn_handshake (start_ssl_session (set_limits l s)) = Some 30000"
  by (simp add: start_ssl_session_def arm_handshake_timer_def)

end
