(* ===== verification/Server.thy ===== *)
theory Server
  imports Session
begin

text \<open>
  The runtime around the sessions: src/server/io_context_pool.cpp, server.cpp,
  ssl_server.cpp, signal_set.cpp, and the WebSocket sessions of ws_session.cpp and
  wss_session.cpp. Event loops and threads are Asio's: an I/O context is its number, a
  socket is its number, and the completions of asynchronous operations are events.
\<close>

section \<open>IoContextPool\<close>

record io_pool =
  ip_next :: "64 word"
  ip_size :: "64 word"
  ip_stopped :: bool
  ip_works :: "bool list"
  ip_running :: "bool list"

definition new_io_pool :: "64 word \<Rightarrow> io_pool throws" where
  "new_io_pool n =
     (if n = 0 then Inl (Runtime_error ''IoContextPool size cannot be zero'')
      else Inr \<lparr>ip_next = 0, ip_size = n, ip_stopped = False,
                ip_works = replicate (unat n) True, ip_running = replicate (unat n) True\<rparr>)"

text \<open>The index of the context handed out; the counter wraps.\<close>

definition get_io_context :: "io_pool \<Rightarrow> nat \<times> io_pool" where
  "get_io_context p = (unat (ip_next p mod ip_size p), p\<lparr>ip_next := ip_next p + 1\<rparr>)"

definition stop_io_pool :: "io_pool \<Rightarrow> io_pool" where
  "stop_io_pool p =
     (if ip_stopped p then p
      else p\<lparr>ip_stopped := True, ip_works := map (\<lambda>_. False) (ip_works p), ip_running := map (\<lambda>_. False) (ip_running p)\<rparr>)"

definition io_pool_size :: "io_pool \<Rightarrow> 64 word" where
  "io_pool_size p = ip_size p"

fun io_contexts_handed_out :: "nat \<Rightarrow> io_pool \<Rightarrow> nat list" where
  "io_contexts_handed_out 0 p = []"
| "io_contexts_handed_out (Suc n) p = (let (i, p') = get_io_context p in i # io_contexts_handed_out n p')"

lemma io_contexts_round_robin:
  assumes "new_io_pool n = Inr p" "k \<le> 2 ^ 64"
  shows "io_contexts_handed_out k p = map (\<lambda>i. i mod unat n) [0..<k]"
proof -
  from assms(1) have p: "ip_next p = 0" "ip_size p = n" by (auto simp: new_io_pool_def split: if_splits)
  have "ip_next q = of_nat j \<Longrightarrow> ip_size q = n \<Longrightarrow> j + k \<le> 2 ^ 64 \<Longrightarrow>
      io_contexts_handed_out k q = map (\<lambda>i. i mod unat n) [j..<j + k]" for j q
  proof (induction k arbitrary: j q)
    case (Suc k)
    have "unat (of_nat j :: 64 word) = j" using Suc.prems(3) by (simp add: unat_of_nat take_bit_nat_eq_self)
    moreover have "io_contexts_handed_out k (q\<lparr>ip_next := ip_next q + 1\<rparr>) = map (\<lambda>i. i mod unat n) [Suc j..<Suc j + k]"
      using Suc.prems by (intro Suc.IH) (simp_all add: ac_simps)
    moreover have "[j..<j + Suc k] = j # [Suc j..<Suc j + k]" by (simp add: upt_conv_Cons del: upt_Suc)
    ultimately show ?case using Suc.prems by (simp add: get_io_context_def unat_mod del: upt_Suc add_Suc_right add_Suc)
  qed simp
  from this [of p 0] p assms(2) show ?thesis by simp
qed

text \<open>
  \<open>run_blocking\<close>: one thread per context, joined one after the other. The first argument is
  the course of the pool while the call waits; a thread ends in the first state in which
  its context runs no more. The result is the state in which the call returns, if it does.
\<close>

fun thread_ends :: "nat \<Rightarrow> io_pool list \<Rightarrow> io_pool list" where
  "thread_ends i [] = []"
| "thread_ends i (p # ps) = (if ip_running p ! i then thread_ends i ps else p # ps)"

fun join_threads :: "nat list \<Rightarrow> io_pool list \<Rightarrow> io_pool list" where
  "join_threads [] ps = ps"
| "join_threads (i # is) ps = join_threads is (thread_ends i ps)"

definition run_blocking :: "io_pool list \<Rightarrow> io_pool option" where
  "run_blocking ps =
     (case ps of
        [] \<Rightarrow> None
      | p # _ \<Rightarrow> (case join_threads [0..<unat (ip_size p)] ps of [] \<Rightarrow> None | q # _ \<Rightarrow> Some q))"

definition start_io_pool :: "io_pool list \<Rightarrow> io_pool option" where
  "start_io_pool ps = run_blocking ps"

text \<open>The call returns in the first state in which the pool is stopped, and only there.\<close>

definition io_pool_ok :: "io_pool \<Rightarrow> bool" where
  "io_pool_ok p = (0 < ip_size p \<and> ip_running p = replicate (unat (ip_size p)) (\<not> ip_stopped p))"

lemma io_pool_ok_kept:
  "new_io_pool n = Inr p \<Longrightarrow> io_pool_ok p \<and> \<not> ip_stopped p" "io_pool_ok p \<Longrightarrow> io_pool_ok (snd (get_io_context p))"
  "io_pool_ok p \<Longrightarrow> io_pool_ok (stop_io_pool p) \<and> ip_stopped (stop_io_pool p)"
  by (auto simp: io_pool_ok_def new_io_pool_def get_io_context_def stop_io_pool_def word_neq_0_conv map_replicate_const
      split: if_splits)

lemma thread_ends_dropWhile:
  "list_all (\<lambda>p. io_pool_ok p \<and> i < unat (ip_size p)) ps \<Longrightarrow> thread_ends i ps = dropWhile (\<lambda>p. \<not> ip_stopped p) ps"
  by (induction ps) (simp_all add: io_pool_ok_def)

lemma join_threads_dropWhile:
  "list_all (\<lambda>p. io_pool_ok p \<and> ip_size p = n) ps \<Longrightarrow> list_all (\<lambda>i. i < unat n) is \<Longrightarrow> is \<noteq> [] \<Longrightarrow>
   join_threads is ps = dropWhile (\<lambda>p. \<not> ip_stopped p) ps"
proof (induction "is" arbitrary: ps)
  case (Cons i "is")
  have "list_all (\<lambda>p. io_pool_ok p \<and> i < unat (ip_size p)) ps" using Cons.prems by (auto simp: list_all_iff)
  then have t: "thread_ends i ps = dropWhile (\<lambda>p. \<not> ip_stopped p) ps" by (rule thread_ends_dropWhile)
  have "list_all (\<lambda>p. io_pool_ok p \<and> ip_size p = n) (dropWhile (\<lambda>p. \<not> ip_stopped p) ps)"
    using Cons.prems(1) set_dropWhileD by (fastforce simp: list_all_iff)
  moreover have "dropWhile P (dropWhile P xs) = dropWhile P xs" for P and xs :: "io_pool list" by (induction xs) simp_all
  ultimately show ?case using Cons t by (cases "is = []") simp_all
qed simp

lemma run_blocking_until_stop:
  assumes "list_all (\<lambda>p. io_pool_ok p \<and> ip_size p = n) ps"
  shows "run_blocking ps = find ip_stopped ps"
proof (cases ps)
  case (Cons p qs)
  then have n: "ip_size p = n" "0 < n" using assms by (auto simp: io_pool_ok_def)
  then have "[0..<unat n] \<noteq> []" by (simp add: word_less_nat_alt)
  moreover have "list_all (\<lambda>i. i < unat n) [0..<unat n]" by (simp add: list_all_iff)
  ultimately have "join_threads [0..<unat n] ps = dropWhile (\<lambda>p. \<not> ip_stopped p) ps" using assms join_threads_dropWhile by blast
  moreover have "(case dropWhile (\<lambda>p. \<not> ip_stopped p) ps of [] \<Rightarrow> None | q # _ \<Rightarrow> Some q) = find ip_stopped ps"
    by (induction ps) simp_all
  ultimately show ?thesis using Cons n by (simp add: run_blocking_def)
qed (simp add: run_blocking_def)

section \<open>Server and SslServer\<close>

text \<open>
  \<open>sv_waiting\<close> says that the accept loop is suspended in \<open>async_accept\<close>. The sockets of the
  sessions started so far are recorded, with the chain each was given: a plain server has
  one chain for its whole life, a TLS server's can be replaced.
\<close>

record 'c server =
  sv_listen :: nat
  sv_chain :: 'c
  sv_router :: "nat option"
  sv_stopping :: bool
  sv_acceptor_open :: bool
  sv_waiting :: bool
  sv_sessions :: "(nat \<times> 'c) list"

definition accept_loop :: "'c server \<Rightarrow> 'c server" where
  "accept_loop s = s\<lparr>sv_waiting := \<not> sv_stopping s\<rparr>"

definition new_server :: "io_pool \<Rightarrow> 'c \<Rightarrow> 'c server \<times> io_pool" where
  "new_server p c =
     (let (i, p) = get_io_context p
      in (accept_loop \<lparr>sv_listen = i, sv_chain = c, sv_router = None, sv_stopping = False, sv_acceptor_open = True,
            sv_waiting = False, sv_sessions = []\<rparr>, p))"

definition server_use :: "'x mw_sort \<Rightarrow> 'x middleware \<Rightarrow> 'x chain server \<Rightarrow> 'x chain server" where
  "server_use srt m s = s\<lparr>sv_chain := chain_use srt m (sv_chain s)\<rparr>"

definition bind_router :: "nat option \<Rightarrow> 'c server \<Rightarrow> 'c server" where
  "bind_router r s = s\<lparr>sv_router := r\<rparr>"

definition stop_server :: "'c server \<Rightarrow> 'c server" where
  "stop_server s = s\<lparr>sv_stopping := True, sv_acceptor_open := False\<rparr>"

definition start_accepted :: "nat \<Rightarrow> 'c server \<Rightarrow> 'c server" where
  "start_accepted sock s =
     (if sv_stopping s then s else s\<lparr>sv_sessions := sv_sessions s @ [(sock, sv_chain s)]\<rparr>)"

definition accepted :: "(nat + io_error) \<Rightarrow> 'c server \<Rightarrow> 'c server" where
  "accepted r s =
     (let s = s\<lparr>sv_waiting := False\<rparr>
      in case r of
           Inr ec \<Rightarrow> if ec = Ec_aborted then s else accept_loop s
         | Inl sock \<Rightarrow> accept_loop (start_accepted sock s))"

definition ssl_use :: "'c \<Rightarrow> 'c server \<Rightarrow> 'c server" where
  "ssl_use c s = s\<lparr>sv_chain := c\<rparr>"

definition ssl_accepted :: "(nat + io_error) \<Rightarrow> 'c server \<Rightarrow> 'c server" where
  "ssl_accepted r s =
     (let s = s\<lparr>sv_waiting := False\<rparr>
      in case r of
           Inr ec \<Rightarrow> if ec = Ec_aborted \<and> sv_stopping s then s else accept_loop s
         | Inl sock \<Rightarrow> accept_loop (start_accepted sock s))"

definition new_ssl_server :: "io_pool \<Rightarrow> 'c \<Rightarrow> 'c server \<times> io_pool" where
  "new_ssl_server p c =
     (let (i, p) = get_io_context p
      in (accept_loop \<lparr>sv_listen = i, sv_chain = c, sv_router = None, sv_stopping = False, sv_acceptor_open = True,
            sv_waiting = False, sv_sessions = []\<rparr>, p))"

definition stop_ssl_server :: "'c server \<Rightarrow> 'c server" where
  "stop_ssl_server s = s\<lparr>sv_stopping := True, sv_acceptor_open := False\<rparr>"

datatype server_event = Accepted nat | Accept_failed io_error | Stop_server | Bind_router "nat option"

fun server_step :: "bool \<Rightarrow> 'c server \<Rightarrow> server_event \<Rightarrow> 'c server" where
  "server_step tls s (Accepted sock) =
     (if sv_waiting s then (if tls then ssl_accepted else accepted) (Inl sock) s else s)"
| "server_step tls s (Accept_failed ec) =
     (if sv_waiting s then (if tls then ssl_accepted else accepted) (Inr ec) s else s)"
| "server_step tls s Stop_server = (if tls then stop_ssl_server else stop_server) s"
| "server_step tls s (Bind_router r) = bind_router r s"

lemmas server_defs = accepted_def ssl_accepted_def start_accepted_def accept_loop_def stop_server_def stop_ssl_server_def bind_router_def

lemma stopped_step:
  "sv_stopping s \<Longrightarrow> sv_stopping (server_step tls s e) \<and> sv_sessions (server_step tls s e) = sv_sessions s"
  by (cases e) (simp_all add: server_defs Let_def)

text \<open>After \<open>stop\<close> no session is started, whatever still completes.\<close>

lemma stop_starts_no_session:
  "sv_sessions (foldl (server_step tls) (stop_server s) es) = sv_sessions s"
proof -
  have "sv_stopping t \<Longrightarrow> sv_sessions (foldl (server_step tls) t es) = sv_sessions t" for t :: "'a server"
    by (induction es arbitrary: t) (simp_all add: stopped_step del: server_step.simps)
  from this [of "stop_server s"] show ?thesis by (simp add: stop_server_def)
qed

text \<open>While it is not stopped a server keeps accepting, unless a plain server's accept is aborted.\<close>

lemma server_keeps_accepting:
  "(if tls then True else Accept_failed Ec_aborted \<notin> set es) \<Longrightarrow> Stop_server \<notin> set es \<Longrightarrow> sv_waiting s \<Longrightarrow>
   \<not> sv_stopping s \<Longrightarrow> sv_waiting (foldl (server_step tls) s es)"
proof (induction es arbitrary: s)
  case (Cons e es)
  have "sv_waiting (server_step tls s e) \<and> \<not> sv_stopping (server_step tls s e)"
    using Cons.prems by (cases e) (auto simp: server_defs Let_def split: if_splits)
  with Cons show ?case by (simp del: server_step.simps split: if_splits)
qed simp

text \<open>The bound router is stored and nothing else reads it.\<close>

lemma unrouted_step:
  "(server_step tls s e)\<lparr>sv_router := None\<rparr> = (server_step tls (s\<lparr>sv_router := None\<rparr>) e)\<lparr>sv_router := None\<rparr>"
  by (cases s; cases e) (simp_all add: server_defs Let_def)

lemma unrouted_run:
  "(foldl (server_step tls) s es)\<lparr>sv_router := None\<rparr> = (foldl (server_step tls) (s\<lparr>sv_router := None\<rparr>) es)\<lparr>sv_router := None\<rparr>"
proof (induction es arbitrary: s)
  case (Cons e es)
  from Cons [of "server_step tls s e"] Cons [of "server_step tls (s\<lparr>sv_router := None\<rparr>) e"] unrouted_step [of tls s e]
  show ?case by (simp del: server_step.simps)
qed simp

lemma bound_router_unused:
  "sv_sessions (foldl (server_step tls) (bind_router r s) es) = sv_sessions (foldl (server_step tls) s es)"
proof -
  have "(foldl (server_step tls) (bind_router r s) es)\<lparr>sv_router := None\<rparr> = (foldl (server_step tls) s es)\<lparr>sv_router := None\<rparr>"
    unfolding unrouted_run [of tls "bind_router r s" es] unrouted_run [of tls s es] by (simp add: bind_router_def)
  from arg_cong [OF this, of sv_sessions] show ?thesis by simp
qed

section \<open>WsSession and WssSession\<close>

datatype ws_phase = Ws_created | Ws_accepting | Ws_reading | Ws_writing | Ws_ended

text \<open>A message is its bytes and whether it was sent as text.\<close>

record ws_session = session_base +
  ws_limits :: web_socket_limits
  ws_phase :: ws_phase
  ws_open :: bool
  ws_text :: bool
  ws_buffer :: string
  ws_received :: "(bool \<times> string) list"
  ws_echoed :: "(bool \<times> string) list"

definition new_ws_session :: "web_socket_limits \<Rightarrow> session_limits \<Rightarrow> ws_session" where
  "new_ws_session wl sl =
     \<lparr>sb_limits = sl, sb_idle = None, sb_header = None, sb_body = None, sb_error_cb = False, sb_notified = [],
      ws_limits = wl, ws_phase = Ws_created, ws_open = True, ws_text = True, ws_buffer = [],
      ws_received = [], ws_echoed = []\<rparr>"

definition start_accept :: "ws_session \<Rightarrow> ws_session" where
  "start_accept s = (arm_idle_timer s)\<lparr>ws_phase := Ws_accepting\<rparr>"

definition ws_end :: "ws_session \<Rightarrow> ws_session" where
  "ws_end s = s\<lparr>ws_phase := Ws_ended, sb_idle := None\<rparr>"

definition ws_accepted :: "io_error option \<Rightarrow> ws_session \<Rightarrow> ws_session" where
  "ws_accepted ec s = (if ec \<noteq> None then ws_end s else s\<lparr>ws_phase := Ws_reading\<rparr>)"

text \<open>A read appends to the buffer; a message longer than \<open>read_message_max\<close> is an error of the read.\<close>

definition ws_read :: "bool \<Rightarrow> string \<Rightarrow> ws_session \<Rightarrow> ws_session" where
  "ws_read text msg s =
     (if wl_max_message_bytes (ws_limits s) < length msg then ws_end s
      else s\<lparr>ws_buffer := ws_buffer s @ msg, ws_text := text, ws_received := ws_received s @ [(text, msg)],
             ws_phase := Ws_writing\<rparr>)"

definition ws_written :: "ws_session \<Rightarrow> ws_session" where
  "ws_written s = s\<lparr>ws_echoed := ws_echoed s @ [(ws_text s, ws_buffer s)], ws_buffer := [], ws_phase := Ws_reading\<rparr>"

definition ws_on_timeout_idle :: "ws_session \<Rightarrow> ws_session" where
  "ws_on_timeout_idle s = s\<lparr>ws_open := False\<rparr>"

datatype ws_event = Ws_accept "io_error option" | Ws_message bool string | Ws_failed io_error | Ws_sent | Ws_idle

text \<open>\<open>start_accept\<close> and \<open>echo_loop\<close>.\<close>

fun ws_step :: "ws_session \<Rightarrow> ws_event \<Rightarrow> ws_session" where
  "ws_step s (Ws_accept ec) = (if ws_phase s = Ws_accepting then ws_accepted ec s else s)"
| "ws_step s (Ws_message text msg) = (if ws_phase s = Ws_reading then ws_read text msg s else s)"
| "ws_step s (Ws_failed ec) = (if ws_phase s \<in> {Ws_reading, Ws_writing} then ws_end s else s)"
| "ws_step s Ws_sent = (if ws_phase s = Ws_writing \<and> ws_open s then ws_written s else s)"
| "ws_step s Ws_idle = (if sb_idle s = None then s else ws_on_timeout_idle (s\<lparr>sb_idle := None\<rparr>))"

definition ws_inv :: "web_socket_limits \<Rightarrow> ws_session \<Rightarrow> bool" where
  "ws_inv wl s \<longleftrightarrow> ws_limits s = wl \<and>
     (if ws_phase s = Ws_writing then ws_received s = ws_echoed s @ [(ws_text s, ws_buffer s)]
      else if ws_phase s = Ws_ended then \<exists>ms. ws_received s = ws_echoed s @ ms \<and> length ms \<le> 1
      else ws_received s = ws_echoed s \<and> ws_buffer s = []) \<and>
     list_all (\<lambda>(_, m). length m \<le> wl_max_message_bytes wl) (ws_received s)"

lemma ws_inv_step: "ws_inv wl s \<Longrightarrow> ws_inv wl (ws_step s e)"
  by (cases e) (auto simp: ws_inv_def ws_accepted_def ws_read_def ws_written_def ws_end_def ws_on_timeout_idle_def
      split: if_splits)

interpretation ws: step_machine "\<lambda>s. s = start_accept (new_ws_session wl sl)" ws_step "ws_inv wl" for wl sl
  by unfold_locales
    (simp add: ws_inv_def start_accept_def new_ws_session_def arm_idle_timer_def, rule ws_inv_step)

text \<open>
  The idle timer is armed once, when the handshake starts, and no message restarts it: the
  connection is shut down that long after the start however busy it is.
\<close>

lemma ws_idle_not_restarted:
  "ws_phase s \<noteq> Ws_ended \<Longrightarrow> sb_idle s = Some t \<Longrightarrow> sb_idle (ws_step s (Ws_message text msg)) \<in> {Some t, None} \<and>
   sb_idle (ws_step s Ws_sent) = Some t"
  by (simp add: ws_read_def ws_written_def ws_end_def)

section \<open>SignalSet\<close>

text \<open>Handlers and the error handler are numbers; the calls made are recorded.\<close>

record signal_set =
  ss_handlers :: "(int \<times> nat list) list"
  ss_registered :: "int list"
  ss_error_handler :: "nat option"
  ss_stopped :: bool
  ss_waiting :: bool
  ss_calls :: "(nat \<times> int \<times> string) list"
  ss_errors :: "(nat \<times> string) list"

definition new_signal_set :: signal_set where
  "new_signal_set = \<lparr>ss_handlers = [], ss_registered = [], ss_error_handler = None, ss_stopped = False,
     ss_waiting = False, ss_calls = [], ss_errors = []\<rparr>"

definition handlers_for :: "int \<Rightarrow> signal_set \<Rightarrow> nat list" where
  "handlers_for sig s = (case map_of (ss_handlers s) sig of Some hs \<Rightarrow> hs | None \<Rightarrow> [])"

definition register_handler :: "int \<Rightarrow> nat \<Rightarrow> signal_set \<Rightarrow> signal_set" where
  "register_handler sig h s =
     s\<lparr>ss_handlers := put sig (handlers_for sig s @ [h]) (ss_handlers s), ss_registered := ss_registered s @ [sig]\<rparr>"

definition set_signal_error_handler :: "nat option \<Rightarrow> signal_set \<Rightarrow> signal_set" where
  "set_signal_error_handler h s = s\<lparr>ss_error_handler := h\<rparr>"

definition do_async_wait :: "signal_set \<Rightarrow> signal_set" where
  "do_async_wait s = s\<lparr>ss_waiting := True\<rparr>"

definition start_signals :: "signal_set \<Rightarrow> signal_set" where
  "start_signals s = (if ss_stopped s then s else do_async_wait s)"

definition stop_signals :: "signal_set \<Rightarrow> signal_set" where
  "stop_signals s = s\<lparr>ss_stopped := True\<rparr>"

text \<open>The table, with the numbers of Linux.\<close>

definition signal_name :: "int \<Rightarrow> string" where
  "signal_name sig =
     (case map_of [(2, ''SIGINT''), (15, ''SIGTERM''), (1, ''SIGHUP''), (3, ''SIGQUIT''), (10, ''SIGUSR1''),
                   (12, ''SIGUSR2''), (13, ''SIGPIPE''), (14, ''SIGALRM'')] sig of
        Some n \<Rightarrow> n | None \<Rightarrow> ''UNKNOWN'')"

definition handle_signal :: "int \<Rightarrow> signal_set \<Rightarrow> signal_set" where
  "handle_signal sig s =
     s\<lparr>ss_calls := ss_calls s @ map (\<lambda>h. (h, sig, signal_name sig)) (handlers_for sig s)\<rparr>"

definition signal_arrived :: "int \<Rightarrow> signal_set \<Rightarrow> signal_set" where
  "signal_arrived sig s =
     (if \<not> ss_waiting s then s
      else let s = handle_signal sig (s\<lparr>ss_waiting := False\<rparr>)
           in if ss_stopped s then s else do_async_wait s)"

definition signal_wait_failed :: "signal_set \<Rightarrow> signal_set" where
  "signal_wait_failed s =
     (if \<not> ss_waiting s then s
      else let s = s\<lparr>ss_waiting := False\<rparr>
           in case ss_error_handler s of
                Some h \<Rightarrow> s\<lparr>ss_errors := ss_errors s @ [(h, ''async_wait'')]\<rparr> | None \<Rightarrow> s)"

lemma handlers_for_register [simp]:
  "handlers_for sig' (register_handler sig h s) = handlers_for sig' s @ (if sig' = sig then [h] else [])"
  by (simp add: handlers_for_def register_handler_def)

text \<open>A signal calls every handler registered for it, in the order of registration, and waits again.\<close>

definition register_all :: "(int \<times> nat) list \<Rightarrow> signal_set \<Rightarrow> signal_set" where
  "register_all hs s = foldl (\<lambda>s (i, h). register_handler i h s) s hs"

lemma register_all_keeps:
  "ss_stopped (register_all hs s) = ss_stopped s \<and> ss_calls (register_all hs s) = ss_calls s \<and>
   handlers_for sig (register_all hs s) = handlers_for sig s @ map snd (filter (\<lambda>p. fst p = sig) hs)"
proof (induction hs arbitrary: s)
  case (Cons a hs)
  have "register_all (a # hs) s = register_all hs (register_handler (fst a) (snd a) s)"
    by (simp add: register_all_def case_prod_unfold)
  with Cons show ?case by (simp add: register_handler_def [of "fst a" "snd a" s, THEN arg_cong, of ss_stopped]
      register_handler_def [of "fst a" "snd a" s, THEN arg_cong, of ss_calls])
qed (simp add: register_all_def)

lemma signal_calls_handlers:
  "ss_calls (signal_arrived sig (start_signals (register_all hs new_signal_set))) =
     map (\<lambda>p. (snd p, sig, signal_name sig)) (filter (\<lambda>p. fst p = sig) hs)"
  using register_all_keeps [of hs new_signal_set sig]
  by (simp add: signal_arrived_def start_signals_def do_async_wait_def handle_signal_def handlers_for_def
      new_signal_set_def Let_def comp_def)

section \<open>Properties\<close>

text \<open>
  A WebSocket session sends back, in order and with the same kind, exactly the messages it
  received, at most the last of which is still on its way, and never takes a message longer
  than the limit.
\<close>

theorem ws_echo:
  "let s = foldl ws_step (start_accept (new_ws_session wl sl)) es
   in (\<exists>rest. ws_received s = ws_echoed s @ rest \<and> length rest \<le> 1) \<and>
      list_all (\<lambda>(text, m). length m \<le> wl_max_message_bytes wl) (ws_received s)"
  using ws.run_from_initial [OF refl, of wl sl es] by (auto simp: Let_def ws_inv_def split: if_splits)

end
