(* ===== verification/Static_Middleware.thy ===== *)
theory Static_Middleware
  imports Middleware
begin

text \<open>
  src/middleware/basic/static_middleware.cpp: files served from a directory. The part of
  \<open>std::filesystem\<close> it calls is modelled on a file system with directories, files and
  symbolic links: resolution of links with the system's limit, \<open>weakly_canonical\<close>,
  \<open>status\<close>, appending and splitting of paths.
\<close>

section \<open>File system and paths\<close>

text \<open>
  An absolute path is its list of elements, the root the empty list; a trailing slash is a
  last element that is empty. A file has its bytes and whether it can be opened.
\<close>

type_synonym fs_path = "string list"

datatype fs_node = Directory | File bool string | Symlink bool fs_path | Special

type_synonym file_system = "fs_path \<Rightarrow> fs_node option"

fun path_elements_loop :: "string \<Rightarrow> string \<Rightarrow> fs_path" where
  "path_elements_loop acc [] = (if acc = [] then [] else [rev acc])"
| "path_elements_loop acc (c # cs) =
     (if c = CHR ''/''
      then (if acc = [] then [] else [rev acc]) @ path_elements_loop [] cs
      else path_elements_loop (c # acc) cs)"

definition is_absolute :: "string \<Rightarrow> bool" where
  "is_absolute s = (s \<noteq> [] \<and> hd s = CHR ''/'')"

text \<open>The elements of \<open>std::filesystem::path(s)\<close> after the root directory.\<close>

definition path_elements :: "string \<Rightarrow> fs_path" where
  "path_elements s =
     (let es = path_elements_loop [] s in if es \<noteq> [] \<and> last s = CHR ''/'' then es @ [[]] else es)"

text \<open>\<open>p /= s\<close>: an absolute right-hand side replaces the path; a trailing slash of \<open>p\<close> is filled.\<close>

definition path_append :: "fs_path \<Rightarrow> string \<Rightarrow> fs_path" where
  "path_append p s =
     (if is_absolute s then path_elements s
      else (if p \<noteq> [] \<and> last p = [] then butlast p else p) @ (if s = [] then [[]] else path_elements s))"

datatype resolved = Found fs_path | Missing | Too_many_links

text \<open>
  Resolution as the system does it: every element but the last must be a directory or lead
  to one; at most \<open>n\<close> symbolic links are followed.
\<close>

function resolve :: "file_system \<Rightarrow> nat \<Rightarrow> fs_path \<Rightarrow> fs_path \<Rightarrow> resolved" where
  "resolve fs n acc [] = Found acc"
| "resolve fs n acc (c # cs) =
     (if acc \<noteq> [] \<and> fs acc \<noteq> Some Directory then Missing
      else if c = [] \<or> c = ''.'' then resolve fs n acc cs
      else if c = ''..'' then resolve fs n (butlast acc) cs
      else case fs (acc @ [c]) of
             None \<Rightarrow> Missing
           | Some (Symlink absolute target) \<Rightarrow>
               if n = 0 then Too_many_links
               else resolve fs (n - 1) (if absolute then [] else acc) (target @ cs)
           | Some _ \<Rightarrow> resolve fs n (acc @ [c]) cs)"
  by pat_completeness auto
termination
  by (relation "measures [\<lambda>(fs, n, acc, cs). n, \<lambda>(fs, n, acc, cs). length cs]") auto

text \<open>Linux follows at most 40 links.\<close>

definition real_path :: "file_system \<Rightarrow> fs_path \<Rightarrow> resolved" where
  "real_path fs p = resolve fs 40 [] p"

text \<open>\<open>lexically_normal\<close> of an absolute path.\<close>

definition normal_step :: "fs_path \<Rightarrow> string \<Rightarrow> fs_path" where
  "normal_step acc c = (if c = [] \<or> c = ''.'' then acc else if c = ''..'' then butlast acc else acc @ [c])"

definition lexically_normal :: "fs_path \<Rightarrow> fs_path" where
  "lexically_normal p =
     (let q = foldl normal_step [] p
      in if p \<noteq> [] \<and> last p \<in> {[], ''.'', ''..''} \<and> q \<noteq> [] then q @ [[]] else q)"

text \<open>
  \<open>weakly_canonical(p, ec)\<close>, \<open>None\<close> when \<open>ec\<close> is set: the longest leading part that exists is
  resolved, the rest appended and normalised.
\<close>

fun weakly_loop :: "file_system \<Rightarrow> fs_path \<Rightarrow> fs_path \<Rightarrow> fs_path option" where
  "weakly_loop fs lead rest =
     (case rest of
        [] \<Rightarrow> (case real_path fs lead of Found q \<Rightarrow> Some (lexically_normal q) | _ \<Rightarrow> None)
      | c # cs \<Rightarrow>
          (case real_path fs (lead @ [c]) of
             Found _ \<Rightarrow> weakly_loop fs (lead @ [c]) cs
           | Missing \<Rightarrow> (case real_path fs lead of Found q \<Rightarrow> Some (lexically_normal (q @ c # cs)) | _ \<Rightarrow> None)
           | Too_many_links \<Rightarrow> None))"

definition weakly_canonical :: "file_system \<Rightarrow> fs_path \<Rightarrow> fs_path option" where
  "weakly_canonical fs p =
     (case real_path fs p of
        Found q \<Rightarrow> Some q
      | Missing \<Rightarrow> weakly_loop fs [] p
      | Too_many_links \<Rightarrow> None)"

text \<open>The node a path leads to; \<open>status\<close> sets \<open>ec\<close> when there is none.\<close>

definition node_at :: "file_system \<Rightarrow> fs_path \<Rightarrow> fs_node option" where
  "node_at fs p =
     (case real_path fs p of Found q \<Rightarrow> if q = [] then Some Directory else fs q | _ \<Rightarrow> None)"

section \<open>The middleware\<close>

record static_middleware =
  st_prefix :: string
  st_doc_root :: fs_path
  st_index_file :: string
  st_max_file_size :: nat

definition mime_map :: "(string \<times> string) list" where
  "mime_map =
     [(''html'', ''text/html; charset=utf-8''),
      (''htm'', ''text/html; charset=utf-8''),
      (''css'', ''text/css; charset=utf-8''),
      (''js'', ''application/javascript; charset=utf-8''),
      (''mjs'', ''application/javascript; charset=utf-8''),
      (''json'', ''application/json; charset=utf-8''),
      (''xml'', ''application/xml; charset=utf-8''),
      (''txt'', ''text/plain; charset=utf-8''),
      (''text'', ''text/plain; charset=utf-8''),
      (''md'', ''text/markdown; charset=utf-8''),
      (''svg'', ''image/svg+xml''),
      (''png'', ''image/png''),
      (''jpg'', ''image/jpeg''),
      (''jpeg'', ''image/jpeg''),
      (''gif'', ''image/gif''),
      (''webp'', ''image/webp''),
      (''ico'', ''image/x-icon''),
      (''woff'', ''font/woff''),
      (''woff2'', ''font/woff2''),
      (''ttf'', ''font/ttf''),
      (''otf'', ''font/otf''),
      (''pdf'', ''application/pdf''),
      (''zip'', ''application/zip''),
      (''wasm'', ''application/wasm''),
      (''mp4'', ''video/mp4''),
      (''webm'', ''video/webm''),
      (''mp3'', ''audio/mpeg''),
      (''wav'', ''audio/wav'')]"

text \<open>The loop pops trailing slashes while the prefix is longer than one character.\<close>

fun pop_slashes :: "string \<Rightarrow> string" where
  "pop_slashes rev_p =
     (case rev_p of
        c # d # cs \<Rightarrow> if c = CHR ''/'' then pop_slashes (d # cs) else rev_p
      | _ \<Rightarrow> rev_p)"

definition normalize_prefix :: "string \<Rightarrow> string" where
  "normalize_prefix p =
     (let p = (if p = [] then ''/'' else p);
          p = (if hd p \<noteq> CHR ''/'' then CHR ''/'' # p else p)
      in rev (pop_slashes (rev p)))"

definition is_subpath :: "file_system \<Rightarrow> fs_path \<Rightarrow> fs_path \<Rightarrow> bool" where
  "is_subpath fs dir candidate =
     (case weakly_canonical fs dir of
        None \<Rightarrow> False
      | Some r \<Rightarrow> (case weakly_canonical fs candidate of None \<Rightarrow> False | Some c \<Rightarrow> prefix r c))"

text \<open>\<open>extension()\<close> of the file name: from its last dot, unless that is its first character.\<close>

definition extension :: "fs_path \<Rightarrow> string" where
  "extension p =
     (if p = [] then []
      else let f = last p
           in if f = ''.'' \<or> f = ''..'' then []
              else case rfind_char f CHR ''.'' of
                     None \<Rightarrow> [] | Some i \<Rightarrow> if i = 0 then [] else drop i f)"

definition mime_for_path :: "fs_path \<Rightarrow> string" where
  "mime_for_path file =
     (let ext = extension file;
          ext = (if 1 < length ext \<and> hd ext = CHR ''.'' then tl ext else ext);
          ext = to_lower ext
      in case map_of mime_map ext of Some m \<Rightarrow> m | None \<Rightarrow> ''application/octet-stream'')"

text \<open>The constructor, for a document root given as an absolute path.\<close>

definition new_static_middleware :: "file_system \<Rightarrow> string \<Rightarrow> fs_path \<Rightarrow> string \<Rightarrow> static_middleware" where
  "new_static_middleware fs url_prefix document_root index_file =
     \<lparr>st_prefix = normalize_prefix url_prefix,
      st_doc_root = (case weakly_canonical fs document_root of Some c \<Rightarrow> c | None \<Rightarrow> document_root),
      st_index_file = index_file, st_max_file_size = 64 * 1024 * 1024\<rparr>"

definition set_max_file_size :: "nat \<Rightarrow> static_middleware \<Rightarrow> static_middleware" where
  "set_max_file_size n m = m\<lparr>st_max_file_size := n\<rparr>"

datatype serve_result = Not_applicable | Served | Stop_pipeline

definition plain_reply :: "nat \<Rightarrow> string \<Rightarrow> http_response \<Rightarrow> serve_result \<times> http_response" where
  "plain_reply status text res =
     (Stop_pipeline, res_set_body text (res_set ''Content-Type'' ''text/plain; charset=utf-8'' (res_result status res)))"

text \<open>The path of the request below the prefix, mapped under the document root.\<close>

definition static_rel :: "static_middleware \<Rightarrow> string \<Rightarrow> string" where
  "static_rel m path =
     (let rel = drop (length (st_prefix m)) path;
          rel = (if rel = [] \<or> hd rel \<noteq> CHR ''/'' then CHR ''/'' # rel else rel)
      in if 1 < length rel \<and> last rel = CHR ''/'' then butlast rel else rel)"

definition static_mapped :: "static_middleware \<Rightarrow> string \<Rightarrow> fs_path" where
  "static_mapped m path =
     (let rel = static_rel m path
      in if rel \<noteq> ''/'' then path_append (st_doc_root m) (tl rel) else st_doc_root m)"

text \<open>From the check for a regular file to the end: what is done with the file found.\<close>

definition serve_file ::
  "file_system \<Rightarrow> static_middleware \<Rightarrow> request_context \<Rightarrow> http_response \<Rightarrow> fs_path \<Rightarrow> serve_result \<times> http_response" where
  "serve_file fs m ctx res mapped =
     (case node_at fs mapped of
        Some (File readable bytes) \<Rightarrow>
          if st_max_file_size m < length bytes then plain_reply 413 ''Payload Too Large'' res
          else let res = res_keep_alive (rq_keep_alive (rc_req ctx))
                           (res_set ''Content-Type'' (mime_for_path mapped) (res_result 200 res))
               in if ctx_method ctx = Verb_head
                  then (Served, res_set_body [] (res_content_length (length bytes) res))
                  else if \<not> readable then plain_reply 500 ''Failed to read file'' res
                  else (Served, res_set_body bytes res)
      | _ \<Rightarrow> plain_reply 404 ''Not Found'' res)"

definition try_serve ::
  "file_system \<Rightarrow> static_middleware \<Rightarrow> request_context \<Rightarrow> http_response \<Rightarrow> serve_result \<times> http_response" where
  "try_serve fs m ctx res =
     (if ctx_method ctx \<noteq> Verb_get \<and> ctx_method ctx \<noteq> Verb_head then (Not_applicable, res)
      else if \<not> prefix (st_prefix m) (ctx_path ctx) then (Not_applicable, res)
      else case weakly_canonical fs (static_mapped m (ctx_path ctx)) of
             None \<Rightarrow> plain_reply 403 ''Forbidden'' res
           | Some mapped \<Rightarrow>
               if \<not> is_subpath fs (st_doc_root m) mapped then plain_reply 403 ''Forbidden'' res
               else case node_at fs mapped of
                      None \<Rightarrow> plain_reply 404 ''Not Found'' res
                    | Some Directory \<Rightarrow>
                        (case weakly_canonical fs (path_append mapped (st_index_file m)) of
                           None \<Rightarrow> plain_reply 403 ''Forbidden'' res
                         | Some mapped' \<Rightarrow>
                             if \<not> is_subpath fs (st_doc_root m) mapped' then plain_reply 403 ''Forbidden'' res
                             else serve_file fs m ctx res mapped')
                    | Some _ \<Rightarrow> serve_file fs m ctx res mapped)"

definition static_sync :: "file_system \<Rightarrow> static_middleware \<Rightarrow> 'x world \<Rightarrow> 'x mw_prog" where
  "static_sync fs m w =
     (let (r, res) = try_serve fs m (w_ctx w) (w_res w); w = w\<lparr>w_res := res\<rparr>
      in if r = Not_applicable then Call_next w Done
         else Done (w\<lparr>w_res := res_prepare_payload res\<rparr>))"

definition static_async :: "file_system \<Rightarrow> static_middleware \<Rightarrow> 'x world \<Rightarrow> 'x async_prog" where
  "static_async fs m w =
     (let (r, res) = try_serve fs m (w_ctx w) (w_res w); w = w\<lparr>w_res := res\<rparr>
      in if r = Not_applicable then A_Next w (\<lambda>w. A_Callback R_Continue [] w A_Done)
         else A_Callback R_Stop [] (w\<lparr>w_res := res_prepare_payload res\<rparr>) A_Done)"

definition static_mw :: "nat \<Rightarrow> file_system \<Rightarrow> static_middleware \<Rightarrow> 'x middleware" where
  "static_mw i fs m = (base_middleware i (static_sync fs m))
     \<lparr>mw_name := ''StaticMiddleware'', mw_priority := Normal, mw_async := static_async fs m\<rparr>"

section \<open>Files stay below the document root\<close>

lemma plain_reply_sels [simp]:
  "fst (plain_reply st t res) = Stop_pipeline" "rs_status (snd (plain_reply st t res)) = st"
  "rs_body (snd (plain_reply st t res)) = t"
  by (simp_all add: plain_reply_def)

text \<open>What a reply may be, for a file system and a document root.\<close>

definition below_root :: "file_system \<Rightarrow> fs_path \<Rightarrow> fs_path \<Rightarrow> bool" where
  "below_root fs doc q = (case weakly_canonical fs doc of None \<Rightarrow> False | Some r \<Rightarrow> prefix r q)"

definition serves_below :: "file_system \<Rightarrow> static_middleware \<Rightarrow> request_context \<Rightarrow> http_response \<Rightarrow>
    serve_result \<times> http_response \<Rightarrow> bool" where
  "serves_below fs m ctx res out =
     (case fst out of
        Not_applicable \<Rightarrow> snd out = res
      | Stop_pipeline \<Rightarrow> rs_status (snd out) \<in> {403, 404, 413, 500}
      | Served \<Rightarrow> rs_status (snd out) = 200 \<and>
          (\<exists>q readable bytes. fs q = Some (File readable bytes) \<and> below_root fs (st_doc_root m) q \<and>
             length bytes \<le> st_max_file_size m \<and>
             rs_body (snd out) = (if ctx_method ctx = Verb_head then [] else bytes)))"

text \<open>A path that leads somewhere is canonical there, and the node found is the one at its real path.\<close>

lemma node_at_File:
  assumes "node_at fs p = Some (File readable bytes)"
  shows "\<exists>q. real_path fs p = Found q \<and> fs q = Some (File readable bytes)"
  using assms by (auto simp: node_at_def split: resolved.splits if_splits)

lemma weakly_canonical_Found: "real_path fs p = Found q \<Longrightarrow> weakly_canonical fs p = Some q"
  by (simp add: weakly_canonical_def)

lemma serve_file_below:
  assumes "is_subpath fs (st_doc_root m) mapped"
  shows "serves_below fs m ctx res (serve_file fs m ctx res mapped)"
proof (cases "\<exists>readable bytes. node_at fs mapped = Some (File readable bytes)")
  case False
  then have "serve_file fs m ctx res mapped = plain_reply 404 ''Not Found'' res"
    by (auto simp: serve_file_def split: option.splits fs_node.splits)
  then show ?thesis by (simp add: serves_below_def)
next
  case True
  then obtain readable bytes where f: "node_at fs mapped = Some (File readable bytes)" by blast
  from node_at_File [OF f] obtain q where q: "real_path fs mapped = Found q" "fs q = Some (File readable bytes)" by blast
  from assms weakly_canonical_Found [OF q(1)] have "below_root fs (st_doc_root m) q"
    by (auto simp: is_subpath_def below_root_def split: option.splits)
  with f q(2) show ?thesis
    by (auto simp: serve_file_def serves_below_def res_keep_alive_def res_content_length_def Let_def not_less)
qed

lemma serves_below_reply: "st \<in> {403, 404, 413, 500} \<Longrightarrow> serves_below fs m ctx res (plain_reply st t res)"
  by (simp add: serves_below_def)

lemma try_serve_below: "serves_below fs m ctx res (try_serve fs m ctx res)"
proof -
  have "serves_below fs m ctx res (Not_applicable, res)" by (simp add: serves_below_def)
  then show ?thesis
    by (auto simp: try_serve_def serves_below_reply serve_file_below split: option.splits fs_node.splits)
qed

section \<open>Serving a file\<close>

definition plain_name :: "string \<Rightarrow> bool" where
  "plain_name c = (c \<noteq> [] \<and> CHR ''/'' \<notin> set c \<and> c \<noteq> ''.'' \<and> c \<noteq> ''..'')"

lemma path_elements_loop_name:
  "CHR ''/'' \<notin> set c \<Longrightarrow> path_elements_loop acc (c @ rest) = path_elements_loop (rev c @ acc) rest"
  by (induction c arbitrary: acc) auto

lemma path_elements_loop_join:
  "list_all plain_name es \<Longrightarrow> path_elements_loop [] (join_with (CHR ''/'') es) = es"
proof (induction es rule: induct_list012)
  case (2 e)
  then show ?case using path_elements_loop_name [of e "[]" "[]"] by (simp add: plain_name_def)
next
  case (3 e f es)
  then show ?case
    using path_elements_loop_name [of e "[]" "CHR ''/'' # join_with (CHR ''/'') (f # es)"] by (simp add: plain_name_def)
qed simp

lemma join_Nil: "join_with d es = [] \<Longrightarrow> es = [] \<or> es = [[]]"
  by (cases "(d, es)" rule: join_with.cases) auto

lemma join_last: "es \<noteq> [] \<Longrightarrow> last es \<noteq> [] \<Longrightarrow> last (join_with d es) = last (last es)"
  by (induction es rule: induct_list012) (auto simp: last_append dest!: join_Nil)

lemma plain_join:
  assumes "list_all plain_name es" "es \<noteq> []"
  shows "join_with (CHR ''/'') es \<noteq> []" "hd (join_with (CHR ''/'') es) \<noteq> CHR ''/''"
    "last (join_with (CHR ''/'') es) \<noteq> CHR ''/''"
proof -
  obtain e es' where es: "es = e # es'" using assms(2) by (cases es) auto
  with assms(1) obtain c e' where e: "e = c # e'" "c \<noteq> CHR ''/''" by (cases e) (auto simp: plain_name_def)
  show "join_with (CHR ''/'') es \<noteq> []" "hd (join_with (CHR ''/'') es) \<noteq> CHR ''/''"
    using e by (cases es'; simp add: es)+
  have "plain_name (last es)" using assms by (simp add: list_all_iff)
  then show "last (join_with (CHR ''/'') es) \<noteq> CHR ''/''"
    by (metis assms(2) join_last last_in_set plain_name_def)
qed

text \<open>A directory that no link leads through, and what lies below it.\<close>

definition plain_dir :: "file_system \<Rightarrow> fs_path \<Rightarrow> bool" where
  "plain_dir fs p = (list_all plain_name p \<and> (\<forall>q. prefix q p \<longrightarrow> q = [] \<or> fs q = Some Directory))"

lemma resolve_plain:
  assumes "list_all plain_name cs" "\<forall>q. strict_prefix q cs \<longrightarrow> acc @ q = [] \<or> fs (acc @ q) = Some Directory"
    and "cs = [] \<or> (\<exists>nd. fs (acc @ cs) = Some nd \<and> (\<forall>a t. nd \<noteq> Symlink a t))"
  shows "resolve fs n acc cs = Found (acc @ cs)"
  using assms
proof (induction cs arbitrary: acc)
  case (Cons c cs)
  have here: "acc = [] \<or> fs acc = Some Directory" using Cons.prems(2) [rule_format, of "[]"] by simp
  have below: "\<forall>q. strict_prefix q cs \<longrightarrow> (acc @ [c]) @ q = [] \<or> fs ((acc @ [c]) @ q) = Some Directory"
    using Cons.prems(2) by (auto dest: spec [of _ "c # _"])
  have node: "\<exists>nd. fs (acc @ [c]) = Some nd \<and> (\<forall>a t. nd \<noteq> Symlink a t)"
  proof (cases cs)
    case Nil
    with Cons.prems(3) show ?thesis by simp
  next
    case (Cons d ds)
    then have "strict_prefix [] cs" by simp
    with below show ?thesis by fastforce
  qed
  have "resolve fs n (acc @ [c]) cs = Found ((acc @ [c]) @ cs)"
    using Cons.prems below by (intro Cons.IH) auto
  with node here Cons.prems(1) show ?case by (auto simp: plain_name_def split: fs_node.splits)
qed simp

lemma real_path_plain:
  "plain_dir fs d \<Longrightarrow> list_all plain_name es \<Longrightarrow> (\<forall>q. strict_prefix q es \<longrightarrow> d @ q = [] \<or> fs (d @ q) = Some Directory) \<Longrightarrow>
   (es = [] \<or> (\<exists>nd. fs (d @ es) = Some nd \<and> (\<forall>a t. nd \<noteq> Symlink a t))) \<Longrightarrow> real_path fs (d @ es) = Found (d @ es)"
  unfolding real_path_def
proof -
  assume *: "plain_dir fs d" "list_all plain_name es" "\<forall>q. strict_prefix q es \<longrightarrow> d @ q = [] \<or> fs (d @ q) = Some Directory"
    "es = [] \<or> (\<exists>nd. fs (d @ es) = Some nd \<and> (\<forall>a t. nd \<noteq> Symlink a t))"
  have dirs: "q = [] \<or> fs q = Some Directory" if "strict_prefix q (d @ es)" for q
  proof (cases "prefix q d")
    case True
    with *(1) show ?thesis by (simp add: plain_dir_def)
  next
    case False
    with that obtain r where "q = d @ r" "strict_prefix r es"
      by (metis prefix_append prefix_order.less_le same_append_eq)
    with *(3) show ?thesis by blast
  qed
  have end_node: "d @ es = [] \<or> (\<exists>nd. fs (d @ es) = Some nd \<and> (\<forall>a t. nd \<noteq> Symlink a t))"
    using *(1,4) by (auto simp: plain_dir_def)
  have names: "list_all plain_name (d @ es)" using *(1,2) by (simp add: plain_dir_def)
  show "resolve fs 40 [] (d @ es) = Found (d @ es)"
    using resolve_plain [OF names, of "[]" fs 40] dirs end_node by auto
qed

section \<open>Properties\<close>

text \<open>
  C7: whatever path is asked for, with any dot-dots, repeated slashes or symbolic links, the
  middleware either leaves the request alone, refuses it, or serves the bytes of a regular
  file whose real path lies below the canonical document root and that is not too large.
\<close>

theorem static_stays_below_root:
  "case try_serve fs m ctx res of
     (Not_applicable, res') \<Rightarrow> res' = res
   | (Stop_pipeline, res') \<Rightarrow> rs_status res' \<in> {403, 404, 413, 500}
   | (Served, res') \<Rightarrow> rs_status res' = 200 \<and>
       (\<exists>q readable bytes. fs q = Some (File readable bytes) \<and>
          (case weakly_canonical fs (st_doc_root m) of None \<Rightarrow> False | Some r \<Rightarrow> prefix r q) \<and>
          length bytes \<le> st_max_file_size m \<and>
          rs_body res' = (if ctx_method ctx = Verb_head then [] else bytes))"
proof -
  obtain r res' where "try_serve fs m ctx res = (r, res')" by fastforce
  with try_serve_below [of fs m ctx res] show ?thesis
    by (cases r) (simp_all add: serves_below_def below_root_def)
qed

text \<open>
  A regular file in a chain of real directories below the document root is served, with
  its bytes and the media type of its name, under the prefix followed by its relative path,
  with or without a slash between the two.
\<close>

theorem static_serves_file:
  assumes "plain_dir fs (st_doc_root m)" and "list_all plain_name es" and "es \<noteq> []"
    and "\<forall>q. strict_prefix q es \<longrightarrow> st_doc_root m @ q = [] \<or> fs (st_doc_root m @ q) = Some Directory"
    and "fs (st_doc_root m @ es) = Some (File True bytes)" and "length bytes \<le> st_max_file_size m"
    and "ctx_method ctx = Verb_get" and "sep = [] \<or> sep = ''/''"
    and "ctx_path ctx = st_prefix m @ sep @ join_with (CHR ''/'') es"
  shows "\<exists>res'. try_serve fs m ctx res = (Served, res') \<and> rs_status res' = 200 \<and> rs_body res' = bytes \<and>
    last_set res' ''Content-Type'' = Some (mime_for_path (st_doc_root m @ es))"
proof -
  let ?d = "st_doc_root m" and ?j = "join_with (CHR ''/'') es"
  note j = plain_join [OF assms(2,3)]
  have real: "real_path fs (?d @ es) = Found (?d @ es)"
    by (rule real_path_plain) (use assms in auto)
  have real_d: "real_path fs ?d = Found ?d"
    using real_path_plain [of fs ?d "[]"] assms(1) by simp
  have "static_rel m (ctx_path ctx) = CHR ''/'' # ?j"
    using j assms(8,9) by (auto simp: static_rel_def Let_def hd_append last_append)
  moreover have "path_elements ?j = es"
    using j path_elements_loop_join [OF assms(2)] by (simp add: path_elements_def Let_def)
  moreover have "?d = [] \<or> last ?d \<noteq> []"
  proof (cases "?d = []")
    case False
    moreover have "list_all plain_name ?d" using assms(1) by (simp add: plain_dir_def)
    ultimately have "plain_name (last ?d)" by (simp add: list_all_iff)
    then show ?thesis by (auto simp: plain_name_def)
  qed simp
  ultimately have "static_mapped m (ctx_path ctx) = ?d @ es"
    using j by (auto simp: static_mapped_def path_append_def is_absolute_def Let_def)
  moreover have "prefix (st_prefix m) (ctx_path ctx)" using assms(9) by simp
  moreover have "node_at fs (?d @ es) = Some (File True bytes)"
    using real assms(3,5) by (simp add: node_at_def)
  ultimately show ?thesis
    using assms(6,7) weakly_canonical_Found [OF real] weakly_canonical_Found [OF real_d]
    by (simp add: try_serve_def is_subpath_def serve_file_def Let_def last_set_def
        res_keep_alive_def res_set_def res_set_body_def res_result_def)
qed

definition sample_fs :: file_system where
  "sample_fs = map_of [([''www''], Directory), ([''www'', ''css''], Directory),
     ([''www'', ''css'', ''a.css''], File True ''b{}''), ([''etc''], Directory),
     ([''etc'', ''passwd''], File True ''root''), ([''www'', ''out''], Symlink True [''etc''])]"

definition sample_static :: static_middleware where
  "sample_static = \<lparr>st_prefix = ''/static'', st_doc_root = [''www''], st_index_file = ''index.html'', st_max_file_size = 100\<rparr>"

theorem static_serves_file_witness:
  "\<exists>res'. try_serve sample_fs sample_static
      (new_request_context (make_request Verb_get ''/static/css/a.css'' [] [])) res_init = (Served, res') \<and>
    rs_body res' = ''b{}''"
proof -
  let ?ctx = "new_request_context (make_request Verb_get ''/static/css/a.css'' [] [])"
  have "plain_dir sample_fs (st_doc_root sample_static)"
    by (auto simp: plain_dir_def sample_static_def plain_name_def sample_fs_def prefix_Cons)
  moreover have "list_all plain_name [''css'', ''a.css'']" by (simp add: plain_name_def)
  moreover have "\<forall>q. strict_prefix q [''css'', ''a.css''] \<longrightarrow>
      st_doc_root sample_static @ q = [] \<or> sample_fs (st_doc_root sample_static @ q) = Some Directory"
    by (auto simp: strict_prefix_def prefix_Cons sample_fs_def sample_static_def)
  moreover have "ctx_method ?ctx = Verb_get"
    by (simp add: ctx_method_def new_request_context_def)
  moreover have "ctx_path ?ctx = st_prefix sample_static @ ''/'' @ join_with (CHR ''/'') [''css'', ''a.css'']"
    by (simp add: ctx_path_def new_request_context_def sample_static_def)
  ultimately show ?thesis
    using static_serves_file [of sample_fs sample_static "[''css'', ''a.css'']" "''b{}''" ?ctx "''/''" res_init]
    by (auto simp: sample_fs_def sample_static_def)
qed

text \<open>A link that leads out of the document root, and dot-dots, are refused.\<close>

lemma static_refuses_escape:
  "rs_status (snd (try_serve sample_fs sample_static
      (new_request_context (make_request Verb_get ''/static/out/passwd'' [] [])) res_init)) = 403"
  "rs_status (snd (try_serve sample_fs sample_static
      (new_request_context (make_request Verb_get ''/static/../etc/passwd'' [] [])) res_init)) = 403"
  by code_simp+

text \<open>The prefix need not end at a slash: another path that begins with it is served too.\<close>

lemma static_prefix_not_a_segment:
  "rs_body (snd (try_serve sample_fs sample_static
      (new_request_context (make_request Verb_get ''/staticcss/a.css'' [] [])) res_init)) = ''b{}''"
  by code_simp

end
