(* ===== verification/Header_Middleware.thy ===== *)
theory Header_Middleware
  imports Middleware
begin

text \<open>
  Middlewares that work on the response's headers: src/middleware/basic/cors_middleware.cpp,
  include/foxhttp/middleware/basic/response_time_middleware.hpp,
  advanced/security_headers_middleware.hpp and src/middleware/advanced/compression_middleware.cpp.
\<close>

section \<open>CorsMiddleware\<close>

record cors =
  co_origin :: string
  co_methods :: string
  co_headers :: string
  co_allow_credentials :: bool
  co_max_age :: int

definition default_cors :: cors where
  "default_cors = \<lparr>co_origin = ''*'', co_methods = ''GET, POST, PUT, DELETE, OPTIONS'',
     co_headers = ''Content-Type, Authorization'', co_allow_credentials = False, co_max_age = 86400\<rparr>"

definition cors_headers :: "cors \<Rightarrow> request_context \<Rightarrow> http_response \<Rightarrow> http_response" where
  "cors_headers c ctx res =
     (let res = res_set ''Access-Control-Allow-Origin''
                  (if co_origin c = ''*'' then ctx_header ctx ''Origin'' [] else co_origin c) res;
          res = res_set ''Access-Control-Allow-Methods'' (co_methods c) res;
          res = res_set ''Access-Control-Allow-Headers'' (co_headers c) res;
          res = res_set ''Access-Control-Max-Age'' (to_string_int (co_max_age c)) res
      in if co_allow_credentials c then res_set ''Access-Control-Allow-Credentials'' ''true'' res else res)"

definition cors_sync :: "cors \<Rightarrow> 'x world \<Rightarrow> 'x mw_prog" where
  "cors_sync c w =
     (let w = w\<lparr>w_res := cors_headers c (w_ctx w) (w_res w)\<rparr>
      in if ctx_method (w_ctx w) = Verb_options
         then Done (w\<lparr>w_res := res_prepare_payload (res_set_body [] (res_result 200 (w_res w)))\<rparr>)
         else Call_next w Done)"

definition cors_async :: "cors \<Rightarrow> 'x world \<Rightarrow> 'x async_prog" where
  "cors_async c w =
     (let w = w\<lparr>w_res := cors_headers c (w_ctx w) (w_res w)\<rparr>
      in if ctx_method (w_ctx w) = Verb_options
         then A_Callback R_Stop [] (w\<lparr>w_res := res_result 200 (w_res w)\<rparr>) A_Done
         else A_Next w (\<lambda>w. A_Callback R_Continue [] w A_Done))"

definition cors_middleware :: "nat \<Rightarrow> cors \<Rightarrow> 'x middleware" where
  "cors_middleware i c = (base_middleware i (cors_sync c))
     \<lparr>mw_name := ''CorsMiddleware'', mw_priority := High, mw_async := cors_async c\<rparr>"

text \<open>A preflight request goes no further; any other does, with the headers set.\<close>

lemma cors_preflight:
  "case cors_sync c w of
     Done w' \<Rightarrow> ctx_method (w_ctx w) = Verb_options \<and> rs_status (w_res w') = 200 \<and> rs_body (w_res w') = [] \<and>
       last_set (w_res w') ''Access-Control-Allow-Methods'' = Some (co_methods c)
   | Call_next w' k \<Rightarrow> ctx_method (w_ctx w) \<noteq> Verb_options \<and> k = Done \<and> rs_body (w_res w') = rs_body (w_res w) \<and>
       last_set (w_res w') ''Access-Control-Allow-Methods'' = Some (co_methods c)
   | Raise e w' \<Rightarrow> False"
  by (simp add: cors_sync_def cors_headers_def Let_def)

text \<open>With the default origin the request's own origin is allowed, credentials or not.\<close>

lemma cors_reflects_origin:
  "co_origin c = ''*'' \<Longrightarrow> last_set (cors_headers c ctx res) ''Access-Control-Allow-Origin'' = Some (ctx_header ctx ''Origin'' [])"
  by (simp add: cors_headers_def Let_def)

text \<open>The asynchronous operator leaves the body of a preflight response as it was.\<close>

lemma cors_async_keeps_body:
  "ctx_method (w_ctx w) = Verb_options \<Longrightarrow>
   \<exists>w' k. cors_async c w = A_Callback R_Stop [] w' k \<and> rs_body (w_res w') = rs_body (w_res w) \<and> rs_prepared (w_res w') = rs_prepared (w_res w)"
  by (simp add: cors_async_def cors_headers_def Let_def res_result_def res_set_def)

section \<open>SecurityHeadersMiddleware\<close>

record security_headers =
  sh_hsts :: string
  sh_csp :: string
  sh_xfo :: string
  sh_xcto :: string
  sh_referrer :: string
  sh_xss :: string

definition default_security_headers :: security_headers where
  "default_security_headers = \<lparr>sh_hsts = [], sh_csp = [], sh_xfo = ''SAMEORIGIN'', sh_xcto = ''nosniff'',
     sh_referrer = ''no-referrer'', sh_xss = ''0''\<rparr>"

definition sh_set_hsts :: "string \<Rightarrow> security_headers \<Rightarrow> security_headers" where
  "sh_set_hsts v s = s\<lparr>sh_hsts := v\<rparr>"

definition sh_set_csp :: "string \<Rightarrow> security_headers \<Rightarrow> security_headers" where
  "sh_set_csp v s = s\<lparr>sh_csp := v\<rparr>"

definition sh_frame_options :: "string \<Rightarrow> security_headers \<Rightarrow> security_headers" where
  "sh_frame_options v s = s\<lparr>sh_xfo := v\<rparr>"

definition sh_content_type_options :: "security_headers \<Rightarrow> security_headers" where
  "sh_content_type_options s = s\<lparr>sh_xcto := ''nosniff''\<rparr>"

definition sh_referrer_policy :: "string \<Rightarrow> security_headers \<Rightarrow> security_headers" where
  "sh_referrer_policy v s = s\<lparr>sh_referrer := v\<rparr>"

definition sh_xss_protection :: "string \<Rightarrow> security_headers \<Rightarrow> security_headers" where
  "sh_xss_protection v s = s\<lparr>sh_xss := v\<rparr>"

definition set_unless_empty :: "string \<Rightarrow> string \<Rightarrow> http_response \<Rightarrow> http_response" where
  "set_unless_empty name v res = (if v \<noteq> [] then res_set name v res else res)"

definition secure_response :: "security_headers \<Rightarrow> http_response \<Rightarrow> http_response" where
  "secure_response s res =
     set_unless_empty ''X-XSS-Protection'' (sh_xss s) (set_unless_empty ''Referrer-Policy'' (sh_referrer s)
       (set_unless_empty ''X-Content-Type-Options'' (sh_xcto s) (set_unless_empty ''X-Frame-Options'' (sh_xfo s)
         (set_unless_empty ''Content-Security-Policy'' (sh_csp s)
           (set_unless_empty ''Strict-Transport-Security'' (sh_hsts s) res)))))"

definition security_sync :: "security_headers \<Rightarrow> 'x world \<Rightarrow> 'x mw_prog" where
  "security_sync s w = Call_next w (\<lambda>w. Done (w\<lparr>w_res := secure_response s (w_res w)\<rparr>))"

definition security_middleware :: "nat \<Rightarrow> security_headers \<Rightarrow> 'x middleware" where
  "security_middleware i s = (base_middleware i (security_sync s))
     \<lparr>mw_name := ''SecurityHeadersMiddleware'', mw_priority := High\<rparr>"

lemma last_set_unless_empty [simp]:
  "last_set (set_unless_empty n v res) m = (if m = n \<and> v \<noteq> [] then Some v else last_set res m)"
  by (simp add: set_unless_empty_def)

text \<open>Whatever the handlers set, the configured values win, and other headers are kept.\<close>

lemma secure_response_headers:
  "sh_xfo s \<noteq> [] \<Longrightarrow> last_set (secure_response s res) ''X-Frame-Options'' = Some (sh_xfo s)"
  "n \<notin> {''X-XSS-Protection'', ''Referrer-Policy'', ''X-Content-Type-Options'', ''X-Frame-Options'',
      ''Content-Security-Policy'', ''Strict-Transport-Security''} \<Longrightarrow> last_set (secure_response s res) n = last_set res n"
  by (simp_all add: secure_response_def)

section \<open>ResponseTimeMiddleware\<close>

text \<open>Milliseconds between two readings of the monotonic clock in microseconds.\<close>

definition elapsed_ms :: "int \<Rightarrow> int \<Rightarrow> int" where
  "elapsed_ms start stop = (stop - start) div 1000"

definition response_time_sync :: "string \<Rightarrow> 'x world \<Rightarrow> 'x mw_prog" where
  "response_time_sync header w =
     (let start = w_now w
      in Call_next w (\<lambda>w. Done (w\<lparr>w_res := res_set header (to_string_int (elapsed_ms start (w_now w)) @ ''ms'') (w_res w)\<rparr>)))"

definition response_time_async :: "string \<Rightarrow> 'x world \<Rightarrow> 'x async_prog" where
  "response_time_async header w =
     A_Next (w\<lparr>w_ctx := ctx_set ''response_time_start'' (Any_time (w_now w)) (w_ctx w)\<rparr>)
       (\<lambda>w. A_Callback R_Continue [] w A_Done)"

definition response_time_middleware :: "nat \<Rightarrow> string \<Rightarrow> 'x middleware" where
  "response_time_middleware i header = (base_middleware i (response_time_sync header))
     \<lparr>mw_name := ''ResponseTimeMiddleware'', mw_priority := Low, mw_async := response_time_async header\<rparr>"

section \<open>CompressionMiddleware\<close>

datatype compression_type = Gzip | Deflate | Br | No_compression

text \<open>
  The codecs are those of Boost.Iostreams and Brotli, whether a response has a field is
  Beast's to say, and \<open>static_cast<int>(std::stof(s) * 1000)\<close> is floating-point: all are
  parameters. A codec that throws gives \<open>None\<close>; \<open>cd_brotli\<close> is \<open>None\<close> in a build without
  Brotli, and the encoder's failure is an inner \<open>None\<close>.
\<close>

record codecs =
  cd_gzip :: "string \<Rightarrow> string"
  cd_raw_deflate :: "string \<Rightarrow> string option"
  cd_brotli :: "(string \<Rightarrow> string option) option"
  cd_has_field :: "http_response \<Rightarrow> string \<Rightarrow> bool"
  cd_permille :: "string \<Rightarrow> int option"

record compression =
  cm_threshold :: nat
  cm_supported :: "compression_type list"

definition new_compression :: "nat \<Rightarrow> bool \<Rightarrow> bool \<Rightarrow> bool \<Rightarrow> compression" where
  "new_compression threshold gz defl br =
     \<lparr>cm_threshold = threshold,
      cm_supported = (if gz then [Gzip] else []) @ (if defl then [Deflate] else []) @ (if br then [Br] else [])\<rparr>"

fun get_encoding_name :: "compression_type \<Rightarrow> string" where
  "get_encoding_name Gzip = ''gzip''"
| "get_encoding_name Deflate = ''deflate''"
| "get_encoding_name Br = ''br''"
| "get_encoding_name No_compression = []"

definition compress_gzip :: "codecs \<Rightarrow> string \<Rightarrow> string" where
  "compress_gzip cd s = cd_gzip cd s"

definition compress_deflate :: "codecs \<Rightarrow> string \<Rightarrow> string" where
  "compress_deflate cd s = (case cd_raw_deflate cd s of Some c \<Rightarrow> c | None \<Rightarrow> s)"

definition compress_brotli :: "codecs \<Rightarrow> string \<Rightarrow> string" where
  "compress_brotli cd s =
     (case cd_brotli cd of
        None \<Rightarrow> compress_gzip cd s
      | Some enc \<Rightarrow> (case enc s of Some c \<Rightarrow> c | None \<Rightarrow> compress_gzip cd s))"

definition should_compress :: "codecs \<Rightarrow> compression \<Rightarrow> request_context \<Rightarrow> http_response \<Rightarrow> bool" where
  "should_compress cd m ctx res =
     (if cd_has_field cd res ''Content-Encoding'' then False
      else if length (rs_body res) < cm_threshold m then False
      else let accept = ctx_header ctx ''Accept-Encoding'' []
           in if accept = [] then False
              else list_ex (\<lambda>t. find_sub (get_encoding_name t) accept \<noteq> None) (cm_supported m))"

text \<open>The priority of an encoding named in the header; the first \<open>q=\<close> after it, whosever it is.\<close>

definition encoding_priority :: "codecs \<Rightarrow> string \<Rightarrow> nat \<Rightarrow> int" where
  "encoding_priority cd accept pos =
     (case str_find accept ''q='' pos of
        None \<Rightarrow> 1
      | Some q_pos \<Rightarrow>
          let q_value = (case str_find accept '';'' q_pos of
                           None \<Rightarrow> drop (q_pos + 2) accept
                         | Some e \<Rightarrow> substr accept (q_pos + 2) (e - q_pos - 2))
          in case cd_permille cd q_value of Some p \<Rightarrow> p | None \<Rightarrow> 1)"

definition better_type :: "codecs \<Rightarrow> string \<Rightarrow> compression_type \<times> int \<Rightarrow> compression_type \<Rightarrow> compression_type \<times> int" where
  "better_type cd accept best t =
     (case find_sub (get_encoding_name t) accept of
        None \<Rightarrow> best
      | Some pos \<Rightarrow> let p = encoding_priority cd accept pos in if snd best < p then (t, p) else best)"

definition best_type :: "codecs \<Rightarrow> compression \<Rightarrow> string \<Rightarrow> compression_type" where
  "best_type cd m accept = fst (foldl (better_type cd accept) (No_compression, - 1) (cm_supported m))"

definition compress_response :: "codecs \<Rightarrow> compression \<Rightarrow> request_context \<Rightarrow> http_response \<Rightarrow> http_response" where
  "compress_response cd m ctx res =
     (let t = best_type cd m (ctx_header ctx ''Accept-Encoding'' []);
          done_with = (\<lambda>c. res_set ''Content-Length'' (to_string (length c))
                             (res_set_body c (res_set ''Content-Encoding'' (get_encoding_name t) res)))
      in case t of
           No_compression \<Rightarrow> res
         | Gzip \<Rightarrow> done_with (compress_gzip cd (rs_body res))
         | Deflate \<Rightarrow> done_with (compress_deflate cd (rs_body res))
         | Br \<Rightarrow> done_with (compress_brotli cd (rs_body res)))"

definition compress_if :: "codecs \<Rightarrow> compression \<Rightarrow> 'x world \<Rightarrow> 'x world" where
  "compress_if cd m w =
     (if should_compress cd m (w_ctx w) (w_res w)
      then w\<lparr>w_res := compress_response cd m (w_ctx w) (w_res w)\<rparr> else w)"

definition compression_sync :: "codecs \<Rightarrow> compression \<Rightarrow> 'x world \<Rightarrow> 'x mw_prog" where
  "compression_sync cd m w = Call_next w (\<lambda>w. Done (compress_if cd m w))"

definition compression_async :: "codecs \<Rightarrow> compression \<Rightarrow> 'x world \<Rightarrow> 'x async_prog" where
  "compression_async cd m w = A_Next w (\<lambda>w. A_Callback R_Continue [] (compress_if cd m w) A_Done)"

definition compression_middleware :: "nat \<Rightarrow> codecs \<Rightarrow> compression \<Rightarrow> 'x middleware" where
  "compression_middleware i cd m = (base_middleware i (compression_sync cd m))
     \<lparr>mw_name := ''CompressionMiddleware'', mw_priority := High, mw_async := compression_async cd m\<rparr>"

text \<open>The choice is a supported encoding that the header names, of the highest priority, the first such.\<close>

definition named_in :: "string \<Rightarrow> compression_type \<Rightarrow> bool" where
  "named_in accept t = (find_sub (get_encoding_name t) accept \<noteq> None)"

definition priority_in :: "codecs \<Rightarrow> string \<Rightarrow> compression_type \<Rightarrow> int" where
  "priority_in cd accept t =
     (case find_sub (get_encoding_name t) accept of None \<Rightarrow> - 1 | Some pos \<Rightarrow> encoding_priority cd accept pos)"

lemma best_type_fold:
  assumes "foldl (better_type cd accept) (b, p) ts = (b', p')" "p \<ge> - 1"
  shows "p' \<ge> p \<and> (\<forall>t \<in> set ts. priority_in cd accept t \<le> p') \<and>
    (if p' = p then b' = b else b' \<in> set ts \<and> named_in accept b' \<and> priority_in cd accept b' = p')"
  using assms
proof (induction ts arbitrary: b p)
  case (Cons t ts)
  obtain b1 p1 where s: "better_type cd accept (b, p) t = (b1, p1)" by fastforce
  then have step: "p1 \<ge> p" "priority_in cd accept t \<le> p1" "if p1 = p then b1 = b else b1 = t \<and> named_in accept t \<and> priority_in cd accept t = p1"
    using Cons.prems(2) by (auto simp: better_type_def priority_in_def named_in_def Let_def split: option.splits if_splits)
  from Cons.prems s have "foldl (better_type cd accept) (b1, p1) ts = (b', p')" by simp
  from Cons.IH [OF this] step Cons.prems(2) show ?case by (auto split: if_splits)
qed simp

lemma best_type_optimal:
  "best_type cd m accept = No_compression \<or>
   best_type cd m accept \<in> set (cm_supported m) \<and> named_in accept (best_type cd m accept) \<and>
   (\<forall>t \<in> set (cm_supported m). priority_in cd accept t \<le> priority_in cd accept (best_type cd m accept))"
proof -
  obtain b p where f: "foldl (better_type cd accept) (No_compression, - 1) (cm_supported m) = (b, p)" by fastforce
  from best_type_fold [OF f] show ?thesis by (auto simp: best_type_def f split: if_splits)
qed

text \<open>
  An encoding without a quality, whose quality is 1 by the protocol, gets priority 1, a
  thousandth: any stated quality beats it, and quality 0, which forbids an encoding, is used.
\<close>

lemma implicit_quality_loses:
  assumes "cd_permille cd ''0.1, br'' = Some 100"
  shows "best_type cd (new_compression 0 True True True) ''gzip;q=0.1, br'' = Gzip"
  using assms
  by (simp add: best_type_def new_compression_def better_type_def encoding_priority_def str_find_def substr_def Let_def)

lemma forbidden_encoding_used:
  "cd_permille cd ''0'' = Some 0 \<Longrightarrow> best_type cd (new_compression 0 True False False) ''gzip;q=0'' = Gzip"
  by (simp add: best_type_def new_compression_def better_type_def encoding_priority_def str_find_def substr_def Let_def)

text \<open>Without Brotli in the build, the body announced as \<open>br\<close> is gzip's.\<close>

lemma br_without_brotli:
  assumes "cd_brotli cd = None" "ctx_header ctx ''Accept-Encoding'' [] = ''br''"
  shows "let r = compress_response cd (new_compression 0 True True True) ctx res
    in last_set r ''Content-Encoding'' = Some ''br'' \<and> rs_body r = cd_gzip cd (rs_body res)"
  using assms
  by (simp add: compress_response_def best_type_def new_compression_def better_type_def encoding_priority_def
      str_find_def compress_brotli_def compress_gzip_def Let_def)

end
