(* ===== verification/Logger_Middleware.thy ===== *)
theory Logger_Middleware
  imports Middleware
begin

text \<open>
  src/middleware/basic/logger_middleware.cpp. Lines are formatted by the fmt library: a call
  of the logger is recorded as its level, its format string and its arguments, so nothing
  is assumed of the formatting. The counter of request numbers, the wall clock and the
  calls made are the last component of the world.
\<close>

section \<open>State\<close>

datatype log_level = Trace | Debug | Info | Warn | Error | Critical

datatype log_format = Simple | Detailed | Json_format | Apache

text \<open>An argument: a string, an integer, a boolean, or a duration in microseconds shown in milliseconds.\<close>

datatype log_arg = Arg_str string | Arg_int int | Arg_bool bool | Arg_ms int

record log_state =
  lg_counter :: nat
  lg_wall_ms :: int
  lg_apache_time :: string
  lg_calls :: "(log_level \<times> string \<times> log_arg list) list"

datatype log_sink = Console_sink log_level | File_sink string log_level

text \<open>The logger object: its sinks and level at the time it was made, none when there was no sink.\<close>

record logger =
  lo_name :: string
  lo_level :: log_level
  lo_format :: log_format
  lo_file :: string
  lo_console :: bool
  lo_logger :: "(log_sink list \<times> log_level) option"

text \<open>
  \<open>file_ok\<close> says whether the file sink can be opened, \<open>name_free\<close> whether spdlog's registry
  has no logger of that name: \<open>register_logger\<close> throws otherwise, after \<open>logger_\<close> was set.
\<close>

definition setup_logger :: "bool \<Rightarrow> bool \<Rightarrow> logger \<Rightarrow> cpp_exn option \<times> logger" where
  "setup_logger file_ok name_free l =
     (let sinks = (if lo_console l then [Console_sink (lo_level l)] else []) @
                  (if lo_file l \<noteq> [] \<and> file_ok then [File_sink (lo_file l) (lo_level l)] else [])
      in if sinks = [] then (None, l)
         else (if name_free then None else Some (Runtime_error (''logger with name '' @ lo_name l @ '' already exists'')),
               l\<lparr>lo_logger := Some (sinks, lo_level l)\<rparr>))"

definition new_logger ::
  "bool \<Rightarrow> bool \<Rightarrow> string \<Rightarrow> log_level \<Rightarrow> log_format \<Rightarrow> string \<Rightarrow> bool \<Rightarrow> cpp_exn option \<times> logger" where
  "new_logger file_ok name_free name level fmt file console =
     setup_logger file_ok name_free
       \<lparr>lo_name = name, lo_level = level, lo_format = fmt, lo_file = file, lo_console = console, lo_logger = None\<rparr>"

definition set_log_level :: "log_level \<Rightarrow> logger \<Rightarrow> logger" where
  "set_log_level lv l = l\<lparr>lo_level := lv\<rparr>"

definition set_log_format :: "log_format \<Rightarrow> logger \<Rightarrow> logger" where
  "set_log_format f l = l\<lparr>lo_format := f\<rparr>"

definition set_log_file :: "bool \<Rightarrow> bool \<Rightarrow> string \<Rightarrow> logger \<Rightarrow> cpp_exn option \<times> logger" where
  "set_log_file file_ok name_free file l = setup_logger file_ok name_free (l\<lparr>lo_file := file\<rparr>)"

definition set_console_enabled :: "bool \<Rightarrow> bool \<Rightarrow> bool \<Rightarrow> logger \<Rightarrow> cpp_exn option \<times> logger" where
  "set_console_enabled file_ok name_free b l = setup_logger file_ok name_free (l\<lparr>lo_console := b\<rparr>)"

section \<open>Lines\<close>

definition generate_request_id :: "log_state \<Rightarrow> string \<times> log_state" where
  "generate_request_id s =
     (let n = lg_counter s + 1
      in (to_string_int (lg_wall_ms s) @ ''-'' @ to_string n, s\<lparr>lg_counter := n\<rparr>))"

definition log_call :: "logger \<Rightarrow> log_level \<Rightarrow> string \<Rightarrow> log_arg list \<Rightarrow> log_state \<Rightarrow> log_state" where
  "log_call l lv f args s = (if lo_logger l = None then s else s\<lparr>lg_calls := lg_calls s @ [(lv, f, args)]\<rparr>)"

definition client_ip :: "request_context \<Rightarrow> string \<Rightarrow> string" where
  "client_ip ctx def = ctx_header ctx ''X-Forwarded-For'' (ctx_header ctx ''X-Real-IP'' def)"

text \<open>JSON and Apache format strings, with a single quote standing for their double quotes.\<close>

definition dq :: "string \<Rightarrow> string" where
  "dq s = map (\<lambda>c. if c = CHR 0x27 then CHR 0x22 else c) s"

definition log_request_start :: "logger \<Rightarrow> request_context \<Rightarrow> string \<Rightarrow> log_state \<Rightarrow> log_state" where
  "log_request_start l ctx rid s =
     (case lo_format l of
        Simple \<Rightarrow> log_call l Info ''{} {} {} [{}]''
          [Arg_str (ctx_method_string ctx), Arg_str (ctx_path ctx),
           Arg_str (ctx_header ctx ''User-Agent'' ''unknown''), Arg_str rid] s
      | Detailed \<Rightarrow> log_call l Info ''Request started - ID: {}, Method: {}, Path: {}, IP: {}, User-Agent: {}''
          [Arg_str rid, Arg_str (ctx_method_string ctx), Arg_str (ctx_path ctx),
           Arg_str (client_ip ctx ''unknown''), Arg_str (ctx_header ctx ''User-Agent'' ''unknown'')] s
      | Json_format \<Rightarrow> log_call l Info
          (dq (''{{'' @ [CHR 0x27] @ ''event'' @ [CHR 0x27] @ '':'' @ [CHR 0x27] @ ''request_start'' @ [CHR 0x27] @
               concat (map (\<lambda>k. '','' @ [CHR 0x27] @ k @ [CHR 0x27] @ '':'' @ [CHR 0x27] @ ''{}'' @ [CHR 0x27])
                 [''id'', ''method'', ''path'', ''ip'', ''user_agent'', ''timestamp'']) @ ''}}''))
          [Arg_str rid, Arg_str (ctx_method_string ctx), Arg_str (ctx_path ctx), Arg_str (client_ip ctx ''unknown''),
           Arg_str (ctx_header ctx ''User-Agent'' ''unknown''), Arg_int (lg_wall_ms s)] s
      | Apache \<Rightarrow> log_call l Info
          (dq (''{} - - [{}] '' @ [CHR 0x27] @ ''{} {} HTTP/1.1'' @ [CHR 0x27] @ '' - - '' @ [CHR 0x27] @ ''{}'' @
               [CHR 0x27] @ '' '' @ [CHR 0x27] @ ''{}'' @ [CHR 0x27]))
          [Arg_str (client_ip ctx ''-''), Arg_str (lg_apache_time s), Arg_str (ctx_method_string ctx),
           Arg_str (ctx_path ctx), Arg_str (ctx_header ctx ''Referer'' ''-''),
           Arg_str (ctx_header ctx ''User-Agent'' ''-'')] s)"

definition log_request_complete ::
  "logger \<Rightarrow> request_context \<Rightarrow> http_response \<Rightarrow> string \<Rightarrow> int \<Rightarrow> bool \<Rightarrow> log_state \<Rightarrow> log_state" where
  "log_request_complete l ctx res rid dur is_async s =
     (let status = Arg_int (int (rs_status res)); size = Arg_int (int (length (rs_body res)))
      in case lo_format l of
        Simple \<Rightarrow> log_call l Info ''{} {} {} {} {}ms [{}]''
          [Arg_str (ctx_method_string ctx), Arg_str (ctx_path ctx), status, size, Arg_ms dur, Arg_str rid] s
      | Detailed \<Rightarrow> log_call l Info
          ''Request completed - ID: {}, Method: {}, Path: {}, Status: {}, Size: {} bytes, Duration: {:.2f}ms, Async: {}''
          [Arg_str rid, Arg_str (ctx_method_string ctx), Arg_str (ctx_path ctx), status, size, Arg_ms dur, Arg_bool is_async] s
      | Json_format \<Rightarrow> log_call l Info
          (dq (''{{'' @ [CHR 0x27] @ ''event'' @ [CHR 0x27] @ '':'' @ [CHR 0x27] @ ''request_complete'' @ [CHR 0x27] @
               concat (map (\<lambda>k. '','' @ [CHR 0x27] @ k @ [CHR 0x27] @ '':'' @ [CHR 0x27] @ ''{}'' @ [CHR 0x27])
                 [''id'', ''method'', ''path'']) @
               concat (map (\<lambda>(k, v). '','' @ [CHR 0x27] @ k @ [CHR 0x27] @ '':'' @ v)
                 [(''status'', ''{}''), (''size'', ''{}''), (''duration_ms'', ''{:.2f}''), (''async'', ''{}'')]) @
               '','' @ [CHR 0x27] @ ''timestamp'' @ [CHR 0x27] @ '':'' @ [CHR 0x27] @ ''{}'' @ [CHR 0x27] @ ''}}''))
          [Arg_str rid, Arg_str (ctx_method_string ctx), Arg_str (ctx_path ctx), status, size, Arg_ms dur,
           Arg_bool is_async, Arg_int (lg_wall_ms s)] s
      | Apache \<Rightarrow> log_call l Info
          (dq (''{} - - [{}] '' @ [CHR 0x27] @ ''{} {} HTTP/1.1'' @ [CHR 0x27] @ '' {} {} '' @ [CHR 0x27] @ ''{}'' @
               [CHR 0x27] @ '' '' @ [CHR 0x27] @ ''{}'' @ [CHR 0x27]))
          [Arg_str (client_ip ctx ''-''), Arg_str (lg_apache_time s), Arg_str (ctx_method_string ctx),
           Arg_str (ctx_path ctx), status, size, Arg_str (ctx_header ctx ''Referer'' ''-''),
           Arg_str (ctx_header ctx ''User-Agent'' ''-'')] s)"

definition log_request_error ::
  "logger \<Rightarrow> request_context \<Rightarrow> http_response \<Rightarrow> string \<Rightarrow> int \<Rightarrow> string \<Rightarrow> log_state \<Rightarrow> log_state" where
  "log_request_error l ctx res rid dur err s =
     (let status = Arg_int (int (rs_status res)); size = Arg_int (int (length (rs_body res)))
      in case lo_format l of
        Simple \<Rightarrow> log_call l Error ''{} {} {} ERROR: {} [{}]''
          [Arg_str (ctx_method_string ctx), Arg_str (ctx_path ctx), status, Arg_str err, Arg_str rid] s
      | Detailed \<Rightarrow> log_call l Error
          ''Request error - ID: {}, Method: {}, Path: {}, Status: {}, Error: {}, Duration: {:.2f}ms''
          [Arg_str rid, Arg_str (ctx_method_string ctx), Arg_str (ctx_path ctx), status, Arg_str err, Arg_ms dur] s
      | Json_format \<Rightarrow> log_call l Error
          (dq (''{{'' @ [CHR 0x27] @ ''event'' @ [CHR 0x27] @ '':'' @ [CHR 0x27] @ ''request_error'' @ [CHR 0x27] @
               concat (map (\<lambda>(k, v). '','' @ [CHR 0x27] @ k @ [CHR 0x27] @ '':'' @ v)
                 [(''id'', [CHR 0x27] @ ''{}'' @ [CHR 0x27]), (''method'', [CHR 0x27] @ ''{}'' @ [CHR 0x27]),
                  (''path'', [CHR 0x27] @ ''{}'' @ [CHR 0x27]), (''status'', ''{}''),
                  (''error'', [CHR 0x27] @ ''{}'' @ [CHR 0x27]), (''duration_ms'', ''{:.2f}''),
                  (''timestamp'', [CHR 0x27] @ ''{}'' @ [CHR 0x27])]) @ ''}}''))
          [Arg_str rid, Arg_str (ctx_method_string ctx), Arg_str (ctx_path ctx), status, Arg_str err, Arg_ms dur,
           Arg_int (lg_wall_ms s)] s
      | Apache \<Rightarrow> log_call l Error
          (dq (''{} - - [{}] '' @ [CHR 0x27] @ ''{} {} HTTP/1.1'' @ [CHR 0x27] @ '' {} {} '' @ [CHR 0x27] @ ''{}'' @
               [CHR 0x27] @ '' '' @ [CHR 0x27] @ ''{}'' @ [CHR 0x27] @ '' ERROR: {}''))
          [Arg_str (client_ip ctx ''-''), Arg_str (lg_apache_time s), Arg_str (ctx_method_string ctx),
           Arg_str (ctx_path ctx), status, size, Arg_str (ctx_header ctx ''Referer'' ''-''),
           Arg_str (ctx_header ctx ''User-Agent'' ''-''), Arg_str err] s)"

definition log_request_timeout :: "logger \<Rightarrow> request_context \<Rightarrow> string \<Rightarrow> int \<Rightarrow> log_state \<Rightarrow> log_state" where
  "log_request_timeout l ctx rid dur =
     log_call l Warn ''Request timeout - ID: {}, Method: {}, Path: {}, Duration: {:.2f}ms''
       [Arg_str rid, Arg_str (ctx_method_string ctx), Arg_str (ctx_path ctx), Arg_ms dur]"

definition log_request_stopped :: "logger \<Rightarrow> request_context \<Rightarrow> string \<Rightarrow> int \<Rightarrow> log_state \<Rightarrow> log_state" where
  "log_request_stopped l ctx rid dur =
     log_call l Info ''Request stopped - ID: {}, Method: {}, Path: {}, Duration: {:.2f}ms''
       [Arg_str rid, Arg_str (ctx_method_string ctx), Arg_str (ctx_path ctx), Arg_ms dur]"

section \<open>The operators\<close>

definition logger_begin :: "logger \<Rightarrow> log_state world \<Rightarrow> string \<times> log_state world" where
  "logger_begin l w =
     (let (rid, s) = generate_request_id (w_ext w);
          ctx = ctx_set ''logger_start_time'' (Any_time (w_now w)) (ctx_set ''request_id'' (Any_string rid) (w_ctx w))
      in (rid, w\<lparr>w_ctx := ctx, w_ext := log_request_start l ctx rid s\<rparr>))"

text \<open>
  The handler of exceptions around \<open>next()\<close> has nothing to catch: the chain handles every
  \<open>std::exception\<close> of a later middleware itself.
\<close>

definition logger_sync :: "logger \<Rightarrow> log_state world \<Rightarrow> log_state mw_prog" where
  "logger_sync l w =
     (let start = w_now w; (rid, w) = logger_begin l w
      in Call_next w (\<lambda>w. Done (w\<lparr>w_ext := log_request_complete l (w_ctx w) (w_res w) rid (w_now w - start) False (w_ext w)\<rparr>)))"

text \<open>The wrapped callback; the operator itself calls it with \<open>Continue\<close> only.\<close>

definition logger_callback ::
  "logger \<Rightarrow> string \<Rightarrow> int \<Rightarrow> mw_result \<Rightarrow> string \<Rightarrow> log_state world \<Rightarrow> log_state world" where
  "logger_callback l rid start result msg w =
     (let dur = w_now w - start
      in w\<lparr>w_ext :=
             (case result of
                R_Continue \<Rightarrow> log_request_complete l (w_ctx w) (w_res w) rid dur True (w_ext w)
              | R_Error \<Rightarrow> log_request_error l (w_ctx w) (w_res w) rid dur msg (w_ext w)
              | R_Timeout \<Rightarrow> log_request_timeout l (w_ctx w) rid dur (w_ext w)
              | R_Stop \<Rightarrow> log_request_stopped l (w_ctx w) rid dur (w_ext w))\<rparr>)"

definition logger_async :: "logger \<Rightarrow> log_state world \<Rightarrow> log_state async_prog" where
  "logger_async l w =
     (let start = w_now w; (rid, w) = logger_begin l w
      in A_Next w (\<lambda>w. A_Callback R_Continue [] (logger_callback l rid start R_Continue [] w) A_Done))"

definition logger_middleware :: "nat \<Rightarrow> logger \<Rightarrow> log_state middleware" where
  "logger_middleware i l = (base_middleware i (logger_sync l))
     \<lparr>mw_name := lo_name l, mw_priority := High, mw_async := logger_async l\<rparr>"

section \<open>Lemmas\<close>

lemma log_call_counter [simp]: "lg_counter (log_call l lv f args s) = lg_counter s"
  by (simp add: log_call_def)

text \<open>One line more has been logged.\<close>

definition one_line_more :: "log_state \<Rightarrow> log_state \<Rightarrow> bool" where
  "one_line_more s s' = (length (lg_calls s') = length (lg_calls s) + 1 \<and> prefix (lg_calls s) (lg_calls s'))"

lemma log_call_calls: "lo_logger l \<noteq> None \<Longrightarrow> one_line_more s (log_call l lv f args s)"
  by (simp add: log_call_def one_line_more_def)

lemma start_logs_once: "lo_logger l \<noteq> None \<Longrightarrow> one_line_more s (log_request_start l ctx rid s)"
  by (cases "lo_format l") (simp_all only: log_request_start_def log_call_calls log_format.case not_False_eq_True)

lemma complete_logs_once: "lo_logger l \<noteq> None \<Longrightarrow> one_line_more s (log_request_complete l ctx res rid d b s)"
  by (cases "lo_format l") (simp_all only: log_request_complete_def Let_def log_call_calls log_format.case not_False_eq_True)

lemma start_counter [simp]: "lg_counter (log_request_start l ctx rid s) = lg_counter s"
  by (simp add: log_request_start_def split: log_format.splits)

text \<open>
  A request logs one line before the rest of the pipeline and one after it, its number is
  the next of the counter, and the rest of the pipeline finds its id in the context.
\<close>

lemma logger_brackets_request:
  assumes "lo_logger l \<noteq> None"
  shows "\<exists>w1 k. logger_sync l w = Call_next w1 k \<and> one_line_more (w_ext w) (w_ext w1) \<and>
    lg_counter (w_ext w1) = lg_counter (w_ext w) + 1 \<and>
    (\<forall>w2. \<exists>w3. k w2 = Done w3 \<and> one_line_more (w_ext w2) (w_ext w3) \<and> w_res w3 = w_res w2)"
proof -
  obtain rid w1 where b: "logger_begin l w = (rid, w1)" by fastforce
  let ?s = "(w_ext w)\<lparr>lg_counter := lg_counter (w_ext w) + 1\<rparr>"
  from b have w1: "w_ext w1 = log_request_start l (w_ctx w1) rid ?s"
    by (auto simp: logger_begin_def generate_request_id_def Let_def)
  from start_logs_once [OF assms] have "one_line_more ?s (w_ext w1)" unfolding w1 .
  then have "one_line_more (w_ext w) (w_ext w1)" by (simp add: one_line_more_def)
  moreover have "lg_counter (w_ext w1) = lg_counter (w_ext w) + 1" unfolding w1 by simp
  ultimately show ?thesis using complete_logs_once [OF assms]
    by (simp add: logger_sync_def b Let_def)
qed

text \<open>Setting the level does not reach the logger that exists.\<close>

lemma set_log_level_no_effect: "lo_logger (set_log_level lv l) = lo_logger l"
  by (simp add: set_log_level_def)

text \<open>Changing the file or the console registers the same name again, which throws.\<close>

lemma reconfigure_throws:
  assumes "lo_console l"
  shows "fst (set_log_file file_ok False file l) \<noteq> None"
  using assms by (simp add: set_log_file_def setup_logger_def Let_def)

end
