(* ===== verification/Timer_Manager.thy ===== *)
theory Timer_Manager
  imports Configs
begin

text \<open>
  src/server/timer_manager.cpp: tasks in buckets, one timer per bucket. Time points are
  nanoseconds of the monotonic clock, intervals milliseconds. A bucket's mutex is part of
  its state, since the code locks it again while holding it; a call that waits for a mutex
  its own thread holds never returns. Callbacks are numbers: what one does is a parameter,
  and none of them calls the manager.
\<close>

section \<open>Tasks and statistics\<close>

datatype timer_priority = T_Low | T_Normal | T_High | T_Critical

fun timer_priority_value :: "timer_priority \<Rightarrow> nat" where
  "timer_priority_value T_Low = 0"
| "timer_priority_value T_Normal = 1"
| "timer_priority_value T_High = 2"
| "timer_priority_value T_Critical = 3"

fun get_priority_name :: "timer_priority \<Rightarrow> string" where
  "get_priority_name T_Low = ''Low''"
| "get_priority_name T_Normal = ''Normal''"
| "get_priority_name T_High = ''High''"
| "get_priority_name T_Critical = ''Critical''"

record timer_task =
  tt_expiry :: int
  tt_callback :: "nat option"
  tt_interval :: int
  tt_repeating :: bool
  tt_priority :: timer_priority
  tt_id :: "64 word"
  tt_created :: int

definition task_greater :: "timer_task \<Rightarrow> timer_task \<Rightarrow> bool" where
  "task_greater a b =
     (if tt_priority a \<noteq> tt_priority b
      then timer_priority_value (tt_priority a) < timer_priority_value (tt_priority b)
      else tt_expiry b < tt_expiry a)"

definition is_expired :: "int \<Rightarrow> timer_task \<Rightarrow> bool" where
  "is_expired now t = (tt_expiry t \<le> now)"

definition next_execution_time :: "timer_task \<Rightarrow> int" where
  "next_execution_time t = tt_expiry t + tt_interval t * 1000000"

record timer_statistics =
  ts_scheduled :: nat
  ts_executed :: nat
  ts_cancelled :: nat
  ts_failed :: nat
  ts_pending :: nat
  ts_time :: int

definition zero_timer_statistics :: timer_statistics where
  "zero_timer_statistics = \<lparr>ts_scheduled = 0, ts_executed = 0, ts_cancelled = 0, ts_failed = 0, ts_pending = 0, ts_time = 0\<rparr>"

definition average_execution_time :: "timer_statistics \<Rightarrow> int" where
  "average_execution_time s = (if ts_executed s = 0 then 0 else ts_time s div int (ts_executed s))"

text \<open>The unit of a printed duration; the sign for micro is two bytes of UTF-8.\<close>

definition format_duration :: "int \<Rightarrow> string" where
  "format_duration us =
     (if us < 1000 then to_string_int us @ [char_of (206 :: nat), char_of (188 :: nat)] @ ''s''
      else if us < 1000000 then to_string_int (us div 1000) @ ''ms''
      else to_string_int (us div 1000000) @ ''s'')"

section \<open>TimerBucket\<close>

datatype 'a outcome = Returned 'a | Thrown cpp_exn | Deadlock | Undefined

fun then_do :: "'a outcome \<Rightarrow> ('a \<Rightarrow> 'b outcome) \<Rightarrow> 'b outcome" where
  "then_do (Returned x) f = f x"
| "then_do (Thrown e) f = Thrown e"
| "then_do Deadlock f = Deadlock"
| "then_do Undefined f = Undefined"

text \<open>
  \<open>bk_armed\<close> is the expiry of the pending wait; \<open>bk_ran\<close> records the tasks executed. The
  order of \<open>bk_pending\<close> is the iteration order of the hash table.
\<close>

record timer_bucket =
  bk_id :: nat
  bk_timer :: bool
  bk_armed :: "int option"
  bk_pending :: "(64 word \<times> timer_task) list"
  bk_next_expiry :: int
  bk_locked :: bool
  bk_running :: bool
  bk_stats :: timer_statistics
  bk_ran :: "timer_task list"

definition time_point_max :: int where
  "time_point_max = 2 ^ 63 - 1"

definition new_bucket :: "nat \<Rightarrow> timer_bucket" where
  "new_bucket i = \<lparr>bk_id = i, bk_timer = False, bk_armed = None, bk_pending = [], bk_next_expiry = time_point_max,
     bk_locked = False, bk_running = False, bk_stats = zero_timer_statistics, bk_ran = []\<rparr>"

definition lock_bucket :: "timer_bucket \<Rightarrow> timer_bucket outcome" where
  "lock_bucket b = (if bk_locked b then Deadlock else Returned (b\<lparr>bk_locked := True\<rparr>))"

definition unlock_bucket :: "timer_bucket \<Rightarrow> timer_bucket" where
  "unlock_bucket b = b\<lparr>bk_locked := False\<rparr>"

text \<open>\<open>emplace\<close> keeps an element that is there.\<close>

definition emplace :: "64 word \<Rightarrow> timer_task \<Rightarrow> timer_bucket \<Rightarrow> timer_bucket" where
  "emplace i t b = (if map_of (bk_pending b) i \<noteq> None then b else b\<lparr>bk_pending := bk_pending b @ [(i, t)]\<rparr>)"

definition earliest :: "(64 word \<times> timer_task) list \<Rightarrow> int" where
  "earliest ts = foldl (\<lambda>m (i, t). if tt_expiry t < m then tt_expiry t else m) time_point_max ts"

definition get_next_expiry :: "timer_bucket \<Rightarrow> int option outcome" where
  "get_next_expiry b =
     then_do (lock_bucket b)
       (\<lambda>b. Returned (if bk_pending b = [] then None else Some (earliest (bk_pending b))))"

definition get_pending_count :: "timer_bucket \<Rightarrow> nat outcome" where
  "get_pending_count b = then_do (lock_bucket b) (\<lambda>b. Returned (length (bk_pending b)))"

text \<open>What a callback does: it returns, throws a standard exception, or throws something else.\<close>

datatype callback_end = Cb_returns | Cb_std_exception | Cb_other_exception

record callbacks =
  cb_end :: "nat \<Rightarrow> callback_end"
  cb_time :: "nat \<Rightarrow> int"

definition task_end :: "callbacks \<Rightarrow> timer_task \<Rightarrow> callback_end" where
  "task_end cbs t = (case tt_callback t of None \<Rightarrow> Cb_returns | Some c \<Rightarrow> cb_end cbs c)"

definition task_time :: "callbacks \<Rightarrow> timer_task \<Rightarrow> int" where
  "task_time cbs t = (case tt_callback t of None \<Rightarrow> 0 | Some c \<Rightarrow> cb_time cbs c)"

text \<open>The body of the loop over the expired tasks.\<close>

definition run_task :: "callbacks \<Rightarrow> timer_task \<Rightarrow> timer_bucket \<Rightarrow> timer_bucket outcome" where
  "run_task cbs t b =
     (let b = b\<lparr>bk_ran := bk_ran b @ [t]\<rparr>
      in if task_end cbs t = Cb_other_exception then Thrown Unknown_exn
         else
           let s = bk_stats b;
               b = b\<lparr>bk_stats := s\<lparr>ts_executed := ts_executed s + 1, ts_time := ts_time s + task_time cbs t\<rparr>\<rparr>
           in if tt_repeating t
              then then_do (lock_bucket b)
                     (\<lambda>b. Returned (unlock_bucket (emplace (tt_id t) (t\<lparr>tt_expiry := next_execution_time t\<rparr>) b)))
              else Returned b)"

fun run_tasks :: "callbacks \<Rightarrow> timer_task list \<Rightarrow> timer_bucket \<Rightarrow> timer_bucket outcome" where
  "run_tasks cbs [] b = Returned b"
| "run_tasks cbs (t # ts) b = then_do (run_task cbs t b) (run_tasks cbs ts)"

text \<open>\<open>std::sort\<close> is not stable: any sort by the comparison given may be used.\<close>

type_synonym task_sort = "(timer_task \<Rightarrow> timer_task \<Rightarrow> bool) \<Rightarrow> timer_task list \<Rightarrow> timer_task list"

definition higher_priority :: "timer_task \<Rightarrow> timer_task \<Rightarrow> bool" where
  "higher_priority a b = (timer_priority_value (tt_priority b) < timer_priority_value (tt_priority a))"

definition process_expired_tasks :: "task_sort \<Rightarrow> callbacks \<Rightarrow> int \<Rightarrow> timer_bucket \<Rightarrow> timer_bucket outcome" where
  "process_expired_tasks srt cbs now b =
     then_do (lock_bucket b) (\<lambda>b.
       let expired = map snd (filter (\<lambda>(i, t). is_expired now t) (bk_pending b));
           b = b\<lparr>bk_pending := filter (\<lambda>(i, t). \<not> is_expired now t) (bk_pending b)\<rparr>
       in run_tasks cbs (srt higher_priority expired) (unlock_bucket b))"

definition start_timer :: "task_sort \<Rightarrow> callbacks \<Rightarrow> int \<Rightarrow> timer_bucket \<Rightarrow> timer_bucket outcome" where
  "start_timer srt cbs now b =
     then_do (get_next_expiry b) (\<lambda>e.
       case e of
         None \<Rightarrow> Returned b
       | Some t \<Rightarrow> if t \<le> now then process_expired_tasks srt cbs now b else Returned (b\<lparr>bk_armed := Some t\<rparr>))"

definition timer_fired :: "task_sort \<Rightarrow> callbacks \<Rightarrow> int \<Rightarrow> timer_bucket \<Rightarrow> timer_bucket outcome" where
  "timer_fired srt cbs now b =
     (let b = b\<lparr>bk_armed := None\<rparr>
      in if bk_running b then then_do (process_expired_tasks srt cbs now b) (start_timer srt cbs now) else Returned b)"

definition reschedule_timer :: "task_sort \<Rightarrow> callbacks \<Rightarrow> int \<Rightarrow> timer_bucket \<Rightarrow> timer_bucket outcome" where
  "reschedule_timer srt cbs now b = start_timer srt cbs now (if bk_timer b then b\<lparr>bk_armed := None\<rparr> else b)"

definition start_bucket :: "task_sort \<Rightarrow> callbacks \<Rightarrow> int \<Rightarrow> timer_bucket \<Rightarrow> timer_bucket outcome" where
  "start_bucket srt cbs now b =
     (if bk_running b then Returned b
      else start_timer srt cbs now (b\<lparr>bk_running := True, bk_timer := True, bk_armed := None\<rparr>))"

definition stop_bucket :: "timer_bucket \<Rightarrow> timer_bucket outcome" where
  "stop_bucket b =
     (if \<not> bk_running b then Returned b
      else then_do (lock_bucket (b\<lparr>bk_running := False, bk_armed := None\<rparr>))
             (\<lambda>b. Returned (unlock_bucket (b\<lparr>bk_pending := []\<rparr>))))"

definition add_task :: "task_sort \<Rightarrow> callbacks \<Rightarrow> int \<Rightarrow> timer_task \<Rightarrow> timer_bucket \<Rightarrow> (bool \<times> timer_bucket) outcome" where
  "add_task srt cbs now t b =
     then_do (lock_bucket b) (\<lambda>b.
       if \<not> bk_running b then Returned (False, unlock_bucket b)
       else let b = emplace (tt_id t) t b
            in if tt_expiry t < bk_next_expiry b
               then then_do (reschedule_timer srt cbs now b) (\<lambda>b. Returned (True, unlock_bucket b))
               else Returned (True, unlock_bucket b))"

definition cancel_task :: "64 word \<Rightarrow> timer_bucket \<Rightarrow> (bool \<times> timer_bucket) outcome" where
  "cancel_task i b =
     then_do (lock_bucket b) (\<lambda>b.
       Returned (map_of (bk_pending b) i \<noteq> None, unlock_bucket (b\<lparr>bk_pending := erase_key i (bk_pending b)\<rparr>)))"

section \<open>TimerManager\<close>

record timer_manager =
  tm_config :: timer_manager_config
  tm_buckets :: "timer_bucket list"
  tm_next_id :: "64 word"
  tm_running :: bool
  tm_cleanup_timer :: "int option"
  tm_statistics_timer :: "int option"
  tm_stats :: timer_statistics

definition new_timer_manager :: "timer_manager_config \<Rightarrow> timer_manager" where
  "new_timer_manager cfg =
     \<lparr>tm_config = cfg, tm_buckets = map new_bucket [0..<tc_bucket_count cfg], tm_next_id = 0, tm_running = False,
      tm_cleanup_timer = None, tm_statistics_timer = None, tm_stats = zero_timer_statistics\<rparr>"

fun for_buckets :: "(timer_bucket \<Rightarrow> timer_bucket outcome) \<Rightarrow> timer_bucket list \<Rightarrow> timer_bucket list outcome" where
  "for_buckets f [] = Returned []"
| "for_buckets f (b # bs) = then_do (f b) (\<lambda>b. then_do (for_buckets f bs) (\<lambda>bs. Returned (b # bs)))"

definition start_cleanup_timer :: "timer_manager \<Rightarrow> timer_manager" where
  "start_cleanup_timer m = m\<lparr>tm_cleanup_timer := Some (tc_cleanup_interval (tm_config m))\<rparr>"

definition start_statistics_timer :: "timer_manager \<Rightarrow> timer_manager" where
  "start_statistics_timer m = m\<lparr>tm_statistics_timer := Some (tc_statistics_report_interval (tm_config m))\<rparr>"

definition start_timers :: "task_sort \<Rightarrow> callbacks \<Rightarrow> int \<Rightarrow> timer_manager \<Rightarrow> timer_manager outcome" where
  "start_timers srt cbs now m =
     (if tm_running m then Returned m
      else then_do (for_buckets (start_bucket srt cbs now) (tm_buckets m)) (\<lambda>bs.
             let m = m\<lparr>tm_running := True, tm_buckets := bs\<rparr>;
                 m = (if tc_enable_cleanup (tm_config m) then start_cleanup_timer m else m)
             in Returned (if tc_enable_statistics (tm_config m) then start_statistics_timer m else m)))"

definition stop_timers :: "timer_manager \<Rightarrow> timer_manager outcome" where
  "stop_timers m =
     (if \<not> tm_running m then Returned m
      else then_do (for_buckets stop_bucket (tm_buckets m)) (\<lambda>bs.
             Returned (m\<lparr>tm_running := False, tm_cleanup_timer := None, tm_statistics_timer := None, tm_buckets := bs\<rparr>)))"

text \<open>
  \<open>id % bucket_count\<close> uses the configuration of the moment: a count of 0 divides by zero, and
  an index beyond the buckets that exist is read out of range.
\<close>

definition schedule_impl ::
  "task_sort \<Rightarrow> callbacks \<Rightarrow> int \<Rightarrow> int \<Rightarrow> int \<Rightarrow> nat option \<Rightarrow> bool \<Rightarrow> timer_priority \<Rightarrow> timer_manager \<Rightarrow>
   (64 word \<times> timer_manager) outcome" where
  "schedule_impl srt cbs now when interval callback repeating prio m =
     (if \<not> tm_running m then Thrown (Runtime_error ''Timer manager is not running'')
      else
        let i = tm_next_id m + 1; m = m\<lparr>tm_next_id := i\<rparr>;
            t = \<lparr>tt_expiry = when, tt_callback = callback, tt_interval = interval, tt_repeating = repeating,
                 tt_priority = prio, tt_id = i, tt_created = now\<rparr>
        in if tc_bucket_count (tm_config m) = 0 then Undefined
           else let k = unat i mod tc_bucket_count (tm_config m)
           in if length (tm_buckets m) \<le> k then Undefined
              else then_do (add_task srt cbs now t (tm_buckets m ! k)) (\<lambda>(added, b).
                     let m = m\<lparr>tm_buckets := (tm_buckets m)[k := b]\<rparr>
                     in if added
                        then Returned (i, m\<lparr>tm_stats := (tm_stats m)\<lparr>ts_scheduled := ts_scheduled (tm_stats m) + 1\<rparr>\<rparr>)
                        else Thrown (Runtime_error ''Failed to schedule timer task'')))"

definition schedule_at ::
  "task_sort \<Rightarrow> callbacks \<Rightarrow> int \<Rightarrow> int \<Rightarrow> nat option \<Rightarrow> timer_priority \<Rightarrow> timer_manager \<Rightarrow>
   (64 word \<times> timer_manager) outcome" where
  "schedule_at srt cbs now when callback prio m = schedule_impl srt cbs now when 0 callback False prio m"

definition schedule_after ::
  "task_sort \<Rightarrow> callbacks \<Rightarrow> int \<Rightarrow> int \<Rightarrow> nat option \<Rightarrow> timer_priority \<Rightarrow> timer_manager \<Rightarrow>
   (64 word \<times> timer_manager) outcome" where
  "schedule_after srt cbs now delay callback prio m = schedule_at srt cbs now (now + delay * 1000000) callback prio m"

definition schedule_every ::
  "task_sort \<Rightarrow> callbacks \<Rightarrow> int \<Rightarrow> int \<Rightarrow> nat option \<Rightarrow> timer_priority \<Rightarrow> timer_manager \<Rightarrow>
   (64 word \<times> timer_manager) outcome" where
  "schedule_every srt cbs now interval callback prio m =
     schedule_impl srt cbs now (now + interval * 1000000) interval callback True prio m"

definition cancel_timer :: "64 word \<Rightarrow> timer_manager \<Rightarrow> (bool \<times> timer_manager) outcome" where
  "cancel_timer i m =
     (if tc_bucket_count (tm_config m) = 0 then Undefined
      else let k = unat i mod tc_bucket_count (tm_config m)
      in if length (tm_buckets m) \<le> k then Undefined
         else then_do (cancel_task i (tm_buckets m ! k)) (\<lambda>(erased, b).
                Returned (erased, m\<lparr>tm_buckets := (tm_buckets m)[k := b]\<rparr>)))"

text \<open>The loop over the buckets has an empty body.\<close>

definition get_timer_statistics :: "timer_manager \<Rightarrow> timer_statistics" where
  "get_timer_statistics m = zero_timer_statistics"

definition update_timer_config :: "timer_manager_config \<Rightarrow> timer_manager \<Rightarrow> timer_manager" where
  "update_timer_config cfg m = m\<lparr>tm_config := cfg\<rparr>"

definition perform_cleanup :: "timer_manager \<Rightarrow> timer_manager" where
  "perform_cleanup m = m"

text \<open>The lines of a report, as label and value.\<close>

definition timer_report :: "timer_manager \<Rightarrow> (string \<times> string) list" where
  "timer_report m =
     (let s = get_timer_statistics m
      in [(''Total Scheduled'', to_string (ts_scheduled s)), (''Total Executed'', to_string (ts_executed s)),
          (''Total Cancelled'', to_string (ts_cancelled s)), (''Total Failed'', to_string (ts_failed s)),
          (''Current Pending'', to_string (ts_pending s)),
          (''Average Execution Time'', format_duration (average_execution_time s))])"

section \<open>What processing does\<close>

definition requeued :: "timer_task \<Rightarrow> timer_task" where
  "requeued t = t\<lparr>tt_expiry := next_execution_time t\<rparr>"

text \<open>A bucket in order: nobody holds its mutex, and each task is filed under its own id.\<close>

definition timer_bucket_ok :: "timer_bucket \<Rightarrow> bool" where
  "timer_bucket_ok b \<longleftrightarrow> \<not> bk_locked b \<and> distinct (map fst (bk_pending b)) \<and> (\<forall>(i, t) \<in> set (bk_pending b). tt_id t = i)"

lemma map_of_snoc: "map_of (xs @ [(k, v)]) = (if map_of xs k = None then (map_of xs)(k \<mapsto> v) else map_of xs)"
  by (auto simp: map_add_def fun_eq_iff split: option.splits)

lemma run_task_returns:
  assumes "\<not> bk_locked b" "task_end cbs t \<noteq> Cb_other_exception" "map_of (bk_pending b) (tt_id t) = None"
  shows "\<exists>b'. run_task cbs t b = Returned b' \<and> \<not> bk_locked b' \<and> bk_ran b' = bk_ran b @ [t] \<and>
    ts_executed (bk_stats b') = ts_executed (bk_stats b) + 1 \<and>
    map_of (bk_pending b') = (if tt_repeating t then (map_of (bk_pending b))(tt_id t \<mapsto> requeued t) else map_of (bk_pending b))"
  using assms by (auto simp: run_task_def lock_bucket_def unlock_bucket_def emplace_def requeued_def map_of_snoc Let_def simp del: map_of_append)

lemma run_tasks_return:
  assumes "\<not> bk_locked b" "\<forall>t \<in> set ts. task_end cbs t \<noteq> Cb_other_exception" "distinct (map tt_id ts)"
    and "\<forall>t \<in> set ts. map_of (bk_pending b) (tt_id t) = None"
  shows "\<exists>b'. run_tasks cbs ts b = Returned b' \<and> \<not> bk_locked b' \<and> bk_ran b' = bk_ran b @ ts \<and>
    ts_executed (bk_stats b') = ts_executed (bk_stats b) + length ts \<and>
    map_of (bk_pending b') = map_of (bk_pending b) ++ map_of (map (\<lambda>t. (tt_id t, requeued t)) (filter tt_repeating ts))"
  using assms
proof (induction ts arbitrary: b)
  case (Cons t ts)
  then obtain b1 where b1: "run_task cbs t b = Returned b1" "\<not> bk_locked b1" "bk_ran b1 = bk_ran b @ [t]"
    "ts_executed (bk_stats b1) = ts_executed (bk_stats b) + 1"
    "map_of (bk_pending b1) = (if tt_repeating t then (map_of (bk_pending b))(tt_id t \<mapsto> requeued t) else map_of (bk_pending b))"
    using run_task_returns [of b cbs t] by auto
  have "\<forall>u \<in> set ts. map_of (bk_pending b1) (tt_id u) = None"
  proof
    fix u assume u: "u \<in> set ts"
    then have "tt_id u \<in> set (map tt_id ts)" by simp
    with Cons.prems(3) have "tt_id u \<noteq> tt_id t" by auto
    with u Cons.prems(4) b1(5) show "map_of (bk_pending b1) (tt_id u) = None" by simp
  qed
  with Cons.IH [of b1] Cons.prems(2,3) b1(2) obtain b' where b': "run_tasks cbs ts b1 = Returned b'" "\<not> bk_locked b'"
    "bk_ran b' = bk_ran b1 @ ts" "ts_executed (bk_stats b') = ts_executed (bk_stats b1) + length ts"
    "map_of (bk_pending b') = map_of (bk_pending b1) ++ map_of (map (\<lambda>t. (tt_id t, requeued t)) (filter tt_repeating ts))"
    by auto
  have "tt_id t \<notin> tt_id ` set ts" using Cons.prems(3) by simp
  then have new: "tt_id t \<notin> dom (map_of (map (\<lambda>t. (tt_id t, requeued t)) (filter tt_repeating ts)))"
    by (auto simp: dom_map_of_conv_image_fst)
  with b1 b' show ?case
    by (auto simp: map_add_upd_left)
qed simp

lemma map_of_filter_snd:
  "distinct (map fst xs) \<Longrightarrow> map_of (filter (\<lambda>(i, t). \<not> P t) xs) i =
     (case map_of xs i of None \<Rightarrow> None | Some t \<Rightarrow> if P t then None else Some t)"
proof (induction xs)
  case (Cons x xs)
  obtain k v where x: "x = (k, v)" by fastforce
  with Cons.prems have "map_of xs k = None" by (auto simp: map_of_eq_None_iff)
  with Cons x show ?case by (cases "i = k") simp_all
qed simp

lemma map_of_requeued:
  "distinct (map tt_id ts) \<Longrightarrow> t \<in> set ts \<Longrightarrow>
   map_of (map (\<lambda>t. (tt_id t, requeued t)) (filter tt_repeating ts)) (tt_id t) = (if tt_repeating t then Some (requeued t) else None)"
proof (induction ts)
  case (Cons u ts)
  have "map_of (map (\<lambda>t. (tt_id t, requeued t)) (filter tt_repeating ts)) (tt_id u) = None"
    using Cons.prems(1) by (force simp: map_of_eq_None_iff)
  moreover have "t = u \<or> t \<in> set ts \<and> tt_id t \<noteq> tt_id u"
    using Cons.prems by (metis (no_types, lifting) distinct.simps(2) image_eqI list.set_map list.simps(9) set_ConsD)
  ultimately show ?case using Cons by auto
qed simp

lemma strict_weak_higher: "strict_weak higher_priority"
  by (auto simp: strict_weak_def higher_priority_def)

lemma schedule_impl_running:
  "tm_running m \<Longrightarrow> tc_bucket_count (tm_config m) \<noteq> 0 \<Longrightarrow> k = unat (tm_next_id m + 1) mod tc_bucket_count (tm_config m) \<Longrightarrow>
   k < length (tm_buckets m) \<Longrightarrow>
   schedule_impl srt cbs now when interval callback repeating prio m =
     then_do (add_task srt cbs now \<lparr>tt_expiry = when, tt_callback = callback, tt_interval = interval, tt_repeating = repeating,
                 tt_priority = prio, tt_id = tm_next_id m + 1, tt_created = now\<rparr> (tm_buckets m ! k)) (\<lambda>(added, b).
       if added then Returned (tm_next_id m + 1, m\<lparr>tm_next_id := tm_next_id m + 1, tm_buckets := (tm_buckets m)[k := b],
                      tm_stats := (tm_stats m)\<lparr>ts_scheduled := ts_scheduled (tm_stats m) + 1\<rparr>\<rparr>)
       else Thrown (Runtime_error ''Failed to schedule timer task''))"
  by (simp add: schedule_impl_def Let_def cong: if_cong)

section \<open>Properties\<close>


definition sample_task :: "64 word \<Rightarrow> int \<Rightarrow> timer_priority \<Rightarrow> bool \<Rightarrow> timer_task" where
  "sample_task i e p rep = \<lparr>tt_expiry = e, tt_callback = Some (unat i), tt_interval = 1, tt_repeating = rep,
     tt_priority = p, tt_id = i, tt_created = 0\<rparr>"

definition quiet_callbacks :: callbacks where
  "quiet_callbacks = \<lparr>cb_end = (\<lambda>_. Cb_returns), cb_time = (\<lambda>_. 5)\<rparr>"


text \<open>
  C33: a manager that has not been started refuses tasks. A started one locks the mutex of the
  task's bucket twice on one thread, so that scheduling a task for any time but the last the
  clock can represent never returns; without buckets the index is undefined.
\<close>

theorem timer_scheduling:
  "let m = new_timer_manager cfg
   in schedule_at srt cbs t when callback prio m = Thrown (Runtime_error ''Timer manager is not running'') \<and>
      (\<exists>m'. start_timers srt cbs t0 m = Returned m' \<and>
        (if tc_bucket_count cfg = 0 then schedule_at srt cbs t when callback prio m' = Undefined
         else if when < time_point_max then schedule_at srt cbs t when callback prio m' = Deadlock
         else \<exists>m''. schedule_at srt cbs t when callback prio m' = Returned (1, m'')))"
proof -
  let ?up = "\<lambda>b. b\<lparr>bk_running := True, bk_timer := True, bk_armed := None\<rparr>"
  have start: "start_bucket srt cbs t0 (new_bucket i) = Returned (?up (new_bucket i))" for i
    by (simp add: start_bucket_def new_bucket_def start_timer_def get_next_expiry_def lock_bucket_def)
  have "for_buckets (start_bucket srt cbs t0) (map new_bucket is) = Returned (map (\<lambda>i. ?up (new_bucket i)) is)" for "is"
    by (induction "is") (simp_all add: start)
  then obtain m' where m': "start_timers srt cbs t0 (new_timer_manager cfg) = Returned m'" "tm_config m' = cfg"
    "tm_buckets m' = map (\<lambda>i. ?up (new_bucket i)) [0..<tc_bucket_count cfg]" "tm_next_id m' = 0" "tm_running m'"
    by (simp add: start_timers_def new_timer_manager_def start_cleanup_timer_def start_statistics_timer_def Let_def)
  have add: "add_task srt cbs t u (?up (new_bucket i)) = Deadlock" if "tt_expiry u < time_point_max" for u i
    using that by (simp add: add_task_def lock_bucket_def new_bucket_def emplace_def reschedule_timer_def
        start_timer_def get_next_expiry_def)
  have late: "\<exists>b. add_task srt cbs t u (?up (new_bucket i)) = Returned (True, b)" if "\<not> tt_expiry u < time_point_max" for u i
    using that by (simp add: add_task_def lock_bucket_def new_bucket_def emplace_def)
  have idle: "schedule_at srt cbs t when callback prio (new_timer_manager cfg) =
      Thrown (Runtime_error ''Timer manager is not running'')"
    by (simp add: schedule_at_def schedule_impl_def new_timer_manager_def)
  let ?k = "unat (1 :: 64 word) mod tc_bucket_count cfg"
  let ?u = "\<lparr>tt_expiry = when, tt_callback = callback, tt_interval = 0, tt_repeating = False,
     tt_priority = prio, tt_id = 1, tt_created = t\<rparr>"
  have at: "tm_buckets m' ! ?k = ?up (new_bucket ?k)" "?k < length (tm_buckets m')" if "tc_bucket_count cfg \<noteq> 0"
    using that by (simp_all add: m'(3))
  have sched: "schedule_at srt cbs t when callback prio m' =
      (if tc_bucket_count cfg = 0 then Undefined
       else then_do (add_task srt cbs t ?u (?up (new_bucket ?k))) (\<lambda>(added, b).
              if added then Returned (1, m'\<lparr>tm_next_id := 1, tm_buckets := (tm_buckets m')[?k := b],
                             tm_stats := (tm_stats m')\<lparr>ts_scheduled := ts_scheduled (tm_stats m') + 1\<rparr>\<rparr>)
              else Thrown (Runtime_error ''Failed to schedule timer task'')))"
    unfolding schedule_at_def
    using at m'(2,4,5) schedule_impl_running [of m' ?k srt cbs t "when" 0 callback False prio]
    by (auto simp: schedule_impl_def [of _ _ _ _ _ _ _ _ m'] simp del: unat_1 One_nat_def cong: if_cong)
  have "if tc_bucket_count cfg = 0 then schedule_at srt cbs t when callback prio m' = Undefined
         else if when < time_point_max then schedule_at srt cbs t when callback prio m' = Deadlock
         else \<exists>m''. schedule_at srt cbs t when callback prio m' = Returned (1, m'')"
    using add [of ?u ?k] late [of ?u ?k] by (auto simp: sched)
  with m'(1) idle show ?thesis by (simp add: Let_def)
qed

text \<open>The statistics reported are those of no work, and a changed bucket count is not followed by the buckets.\<close>

lemma timer_statistics_empty: "get_timer_statistics m = zero_timer_statistics"
  by (simp add: get_timer_statistics_def)

lemma timer_config_out_of_range:
  "cancel_timer 17 (update_timer_config (default_timer_manager_config\<lparr>tc_bucket_count := 32\<rparr>)
     (new_timer_manager default_timer_manager_config)) = Undefined"
  by (simp add: cancel_timer_def update_timer_config_def new_timer_manager_def default_timer_manager_config_def)

text \<open>
  A task that is due when the timer is started is run at once, and the timer is not armed
  for those that remain.
\<close>

lemma start_does_not_rearm:
  "\<exists>b'. start_bucket insertion_sort quiet_callbacks 10
      ((new_bucket 0)\<lparr>bk_pending := [(1, sample_task 1 5 T_Low False), (3, sample_task 3 20 T_Low False)]\<rparr>) = Returned b' \<and>
     bk_armed b' = None \<and> map fst (bk_pending b') = [3]"
  by (simp add: start_bucket_def new_bucket_def start_timer_def get_next_expiry_def lock_bucket_def earliest_def
      sample_task_def time_point_max_def process_expired_tasks_def is_expired_def run_task_def task_end_def
      quiet_callbacks_def unlock_bucket_def Let_def)

end
