(* ===== verification/Http_Client.thy ===== *)
theory Http_Client
  imports Http_Types Json_Value
begin

text \<open>
  src/client/http_client.cpp with detail/request_spec.hpp and client_options.hpp: parsing of
  URLs, the one-shot request builder, and the transfer of a request. Name resolution,
  connecting, the TLS handshake and reading and writing of messages are the network's:
  the transfer takes what they return as a parameter.
\<close>

section \<open>Options and specifications\<close>

record client_options =
  ko_connection_timeout :: int
  ko_request_timeout :: int
  ko_handshake_timeout :: int
  ko_max_response_size :: nat
  ko_follow_redirects :: bool
  ko_max_redirects :: nat
  ko_user_agent :: string

definition default_client_options :: client_options where
  "default_client_options = \<lparr>ko_connection_timeout = 30000, ko_request_timeout = 30000, ko_handshake_timeout = 30000,
     ko_max_response_size = 0, ko_follow_redirects = False, ko_max_redirects = 5, ko_user_agent = []\<rparr>"

definition set_connection_timeout :: "int \<Rightarrow> client_options \<Rightarrow> client_options" where
  "set_connection_timeout v opts = opts\<lparr>ko_connection_timeout := v\<rparr>"

definition set_request_timeout :: "int \<Rightarrow> client_options \<Rightarrow> client_options" where
  "set_request_timeout v opts = opts\<lparr>ko_request_timeout := v\<rparr>"

definition set_handshake_timeout :: "int \<Rightarrow> client_options \<Rightarrow> client_options" where
  "set_handshake_timeout v opts = opts\<lparr>ko_handshake_timeout := v\<rparr>"

definition set_max_response_size :: "nat \<Rightarrow> client_options \<Rightarrow> client_options" where
  "set_max_response_size v opts = opts\<lparr>ko_max_response_size := v\<rparr>"

definition set_user_agent :: "string \<Rightarrow> client_options \<Rightarrow> client_options" where
  "set_user_agent v opts = opts\<lparr>ko_user_agent := v\<rparr>"

definition set_follow_redirects :: "bool \<Rightarrow> nat \<Rightarrow> client_options \<Rightarrow> client_options" where
  "set_follow_redirects follow m opts = opts\<lparr>ko_follow_redirects := follow, ko_max_redirects := m\<rparr>"

record request_timeouts =
  kt_connection_timeout :: int
  kt_request_timeout :: int
  kt_handshake_timeout :: int

definition default_request_timeouts :: request_timeouts where
  "default_request_timeouts = \<lparr>kt_connection_timeout = 0, kt_request_timeout = 0, kt_handshake_timeout = 0\<rparr>"

definition rt_set_connection_timeout :: "int \<Rightarrow> request_timeouts \<Rightarrow> request_timeouts" where
  "rt_set_connection_timeout v t = t\<lparr>kt_connection_timeout := v\<rparr>"

definition rt_set_request_timeout :: "int \<Rightarrow> request_timeouts \<Rightarrow> request_timeouts" where
  "rt_set_request_timeout v t = t\<lparr>kt_request_timeout := v\<rparr>"

definition rt_set_handshake_timeout :: "int \<Rightarrow> request_timeouts \<Rightarrow> request_timeouts" where
  "rt_set_handshake_timeout v t = t\<lparr>kt_handshake_timeout := v\<rparr>"

record client_base =
  kb_https :: bool
  kb_host :: string
  kb_port :: string
  kb_host_field :: string

text \<open>Handlers are numbers; an empty \<open>std::function\<close> is \<open>None\<close>.\<close>

record request_spec =
  ks_base :: client_base
  ks_method :: verb
  ks_target_path :: string
  ks_headers :: "(string \<times> string) list"
  ks_body :: string
  ks_ssl_ctx :: bool
  ks_on_success :: "nat option"
  ks_on_error :: "nat option"

section \<open>URLs\<close>

definition ci_eq :: "char \<Rightarrow> char \<Rightarrow> bool" where
  "ci_eq a b = (tolower_char a = tolower_char b)"

fun starts_with_ci :: "string \<Rightarrow> string \<Rightarrow> bool" where
  "starts_with_ci s [] = True"
| "starts_with_ci [] (p # ps) = False"
| "starts_with_ci (c # cs) (p # ps) = (ci_eq c p \<and> starts_with_ci cs ps)"

text \<open>The authority and the target, once the scheme has been taken off.\<close>

definition parse_authority :: "bool \<Rightarrow> string \<Rightarrow> (client_base \<times> string) option" where
  "parse_authority https url =
     (let (authority, target) =
            (case find_sub ''/'' url of None \<Rightarrow> (url, ''/'') | Some pos \<Rightarrow> (take pos url, drop pos url));
          (host, port) =
            (case rfind_char authority CHR '':'' of
               Some colon \<Rightarrow> (take colon authority, drop (colon + 1) authority)
             | None \<Rightarrow> (authority, if https then to_string 443 else to_string 80))
      in if host = [] then None
         else Some (\<lparr>kb_https = https, kb_host = host, kb_port = port,
                     kb_host_field = (if https then authority
                                      else if port = to_string 80 then host else authority)\<rparr>, target))"

text \<open>The first argument says whether the library is built with TLS.\<close>

definition parse_absolute_url :: "bool \<Rightarrow> string \<Rightarrow> (client_base \<times> string) option" where
  "parse_absolute_url tls url =
     (if starts_with_ci url ''https://'' then (if \<not> tls then None else parse_authority True (drop 8 url))
      else if starts_with_ci url ''http://'' then parse_authority False (drop 7 url)
      else None)"

definition parse_base_only :: "bool \<Rightarrow> string \<Rightarrow> client_base option" where
  "parse_base_only tls url = map_option fst (parse_absolute_url tls url)"

definition normalize_relative_target :: "string \<Rightarrow> string" where
  "normalize_relative_target t =
     (if t = [] then ''/'' else if hd t = CHR ''/'' then t else CHR ''/'' # t)"

section \<open>HttpClient and RequestBuilder\<close>

record http_client =
  kc_base :: client_base
  kc_options :: client_options
  kc_ssl_ctx :: bool

definition new_http_client :: "bool \<Rightarrow> string \<Rightarrow> http_client throws" where
  "new_http_client tls url =
     (case parse_base_only tls url of
        None \<Rightarrow> Inl (Invalid_argument ''foxhttp::client::HttpClient: invalid base URL (expected http://host[:port])'')
      | Some b \<Rightarrow> Inr \<lparr>kc_base = b, kc_options = default_client_options, kc_ssl_ctx = False\<rparr>)"

definition new_https_client :: "string \<Rightarrow> http_client throws" where
  "new_https_client url =
     (case parse_base_only True url of
        None \<Rightarrow> Inl (Invalid_argument ''foxhttp::client::HttpClient: invalid base URL'')
      | Some b \<Rightarrow> Inr \<lparr>kc_base = b, kc_options = default_client_options, kc_ssl_ctx = True\<rparr>)"

definition set_client_options :: "client_options \<Rightarrow> http_client \<Rightarrow> http_client" where
  "set_client_options opts c = c\<lparr>kc_options := opts\<rparr>"

text \<open>The specifications handed to a transfer so far are recorded.\<close>

record request_builder =
  kr_spec :: request_spec
  kr_timeouts :: request_timeouts
  kr_consumed :: bool
  kr_started :: "request_spec list"

definition new_request_builder :: "bool \<Rightarrow> http_client \<Rightarrow> verb \<Rightarrow> string \<Rightarrow> request_builder throws" where
  "new_request_builder tls owner m t =
     (let build = (\<lambda>base target.
        \<lparr>kr_spec = \<lparr>ks_base = base, ks_method = m, ks_target_path = target, ks_headers = [], ks_body = [],
                    ks_ssl_ctx = kc_ssl_ctx owner, ks_on_success = None, ks_on_error = None\<rparr>,
         kr_timeouts = default_request_timeouts, kr_consumed = False, kr_started = []\<rparr>)
      in if starts_with_ci t ''http://'' \<or> starts_with_ci t ''https://''
         then (case parse_absolute_url tls t of
                 None \<Rightarrow> Inl (Invalid_argument ''foxhttp::client: invalid absolute URL'')
               | Some (base, target) \<Rightarrow>
                   if \<not> tls \<and> kb_https base
                   then Inl (Invalid_argument ''foxhttp::client: HTTPS requires building FoxHttp with TLS enabled'')
                   else Inr (build base target))
         else Inr (build (kc_base owner) (normalize_relative_target t)))"

definition client_get :: "bool \<Rightarrow> string \<Rightarrow> http_client \<Rightarrow> request_builder throws" where
  "client_get tls t c = new_request_builder tls c Verb_get t"

definition client_post :: "bool \<Rightarrow> string \<Rightarrow> http_client \<Rightarrow> request_builder throws" where
  "client_post tls t c = new_request_builder tls c Verb_post t"

definition client_put :: "bool \<Rightarrow> string \<Rightarrow> http_client \<Rightarrow> request_builder throws" where
  "client_put tls t c = new_request_builder tls c Verb_put t"

definition client_delete :: "bool \<Rightarrow> string \<Rightarrow> http_client \<Rightarrow> request_builder throws" where
  "client_delete tls t c = new_request_builder tls c Verb_delete t"

definition ensure_not_consumed :: "request_builder \<Rightarrow> request_builder throws" where
  "ensure_not_consumed b =
     (if kr_consumed b
      then Inl (Logic_error ''foxhttp::client::RequestBuilder: request already started (do not reuse)'') else Inr b)"

definition on_builder :: "(request_builder \<Rightarrow> request_builder) \<Rightarrow> request_builder \<Rightarrow> request_builder throws" where
  "on_builder f b = (case ensure_not_consumed b of Inl e \<Rightarrow> Inl e | Inr b \<Rightarrow> Inr (f b))"

definition on_spec :: "(request_spec \<Rightarrow> request_spec) \<Rightarrow> request_builder \<Rightarrow> request_builder throws" where
  "on_spec f = on_builder (\<lambda>b. b\<lparr>kr_spec := f (kr_spec b)\<rparr>)"

definition rb_header :: "string \<Rightarrow> string \<Rightarrow> request_builder \<Rightarrow> request_builder throws" where
  "rb_header n v = on_spec (\<lambda>s. s\<lparr>ks_headers := ks_headers s @ [(n, v)]\<rparr>)"

definition rb_body :: "string \<Rightarrow> request_builder \<Rightarrow> request_builder throws" where
  "rb_body t = on_spec (\<lambda>s. s\<lparr>ks_body := t\<rparr>)"

definition rb_body_json :: "(json \<Rightarrow> string) \<Rightarrow> json \<Rightarrow> request_builder \<Rightarrow> request_builder throws" where
  "rb_body_json dump j =
     on_spec (\<lambda>s. s\<lparr>ks_headers := ks_headers s @ [(''Content-Type'', ''application/json'')], ks_body := dump j\<rparr>)"

definition rb_timeout :: "request_timeouts \<Rightarrow> request_builder \<Rightarrow> request_builder throws" where
  "rb_timeout t = on_builder (\<lambda>b. b\<lparr>kr_timeouts := t\<rparr>)"

definition rb_connection_timeout :: "int \<Rightarrow> request_builder \<Rightarrow> request_builder throws" where
  "rb_connection_timeout ms = on_builder (\<lambda>b. b\<lparr>kr_timeouts := (kr_timeouts b)\<lparr>kt_connection_timeout := ms\<rparr>\<rparr>)"

definition rb_request_timeout :: "int \<Rightarrow> request_builder \<Rightarrow> request_builder throws" where
  "rb_request_timeout ms = on_builder (\<lambda>b. b\<lparr>kr_timeouts := (kr_timeouts b)\<lparr>kt_request_timeout := ms\<rparr>\<rparr>)"

definition rb_catch_error :: "nat option \<Rightarrow> request_builder \<Rightarrow> request_builder throws" where
  "rb_catch_error h = on_spec (\<lambda>s. s\<lparr>ks_on_error := h\<rparr>)"

definition rb_then :: "nat option \<Rightarrow> request_builder \<Rightarrow> request_builder throws" where
  "rb_then h =
     on_builder (\<lambda>b. let s = (kr_spec b)\<lparr>ks_on_success := h\<rparr>
                     in b\<lparr>kr_spec := s, kr_consumed := True, kr_started := kr_started b @ [s]\<rparr>)"

definition rb_as_awaitable :: "request_builder \<Rightarrow> request_builder throws" where
  "rb_as_awaitable = on_builder (\<lambda>b. b\<lparr>kr_consumed := True, kr_started := kr_started b @ [kr_spec b]\<rparr>)"

section \<open>Transfer\<close>

text \<open>The request sent: fields set first (host and user agent), then the builder's inserted.\<close>

record client_request =
  kq_method :: verb
  kq_target :: string
  kq_version :: nat
  kq_fields :: "(string \<times> string) list"
  kq_body :: string

definition client_request_of :: "string \<Rightarrow> request_spec \<Rightarrow> client_request" where
  "client_request_of beast_version s =
     \<lparr>kq_method = ks_method s, kq_target = ks_target_path s, kq_version = 11,
      kq_fields = (''Host'', kb_host_field (ks_base s)) # (''User-Agent'', ''FoxHttp-client/'' @ beast_version) # ks_headers s,
      kq_body = ks_body s\<rparr>"

text \<open>What the network answers; connecting and the handshake are given the time they may take.\<close>

record 'e network =
  nw_resolve :: "string \<Rightarrow> string \<Rightarrow> 'e option"
  nw_connect :: "int \<Rightarrow> 'e option"
  nw_handshake :: "int \<Rightarrow> 'e option"
  nw_write :: "client_request \<Rightarrow> 'e option"
  nw_read :: "'e + http_response"
  nw_not_supported :: 'e

fun first_error :: "(unit \<Rightarrow> 'e option) list \<Rightarrow> 'e option" where
  "first_error [] = None"
| "first_error (f # fs) = (case f () of Some e \<Rightarrow> Some e | None \<Rightarrow> first_error fs)"

definition transfer_http :: "string \<Rightarrow> 'e network \<Rightarrow> request_spec \<Rightarrow> 'e + http_response" where
  "transfer_http bv nw s =
     (case first_error [\<lambda>_. nw_resolve nw (kb_host (ks_base s)) (kb_port (ks_base s)), \<lambda>_. nw_connect nw 30000,
                        \<lambda>_. nw_write nw (client_request_of bv s)] of
        Some e \<Rightarrow> Inl e | None \<Rightarrow> nw_read nw)"

definition transfer_https :: "string \<Rightarrow> 'e network \<Rightarrow> request_spec \<Rightarrow> 'e + http_response" where
  "transfer_https bv nw s =
     (if \<not> ks_ssl_ctx s then Inl (nw_not_supported nw)
      else case first_error [\<lambda>_. nw_resolve nw (kb_host (ks_base s)) (kb_port (ks_base s)), \<lambda>_. nw_connect nw 30000,
                             \<lambda>_. nw_handshake nw 30000, \<lambda>_. nw_write nw (client_request_of bv s)] of
             Some e \<Rightarrow> Inl e | None \<Rightarrow> nw_read nw)"

definition transfer :: "bool \<Rightarrow> string \<Rightarrow> 'e network \<Rightarrow> request_spec \<Rightarrow> 'e + http_response" where
  "transfer tls bv nw s = (if tls \<and> kb_https (ks_base s) then transfer_https bv nw s else transfer_http bv nw s)"

datatype 'e handler_call = Call_error nat 'e | Call_success nat http_response

text \<open>The calls of handlers that are posted.\<close>

definition run_callbacks :: "bool \<Rightarrow> string \<Rightarrow> 'e network \<Rightarrow> request_spec \<Rightarrow> 'e handler_call list" where
  "run_callbacks tls bv nw s =
     (case transfer tls bv nw s of
        Inl ec \<Rightarrow> (case ks_on_error s of Some h \<Rightarrow> [Call_error h ec] | None \<Rightarrow> [])
      | Inr res \<Rightarrow> (case ks_on_success s of Some h \<Rightarrow> [Call_success h res] | None \<Rightarrow> []))"

text \<open>A failed awaited transfer throws the error code.\<close>

definition transfer_await :: "bool \<Rightarrow> string \<Rightarrow> 'e network \<Rightarrow> request_spec \<Rightarrow> 'e + http_response" where
  "transfer_await tls bv nw s = transfer tls bv nw s"

section \<open>Lemmas on URLs\<close>

lemma starts_with_ci_iff: "starts_with_ci s p \<longleftrightarrow> prefix (to_lower p) (to_lower s)"
  by (induction s p rule: starts_with_ci.induct) (auto simp: to_lower_def ci_eq_def)

lemma rfind_char_None: "rfind_char s c = None \<longleftrightarrow> c \<notin> set s"
  by (induction s) (auto split: option.splits)

lemma rfind_char_last: "c \<notin> set t \<Longrightarrow> rfind_char (s @ c # t) c = Some (length s)"
proof (induction s)
  case Nil
  then show ?case by (simp add: rfind_char_None [symmetric])
qed simp

lemma starts_with_ci_drop:
  "to_lower sch = p \<Longrightarrow> to_lower p = p \<Longrightarrow> starts_with_ci (sch @ rest) p"
  by (simp add: starts_with_ci_iff to_lower_def)

lemma scheme_length: "to_lower sch = p \<Longrightarrow> length sch = length p"
  by (auto simp: to_lower_def)

lemma http_not_https: "to_lower sch = ''http://'' \<Longrightarrow> \<not> starts_with_ci (sch @ rest) ''https://''"
  by (auto simp: starts_with_ci_iff to_lower_def tolower_char_def isupper_def byte_def)

lemma find_slash:
  "CHR ''/'' \<notin> set auth \<Longrightarrow> target \<noteq> [] \<Longrightarrow> hd target = CHR ''/'' \<Longrightarrow> find_sub ''/'' (auth @ target) = Some (length auth)"
  using find_sub_char_append [of "CHR ''/''" auth "tl target"] by (cases target) auto

section \<open>The builder as a machine\<close>

datatype builder_op =
    Op_header string string | Op_body string | Op_json json | Op_timeout request_timeouts
  | Op_connection_timeout int | Op_request_timeout int | Op_catch "nat option" | Op_then "nat option" | Op_await

fun apply_op :: "(json \<Rightarrow> string) \<Rightarrow> builder_op \<Rightarrow> request_builder \<Rightarrow> request_builder throws" where
  "apply_op dump (Op_header n v) = rb_header n v"
| "apply_op dump (Op_body t) = rb_body t"
| "apply_op dump (Op_json j) = rb_body_json dump j"
| "apply_op dump (Op_timeout t) = rb_timeout t"
| "apply_op dump (Op_connection_timeout ms) = rb_connection_timeout ms"
| "apply_op dump (Op_request_timeout ms) = rb_request_timeout ms"
| "apply_op dump (Op_catch h) = rb_catch_error h"
| "apply_op dump (Op_then h) = rb_then h"
| "apply_op dump Op_await = rb_as_awaitable"

lemmas builder_op_defs = rb_header_def rb_body_def rb_body_json_def rb_timeout_def rb_connection_timeout_def
  rb_request_timeout_def rb_catch_error_def rb_then_def rb_as_awaitable_def on_spec_def on_builder_def ensure_not_consumed_def

text \<open>A call that throws leaves the builder as it was.\<close>

definition builder_step :: "(json \<Rightarrow> string) \<Rightarrow> request_builder \<Rightarrow> builder_op \<Rightarrow> request_builder" where
  "builder_step dump b op = (case apply_op dump op b of Inl e \<Rightarrow> b | Inr b' \<Rightarrow> b')"

definition builder_inv :: "request_builder \<Rightarrow> bool" where
  "builder_inv b \<longleftrightarrow> (if kr_consumed b then kr_started b = [kr_spec b] else kr_started b = [])"

lemma consumed_throws:
  "kr_consumed b \<Longrightarrow>
   apply_op dump op b = Inl (Logic_error ''foxhttp::client::RequestBuilder: request already started (do not reuse)'')"
  by (cases op) (simp_all add: builder_op_defs)

lemma builder_inv_step: "builder_inv b \<Longrightarrow> builder_inv (builder_step dump b op)"
proof (cases "kr_consumed b")
  case True
  then show "builder_inv b \<Longrightarrow> ?thesis" by (simp add: builder_step_def consumed_throws)
next
  case False
  then show "builder_inv b \<Longrightarrow> ?thesis"
    by (cases op) (simp_all add: builder_step_def builder_inv_def builder_op_defs Let_def)
qed

lemma builder_inv_new: "new_request_builder tls c m t = Inr b \<Longrightarrow> builder_inv b"
  by (auto simp: new_request_builder_def builder_inv_def Let_def split: if_splits option.splits)

interpretation builder: step_machine "\<lambda>b. \<exists>tls c m t. new_request_builder tls c m t = Inr b" "builder_step dump" builder_inv for dump
  by unfold_locales (auto simp: builder_inv_new builder_inv_step)

text \<open>
  The parts of a URL are read back from it, whatever the letter case of its scheme: a host
  without colons and slashes, a port, and a target that begins with a slash. Without a
  port the scheme's own is taken, and the \<open>Host\<close> field leaves out the default port of HTTP.
\<close>

lemma absolute_url_parts:
  assumes "to_lower scheme = (if https then ''https://'' else ''http://'')" and "if https then tls else True"
    and "host \<noteq> []" "CHR '':'' \<notin> set host" "CHR ''/'' \<notin> set host" "CHR '':'' \<notin> set port" "CHR ''/'' \<notin> set port"
    and "target \<noteq> []" "hd target = CHR ''/''"
  shows "parse_absolute_url tls (scheme @ host @ '':'' @ port @ target) =
      Some (\<lparr>kb_https = https, kb_host = host, kb_port = port,
             kb_host_field = (if \<not> https \<and> port = ''80'' then host else host @ '':'' @ port)\<rparr>, target) \<and>
    parse_absolute_url tls (scheme @ host @ target) =
      Some (\<lparr>kb_https = https, kb_host = host, kb_port = (if https then ''443'' else ''80''), kb_host_field = host\<rparr>, target)"
proof -
  have ports: "to_string 80 = ''80''" "to_string 443 = ''443''" by (code_simp, code_simp)
  have url: "parse_absolute_url tls (scheme @ rest) = parse_authority https rest" for rest
  proof (cases https)
    case True
    with assms(1,2) starts_with_ci_drop [of scheme "''https://''" rest] scheme_length [of scheme "''https://''"]
    show ?thesis by (simp add: parse_absolute_url_def) (simp add: to_lower_def tolower_char_def isupper_def byte_def)
  next
    case False
    with assms(1) starts_with_ci_drop [of scheme "''http://''" rest] scheme_length [of scheme "''http://''"] http_not_https [of scheme rest]
    show ?thesis by (simp add: parse_absolute_url_def) (simp add: to_lower_def tolower_char_def isupper_def byte_def)
  qed
  have "find_sub ''/'' ((host @ '':'' @ port) @ target) = Some (length (host @ '':'' @ port))"
    using assms by (intro find_slash) auto
  moreover have "rfind_char (host @ '':'' @ port) CHR '':'' = Some (length host)"
    using rfind_char_last [of "CHR '':''" port host] assms(6) by simp
  ultimately have "parse_authority https (host @ '':'' @ port @ target) =
      Some (\<lparr>kb_https = https, kb_host = host, kb_port = port,
             kb_host_field = (if \<not> https \<and> port = ''80'' then host else host @ '':'' @ port)\<rparr>, target)"
    using assms(3) by (simp add: parse_authority_def ports)
  moreover have "parse_authority https (host @ target) =
      Some (\<lparr>kb_https = https, kb_host = host, kb_port = (if https then ''443'' else ''80''), kb_host_field = host\<rparr>, target)"
    using find_slash [OF assms(5,8,9)] assms(3,4) by (simp add: parse_authority_def ports rfind_char_None [symmetric])
  ultimately show ?thesis by (simp add: url)
qed

section \<open>Properties\<close>

text \<open>
  A request builder starts at most one transfer, with exactly what had been put into it by
  then; from then on every call throws and changes nothing.
\<close>

theorem builder_one_shot:
  assumes "new_request_builder tls c m t = Inr b0"
  shows "let b = foldl (builder_step dump) b0 ops
    in (if kr_consumed b
        then kr_started b = [kr_spec b] \<and>
             apply_op dump op b =
               Inl (Logic_error ''foxhttp::client::RequestBuilder: request already started (do not reuse)'')
        else kr_started b = [])"
proof -
  have "builder_inv (foldl (builder_step dump) b0 ops)"
    by (rule builder.run_from_initial) (use assms in blast)
  then show ?thesis by (auto simp: Let_def builder_inv_def consumed_throws)
qed

theorem builder_one_shot_witness:
  "\<exists>b0. new_request_builder False \<lparr>kc_base = \<lparr>kb_https = False, kb_host = ''h'', kb_port = ''80'', kb_host_field = ''h''\<rparr>,
      kc_options = default_client_options, kc_ssl_ctx = False\<rparr> Verb_get ''x'' = Inr b0 \<and>
    kr_started (foldl (builder_step (\<lambda>_. [])) b0 [Op_header ''A'' ''1'', Op_then (Some 1), Op_then (Some 2), Op_await]) =
      [kr_spec (foldl (builder_step (\<lambda>_. [])) b0 [Op_header ''A'' ''1'', Op_then (Some 1), Op_then (Some 2), Op_await])]"
proof -
  let ?c = "\<lparr>kc_base = \<lparr>kb_https = False, kb_host = ''h'', kb_port = ''80'', kb_host_field = ''h''\<rparr>,
      kc_options = default_client_options, kc_ssl_ctx = False\<rparr>"
  have "\<exists>b. new_request_builder False ?c Verb_get ''x'' = Inr b" by (simp add: new_request_builder_def ci_eq_def tolower_char_def isupper_def byte_def)
  then obtain b0 where b0: "new_request_builder False ?c Verb_get ''x'' = Inr b0" by blast
  then have "\<not> kr_consumed b0" by (auto simp: new_request_builder_def ci_eq_def tolower_char_def isupper_def byte_def)
  then have "kr_consumed (foldl (builder_step (\<lambda>_. [])) b0 [Op_header ''A'' ''1'', Op_then (Some 1), Op_then (Some 2), Op_await])"
    by (simp add: builder_step_def builder_op_defs Let_def)
  with builder_one_shot [OF b0, of "\<lambda>_. []" "[Op_header ''A'' ''1'', Op_then (Some 1), Op_then (Some 2), Op_await]" Op_await] b0
  show ?thesis by (simp add: Let_def)
qed

section \<open>Behaviours worth knowing\<close>

text \<open>An IPv6 address is cut at its last colon, and a query without a path becomes part of the host.\<close>

lemma ipv6_host_split:
  "map_option (\<lambda>(b, t). (kb_host b, kb_port b)) (parse_absolute_url False ''http://[::1]/x'') = Some (''[:'', ''1]'')"
  by code_simp

lemma query_in_host:
  "map_option (\<lambda>(b, t). (kb_host b, t)) (parse_absolute_url False ''http://h?q=1'') = Some (''h?q=1'', ''/'')"
  by code_simp

text \<open>
  The times allowed are constants: neither the client's options nor the request's own
  timeouts reach the transfer.
\<close>

lemma timeouts_ignored:
  assumes "rb_timeout t b = Inr b'"
  shows "transfer tls bv nw (kr_spec b') = transfer tls bv nw (kr_spec b)"
  using assms by (auto simp: rb_timeout_def on_builder_def ensure_not_consumed_def split: if_splits)

lemma options_ignored:
  "new_request_builder tls (set_client_options opts c) m t = new_request_builder tls c m t"
  by (simp add: new_request_builder_def set_client_options_def)

text \<open>
  More than that: whatever is called on a builder, taking the calls that set timeouts away, and
  the client's options too, leaves the specification, the transfers started and every later
  failure as they are.
\<close>

fun is_timeout_op :: "builder_op \<Rightarrow> bool" where
  "is_timeout_op (Op_timeout t) = True"
| "is_timeout_op (Op_connection_timeout ms) = True"
| "is_timeout_op (Op_request_timeout ms) = True"
| "is_timeout_op op = False"

definition same_request :: "request_builder \<Rightarrow> request_builder \<Rightarrow> bool" where
  "same_request b b' \<longleftrightarrow> kr_spec b = kr_spec b' \<and> kr_consumed b = kr_consumed b' \<and> kr_started b = kr_started b'"

lemma timeout_step: "is_timeout_op op \<Longrightarrow> same_request (builder_step dump b op) b"
  by (cases op) (simp_all add: same_request_def builder_step_def builder_op_defs)

lemma same_request_step: "same_request b b' \<Longrightarrow> same_request (builder_step dump b op) (builder_step dump b' op)"
  by (cases op) (auto simp: same_request_def builder_step_def builder_op_defs Let_def)

lemma same_request_trans: "same_request a b \<Longrightarrow> same_request b c \<Longrightarrow> same_request a c"
  by (simp add: same_request_def)

lemma timeouts_do_not_interfere:
  "same_request b b' \<Longrightarrow>
   same_request (foldl (builder_step dump) b ops) (foldl (builder_step dump) b' (filter (\<lambda>op. \<not> is_timeout_op op) ops))"
proof (induction ops arbitrary: b b')
  case (Cons op ops)
  show ?case
  proof (cases "is_timeout_op op")
    case True
    with Cons.IH [OF same_request_trans [OF timeout_step Cons.prems]] show ?thesis by simp
  next
    case False
    with Cons.IH [OF same_request_step [OF Cons.prems]] show ?thesis by simp
  qed
qed simp

lemma transfers_without_timeouts:
  assumes "new_request_builder tls (set_client_options opts c) m t = Inr b" and "new_request_builder tls c m t = Inr b'"
  shows "map (run_callbacks tls bv nw) (kr_started (foldl (builder_step dump) b ops)) =
    map (run_callbacks tls bv nw) (kr_started (foldl (builder_step dump) b' (filter (\<lambda>op. \<not> is_timeout_op op) ops)))"
proof -
  have "same_request b b'" using assms by (simp add: options_ignored same_request_def)
  from timeouts_do_not_interfere [OF this] show ?thesis by (simp add: same_request_def)
qed

end
