(* ===== verification/Config_Manager.thy ===== *)
theory Config_Manager
  imports Configs Static_Middleware
begin

text \<open>
  src/config/config_manager.cpp with its header, and config/detail/config_watcher.cpp: the
  configuration document, merged from defaults and a file, the sections read from it, the
  snapshot, validation and notification. Reading and parsing of files (nlohmann::json and
  yaml-cpp), custom loaders, validators and callbacks are parameters. The accessors of
  nlohmann::json are those of its documentation: \<open>value\<close> throws on a value that is not an
  object and when the member found has another type.
\<close>

section \<open>Reading members\<close>

fun and_then :: "cpp_exn + 'a \<Rightarrow> ('a \<Rightarrow> cpp_exn + 'b) \<Rightarrow> cpp_exn + 'b" where
  "and_then (Inl e) f = Inl e"
| "and_then (Inr x) f = f x"

lemma and_then_Inr: "and_then m f = Inr y \<longleftrightarrow> (\<exists>x. m = Inr x \<and> f x = Inr y)"
  by (cases m) auto

text \<open>\<open>get<T>()\<close>: \<open>None\<close> is the type error. Conversions between numbers are C++'s.\<close>

definition to_size :: "int \<Rightarrow> nat" where
  "to_size i = nat (i mod 2 ^ 64)"

definition truncate :: "rat \<Rightarrow> int" where
  "truncate r = (if 0 \<le> r then \<lfloor>r\<rfloor> else \<lceil>r\<rceil>)"

fun get_size :: "json \<Rightarrow> nat option" where
  "get_size (JInt i) = Some (to_size i)"
| "get_size (JFloat r) = Some (to_size (truncate r))"
| "get_size _ = None"

definition to_int32 :: "int \<Rightarrow> int" where
  "to_int32 i = sint (word_of_int i :: 32 word)"

fun get_int :: "json \<Rightarrow> int option" where
  "get_int (JInt i) = Some (to_int32 i)"
| "get_int (JFloat r) = Some (to_int32 (truncate r))"
| "get_int (JBool b) = Some (if b then 1 else 0)"
| "get_int _ = None"

fun get_bool :: "json \<Rightarrow> bool option" where
  "get_bool (JBool b) = Some b"
| "get_bool _ = None"

fun get_double :: "json \<Rightarrow> rat option" where
  "get_double (JInt i) = Some (of_int i)"
| "get_double (JFloat r) = Some r"
| "get_double _ = None"

fun get_string :: "json \<Rightarrow> string option" where
  "get_string (JString s) = Some s"
| "get_string _ = None"

fun all_some :: "'a option list \<Rightarrow> 'a list option" where
  "all_some [] = Some []"
| "all_some (None # xs) = None"
| "all_some (Some x # xs) = map_option ((#) x) (all_some xs)"

fun get_strings :: "json \<Rightarrow> string list option" where
  "get_strings (JArray vs) = all_some (map get_string vs)"
| "get_strings _ = None"

definition type_error :: cpp_exn where
  "type_error = Json_error ''type_error''"

fun json_value :: "(json \<Rightarrow> 'a option) \<Rightarrow> json \<Rightarrow> string \<Rightarrow> 'a \<Rightarrow> cpp_exn + 'a" where
  "json_value get (JObject kvs) key dflt =
     (case map_of kvs key of
        None \<Rightarrow> Inr dflt
      | Some v \<Rightarrow> (case get v of Some x \<Rightarrow> Inr x | None \<Rightarrow> Inl type_error))"
| "json_value get _ key dflt = Inl type_error"

text \<open>\<open>doc.value(section, json{}).value(name, json{})\<close>.\<close>

definition doc_section :: "json \<Rightarrow> string \<Rightarrow> string \<Rightarrow> cpp_exn + json" where
  "doc_section doc sect name =
     and_then (json_value Some doc sect JNull) (\<lambda>s. json_value Some s name JNull)"

text \<open>\<open>if (j.contains(key)) field = j[key].get<...>()\<close>\<close>

definition optional_member :: "(json \<Rightarrow> 'a option) \<Rightarrow> json \<Rightarrow> string \<Rightarrow> 'a \<Rightarrow> cpp_exn + 'a" where
  "optional_member get j key dflt =
     (case obj_find j key of
        None \<Rightarrow> Inr dflt | Some v \<Rightarrow> (case get v of Some x \<Rightarrow> Inr x | None \<Rightarrow> Inl type_error))"

section \<open>Sections of the document\<close>

definition json_from_doc :: "json \<Rightarrow> cpp_exn + json_config" where
  "json_from_doc doc =
     and_then (doc_section doc ''parsers'' ''json'') (\<lambda>j.
       let c = default_json_config
       in if \<not> is_object j then Inr c else
       and_then (json_value get_size j ''maxBodySize'' (jc_max_size c)) (\<lambda>ms.
       and_then (json_value get_size j ''maxDepth'' (jc_max_depth c)) (\<lambda>md.
       and_then (json_value get_bool j ''strict'' (jc_strict_mode c)) (\<lambda>st.
       and_then (json_value get_bool j ''allowComments'' (jc_allow_comments c)) (\<lambda>ac.
       and_then (json_value get_bool j ''allowTrailingCommas'' (jc_allow_trailing_commas c)) (\<lambda>tc.
       and_then (json_value get_bool j ''allowDuplicateKeys'' (jc_allow_duplicate_keys c)) (\<lambda>dk.
       and_then (json_value get_bool j ''validateSchema'' (jc_validate_schema c)) (\<lambda>vs.
       let sc = (case obj_find j ''schema'' of Some s \<Rightarrow> if is_object s then s else jc_schema c | None \<Rightarrow> jc_schema c) in
       and_then (json_value get_string j ''charset'' (jc_charset c)) (\<lambda>cs.
       Inr \<lparr>jc_max_size = ms, jc_max_depth = md, jc_strict_mode = st, jc_allow_comments = ac,
            jc_allow_trailing_commas = tc, jc_allow_duplicate_keys = dk, jc_validate_schema = vs,
            jc_schema = sc, jc_charset = cs\<rparr>)))))))))"

definition multipart_from_doc :: "json \<Rightarrow> cpp_exn + multipart_config" where
  "multipart_from_doc doc =
     and_then (doc_section doc ''parsers'' ''multipart'') (\<lambda>m.
       let c = default_multipart_config
       in if \<not> is_object m then Inr c else
       and_then (json_value get_size m ''maxFieldSize'' (mc_max_field_size c)) (\<lambda>fs.
       and_then (json_value get_size m ''maxFileSize'' (mc_max_file_size c)) (\<lambda>ls.
       and_then (json_value get_size m ''maxTotalSize'' (mc_max_total_size c)) (\<lambda>ts.
       and_then (json_value get_size m ''memoryThreshold'' (mc_memory_threshold c)) (\<lambda>mt.
       and_then (json_value get_string m ''tempDirectory'' (mc_temp_directory c)) (\<lambda>td.
       and_then (json_value get_bool m ''autoCleanup'' (mc_auto_cleanup c)) (\<lambda>au.
       and_then (json_value get_bool m ''strict'' (mc_strict_mode c)) (\<lambda>st.
       and_then (json_value get_bool m ''allowEmptyFields'' (mc_allow_empty_fields c)) (\<lambda>ae.
       and_then (optional_member get_strings m ''allowedExtensions'' (mc_allowed_extensions c)) (\<lambda>ax.
       and_then (optional_member get_strings m ''allowedContentTypes'' (mc_allowed_content_types c)) (\<lambda>cts.
       Inr (c\<lparr>mc_max_field_size := fs, mc_max_file_size := ls, mc_max_total_size := ts, mc_memory_threshold := mt,
             mc_temp_directory := td, mc_auto_cleanup := au, mc_strict_mode := st, mc_allow_empty_fields := ae,
             mc_allowed_extensions := ax, mc_allowed_content_types := cts\<rparr>))))))))))))"

definition form_from_doc :: "json \<Rightarrow> cpp_exn + form_config" where
  "form_from_doc doc =
     and_then (doc_section doc ''parsers'' ''form'') (\<lambda>f.
       let c = default_form_config
       in if \<not> is_object f then Inr c else
       and_then (json_value get_size f ''maxFieldSize'' (fc_max_field_size c)) (\<lambda>fs.
       and_then (json_value get_size f ''maxTotalSize'' (fc_max_total_size c)) (\<lambda>ts.
       and_then (json_value get_size f ''maxFields'' (fc_max_fields c)) (\<lambda>mf.
       and_then (json_value get_bool f ''strict'' (fc_strict_mode c)) (\<lambda>st.
       and_then (json_value get_bool f ''allowEmptyValues'' (fc_allow_empty_values c)) (\<lambda>ae.
       and_then (json_value get_bool f ''supportArrays'' (fc_support_arrays c)) (\<lambda>sa.
       and_then (json_value get_string f ''charset'' (fc_charset c)) (\<lambda>cs.
       Inr \<lparr>fc_max_field_size = fs, fc_max_total_size = ts, fc_max_fields = mf, fc_strict_mode = st,
            fc_allow_empty_values = ae, fc_support_arrays = sa, fc_charset = cs\<rparr>))))))))"

definition plain_from_doc :: "json \<Rightarrow> cpp_exn + plain_text_config" where
  "plain_from_doc doc =
     and_then (doc_section doc ''parsers'' ''plain'') (\<lambda>p.
       let c = default_plain_text_config
       in if \<not> is_object p then Inr c else
       and_then (json_value get_size p ''maxBodySize'' (pc_max_size c)) (\<lambda>ms.
       and_then (json_value get_bool p ''normalizeLineEndings'' (pc_normalize_line_endings c)) (\<lambda>nl.
       and_then (json_value get_bool p ''trimWhitespace'' (pc_trim_whitespace c)) (\<lambda>tw.
       and_then (json_value get_bool p ''validateEncoding'' (pc_validate_encoding c)) (\<lambda>ve.
       and_then (json_value get_string p ''charset'' (pc_charset c)) (\<lambda>cs.
       and_then (optional_member get_strings p ''allowedContentTypes'' (pc_allowed_content_types c)) (\<lambda>cts.
       and_then (json_value get_bool p ''strict'' (pc_strict_mode c)) (\<lambda>st.
       Inr \<lparr>pc_max_size = ms, pc_normalize_line_endings = nl, pc_trim_whitespace = tw, pc_validate_encoding = ve,
            pc_charset = cs, pc_allowed_content_types = cts, pc_strict_mode = st\<rparr>))))))))"

text \<open>The members are read as \<open>int\<close> and assigned to \<open>std::size_t\<close> fields.\<close>

definition strand_pool_from_doc :: "nat \<Rightarrow> json \<Rightarrow> cpp_exn + strand_pool_config" where
  "strand_pool_from_doc hw doc =
     and_then (doc_section doc ''core'' ''StrandPool'') (\<lambda>s.
       let c = default_strand_pool_config hw
       in if \<not> is_object s then Inr c else
       and_then (json_value get_int s ''initialSize'' (int (sc_initial_size c))) (\<lambda>is.
       and_then (json_value get_int s ''minSize'' (int (sc_min_size c))) (\<lambda>mi.
       and_then (json_value get_int s ''maxSize'' (int (sc_max_size c))) (\<lambda>ma.
       and_then (json_value get_int s ''healthCheckIntervalMs'' (sc_health_check_interval c)) (\<lambda>hc.
       and_then (json_value get_int s ''metricsIntervalMs'' (sc_metrics_report_interval c)) (\<lambda>mr.
       and_then (json_value get_bool s ''autoScaling'' (sc_enable_auto_scaling c)) (\<lambda>as.
       and_then (json_value get_double s ''loadThreshold'' (sc_load_threshold c)) (\<lambda>lt.
       and_then (json_value get_double s ''idleThreshold'' (sc_idle_threshold c)) (\<lambda>it.
       Inr (c\<lparr>sc_initial_size := to_size is, sc_min_size := to_size mi, sc_max_size := to_size ma,
             sc_health_check_interval := hc, sc_metrics_report_interval := mr, sc_enable_auto_scaling := as,
             sc_load_threshold := lt, sc_idle_threshold := it\<rparr>))))))))))"

definition timer_from_doc :: "json \<Rightarrow> cpp_exn + timer_manager_config" where
  "timer_from_doc doc =
     and_then (doc_section doc ''core'' ''TimerManager'') (\<lambda>t.
       let c = default_timer_manager_config
       in if \<not> is_object t then Inr c else
       and_then (json_value get_int t ''bucketCount'' (int (tc_bucket_count c))) (\<lambda>bc.
       and_then (json_value get_int t ''cleanupIntervalMs'' (tc_cleanup_interval c)) (\<lambda>ci.
       and_then (json_value get_int t ''statisticsIntervalMs'' (tc_statistics_report_interval c)) (\<lambda>si.
       and_then (json_value get_bool t ''enableStatistics'' (tc_enable_statistics c)) (\<lambda>es.
       and_then (json_value get_bool t ''enableCleanup'' (tc_enable_cleanup c)) (\<lambda>ec.
       Inr \<lparr>tc_bucket_count = to_size bc, tc_cleanup_interval = ci, tc_statistics_report_interval = si,
            tc_enable_statistics = es, tc_enable_cleanup = ec\<rparr>))))))"

section \<open>Merging and paths\<close>

text \<open>\<open>deep_merge\<close>: the members of the source, one after the other, into the destination.\<close>

fun deep_merge :: "json \<Rightarrow> json \<Rightarrow> json"
  and merge_members :: "(string \<times> json) list \<Rightarrow> (string \<times> json) list \<Rightarrow> (string \<times> json) list" where
  "deep_merge (JObject d) (JObject s) = JObject (merge_members d s)"
| "deep_merge d s = s"
| "merge_members d [] = d"
| "merge_members d ((k, v) # s) =
     merge_members
       (obj_insert k (case map_of d k of Some w \<Rightarrow> if is_object w \<and> is_object v then deep_merge w v else v | None \<Rightarrow> v) d) s"

text \<open>The keys of a dotted path; the loop looks an empty last key up, too.\<close>

fun split_dots :: "string \<Rightarrow> string list" where
  "split_dots [] = [[]]"
| "split_dots (c # cs) =
     (if c = CHR ''.'' then [] # split_dots cs
      else case split_dots cs of k # ks \<Rightarrow> (c # k) # ks | [] \<Rightarrow> [[c]])"

fun walk_keys :: "json \<Rightarrow> string list \<Rightarrow> json option" where
  "walk_keys j [] = Some j"
| "walk_keys j (k # ks) =
     (if \<not> is_object j then None
      else case obj_find j k of None \<Rightarrow> None | Some v \<Rightarrow> walk_keys v ks)"

definition walk_dot_path :: "json \<Rightarrow> string \<Rightarrow> json option" where
  "walk_dot_path j path = (if path = [] then Some j else walk_keys j (split_dots path))"

definition json_pointer_at :: "json \<Rightarrow> string \<Rightarrow> json" where
  "json_pointer_at doc path = (case walk_dot_path doc path of None \<Rightarrow> JNull | Some v \<Rightarrow> v)"

section \<open>YAML\<close>

datatype yaml = Y_null | Y_scalar string | Y_sequence "yaml list" | Y_map "(yaml \<times> yaml) list" | Y_undefined

text \<open>Every scalar becomes a string; a key that is no scalar throws, which is \<open>None\<close>.\<close>

fun yaml_to_json :: "yaml \<Rightarrow> json option"
  and yaml_members :: "(yaml \<times> yaml) list \<Rightarrow> (string \<times> json) list \<Rightarrow> (string \<times> json) list option"
  and yaml_items :: "yaml list \<Rightarrow> json list option" where
  "yaml_to_json Y_null = Some JNull"
| "yaml_to_json (Y_scalar s) = Some (JString s)"
| "yaml_to_json (Y_sequence ys) = map_option JArray (yaml_items ys)"
| "yaml_to_json (Y_map kvs) = map_option JObject (yaml_members kvs [])"
| "yaml_to_json Y_undefined = Some JNull"
| "yaml_items [] = Some []"
| "yaml_items (y # ys) =
     (case yaml_to_json y of None \<Rightarrow> None | Some j \<Rightarrow> map_option ((#) j) (yaml_items ys))"
| "yaml_members [] acc = Some acc"
| "yaml_members ((k, v) # kvs) acc =
     (case k of
        Y_scalar s \<Rightarrow> (case yaml_to_json v of None \<Rightarrow> None | Some j \<Rightarrow> yaml_members kvs (obj_insert s j acc))
      | _ \<Rightarrow> None)"

section \<open>The manager\<close>

text \<open>
  A validator answers with \<open>None\<close> or an error text; callbacks are numbers, and the calls
  made of them and of the logger are recorded.
\<close>

record config_snapshot =
  cs_version :: nat
  cs_json :: json_config
  cs_multipart :: multipart_config
  cs_form :: form_config
  cs_plain :: plain_text_config
  cs_strand_pool :: strand_pool_config
  cs_timer_mgr :: timer_manager_config

record config_manager =
  gm_path :: string
  gm_document :: json
  gm_last_good :: json
  gm_loaders :: "(string \<times> (string \<Rightarrow> json option)) list"
  gm_snapshot :: "config_snapshot option"
  gm_subscribers :: "(string \<times> nat list) list"
  gm_logger :: bool
  gm_log :: "string list"
  gm_validator :: "(json \<Rightarrow> string option) option"
  gm_version_counter :: nat
  gm_calls :: "(nat \<times> json \<times> json) list"

text \<open>The outside: the files as JSON and as YAML, and the number of processors.\<close>

record config_env =
  ge_json_file :: "string \<Rightarrow> json option"
  ge_yaml_file :: "string \<Rightarrow> yaml option"
  ge_processors :: nat

definition load_json_static :: "config_env \<Rightarrow> string \<Rightarrow> json option" where
  "load_json_static env path = ge_json_file env path"

definition load_yaml_static :: "config_env \<Rightarrow> string \<Rightarrow> json option" where
  "load_yaml_static env path = (case ge_yaml_file env path of None \<Rightarrow> None | Some y \<Rightarrow> yaml_to_json y)"

definition new_config_manager :: config_manager where
  "new_config_manager =
     \<lparr>gm_path = [], gm_document = JNull, gm_last_good = JNull, gm_loaders = [], gm_snapshot = None,
      gm_subscribers = [], gm_logger = False, gm_log = [], gm_validator = None, gm_version_counter = 0, gm_calls = []\<rparr>"

definition default_document :: "nat \<Rightarrow> json" where
  "default_document hw =
     JObject
      [(''core'', JObject
         [(''StrandPool'', JObject
            [(''autoScaling'', JBool True), (''healthCheckIntervalMs'', JInt 5000), (''idleThreshold'', JFloat (2 / 10)),
             (''initialSize'', JInt (to_int32 (int hw))), (''loadThreshold'', JFloat (8 / 10)), (''maxSize'', JInt 64),
             (''metricsIntervalMs'', JInt 10000), (''minSize'', JInt 1)]),
          (''TimerManager'', JObject
            [(''bucketCount'', JInt 16), (''cleanupIntervalMs'', JInt 60000), (''enableCleanup'', JBool True),
             (''enableStatistics'', JBool True), (''statisticsIntervalMs'', JInt 30000)])]),
       (''parsers'', JObject
         [(''form'', JObject
            [(''allowEmptyValues'', JBool True), (''charset'', JString ''UTF-8''), (''maxFieldSize'', JInt (1024 * 1024)),
             (''maxFields'', JInt 1000), (''maxTotalSize'', JInt (10 * 1024 * 1024)), (''strict'', JBool True),
             (''supportArrays'', JBool True)]),
          (''json'', JObject
            [(''allowComments'', JBool False), (''allowDuplicateKeys'', JBool True), (''allowTrailingCommas'', JBool False),
             (''charset'', JString ''UTF-8''), (''maxBodySize'', JInt (10 * 1024 * 1024)), (''maxDepth'', JInt 100),
             (''strict'', JBool True), (''validateSchema'', JBool False)]),
          (''multipart'', JObject
            [(''allowEmptyFields'', JBool False), (''autoCleanup'', JBool True), (''maxFieldSize'', JInt (10 * 1024 * 1024)),
             (''maxFileSize'', JInt (100 * 1024 * 1024)), (''maxTotalSize'', JInt (500 * 1024 * 1024)),
             (''memoryThreshold'', JInt (1024 * 1024)), (''strict'', JBool True), (''tempDirectory'', JString ''/tmp'')]),
          (''plain'', JObject
            [(''allowedContentTypes'', JArray []), (''charset'', JString ''UTF-8''), (''maxBodySize'', JInt (10 * 1024 * 1024)),
             (''normalizeLineEndings'', JBool True), (''strict'', JBool False), (''trimWhitespace'', JBool False),
             (''validateEncoding'', JBool True)])])]"

definition register_loader :: "string \<Rightarrow> (string \<Rightarrow> json option) \<Rightarrow> config_manager \<Rightarrow> config_manager" where
  "register_loader ext f m = m\<lparr>gm_loaders := put ext f (gm_loaders m)\<rparr>"

definition set_logger :: "bool \<Rightarrow> config_manager \<Rightarrow> config_manager" where
  "set_logger present m = m\<lparr>gm_logger := present\<rparr>"

definition set_validator :: "(json \<Rightarrow> string option) option \<Rightarrow> config_manager \<Rightarrow> config_manager" where
  "set_validator v m = m\<lparr>gm_validator := v\<rparr>"

definition subscribe :: "string \<Rightarrow> nat \<Rightarrow> config_manager \<Rightarrow> config_manager" where
  "subscribe path cb m =
     m\<lparr>gm_subscribers := obj_insert path
         ((case map_of (gm_subscribers m) path of Some cbs \<Rightarrow> cbs | None \<Rightarrow> []) @ [cb]) (gm_subscribers m)\<rparr>"

definition config_log :: "string \<Rightarrow> config_manager \<Rightarrow> config_manager" where
  "config_log msg m = (if gm_logger m then m\<lparr>gm_log := gm_log m @ [msg]\<rparr> else m)"

definition snapshot_of :: "nat \<Rightarrow> nat \<Rightarrow> json \<Rightarrow> cpp_exn + config_snapshot" where
  "snapshot_of hw version doc =
     and_then (json_from_doc doc) (\<lambda>j.
     and_then (multipart_from_doc doc) (\<lambda>mp.
     and_then (form_from_doc doc) (\<lambda>f.
     and_then (plain_from_doc doc) (\<lambda>p.
     and_then (strand_pool_from_doc hw doc) (\<lambda>s.
     and_then (timer_from_doc doc) (\<lambda>t.
     Inr \<lparr>cs_version = version, cs_json = j, cs_multipart = mp, cs_form = f, cs_plain = p, cs_strand_pool = s,
          cs_timer_mgr = t\<rparr>))))))"

text \<open>The version is counted before the sections are read.\<close>

definition rebuild_snapshot_unlocked :: "config_env \<Rightarrow> config_manager \<Rightarrow> cpp_exn option \<times> config_manager" where
  "rebuild_snapshot_unlocked env m =
     (let m = m\<lparr>gm_version_counter := gm_version_counter m + 1\<rparr>
      in case snapshot_of (ge_processors env) (gm_version_counter m) (gm_document m) of
           Inl e \<Rightarrow> (Some e, m) | Inr s \<Rightarrow> (None, m\<lparr>gm_snapshot := Some s\<rparr>))"

definition notify_subscribers_unlocked :: "json \<Rightarrow> json \<Rightarrow> config_manager \<Rightarrow> config_manager" where
  "notify_subscribers_unlocked new_doc old_doc m =
     m\<lparr>gm_calls := gm_calls m @ concat (map (\<lambda>(path, cbs).
         let old_v = json_pointer_at old_doc path; new_v = json_pointer_at new_doc path
         in if old_v = new_v then [] else map (\<lambda>cb. (cb, new_v, old_v)) cbs) (gm_subscribers m))\<rparr>"

definition loader_for :: "config_env \<Rightarrow> string \<Rightarrow> config_manager \<Rightarrow> (string \<Rightarrow> json option) option" where
  "loader_for env path m =
     (let ext = extension (path_elements path)
      in case map_of (gm_loaders m) ext of
           Some f \<Rightarrow> Some f
         | None \<Rightarrow> if ext = ''.json'' then Some (load_json_static env)
                   else if ext = ''.yml'' \<or> ext = ''.yaml'' then Some (load_yaml_static env) else None)"

definition load_file :: "config_env \<Rightarrow> string \<Rightarrow> config_manager \<Rightarrow> bool throws \<times> config_manager" where
  "load_file env path m =
     (case loader_for env path m of
        None \<Rightarrow> (Inr False, m)
      | Some loader \<Rightarrow>
          (case loader path of
             None \<Rightarrow> (Inr False, m)
           | Some doc \<Rightarrow>
               let merged = deep_merge (default_document (ge_processors env)) doc
               in case (case gm_validator m of None \<Rightarrow> None | Some v \<Rightarrow> v merged) of
                    Some err \<Rightarrow> (Inr False, config_log (''config validation failed: '' @ err) m)
                  | None \<Rightarrow>
                      let old_doc = gm_document m; m = m\<lparr>gm_document := merged, gm_last_good := merged\<rparr>
                      in case rebuild_snapshot_unlocked env m of
                           (Some e, m) \<Rightarrow> (Inl e, m)
                         | (None, m) \<Rightarrow> (Inr True, notify_subscribers_unlocked (gm_document m) old_doc m)))"

definition reload :: "config_env \<Rightarrow> config_manager \<Rightarrow> bool throws \<times> config_manager" where
  "reload env m = (if gm_path m = [] then (Inr False, m) else load_file env (gm_path m) m)"

definition config_initialize :: "config_env \<Rightarrow> string \<Rightarrow> config_manager \<Rightarrow> bool throws \<times> config_manager" where
  "config_initialize env path m = load_file env path (m\<lparr>gm_path := path\<rparr>)"

definition get_json_config :: "config_manager \<Rightarrow> json_config throws" where
  "get_json_config m = json_from_doc (gm_document m)"

definition get_multipart_config :: "config_manager \<Rightarrow> multipart_config throws" where
  "get_multipart_config m = multipart_from_doc (gm_document m)"

definition get_form_config :: "config_manager \<Rightarrow> form_config throws" where
  "get_form_config m = form_from_doc (gm_document m)"

definition get_plain_text_config :: "config_manager \<Rightarrow> plain_text_config throws" where
  "get_plain_text_config m = plain_from_doc (gm_document m)"

section \<open>The watcher\<close>

text \<open>One turn of the loop: a time of \<open>None\<close> is that of a file that cannot be read.\<close>

record config_watcher =
  gw_last_write :: "int option"
  gw_debounce_until :: int

definition watch_turn :: "int \<Rightarrow> int option \<Rightarrow> config_watcher \<Rightarrow> bool \<times> config_watcher" where
  "watch_turn now t w =
     (if gw_debounce_until w \<le> now \<and> t \<noteq> None \<and> t \<noteq> gw_last_write w
      then (True, \<lparr>gw_last_write = t, gw_debounce_until = now + 300\<rparr>) else (False, w))"

section \<open>Merging\<close>

text \<open>Each key once in every object, as nlohmann's objects have them.\<close>

fun json_ok :: "json \<Rightarrow> bool" and members_ok :: "(string \<times> json) list \<Rightarrow> bool" where
  "json_ok (JObject kvs) = (distinct (map fst kvs) \<and> members_ok kvs)"
| "json_ok _ = True"
| "members_ok [] = True"
| "members_ok ((k, v) # kvs) = (json_ok v \<and> members_ok kvs)"

lemma members_ok_find: "members_ok kvs \<Longrightarrow> map_of kvs k = Some v \<Longrightarrow> json_ok v"
  by (induction kvs) (auto split: if_splits)

lemma map_of_obj_insert_any: "map_of (obj_insert k v kvs) = (map_of kvs)(k \<mapsto> v)"
  by (induction kvs) (auto simp: fun_eq_iff)

lemma map_of_merge_members:
  "distinct (map fst s) \<Longrightarrow> map_of (merge_members d s) k =
     (case map_of s k of
        None \<Rightarrow> map_of d k
      | Some v \<Rightarrow> Some (case map_of d k of Some w \<Rightarrow> if is_object w \<and> is_object v then deep_merge w v else v | None \<Rightarrow> v))"
proof (induction s arbitrary: d)
  case (Cons a s)
  obtain k' v' where a: "a = (k', v')" by fastforce
  with Cons.prems have "map_of s k' = None" "distinct (map fst s)" by (auto simp: map_of_eq_None_iff)
  with Cons.IH show ?case by (cases "k = k'"; cases "map_of s k") (simp_all add: a map_of_obj_insert_any)
qed simp

lemma deep_merge_not_objects: "\<not> (is_object d \<and> is_object s) \<Longrightarrow> deep_merge d s = s"
  by (cases d; cases s) simp_all

text \<open>The source has a value that is no object where the path still goes on.\<close>

fun covered :: "json \<Rightarrow> string list \<Rightarrow> bool" where
  "covered j [] = False"
| "covered j (k # ks) =
     (if \<not> is_object j then True else case obj_find j k of None \<Rightarrow> False | Some v \<Rightarrow> covered v ks)"

lemma walk_deep_merge:
  "json_ok src \<Longrightarrow> walk_keys (deep_merge dst src) ks =
     (case walk_keys src ks of
        Some v \<Rightarrow> Some (case walk_keys dst ks of Some w \<Rightarrow> deep_merge w v | None \<Rightarrow> v)
      | None \<Rightarrow> if covered src ks then None else walk_keys dst ks)"
proof (induction ks arbitrary: dst src)
  case (Cons k ks)
  show ?case
  proof (cases "is_object dst \<and> is_object src")
    case False
    then show ?thesis
      by (cases "is_object src"; cases "walk_keys src (k # ks)") (auto simp: deep_merge_not_objects split: option.splits)
  next
    case True
    then obtain d s where ds: "dst = JObject d" "src = JObject s" by (cases dst; cases src) auto
    with Cons.prems have dist: "distinct (map fst s)" and ok: "members_ok s" by simp_all
    have find: "map_of (merge_members d s) k =
      (case map_of s k of None \<Rightarrow> map_of d k
       | Some v \<Rightarrow> Some (case map_of d k of Some w \<Rightarrow> deep_merge w v | None \<Rightarrow> v))"
      by (simp add: map_of_merge_members [OF dist] deep_merge_not_objects split: option.splits)
    show ?thesis
    proof (cases "map_of s k")
      case None
      then show ?thesis by (simp add: ds find)
    next
      case (Some v)
      from Cons.IH [OF members_ok_find [OF ok Some]] show ?thesis
        by (cases "map_of d k") (auto simp: ds find Some split: option.splits)
    qed
  qed
qed simp

section \<open>Loading\<close>

lemma json_value_error: "json_value get j k d = Inl e \<Longrightarrow> e = type_error"
  by (cases j) (auto split: option.splits)

lemma optional_member_error: "optional_member get j k d = Inl e \<Longrightarrow> e = type_error"
  by (auto simp: optional_member_def split: option.splits)

lemma and_then_Inl: "and_then m f = Inl e \<longleftrightarrow> m = Inl e \<or> (\<exists>x. m = Inr x \<and> f x = Inl e)"
  by (cases m) auto

lemmas section_defs = json_from_doc_def multipart_from_doc_def form_from_doc_def plain_from_doc_def
  strand_pool_from_doc_def timer_from_doc_def doc_section_def

lemma doc_section_error: "doc_section doc a b = Inl e \<Longrightarrow> e = type_error"
  by (auto simp: doc_section_def and_then_Inl dest: json_value_error)

lemma section_errors:
  "json_from_doc doc = Inl e \<Longrightarrow> e = type_error" "multipart_from_doc doc = Inl e \<Longrightarrow> e = type_error"
  "form_from_doc doc = Inl e \<Longrightarrow> e = type_error" "plain_from_doc doc = Inl e \<Longrightarrow> e = type_error"
  "strand_pool_from_doc hw doc = Inl e \<Longrightarrow> e = type_error" "timer_from_doc doc = Inl e \<Longrightarrow> e = type_error"
  unfolding json_from_doc_def multipart_from_doc_def form_from_doc_def plain_from_doc_def
    strand_pool_from_doc_def timer_from_doc_def
  by (auto simp: and_then_Inl Let_def split: if_splits dest: json_value_error optional_member_error doc_section_error)

lemma snapshot_error: "snapshot_of hw n doc = Inl e \<Longrightarrow> e = type_error"
  by (auto simp: snapshot_of_def and_then_Inl dest: section_errors)

lemma snapshot_sections:
  assumes "snapshot_of hw n doc = Inr s"
  shows "json_from_doc doc = Inr (cs_json s)" "multipart_from_doc doc = Inr (cs_multipart s)"
    "form_from_doc doc = Inr (cs_form s)" "plain_from_doc doc = Inr (cs_plain s)" "cs_version s = n"
  using assms by (auto simp: snapshot_of_def and_then_Inr)

section \<open>Properties\<close>

text \<open>
  C29: merging a file into the defaults, seen through any path of keys: what the file has there
  is there, merged into what the defaults have; where the file has nothing the default
  stays, unless the file put a value that is no object on the way.
\<close>

theorem config_merge_precedence:
  assumes "json_ok src"
  shows "walk_keys (deep_merge dst src) ks =
    (case walk_keys src ks of
       Some v \<Rightarrow> Some (case walk_keys dst ks of Some w \<Rightarrow> deep_merge w v | None \<Rightarrow> v)
     | None \<Rightarrow> if covered src ks then None else walk_keys dst ks)"
  using assms by (rule walk_deep_merge)

theorem config_merge_precedence_witness:
  "walk_keys (deep_merge (default_document 8) (JObject [(''parsers'', JObject [(''json'', JObject [(''maxDepth'', JInt 5)])])]))
     [''parsers'', ''json'', ''strict''] = Some (JBool True)"
  using config_merge_precedence [of "JObject [(''parsers'', JObject [(''json'', JObject [(''maxDepth'', JInt 5)])])]"
      "default_document 8" "[''parsers'', ''json'', ''strict'']"]
  by (simp add: default_document_def)


section \<open>Behaviours worth knowing\<close>

text \<open>The defaults written in the document are those of the structures.\<close>

lemma default_document_agrees:
  assumes "hw < 2 ^ 31"
  shows "snapshot_of hw n (default_document hw) =
    Inr \<lparr>cs_version = n, cs_json = default_json_config, cs_multipart = default_multipart_config,
         cs_form = default_form_config, cs_plain = default_plain_text_config,
         cs_strand_pool = default_strand_pool_config hw, cs_timer_mgr = default_timer_manager_config\<rparr>"
proof -
  have int32: "to_int32 i = i" if "0 \<le> i" "i < 2 ^ 31" for i
    using that by (simp add: to_int32_def sint_sbintrunc' signed_take_bit_int_eq_self)
  have size: "to_size (int hw) = hw" using assms by (simp add: to_size_def)
  show ?thesis
    using assms
    by (simp add: snapshot_of_def section_defs default_document_def default_json_config_def default_multipart_config_def
        default_form_config_def default_plain_text_config_def default_strand_pool_config_def
        default_timer_manager_config_def optional_member_def int32 size to_size_def Let_def)
qed

text \<open>Before anything is loaded the accessors throw instead of returning defaults.\<close>

lemma config_before_load_throws: "get_json_config new_config_manager = Inl type_error"
  by (simp add: get_json_config_def new_config_manager_def json_from_doc_def doc_section_def)

text \<open>A number in a YAML file is a string in the document, so that loading the file throws.\<close>

definition yaml_env :: config_env where
  "yaml_env = \<lparr>ge_json_file = (\<lambda>_. None),
     ge_yaml_file = (\<lambda>_. Some (Y_map [(Y_scalar ''parsers'', Y_map [(Y_scalar ''json'', Y_map [(Y_scalar ''maxDepth'', Y_scalar ''50'')])])])),
     ge_processors = 8\<rparr>"

lemma yaml_number_throws: "fst (load_file yaml_env ''app.yaml'' new_config_manager) = Inl type_error"
proof -
  let ?doc = "JObject [(''parsers'', JObject [(''json'', JObject [(''maxDepth'', JString ''50'')])])]"
  have "loader_for yaml_env ''app.yaml'' new_config_manager = Some (load_yaml_static yaml_env)"
    by (simp add: loader_for_def new_config_manager_def extension_def path_elements_def Let_def)
  moreover have "load_yaml_static yaml_env ''app.yaml'' = Some ?doc"
    by (simp add: load_yaml_static_def yaml_env_def)
  moreover have "json_from_doc (deep_merge (default_document 8) ?doc) = Inl type_error"
    by (simp add: json_from_doc_def doc_section_def default_document_def map_of_merge_members Let_def del: merge_members.simps)
  ultimately show ?thesis
    by (simp add: load_file_def rebuild_snapshot_unlocked_def snapshot_of_def new_config_manager_def yaml_env_def Let_def
        del: merge_members.simps)
qed

text \<open>A file whose top level is no object replaces the defaults altogether, and loading it throws.\<close>

lemma array_file_replaces_document:
  assumes "ge_json_file env ''c.json'' = Some (JArray [])"
  shows "gm_document (snd (load_file env ''c.json'' new_config_manager)) = JArray []"
    "fst (load_file env ''c.json'' new_config_manager) = Inl type_error"
proof -
  have "loader_for env ''c.json'' new_config_manager = Some (load_json_static env)"
    by (simp add: loader_for_def new_config_manager_def extension_def path_elements_def Let_def)
  with assms show "gm_document (snd (load_file env ''c.json'' new_config_manager)) = JArray []"
    "fst (load_file env ''c.json'' new_config_manager) = Inl type_error"
    by (simp_all add: load_file_def load_json_static_def new_config_manager_def deep_merge_not_objects
        rebuild_snapshot_unlocked_def snapshot_of_def json_from_doc_def doc_section_def Let_def)
qed

text \<open>The watcher loads a file once for each time of writing that it sees.\<close>

lemma watch_turn_once:
  "watch_turn now t w = (True, w') \<Longrightarrow> \<not> fst (watch_turn now' t w')"
  by (auto simp: watch_turn_def split: if_splits)

end
