(* ===== verification/Router_Dispatch.thy ===== *)
theory Router_Dispatch
  imports Route_Table Session
begin

text \<open>
  include/foxhttp/handler/api_handler.hpp and callable_api_handler.hpp, and the terminal
  middleware of examples/detail/router_dispatch_middleware.hpp, which is how a server answers
  its requests from a router: the handler interface, the dispatch on the resolved route with
  the 404 and 405 answers, and both operators.
\<close>

section \<open>Handlers\<close>

text \<open>
  \<open>ApiHandler::handle_request\<close> changes the context and the response and may throw. A
  \<open>CallableApiHandler\<close> keeps a callable of that signature and calls it.
\<close>

type_synonym 'x api_handler = "'x world \<Rightarrow> cpp_exn option \<times> 'x world"

record 'x callable_api_handler =
  ch_fn :: "'x api_handler"

definition make_api_handler :: "'x api_handler \<Rightarrow> 'x callable_api_handler" where
  "make_api_handler fn = \<lparr>ch_fn = fn\<rparr>"

definition handle_request :: "'x callable_api_handler \<Rightarrow> 'x world \<Rightarrow> cpp_exn option \<times> 'x world" where
  "handle_request h w = ch_fn h w"

section \<open>Dispatch\<close>

definition set_404_response :: "http_response \<Rightarrow> http_response" where
  "set_404_response res =
     res_set_body ''Not Found'' (res_set ''Content-Type'' ''text/plain'' (res_result 404 res))"

text \<open>The loop that builds the \<open>Allow\<close> header; the flag is \<open>i > 0\<close>.\<close>

fun allow_loop :: "bool \<Rightarrow> string \<Rightarrow> verb list \<Rightarrow> string" where
  "allow_loop later acc [] = acc"
| "allow_loop later acc (v # vs) =
     allow_loop True ((if later then acc @ '', '' else acc) @ verb_to_string v) vs"

definition set_405_response :: "verb list \<Rightarrow> http_response \<Rightarrow> http_response" where
  "set_405_response allowed res =
     res_set_body ''Method Not Allowed''
       (res_set ''Allow'' (allow_loop False [] allowed)
         (res_set ''Content-Type'' ''text/plain'' (res_result 405 res)))"

text \<open>
  \<open>router\<close> is the middleware's own router, if it was given one, and \<open>glob\<close> the table of the
  global router, which is asked without a method.
\<close>

definition dispatch ::
  "'x callable_api_handler route_table option \<Rightarrow> 'x callable_api_handler route_table \<Rightarrow> 'x world \<Rightarrow>
   cpp_exn option \<times> 'x world" where
  "dispatch router glob w =
     (let ctx = w_ctx w; m = ctx_method ctx
      in case router of
           Some t \<Rightarrow>
             (let ((handler, allowed), ctx) = resolver_with_method t (ctx_path ctx) m ctx;
                  w = w\<lparr>w_ctx := ctx\<rparr>
              in case handler of
                   Some h \<Rightarrow> handle_request h w
                 | None \<Rightarrow>
                     if allowed \<noteq> [] then (None, w\<lparr>w_res := set_405_response allowed (w_res w)\<rparr>)
                     else (None, w\<lparr>w_res := set_404_response (w_res w)\<rparr>))
         | None \<Rightarrow>
             (let (handler, ctx) = resolve_route glob (ctx_path ctx) ctx;
                  w = w\<lparr>w_ctx := ctx\<rparr>
              in case handler of
                   Some h \<Rightarrow> handle_request h w
                 | None \<Rightarrow> (None, w\<lparr>w_res := set_404_response (w_res w)\<rparr>)))"

definition dispatch_sync ::
  "'x callable_api_handler route_table option \<Rightarrow> 'x callable_api_handler route_table \<Rightarrow> 'x world \<Rightarrow> 'x mw_prog" where
  "dispatch_sync router glob w =
     (case dispatch router glob w of (None, w) \<Rightarrow> Done w | (Some e, w) \<Rightarrow> Raise e w)"

definition dispatch_async ::
  "'x callable_api_handler route_table option \<Rightarrow> 'x callable_api_handler route_table \<Rightarrow> 'x world \<Rightarrow> 'x async_prog" where
  "dispatch_async router glob w =
     (case dispatch router glob w of
        (None, w) \<Rightarrow> A_Callback R_Stop [] w A_Done
      | (Some e, w) \<Rightarrow> if is_std_exception e then A_Callback R_Error (what e) w A_Done else A_Raise e w)"

definition router_dispatch_middleware ::
  "nat \<Rightarrow> 'x callable_api_handler route_table option \<Rightarrow> 'x callable_api_handler route_table \<Rightarrow> 'x middleware" where
  "router_dispatch_middleware i router glob =
     (base_middleware i (dispatch_sync router glob))
       \<lparr>mw_name := ''RouterDispatch'', mw_priority := Highest, mw_async := dispatch_async router glob\<rparr>"

lemma dispatch_middleware_sels [simp]:
  "mw_sync (router_dispatch_middleware i router glob) = dispatch_sync router glob"
  "mw_async (router_dispatch_middleware i router glob) = dispatch_async router glob"
  "mw_should_execute (router_dispatch_middleware i router glob) = (\<lambda>_. True)"
  "mw_priority (router_dispatch_middleware i router glob) = Highest"
  by (simp_all add: router_dispatch_middleware_def base_middleware_def)

section \<open>Answers\<close>

text \<open>The methods of an \<open>Allow\<close> header can be read back from it.\<close>

fun joined :: "string list \<Rightarrow> string" where
  "joined [] = []"
| "joined [s] = s"
| "joined (s # ss) = s @ '', '' @ joined ss"

lemma allow_loop_later: "allow_loop True acc vs = acc @ concat (map (\<lambda>v. '', '' @ verb_to_string v) vs)"
  by (induction vs arbitrary: acc) simp_all

lemma joined_cons: "joined (s # ss) = s @ concat (map (\<lambda>t. '', '' @ t) ss)"
  by (induction ss arbitrary: s) simp_all

lemma allow_header_joined: "allow_loop False [] vs = joined (map verb_to_string vs)"
  by (cases vs) (simp_all add: allow_loop_later joined_cons comp_def)

text \<open>A request whose path no route knows is answered 404, one whose route has another method 405.\<close>

lemma dispatch_unresolved:
  assumes "resolve_route_with_method t (ctx_path (w_ctx w)) (ctx_method (w_ctx w)) (w_ctx w) = ((None, ms), ctx)"
  shows "dispatch (Some t) glob w =
    (None, w\<lparr>w_ctx := ctx, w_res := if ms = [] then set_404_response (w_res w) else set_405_response ms (w_res w)\<rparr>)"
  using assms by (simp add: dispatch_def resolver_with_method_def Let_def)

lemma dispatch_resolved:
  assumes "resolve_route_with_method t (ctx_path (w_ctx w)) (ctx_method (w_ctx w)) (w_ctx w) = ((Some h, ms), ctx)"
  shows "dispatch (Some t) glob w = handle_request h (w\<lparr>w_ctx := ctx\<rparr>)"
  using assms by (simp add: dispatch_def resolver_with_method_def Let_def)

text \<open>
  The router of a middleware that was not given one is asked without a method: a route
  registered for a method is not found there.
\<close>

lemma global_router_misses_method_routes:
  assumes "map_of (rt_static glob) (normalize_path (ctx_path (w_ctx w))) = Some r" and "sr_method r \<noteq> Verb_unknown"
  shows "dispatch None glob w = (None, w\<lparr>w_res := set_404_response (w_res w)\<rparr>)"
  using assms by (cases w) (simp add: dispatch_def resolve_route_def resolve_route_with_method_def method_matches_def Let_def)

section \<open>Runs that end in a dispatch\<close>

text \<open>
  The pipeline's last middleware, started asynchronously: the run completes within the call
  with the world the dispatch left, or throws what is no standard exception.
\<close>

lemma dispatch_step:
  assumes "run_open env r" and "ar_index r < length (ae_pipeline env)"
    and "ae_pipeline env ! ar_index r = router_dispatch_middleware i router glob"
    and "dispatch router glob (ar_world r) = (e, w)" and "\<forall>x. e = Some x \<longrightarrow> is_std_exception x"
    and "\<not> ar_finished r" and "ae_has_callback env"
  shows "\<exists>r'. execute_next_async_step (Suc n) env r = Some (None, r') \<and> ar_world r' = w \<and>
     ar_finished r' \<and> ar_index r' = Suc (ar_index r) \<and>
     ar_completions r' = ar_completions r @ [case e of None \<Rightarrow> (R_Stop, []) | Some x \<Rightarrow> (R_Error, what x)]"
proof -
  have "may_start_async env r" using assms(1,2) by (simp add: may_start_async_def run_open_def)
  moreover have "ar_finished (drop_mw_timer ((started env r)\<lparr>ar_world := w\<rparr>)) = ar_finished r"
    "ar_index (drop_mw_timer ((started env r)\<lparr>ar_world := w\<rparr>)) = Suc (ar_index r)"
    "ar_completions (drop_mw_timer ((started env r)\<lparr>ar_world := w\<rparr>)) = ar_completions r"
    by (simp_all add: drop_mw_timer_def started_def setup_middleware_timeout_def Let_def)
  ultimately show ?thesis
    using assms(3-7)
    by (cases e) (simp_all add: async_start_step dispatch_async_def async_callback_def handle_middleware_result_run_def
        after_async_body_def complete_async_run_def try_finish_run_def count_result_def run_open_keeps Let_def
        del: execute_next_async_step.simps)
qed

end
