(* ===== verification/Request_Flow.thy ===== *)
theory Request_Flow
  imports Router_Dispatch
begin

text \<open>
  How a request passes through a whole pipeline: middlewares that work around one call of
  \<open>next()\<close>, then one that answers. The reference is the composition of their effects; the
  chain computes it both when it runs synchronously and, with middlewares that use the
  default asynchronous operator, when a session runs it asynchronously.
\<close>

section \<open>Reference\<close>

text \<open>The world that reaches the end of the wrappers, and what they make of the answer given there.\<close>

fun inner :: "'x wrapper list \<Rightarrow> 'x world \<Rightarrow> 'x world" where
  "inner [] w = w"
| "inner (x # xs) w = inner xs (if mw_should_execute (wr_mw x) (w_ctx w) then wr_pre x w else w)"

fun around :: "'x wrapper list \<Rightarrow> 'x world \<Rightarrow> 'x world \<Rightarrow> 'x world" where
  "around [] w a = a"
| "around (x # xs) w a =
     (if mw_should_execute (wr_mw x) (w_ctx w) then wr_post x (around xs (wr_pre x w) a) else around xs w a)"

lemma onion_around: "onion xs w = around xs w (inner xs w)"
  by (induction xs arbitrary: w) simp_all

section \<open>Synchronous runs\<close>

lemma sync_reaches:
  assumes "\<forall>x\<in>set xs. wraps x" and "re_global_timeout env \<le> 0" and "\<not> re_paused env"
    and "drop (sy_index r) (re_pipeline env) = map wr_mw xs @ m # ms"
    and "\<not> sy_cancelled r" and "\<not> sy_timed_out r"
    and "mw_should_execute m (w_ctx (inner xs (sy_world r)))" and "mw_sync m (inner xs (sy_world r)) = Done a"
    and "length xs < n"
  shows "\<exists>r'. execute_next_sync n env r = Some (None, r') \<and> sy_world r' = around xs (sy_world r) a"
  using assms
proof (induction xs arbitrary: r n)
  case Nil
  then obtain n' where n: "n = Suc n'" by (cases n) auto
  have "re_pipeline env ! sy_index r = m" "sy_index r < length (re_pipeline env)"
    using Nil.prems(4) by (metis append_Nil list.simps(8) nth_via_drop) (metis Nil.prems(4) append_Nil drop_all list.simps(3,8) not_le)
  with Nil.prems show ?case
    by (simp add: n sync_step may_start_def after_body_def Let_def del: execute_next_sync.simps)
next
  case (Cons x xs)
  let ?r = "r\<lparr>sy_index := sy_index r + 1\<rparr>"
  obtain n' where n: "n = Suc n'" "length xs < n'" using Cons.prems(9) by (cases n) auto
  have less: "sy_index r < length (re_pipeline env)" using Cons.prems(4) by (metis append_Cons drop_all list.simps(3,9) not_le)
  then have m: "re_pipeline env ! sy_index r = wr_mw x" and rest: "drop (sy_index ?r) (re_pipeline env) = map wr_mw xs @ m # ms"
    using Cons.prems(4) Cons_nth_drop_Suc [OF less] by auto
  have start: "may_start env r" using Cons.prems less by (simp add: may_start_def)
  show ?case
  proof (cases "mw_should_execute (wr_mw x) (w_ctx (sy_world r))")
    case True
    obtain r1 where r1: "execute_next_sync n' env (?r\<lparr>sy_world := wr_pre x (sy_world r)\<rparr>) = Some (None, r1)"
        "sy_world r1 = around xs (wr_pre x (sy_world r)) a"
      using Cons.prems rest True n Cons.IH [of "?r\<lparr>sy_world := wr_pre x (sy_world r)\<rparr>" n'] by auto
    then have "run_body (execute_next_sync n' env) (mw_sync (wr_mw x) (sy_world r)) ?r =
        Some (None, r1\<lparr>sy_world := wr_post x (sy_world r1)\<rparr>)"
      using Cons.prems(1) by (simp add: wraps_def del: execute_next_sync.simps)
    with start True m r1 n(1) show ?thesis
      by (auto simp: sync_step Let_def after_body_def simp del: execute_next_sync.simps)
  next
    case False
    have "\<exists>r'. execute_next_sync n' env ?r = Some (None, r') \<and> sy_world r' = around xs (sy_world ?r) a"
      using Cons.prems rest False n by (intro Cons.IH) simp_all
    with start False m n(1) show ?thesis by (simp add: sync_step Let_def del: execute_next_sync.simps)
  qed
qed

lemma execute_reaches:
  assumes "mc_mws c = map wr_mw xs @ m # ms" and "\<forall>x\<in>set xs. wraps x"
    and "mc_global_timeout c \<le> 0" and "\<not> mc_paused c"
    and "mw_should_execute m (w_ctx (inner xs w))" and "mw_sync m (inner xs w) = Done a"
  shows "\<exists>st' c'. execute run c st w = Some (None, around xs w a, st', c')"
proof -
  have "\<exists>r'. execute_next_sync (Suc (length (mc_mws c))) (env_of_chain c) (new_sync_run st w) = Some (None, r') \<and>
      sy_world r' = around xs (sy_world (new_sync_run st w)) a"
    using assms by (intro sync_reaches) (simp_all add: env_of_chain_def new_sync_run_def)
  with assms(1) show ?thesis by (auto simp: execute_def new_sync_run_def Let_def simp del: execute_next_sync.simps)
qed

section \<open>Asynchronous runs\<close>

text \<open>
  With the default asynchronous operator a middleware that does not call \<open>next()\<close> is
  followed by the rest of the pipeline all the same: it counts as one that works before it.
\<close>

definition passes_on :: "'x wrapper \<Rightarrow> bool" where
  "passes_on x = (has_default_async (wr_mw x) \<and>
     (\<forall>w. mw_sync (wr_mw x) w = Call_next (wr_pre x w) (\<lambda>w. Done (wr_post x w)) \<or>
          (mw_sync (wr_mw x) w = Done (wr_pre x w) \<and> wr_post x = id)))"

definition run_over :: "'x async_env \<Rightarrow> 'x async_run \<Rightarrow> bool" where
  "run_over env r = (ar_finished r \<and> length (ae_pipeline env) \<le> ar_index r)"

lemma run_over_step: "run_over env r \<Longrightarrow> execute_next_async_step (Suc n) env r = Some (None, r)"
  by (simp add: run_over_def complete_async_run_def try_finish_run_def Let_def)

lemma run_over_keeps:
  "run_over env (drop_mw_timer r) = run_over env r" "run_over env (count_result env m t res r) = run_over env r"
  "run_over env (r\<lparr>ar_world := w\<rparr>) = run_over env r"
  "ar_completions (drop_mw_timer r) = ar_completions r" "ar_completions (count_result env m t res r) = ar_completions r"
  by (simp_all add: run_over_def drop_mw_timer_def count_result_def Let_def)

lemma started_keeps:
  "ar_finished (started env r) = ar_finished r" "ar_completions (started env r) = ar_completions r"
  "ar_index (started env r) = Suc (ar_index r)"
  by (simp_all add: started_def setup_middleware_timeout_def Let_def)

text \<open>The callback after \<open>next()\<close> has run the rest of the pipeline changes only the statistics.\<close>

lemma late_callback:
  assumes "run_over env r"
  shows "\<exists>r'. async_callback env (execute_next_async_step (Suc n) env) m t R_Continue [] r = Some (None, r') \<and>
    run_over env r' \<and> ar_world r' = ar_world r \<and> ar_completions r' = ar_completions r"
  using assms run_over_step [of env "count_result env m t R_Continue (drop_mw_timer r)" n]
  by (simp add: async_callback_def handle_middleware_result_run_def run_over_keeps run_open_keeps
      del: execute_next_async_step.simps)

text \<open>One wrapper around a rest of the pipeline that completes the run.\<close>

lemma passing_step:
  fixes env r
  defines "m \<equiv> ae_pipeline env ! ar_index r"
  assumes "passes_on x" and "m = wr_mw x" and "may_start_async env r" and "mw_should_execute m (w_ctx (ar_world r))"
    and rest: "\<And>r1. ar_index r1 = Suc (ar_index r) \<Longrightarrow> run_open env r1 = run_open env r \<Longrightarrow> ar_finished r1 = ar_finished r \<Longrightarrow>
      ar_completions r1 = ar_completions r \<Longrightarrow> ar_world r1 = wr_pre x (ar_world r) \<Longrightarrow>
      \<exists>r2. execute_next_async_step (Suc n) env r1 = Some (None, r2) \<and> run_over env r2 \<and> ar_world r2 = a \<and> ar_completions r2 = cs"
  shows "\<exists>r'. execute_next_async_step (Suc (Suc n)) env r = Some (None, r') \<and> run_over env r' \<and>
    ar_world r' = wr_post x a \<and> ar_completions r' = cs"
proof -
  let ?s = "(started env r)\<lparr>ar_world := wr_pre x (ar_world r)\<rparr>" and ?t = "w_now (ar_world r)"
  let ?nxt = "\<lambda>r. execute_next_async_step (Suc n) env (drop_mw_timer r)"
  let ?cb = "async_callback env (execute_next_async_step (Suc n) env) m ?t"
  have keeps: "ar_index (drop_mw_timer q) = ar_index q" "ar_finished (drop_mw_timer q) = ar_finished q"
    "ar_index (count_result env m t res q) = ar_index q" "ar_finished (count_result env m t res q) = ar_finished q" for q t res
    by (simp_all add: drop_mw_timer_def count_result_def Let_def)
  have "\<exists>r'. run_async_body ?nxt ?cb (mw_async m (ar_world r)) (started env r) = Some (None, r') \<and> run_over env r' \<and>
      ar_world r' = wr_post x a \<and> ar_completions r' = cs"
  proof (cases "mw_sync m (ar_world r) = Call_next (wr_pre x (ar_world r)) (\<lambda>w. Done (wr_post x w))")
    case True
    obtain r2 where r2: "?nxt ?s = Some (None, r2)" "run_over env r2" "ar_world r2 = a" "ar_completions r2 = cs"
      using rest [of "drop_mw_timer ?s"] by (auto simp: started_keeps run_open_keeps run_over_keeps keeps)
    obtain r3 where "?cb R_Continue [] (r2\<lparr>ar_world := wr_post x a\<rparr>) = Some (None, r3)" "run_over env r3"
        "ar_world r3 = wr_post x a" "ar_completions r3 = cs"
      using late_callback [of env "r2\<lparr>ar_world := wr_post x a\<rparr>" n m ?t] r2 by (auto simp: run_over_keeps)
    with True r2 assms(2,3) show ?thesis
      by (simp add: passes_on_def has_default_async_def run_over_keeps del: execute_next_async_step.simps)
  next
    case False
    with assms(2,3) have d: "mw_sync m (ar_world r) = Done (wr_pre x (ar_world r))" "wr_post x = id"
      by (auto simp: passes_on_def)
    obtain r2 where "?cb R_Continue [] ?s = Some (None, r2)" "run_over env r2" "ar_world r2 = a" "ar_completions r2 = cs"
      using rest [of "count_result env m ?t R_Continue (drop_mw_timer ?s)"]
      by (auto simp: async_callback_def handle_middleware_result_run_def started_keeps run_open_keeps run_over_keeps keeps
          simp del: execute_next_async_step.simps)
    with d assms(2,3) show ?thesis
      by (simp add: passes_on_def has_default_async_def run_over_keeps del: execute_next_async_step.simps)
  qed
  then obtain r' where body: "run_async_body ?nxt ?cb (mw_async m (ar_world r)) (started env r) = Some (None, r')"
      "run_over env r' \<and> ar_world r' = wr_post x a \<and> ar_completions r' = cs" by blast
  have "execute_next_async_step (Suc (Suc n)) env r = Some (None, r')"
    using assms(5) body(1) unfolding async_start_step [OF assms(4)] m_def [symmetric] Let_def
    by (simp add: after_async_body_def del: execute_next_async_step.simps)
  with body(2) show ?thesis by blast
qed

lemma async_reaches:
  fixes glob
  assumes "\<forall>x\<in>set xs. passes_on x" and "ae_has_callback env" and "run_open env r" and "\<not> ar_finished r"
    and "drop (ar_index r) (ae_pipeline env) = map wr_mw xs @ [router_dispatch_middleware i router glob]"
    and "dispatch router glob (inner xs (ar_world r)) = (e, a)" and "\<forall>y. e = Some y \<longrightarrow> is_std_exception y"
    and "length xs < n"
  shows "\<exists>r'. execute_next_async_step n env r = Some (None, r') \<and> run_over env r' \<and>
    ar_world r' = around xs (ar_world r) a \<and>
    ar_completions r' = ar_completions r @ [case e of None \<Rightarrow> (R_Stop, []) | Some y \<Rightarrow> (R_Error, what y)]"
  using assms
proof (induction xs arbitrary: r n)
  case Nil
  then obtain n' where n: "n = Suc n'" by (cases n) auto
  let ?m = "router_dispatch_middleware i router glob"
  have len: "Suc (ar_index r) = length (ae_pipeline env)"
    using arg_cong [OF Nil.prems(5), of length] by simp
  then have "ae_pipeline env ! ar_index r = ?m" using nth_via_drop [of "ar_index r" "ae_pipeline env" ?m "[]"] Nil.prems(5) by simp
  with dispatch_step [OF Nil.prems(3) _ this, of e a n'] Nil.prems len show ?case
    by (auto simp: n run_over_def simp del: execute_next_async_step.simps)
next
  case (Cons x xs)
  obtain n' where n: "n = Suc (Suc n')" "length xs < Suc n'" using Cons.prems(8) by (cases n rule: nat.exhaust; cases "n - 1") auto
  let ?ms = "map wr_mw xs @ [router_dispatch_middleware i router glob]"
  have less: "ar_index r < length (ae_pipeline env)" using Cons.prems(5) by (metis append_Cons drop_all list.simps(3,9) not_le)
  then have m: "ae_pipeline env ! ar_index r = wr_mw x" and rest: "drop (Suc (ar_index r)) (ae_pipeline env) = ?ms"
    using Cons.prems(5) Cons_nth_drop_Suc [OF less] by auto
  have start: "may_start_async env r" using Cons.prems(3) less by (simp add: may_start_async_def run_open_def)
  show ?case
  proof (cases "mw_should_execute (wr_mw x) (w_ctx (ar_world r))")
    case True
    let ?cs = "ar_completions r @ [case e of None \<Rightarrow> (R_Stop, []) | Some y \<Rightarrow> (R_Error, what y)]"
    have ih: "\<exists>r2. execute_next_async_step (Suc n') env r1 = Some (None, r2) \<and> run_over env r2 \<and>
        ar_world r2 = around xs (wr_pre x (ar_world r)) a \<and> ar_completions r2 = ?cs"
      if "ar_index r1 = Suc (ar_index r)" "run_open env r1 = run_open env r" "ar_finished r1 = ar_finished r"
        "ar_completions r1 = ar_completions r" "ar_world r1 = wr_pre x (ar_world r)" for r1
      using Cons.IH [of r1 "Suc n'"] Cons.prems that rest True n(2) by simp
    have "\<exists>r'. execute_next_async_step (Suc (Suc n')) env r = Some (None, r') \<and> run_over env r' \<and>
        ar_world r' = wr_post x (around xs (wr_pre x (ar_world r)) a) \<and> ar_completions r' = ?cs"
      using Cons.prems(1) m start True by (intro passing_step ih) simp_all
    with True n(1) show ?thesis by simp
  next
    case False
    have "\<exists>r'. execute_next_async_step (Suc n') env (r\<lparr>ar_index := ar_index r + 1\<rparr>) = Some (None, r') \<and> run_over env r' \<and>
        ar_world r' = around xs (ar_world (r\<lparr>ar_index := ar_index r + 1\<rparr>)) a \<and>
        ar_completions r' = ar_completions (r\<lparr>ar_index := ar_index r + 1\<rparr>) @
          [case e of None \<Rightarrow> (R_Stop, []) | Some y \<Rightarrow> (R_Error, what y)]"
      using Cons.prems rest False n(2) by (intro Cons.IH) (simp_all add: run_open_def)
    with False m n(1) async_start_step [OF start, of "Suc n'"] show ?thesis by (simp del: execute_next_async_step.simps)
  qed
qed

text \<open>
  What a session sends for a request: the answer of the resolved handler, or 404 or 405, with
  the effects of the middlewares around it. The answer is the same whether or not the
  handler threw a standard exception.
\<close>

lemma chain_response_dispatch:
  fixes env :: "'x session_env"
  defines "ae \<equiv> se_chain env"
  assumes "ae_pipeline ae = map wr_mw xs @ [router_dispatch_middleware i router glob]" and "\<forall>x\<in>set xs. passes_on x"
    and "ae_has_callback ae" and "ae_global_timeout ae \<le> 0" and "\<not> cv_paused cv"
    and "\<forall>y. fst (dispatch router glob (inner xs w)) = Some y \<longrightarrow> is_std_exception y"
    and w: "w = \<lparr>w_ctx = new_request_context rq, w_res = res, w_now = cv_now cv, w_ext = cv_ext cv\<rparr>"
  shows "chain_response env cv res rq =
    Some (res_prepare_payload (w_res (around xs w (snd (dispatch router glob (inner xs w))))))"
proof -
  let ?r = "new_async_run ae False (cv_stats cv) w"
  obtain e a where d: "dispatch router glob (inner xs w) = (e, a)" by fastforce
  have "\<exists>r'. execute_next_async_step (Suc (length (ae_pipeline ae))) ae ?r = Some (None, r') \<and> run_over ae r' \<and>
      ar_world r' = around xs (ar_world ?r) a \<and>
      ar_completions r' = ar_completions ?r @ [case e of None \<Rightarrow> (R_Stop, []) | Some y \<Rightarrow> (R_Error, what y)]"
    using assms d by (intro async_reaches) (simp_all add: new_async_run_def run_open_def Let_def)
  with assms(2,6) d w show ?thesis
    by (auto simp: chain_response_def execute_async_def new_async_run_def ae_def Let_def simp del: execute_next_async_step.simps)
qed

end
