(* ===== verification/Shared_Chain.thy ===== *)
theory Shared_Chain
  imports Middleware_Async
begin

text \<open>
  One \<open>MiddlewareChain\<close> (src/middleware/middleware_chain.cpp) as all sessions of a server
  share it: the chain, the statistics in its middlewares, and every asynchronous run started
  so far with the snapshot of the pipeline and the handlers that \<open>execute_async\<close> took. Runs
  of different requests, changes of the chain, pausing and cancelling may be interleaved in
  any order; each is one event.
\<close>

section \<open>State\<close>

record 'x shared_run =
  hr_env :: "'x async_env"
  hr_run :: "'x async_run"

text \<open>A run is known by its position; \<open>mc_active_runs\<close> holds the positions of the active ones.\<close>

record 'x shared_chain =
  sc_chain :: "'x chain"
  sc_stats :: "nat \<Rightarrow> mw_stats"
  sc_runs :: "'x shared_run list"

definition new_shared :: "'x chain \<Rightarrow> (nat \<Rightarrow> mw_stats) \<Rightarrow> 'x shared_chain" where
  "new_shared c st = \<lparr>sc_chain = c\<lparr>mc_active_runs := []\<rparr>, sc_stats = st, sc_runs = []\<rparr>"

text \<open>What \<open>execute_async\<close> copies out of the chain under its lock.\<close>

definition snapshot_env :: "bool \<Rightarrow> 'x chain \<Rightarrow> 'x async_env" where
  "snapshot_env callback c =
     \<lparr>ae_pipeline = mc_mws c, ae_eh = mc_error_handler c, ae_th = mc_timeout_handler c,
      ae_global_timeout = mc_global_timeout c, ae_stats = mc_statistics_enabled c,
      ae_has_callback = callback, ae_has_io = mc_has_io_context c\<rparr>"

section \<open>Operations\<close>

text \<open>\<open>try_finish_run\<close> takes the run off the list of active ones when it finishes it.\<close>

definition settle :: "nat \<Rightarrow> 'x async_run \<Rightarrow> 'x chain \<Rightarrow> 'x chain" where
  "settle i r c = (if ar_finished r then unregister_run i c else c)"

definition start_run :: "bool \<Rightarrow> 'x world \<Rightarrow> 'x shared_chain \<Rightarrow> 'x shared_chain" where
  "start_run callback w s =
     (let c = sc_chain s; i = length (sc_runs s); env = snapshot_env callback c
      in case execute_async env (mc_paused c) (sc_stats s) w of
           None \<Rightarrow> s
         | Some (x, r) \<Rightarrow>
             \<lparr>sc_chain = (if mc_mws c = [] then c else settle i r (register_run i c)),
              sc_stats = ar_stats r, sc_runs = sc_runs s @ [\<lparr>hr_env = env, hr_run = r\<rparr>]\<rparr>)"

text \<open>
  An event of one run. The step reads the chain's pause flag and I/O context, and the
  statistics of the middlewares, as they are now.
\<close>

definition run_now :: "'x shared_chain \<Rightarrow> 'x shared_run \<Rightarrow> 'x async_event \<Rightarrow> 'x async_run" where
  "run_now s h e =
     async_step ((hr_env h)\<lparr>ae_has_io := mc_has_io_context (sc_chain s)\<rparr>)
       ((hr_run h)\<lparr>ar_paused := mc_paused (sc_chain s), ar_stats := sc_stats s\<rparr>) e"

definition run_event :: "nat \<Rightarrow> 'x async_event \<Rightarrow> 'x shared_chain \<Rightarrow> 'x shared_chain" where
  "run_event i e s =
     (if i < length (sc_runs s) then
        let h = sc_runs s ! i; r = run_now s h e
        in \<lparr>sc_chain = settle i r (sc_chain s), sc_stats = ar_stats r, sc_runs = (sc_runs s)[i := h\<lparr>hr_run := r\<rparr>]\<rparr>
      else s)"

text \<open>\<open>MiddlewareChain::cancel\<close>: the loop over a copy of the active runs.\<close>

fun cancel_loop :: "nat list \<Rightarrow> 'x shared_run list \<Rightarrow> 'x shared_run list" where
  "cancel_loop [] hs = hs"
| "cancel_loop (i # is) hs =
     cancel_loop is (hs[i := (hs ! i)\<lparr>hr_run := cancel_run (hr_run (hs ! i))\<rparr>])"

definition chain_cancel :: "'x shared_chain \<Rightarrow> 'x shared_chain" where
  "chain_cancel s = s\<lparr>sc_runs := cancel_loop (mc_active_runs (sc_chain s)) (sc_runs s)\<rparr>"

datatype 'x shared_event =
    Start_run bool "'x world"
  | Run_event nat "'x async_event"
  | Configure "'x chain_event"
  | Set_error_handler "('x world \<Rightarrow> cpp_exn \<Rightarrow> 'x world) option"
  | Set_timeout_handler "('x world \<Rightarrow> 'x world) option"
  | Set_io_context
  | Reset_statistics
  | Cancel_chain

text \<open>Cancelling and pausing reach a run through the chain only.\<close>

fun shared_step :: "'x mw_sort \<Rightarrow> 'x shared_chain \<Rightarrow> 'x shared_event \<Rightarrow> 'x shared_chain" where
  "shared_step srt s (Start_run callback w) = start_run callback w s"
| "shared_step srt s (Run_event i e) =
     (case e of Ev_cancel \<Rightarrow> s | Ev_pause b \<Rightarrow> s | _ \<Rightarrow> run_event i e s)"
| "shared_step srt s (Configure e) = s\<lparr>sc_chain := chain_step srt (sc_chain s) e\<rparr>"
| "shared_step srt s (Set_error_handler h) = s\<lparr>sc_chain := set_error_handler h (sc_chain s)\<rparr>"
| "shared_step srt s (Set_timeout_handler h) = s\<lparr>sc_chain := set_timeout_handler h (sc_chain s)\<rparr>"
| "shared_step srt s Set_io_context = s\<lparr>sc_chain := set_io_context (sc_chain s)\<rparr>"
| "shared_step srt s Reset_statistics = s\<lparr>sc_stats := reset_statistics (sc_chain s) (sc_stats s)\<rparr>"
| "shared_step srt s Cancel_chain = chain_cancel s"

section \<open>Invariant\<close>

text \<open>
  The active runs are those not finished, each once, and every run is in a state of the
  machine of \<open>Middleware_Async\<close> for its own snapshot.
\<close>

definition shared_inv :: "'x shared_chain \<Rightarrow> bool" where
  "shared_inv s \<longleftrightarrow> distinct (mc_active_runs (sc_chain s)) \<and>
     set (mc_active_runs (sc_chain s)) = {i. i < length (sc_runs s) \<and> \<not> ar_finished (hr_run (sc_runs s ! i))} \<and>
     (\<forall>i<length (sc_runs s). async_inv (hr_env (sc_runs s ! i)) (hr_run (sc_runs s ! i)))"

lemma async_inv_io [simp]: "async_inv (env\<lparr>ae_has_io := b\<rparr>) r = async_inv env r"
  by (simp add: async_inv_def)

lemma async_inv_view [simp]: "async_inv env (r\<lparr>ar_paused := b, ar_stats := st\<rparr>) = async_inv env r"
  by (simp add: async_inv_def)

lemma cancel_run_sels [simp]:
  "ar_finished (cancel_run r) = ar_finished r" "ar_index (cancel_run r) = ar_index r" "ar_cancelled (cancel_run r)"
  "ar_completions (cancel_run r) = ar_completions r" "async_inv env (cancel_run r) = async_inv env r"
  by (simp_all add: cancel_run_def async_inv_def)

lemma chain_step_runs [simp]:
  "mc_active_runs (chain_step srt c e) = mc_active_runs c"
  "mc_has_io_context (chain_step srt c e) = mc_has_io_context c"
  by (cases e; simp add: chain_use_def chain_use_all_def insert_by_priority_def sort_middlewares_by_priority_def
      chain_remove_def chain_clear_def set_global_timeout_def enable_statistics_def chain_pause_def chain_resume_def Let_def)+

lemma settle_sels [simp]:
  "mc_active_runs (settle i r c) = (if ar_finished r then filter (\<lambda>x. x \<noteq> i) (mc_active_runs c) else mc_active_runs c)"
  "mc_paused (settle i r c) = mc_paused c" "mc_has_io_context (settle i r c) = mc_has_io_context c"
  by (simp_all add: settle_def unregister_run_def)

lemma cancel_loop_nth:
  "i < length hs \<Longrightarrow> cancel_loop is hs ! i = (if i \<in> set is then (hs ! i)\<lparr>hr_run := cancel_run (hr_run (hs ! i))\<rparr> else hs ! i)"
  "length (cancel_loop is hs) = length hs"
proof (induction "is" arbitrary: hs)
  case (Cons j js)
  { case 1
    have "cancel_run (cancel_run r) = cancel_run r" for r :: "'a async_run" by (simp add: cancel_run_def)
    with 1 Cons.IH(1) show ?case by (cases "i = j") (simp_all add: nth_list_update) }
  { case 2 with Cons.IH(2) show ?case by simp }
qed simp_all

text \<open>Every event of a run only makes it go on; what is finished stays so.\<close>

lemma async_step_goes_to: "goes_to env r (async_step env r e)"
proof (cases e)
  case (Ev_callback i res msg f)
  have w: "goes_to env r (r\<lparr>ar_world := f (ar_world r)\<rparr>)" by (rule goes_to_simple) simp_all
  have "goes_to env r r'" if "async_callback env (execute_next_async_step n env) m t res msg (r\<lparr>ar_world := f (ar_world r)\<rparr>) = Some (x, r')"
    for n m t x r'
    using goes_to_trans [OF w goes_to_async_callback [OF async_goes_to that]] .
  with Ev_callback show ?thesis by (auto simp del: execute_next_async_step.simps split: option.splits)
next
  case (Ev_next i f)
  have w: "goes_to env r (drop_mw_timer (r\<lparr>ar_world := f (ar_world r)\<rparr>))"
    by (rule goes_to_trans [OF _ goes_to_drop], rule goes_to_simple) simp_all
  have "goes_to env r r'" if "execute_next_async_step n env (drop_mw_timer (r\<lparr>ar_world := f (ar_world r)\<rparr>)) = Some (x, r')" for n x r'
    using goes_to_trans [OF w async_goes_to [OF that]] .
  with Ev_next show ?thesis by (auto simp del: execute_next_async_step.simps split: option.splits)
next
  case (Ev_global_timer f)
  then show ?thesis
    by (auto simp: on_global_timer_def Let_def intro!: goes_to_simple goes_to_trans [OF goes_to_simple goes_to_timeout])
next
  case (Ev_mw_timer f)
  then show ?thesis
    by (intro goes_to_simple) (simp_all add: on_middleware_timer_def run_timeout_handler_def Let_def split: option.splits)
qed (auto intro: goes_to_simple simp: cancel_run_def)

lemma run_now_inv: "async_inv (hr_env h) (hr_run h) \<Longrightarrow> async_inv (hr_env h) (run_now s h e)"
  using async_step_inv [of "(hr_env h)\<lparr>ae_has_io := mc_has_io_context (sc_chain s)\<rparr>"] by (simp add: run_now_def)

lemma run_now_finished: "ar_finished (hr_run h) \<Longrightarrow> ar_finished (run_now s h e)"
  using async_step_goes_to [of "(hr_env h)\<lparr>ae_has_io := mc_has_io_context (sc_chain s)\<rparr>"
      "(hr_run h)\<lparr>ar_paused := mc_paused (sc_chain s), ar_stats := sc_stats s\<rparr>" e]
  by (simp add: run_now_def goes_to_def)

lemma inv_start_run:
  assumes "shared_inv s"
  shows "shared_inv (start_run callback w s)"
proof -
  let ?env = "snapshot_env callback (sc_chain s)"
  obtain x r where r: "execute_async ?env (mc_paused (sc_chain s)) (sc_stats s) w = Some (x, r)"
    using execute_async_total by (metis surj_pair)
  have "ar_finished r" if "mc_mws (sc_chain s) = []"
    using r that by (auto simp: execute_async_def snapshot_env_def Let_def)
  moreover have "length (sc_runs s) \<notin> set (mc_active_runs (sc_chain s))" using assms by (simp add: shared_inv_def)
  ultimately show ?thesis
    using assms execute_async_inv [OF r] r
    by (auto simp: shared_inv_def start_run_def register_run_def nth_append less_Suc_eq Let_def)
qed

lemma inv_run_event:
  assumes "shared_inv s"
  shows "shared_inv (run_event i e s)"
proof (cases "i < length (sc_runs s)")
  case True
  let ?h = "sc_runs s ! i"
  have "async_inv (hr_env ?h) (run_now s ?h e)" using True assms by (intro run_now_inv) (simp add: shared_inv_def)
  with True assms run_now_finished [of ?h s e] show ?thesis
    by (auto simp: shared_inv_def run_event_def nth_list_update Let_def)
qed (use assms in \<open>simp add: run_event_def\<close>)

lemma inv_chain_cancel: "shared_inv s \<Longrightarrow> shared_inv (chain_cancel s)"
  by (auto simp: shared_inv_def chain_cancel_def cancel_loop_nth)

lemma inv_other_parts:
  "mc_active_runs c = mc_active_runs (sc_chain s) \<Longrightarrow> shared_inv (s\<lparr>sc_chain := c\<rparr>) = shared_inv s"
  "shared_inv (s\<lparr>sc_stats := st\<rparr>) = shared_inv s"
  by (simp_all add: shared_inv_def)

lemma chain_settings_runs [simp]:
  "mc_active_runs (set_error_handler eh c) = mc_active_runs c" "mc_active_runs (set_timeout_handler th c) = mc_active_runs c"
  "mc_active_runs (set_io_context c) = mc_active_runs c"
  by (simp_all add: set_error_handler_def set_timeout_handler_def set_io_context_def)

lemma inv_shared_step: "shared_inv s \<Longrightarrow> shared_inv (shared_step srt s e)"
  by (cases e) (simp_all add: inv_start_run inv_run_event inv_chain_cancel inv_other_parts split: async_event.split)

lemma inv_new_shared: "shared_inv (new_shared c st)"
  by (simp add: new_shared_def shared_inv_def)

interpretation shared: step_machine "\<lambda>s. \<exists>c st. s = new_shared c st" "shared_step srt" shared_inv for srt
  by unfold_locales (auto simp: inv_shared_step inv_new_shared)

section \<open>Runs do not see the statistics\<close>

definition unstat :: "'x async_run \<Rightarrow> 'x async_run" where
  "unstat r = r\<lparr>ar_stats := \<lambda>_. reset_stats\<rparr>"

definition unstat_res :: "(cpp_exn option \<times> 'x async_run) option \<Rightarrow> (cpp_exn option \<times> 'x async_run) option" where
  "unstat_res = map_option (map_prod id unstat)"

lemma unstat_sels [simp]:
  "ar_index (unstat r) = ar_index r" "ar_world (unstat r) = ar_world r" "ar_finished (unstat r) = ar_finished r"
  "ar_completions (unstat r) = ar_completions r" "ar_cancelled (unstat r) = ar_cancelled r"
  "ar_timed_out (unstat r) = ar_timed_out r" "ar_paused (unstat r) = ar_paused r" "ar_start (unstat r) = ar_start r"
  "ar_global_timer (unstat r) = ar_global_timer r" "ar_global_pending (unstat r) = ar_global_pending r"
  "ar_mw_timer (unstat r) = ar_mw_timer r" "ar_mw_pending (unstat r) = ar_mw_pending r"
  "ar_mw_start (unstat r) = ar_mw_start r" "unstat (unstat r) = unstat r" "unstat (r\<lparr>ar_stats := st\<rparr>) = unstat r"
  by (simp_all add: unstat_def)

lemma unstat_ops:
  "unstat (drop_mw_timer r) = drop_mw_timer (unstat r)"
  "unstat (complete_async_run env res msg r) = complete_async_run env res msg (unstat r)"
  "unstat (handle_error_run env e r) = handle_error_run env e (unstat r)"
  "unstat (handle_timeout_run env r) = handle_timeout_run env (unstat r)"
  "unstat (run_timeout_handler env r) = run_timeout_handler env (unstat r)"
  "unstat (started env r) = started env (unstat r)"
  "unstat (count_result env m t res r) = unstat r"
  "unstat (cancel_run r) = cancel_run (unstat r)"
  by (simp_all add: drop_mw_timer_def complete_async_run_def try_finish_run_def handle_error_run_def handle_timeout_run_def
      run_timeout_handler_def started_def setup_middleware_timeout_def count_result_def cancel_run_def unstat_def Let_def split: option.split)

lemma unstat_world: "unstat (r\<lparr>ar_world := w\<rparr>) = (unstat r)\<lparr>ar_world := w\<rparr>"
  "unstat (r\<lparr>ar_index := i\<rparr>) = (unstat r)\<lparr>ar_index := i\<rparr>" "unstat (r\<lparr>ar_timed_out := b\<rparr>) = (unstat r)\<lparr>ar_timed_out := b\<rparr>"
  by (simp_all add: unstat_def)

lemma unstat_pending:
  "unstat (r\<lparr>ar_paused := b\<rparr>) = (unstat r)\<lparr>ar_paused := b\<rparr>"
  "unstat (r\<lparr>ar_mw_pending := b\<rparr>) = (unstat r)\<lparr>ar_mw_pending := b\<rparr>"
  "unstat (r\<lparr>ar_global_pending := b\<rparr>) = (unstat r)\<lparr>ar_global_pending := b\<rparr>"
  by (simp_all add: unstat_def)

lemma unstat_any: "unstat r = unstat r' \<Longrightarrow> r\<lparr>ar_stats := ms\<rparr> = r'\<lparr>ar_stats := ms\<rparr>"
  by (cases r; cases r') (simp add: unstat_def)

text \<open>Two results are alike when they differ in the statistics only; work on alike runs gives alike results.\<close>

lemma alike_cases:
  assumes "unstat_res a = unstat_res b"
  shows "(a = None \<and> b = None) \<or> (\<exists>x r r'. a = Some (x, r) \<and> b = Some (x, r') \<and> unstat r = unstat r')"
  using assms by (cases a; cases b) (auto simp: unstat_res_def)

definition alike_fn :: "('x async_run \<Rightarrow> (cpp_exn option \<times> 'x async_run) option) \<Rightarrow> bool" where
  "alike_fn f = (\<forall>r r'. unstat r = unstat r' \<longrightarrow> unstat_res (f r) = unstat_res (f r'))"

lemma alike_fnD: "alike_fn f \<Longrightarrow> unstat r = unstat r' \<Longrightarrow> unstat_res (f r) = unstat_res (f r')"
  unfolding alike_fn_def by blast

lemma unstat_world_eq: "unstat r = unstat r' \<Longrightarrow> ar_world r = ar_world r'"
  by (drule arg_cong [where f = ar_world]) simp

lemma alike_body:
  assumes "alike_fn nxt" and "\<And>res msg. alike_fn (cb res msg)"
  shows "unstat r = unstat r' \<Longrightarrow> unstat_res (run_async_body nxt cb p r) = unstat_res (run_async_body nxt cb p r')"
proof (induction p arbitrary: r r')
  case (A_Next w k)
  then have "unstat (r\<lparr>ar_world := w\<rparr>) = unstat (r'\<lparr>ar_world := w\<rparr>)" by (simp add: unstat_world)
  from alike_fnD [OF assms(1) this] have "unstat_res (nxt (r\<lparr>ar_world := w\<rparr>)) = unstat_res (nxt (r'\<lparr>ar_world := w\<rparr>))" .
  from alike_cases [OF this] show ?case
  proof (elim disjE exE conjE)
    fix x q q'
    assume 2: "nxt (r\<lparr>ar_world := w\<rparr>) = Some (x, q)" "nxt (r'\<lparr>ar_world := w\<rparr>) = Some (x, q')" "unstat q = unstat q'"
    with A_Next.IH [OF rangeI 2(3)] unstat_world_eq [OF 2(3)] show ?thesis
      by (cases x) (auto simp: unstat_res_def)
  qed simp
next
  case (A_Callback res msg w k)
  then have "unstat (r\<lparr>ar_world := w\<rparr>) = unstat (r'\<lparr>ar_world := w\<rparr>)" by (simp add: unstat_world)
  from alike_fnD [OF assms(2) this] have "unstat_res (cb res msg (r\<lparr>ar_world := w\<rparr>)) = unstat_res (cb res msg (r'\<lparr>ar_world := w\<rparr>))" .
  from alike_cases [OF this] show ?case
  proof (elim disjE exE conjE)
    fix x q q'
    assume 2: "cb res msg (r\<lparr>ar_world := w\<rparr>) = Some (x, q)" "cb res msg (r'\<lparr>ar_world := w\<rparr>) = Some (x, q')" "unstat q = unstat q'"
    with A_Callback.IH [OF rangeI 2(3)] unstat_world_eq [OF 2(3)] show ?thesis
      by (cases x) (auto simp: unstat_res_def)
  qed simp
qed (simp_all add: unstat_res_def unstat_world)

lemma alike_callback:
  assumes "alike_fn step"
  shows "alike_fn (async_callback env step m t res msg)"
proof (unfold alike_fn_def, intro allI impI)
  fix r r' :: "'a async_run"
  let ?q = "\<lambda>r. count_result env m t res (drop_mw_timer r)"
  assume "unstat r = unstat r'"
  then have "unstat (?q r) = unstat (?q r')" by (simp add: unstat_ops)
  with alike_fnD [OF assms this] show "unstat_res (async_callback env step m t res msg r) = unstat_res (async_callback env step m t res msg r')"
    by (cases res) (simp_all add: async_callback_def handle_middleware_result_run_def unstat_res_def unstat_ops)
qed

lemma alike_after:
  "unstat r = unstat r' \<Longrightarrow> map_prod id unstat (after_async_body env m (x, r)) = map_prod id unstat (after_async_body env m (x, r'))"
  by (cases x) (simp_all add: after_async_body_def unstat_ops)

lemma alike_step: "alike_fn (execute_next_async_step n env)"
proof (induction n)
  case (Suc n)
  show ?case
  proof (unfold alike_fn_def, intro allI impI)
    fix r r' :: "'a async_run"
    assume eq: "unstat r = unstat r'"
    have sels: "ar_index r = ar_index r'" "ar_world r = ar_world r'" "ar_cancelled r = ar_cancelled r'" "ar_paused r = ar_paused r'"
      "ar_timed_out r = ar_timed_out r'" "ar_global_timer r = ar_global_timer r'" "ar_start r = ar_start r'"
      using eq [THEN arg_cong, of ar_index] eq [THEN arg_cong, of ar_world] eq [THEN arg_cong, of ar_cancelled]
        eq [THEN arg_cong, of ar_paused] eq [THEN arg_cong, of ar_timed_out] eq [THEN arg_cong, of ar_global_timer]
        eq [THEN arg_cong, of ar_start] by simp_all
    let ?m = "ae_pipeline env ! ar_index r"
    have nxt: "alike_fn (\<lambda>r. execute_next_async_step n env (drop_mw_timer r))"
      using Suc by (simp add: alike_fn_def unstat_ops)
    have "unstat (started env r) = unstat (started env r')" using eq by (simp add: unstat_ops)
    from alike_body [OF nxt alike_callback [OF Suc, where env = env] this]
    have body: "unstat_res (run_async_body (\<lambda>r. execute_next_async_step n env (drop_mw_timer r))
          (async_callback env (execute_next_async_step n env) ?m t) (mw_async ?m (ar_world r)) (started env r)) =
        unstat_res (run_async_body (\<lambda>r. execute_next_async_step n env (drop_mw_timer r))
          (async_callback env (execute_next_async_step n env) ?m t) (mw_async ?m (ar_world r)) (started env r'))" for t .
    show "unstat_res (execute_next_async_step (Suc n) env r) = unstat_res (execute_next_async_step (Suc n) env r')"
    proof (cases "may_start_async env r")
      case True
      then have True': "may_start_async env r'" using sels by (simp add: may_start_async_def)
      have skip: "unstat_res (execute_next_async_step n env (r\<lparr>ar_index := i\<rparr>)) = unstat_res (execute_next_async_step n env (r'\<lparr>ar_index := i\<rparr>))" for i
        using eq by (intro alike_fnD [OF Suc]) (simp add: unstat_world)
      have aft: "unstat_res (map_option (after_async_body env ?m) a) = unstat_res (map_option (after_async_body env ?m) b)"
        if "unstat_res a = unstat_res b" for a b
        using alike_cases [OF that]
      proof (elim disjE exE conjE)
        fix x q q'
        assume "a = Some (x, q)" "b = Some (x, q')" "unstat q = unstat q'"
        with alike_after [OF this(3), of env ?m x] show ?thesis by (simp add: unstat_res_def)
      qed simp
      let ?body = "\<lambda>q. run_async_body (\<lambda>r. execute_next_async_step n env (drop_mw_timer r))
          (async_callback env (execute_next_async_step n env) ?m (w_now (ar_world r))) (mw_async ?m (ar_world r)) (started env q)"
      have start: "execute_next_async_step (Suc n) env q =
          (if mw_should_execute ?m (w_ctx (ar_world r)) then map_option (after_async_body env ?m) (?body q)
           else execute_next_async_step n env (q\<lparr>ar_index := ar_index r + 1\<rparr>))"
        if "may_start_async env q" "ar_index q = ar_index r" "ar_world q = ar_world r" for q
        unfolding async_start_step [OF that(1)] that(2,3) Let_def by (rule refl)
      from aft [OF body] skip show ?thesis
        unfolding start [OF True refl refl] start [OF True' sels(1,2) [symmetric]]
        by (cases "mw_should_execute ?m (w_ctx (ar_world r))") (simp_all only: if_True if_False)
    next
      case False
      then have "\<not> may_start_async env r'" using sels by (simp add: may_start_async_def)
      with False sels eq show ?thesis
        by (auto simp: may_start_async_def unstat_res_def unstat_ops unstat_world)
    qed
  qed
qed (simp add: alike_fn_def unstat_res_def)

lemma alike_async_step:
  assumes "unstat r = unstat r'"
  shows "unstat (async_step env r e) = unstat (async_step env r' e)"
proof (cases e)
  case (Ev_callback i res msg f)
  let ?cb = "async_callback env (execute_next_async_step (Suc (length (ae_pipeline env))) env) (ae_pipeline env ! i)"
  have sels: "ar_index r = ar_index r'" "ar_world r = ar_world r'" "ar_mw_start r = ar_mw_start r'"
    using assms [THEN arg_cong, of ar_index] assms [THEN arg_cong, of ar_world] assms [THEN arg_cong, of ar_mw_start] by simp_all
  have w: "unstat (r\<lparr>ar_world := f (ar_world r)\<rparr>) = unstat (r'\<lparr>ar_world := f (ar_world r')\<rparr>)"
    using assms sels by (simp add: unstat_world)
  from alike_cases [OF alike_fnD [OF alike_callback [OF alike_step] w]] obtain a b where
    "?cb (ar_mw_start r i) res msg (r\<lparr>ar_world := f (ar_world r)\<rparr>) = a"
    "?cb (ar_mw_start r i) res msg (r'\<lparr>ar_world := f (ar_world r')\<rparr>) = b"
    "(a = None \<and> b = None) \<or> (\<exists>x r r'. a = Some (x, r) \<and> b = Some (x, r') \<and> unstat r = unstat r')" by blast
  with Ev_callback sels assms show ?thesis by (auto simp del: execute_next_async_step.simps)
next
  case (Ev_next i f)
  let ?nxt = "execute_next_async_step (Suc (length (ae_pipeline env))) env"
  have sels: "ar_index r = ar_index r'" "ar_world r = ar_world r'"
    using assms [THEN arg_cong, of ar_index] assms [THEN arg_cong, of ar_world] by simp_all
  have w: "unstat (drop_mw_timer (r\<lparr>ar_world := f (ar_world r)\<rparr>)) = unstat (drop_mw_timer (r'\<lparr>ar_world := f (ar_world r')\<rparr>))"
    using assms sels by (simp add: unstat_ops unstat_world)
  from alike_cases [OF alike_fnD [OF alike_step w]] obtain a b where
    "?nxt (drop_mw_timer (r\<lparr>ar_world := f (ar_world r)\<rparr>)) = a"
    "?nxt (drop_mw_timer (r'\<lparr>ar_world := f (ar_world r')\<rparr>)) = b"
    "(a = None \<and> b = None) \<or> (\<exists>x r r'. a = Some (x, r) \<and> b = Some (x, r') \<and> unstat r = unstat r')" by blast
  with Ev_next sels assms show ?thesis by (auto simp del: execute_next_async_step.simps)
next
  case (Ev_global_timer f)
  have "unstat (on_global_timer env q) = on_global_timer env (unstat q)" for q
    by (simp add: on_global_timer_def Let_def unstat_ops unstat_world unstat_pending)
  with Ev_global_timer assms unstat_world_eq [OF assms] show ?thesis by (simp add: unstat_world)
next
  case (Ev_mw_timer f)
  have "unstat (on_middleware_timer env q) = unstat (on_middleware_timer env (unstat q))" for q
    by (cases "ar_mw_timer q") (simp_all add: on_middleware_timer_def Let_def unstat_ops unstat_world unstat_pending)
  with Ev_mw_timer assms unstat_world_eq [OF assms] show ?thesis by (metis async_step.simps(4) unstat_world(1))
qed (use assms in \<open>simp_all add: unstat_ops unstat_pending\<close>)

section \<open>Requests do not interfere\<close>

text \<open>The events that reach a run: its own, and those by which the chain pauses or cancels all.\<close>

fun concerns :: "nat \<Rightarrow> 'x shared_event \<Rightarrow> bool" where
  "concerns i (Run_event j e) = (i = j)"
| "concerns i Cancel_chain = True"
| "concerns i (Configure Pause_chain) = True"
| "concerns i (Configure Resume_chain) = True"
| "concerns i e = False"

text \<open>Two states in which a run is the same but for the statistics.\<close>

definition same_for :: "nat \<Rightarrow> 'x shared_chain \<Rightarrow> 'x shared_chain \<Rightarrow> bool" where
  "same_for i s t \<longleftrightarrow> i < length (sc_runs s) \<and> i < length (sc_runs t) \<and>
     hr_env (sc_runs s ! i) = hr_env (sc_runs t ! i) \<and> unstat (hr_run (sc_runs s ! i)) = unstat (hr_run (sc_runs t ! i)) \<and>
     mc_paused (sc_chain s) = mc_paused (sc_chain t) \<and> mc_has_io_context (sc_chain s) \<and> mc_has_io_context (sc_chain t)"

lemma run_now_alike:
  assumes "same_for i s t"
  shows "unstat (run_now s (sc_runs s ! i) e) = unstat (run_now t (sc_runs t ! i) e)"
proof -
  have "unstat ((hr_run (sc_runs s ! i))\<lparr>ar_paused := mc_paused (sc_chain s), ar_stats := sc_stats s\<rparr>) =
      unstat ((hr_run (sc_runs t ! i))\<lparr>ar_paused := mc_paused (sc_chain t), ar_stats := sc_stats t\<rparr>)"
    using assms by (simp add: unstat_pending same_for_def)
  from alike_async_step [OF this] show ?thesis using assms by (simp add: run_now_def same_for_def)
qed

lemma chain_step_paused:
  "\<not> concerns i (Configure e) \<Longrightarrow> mc_paused (chain_step srt c e) = mc_paused c"
  by (cases e) (simp_all add: chain_use_def chain_use_all_def insert_by_priority_def sort_middlewares_by_priority_def
      chain_remove_def chain_clear_def set_global_timeout_def enable_statistics_def Let_def)

lemma unconcerned_step:
  assumes "shared_inv s" and "i < length (sc_runs s)" and "mc_has_io_context (sc_chain s)" and "\<not> concerns i e"
  shows "same_for i (shared_step srt s e) s"
proof (cases e)
  case (Start_run callback w)
  have "mc_paused (register_run j c) = mc_paused c" "mc_has_io_context (register_run j c) = mc_has_io_context c" for j c
    by (simp_all add: register_run_def)
  with Start_run assms show ?thesis
    by (auto simp: same_for_def start_run_def nth_append Let_def split: option.split)
next
  case (Run_event j a)
  with assms have "i \<noteq> j" by simp
  then have "same_for i (run_event j a s) s" using assms by (simp add: same_for_def run_event_def Let_def)
  moreover have "same_for i s s" using assms by (simp add: same_for_def)
  ultimately show ?thesis using Run_event by (cases a) simp_all
next
  case (Configure a)
  with assms chain_step_paused [of i a] show ?thesis by (simp add: same_for_def)
qed (use assms in \<open>simp_all add: same_for_def set_error_handler_def set_timeout_handler_def set_io_context_def\<close>)

lemma same_for_cancel:
  assumes "same_for i s t" and "shared_inv s" and "shared_inv t"
  shows "same_for i (chain_cancel s) (chain_cancel t)"
proof -
  have "ar_finished (hr_run (sc_runs s ! i)) = ar_finished (hr_run (sc_runs t ! i))"
    using assms(1) unstat_sels(3) unfolding same_for_def by metis
  with assms show ?thesis
    by (simp add: same_for_def shared_inv_def chain_cancel_def cancel_loop_nth unstat_ops)
qed

lemma concerned_step:
  assumes "same_for i s t" and "shared_inv s" and "shared_inv t" and "concerns i e"
  shows "same_for i (shared_step srt s e) (shared_step srt t e)"
proof (cases e)
  case (Run_event j a)
  with assms have "i = j" by simp
  then have "same_for i (run_event j a s) (run_event j a t)"
    using assms(1) run_now_alike [OF assms(1), of a] by (simp add: same_for_def run_event_def Let_def)
  with Run_event assms(1) show ?thesis by (cases a) simp_all
next
  case (Configure a)
  with assms show ?thesis by (cases a) (simp_all add: same_for_def chain_pause_def chain_resume_def)
qed (use assms same_for_cancel in simp_all)

lemma same_for_trans: "same_for i s t \<Longrightarrow> same_for i t u \<Longrightarrow> same_for i s u"
  by (simp add: same_for_def)

lemma same_for_run:
  "same_for i s t \<Longrightarrow> shared_inv s \<Longrightarrow> shared_inv t \<Longrightarrow>
   same_for i (foldl (shared_step srt) s es) (foldl (shared_step srt) t (filter (concerns i) es))"
proof (induction es arbitrary: s t)
  case (Cons e es)
  show ?case
  proof (cases "concerns i e")
    case True
    with Cons.IH [OF concerned_step [OF Cons.prems True] inv_shared_step inv_shared_step] Cons.prems show ?thesis
      by (simp del: shared_step.simps)
  next
    case False
    have "same_for i (shared_step srt s e) s"
      using Cons.prems False by (intro unconcerned_step) (simp_all add: same_for_def)
    with Cons.prems have "same_for i (shared_step srt s e) t" by (blast intro: same_for_trans)
    from Cons.IH [OF this inv_shared_step Cons.prems(3)] Cons.prems(2) False show ?thesis by (simp del: shared_step.simps)
  qed
qed simp

section \<open>Cancelling\<close>

lemma cancelled_next:
  "ar_cancelled r \<Longrightarrow> execute_next_async_step (Suc n) env r = Some (None, complete_async_run env R_Stop [] r)"
  by simp

text \<open>How a cancelled run that was not finished may go on: no middleware is started any more.\<close>

definition cancelled_at :: "nat \<Rightarrow> 'x async_run \<Rightarrow> bool" where
  "cancelled_at k r = (ar_cancelled r \<and> ar_index r = k \<and> \<not> ar_global_pending r \<and> \<not> ar_mw_pending r \<and>
     (\<forall>res msg. (res, msg) \<in> set (ar_completions r) \<longrightarrow> res \<noteq> R_Continue))"

lemma cancelled_ops:
  "cancelled_at k r \<Longrightarrow> res \<noteq> R_Continue \<Longrightarrow> cancelled_at k (complete_async_run env res msg r)"
  "cancelled_at k r \<Longrightarrow> cancelled_at k (drop_mw_timer r)"
  "cancelled_at k r \<Longrightarrow> cancelled_at k (count_result env m t res r)"
  "cancelled_at k (r\<lparr>ar_world := w\<rparr>) = cancelled_at k r" "cancelled_at k (r\<lparr>ar_paused := b, ar_stats := st\<rparr>) = cancelled_at k r"
  by (auto simp: cancelled_at_def complete_async_run_def try_finish_run_def drop_mw_timer_def count_result_def Let_def)

lemma cancelled_async_step:
  assumes "cancelled_at k r" and "\<And>b. e \<noteq> Ev_pause b"
  shows "cancelled_at k (async_step env r e)"
proof (cases e)
  case (Ev_callback i res msg f)
  let ?r = "count_result env (ae_pipeline env ! i) (ar_mw_start r i) res (drop_mw_timer (r\<lparr>ar_world := f (ar_world r)\<rparr>))"
  have c: "cancelled_at k ?r" using assms(1) by (simp add: cancelled_ops)
  then have "ar_cancelled ?r" by (simp add: cancelled_at_def)
  with Ev_callback assms(1) c show ?thesis
    by (cases res) (simp_all add: async_callback_def handle_middleware_result_run_def cancelled_next cancelled_ops
        del: execute_next_async_step.simps)
next
  case (Ev_next i f)
  have c: "cancelled_at k (drop_mw_timer (r\<lparr>ar_world := f (ar_world r)\<rparr>))" using assms(1) by (simp add: cancelled_ops)
  then have "ar_cancelled (drop_mw_timer (r\<lparr>ar_world := f (ar_world r)\<rparr>))" by (simp add: cancelled_at_def)
  with Ev_next assms(1) c show ?thesis by (simp add: cancelled_next cancelled_ops del: execute_next_async_step.simps)
next
  case (Ev_global_timer f)
  with assms show ?thesis by (simp add: on_global_timer_def cancelled_at_def)
next
  case (Ev_mw_timer f)
  with assms show ?thesis by (simp add: on_middleware_timer_def cancelled_at_def split: option.split)
next
  case Ev_cancel
  with assms show ?thesis by (simp add: cancel_run_def cancelled_at_def)
qed (use assms in simp)

lemma cancelled_shared_step:
  assumes "i < length (sc_runs s)" and "cancelled_at k (hr_run (sc_runs s ! i))"
  shows "i < length (sc_runs (shared_step srt s e)) \<and> cancelled_at k (hr_run (sc_runs (shared_step srt s e) ! i))"
proof (cases e)
  case (Start_run callback w)
  with assms show ?thesis by (auto simp: start_run_def nth_append Let_def split: option.split)
next
  case (Run_event j a)
  have "cancelled_at k (run_now s (sc_runs s ! i) a)" if "\<And>b. a \<noteq> Ev_pause b"
    using assms(2) that unfolding run_now_def by (intro cancelled_async_step) (simp_all add: cancelled_ops)
  then have "cancelled_at k (hr_run (sc_runs (run_event j a s) ! i))" if "\<And>b. a \<noteq> Ev_pause b"
    using assms that by (simp add: run_event_def nth_list_update Let_def)
  moreover have "length (sc_runs (run_event j a s)) = length (sc_runs s)" by (simp add: run_event_def Let_def)
  ultimately show ?thesis using Run_event assms by (cases a) simp_all
next
  case Cancel_chain
  with assms show ?thesis by (auto simp: chain_cancel_def cancel_loop_nth) (simp add: cancel_run_def cancelled_at_def)
qed (use assms in simp_all)

lemma cancelled_shared_run:
  "i < length (sc_runs s) \<Longrightarrow> cancelled_at k (hr_run (sc_runs s ! i)) \<Longrightarrow>
   cancelled_at k (hr_run (sc_runs (foldl (shared_step srt) s es) ! i))"
  by (induction es arbitrary: s) (simp_all add: cancelled_shared_step del: shared_step.simps)

section \<open>Properties\<close>

lemma bex_nth: "(\<exists>h\<in>set hs. P h) = (\<exists>i<length hs. P (hs ! i))"
  using nth_mem by (fastforce simp: in_set_conv_nth)

text \<open>
  C11: the runs that share a chain are accounted for. At every moment the chain is running
  exactly when some run has not finished, and every run has called its completion callback
  once if it has finished and was given one, and not at all otherwise.
\<close>

theorem shared_chain_runs:
  "let s = foldl (shared_step srt) (new_shared c st) es
   in (chain_is_running (sc_chain s) \<longleftrightarrow> list_ex (\<lambda>h. \<not> ar_finished (hr_run h)) (sc_runs s)) \<and>
      list_all (\<lambda>h. length (ar_completions (hr_run h)) =
         (if ar_finished (hr_run h) \<and> ae_has_callback (hr_env h) then 1 else 0)) (sc_runs s)"
proof -
  let ?s = "foldl (shared_step srt) (new_shared c st) es"
  have inv: "shared_inv ?s" by (rule shared.run_from_initial) blast
  then have "(mc_active_runs (sc_chain ?s) \<noteq> []) = (\<exists>i<length (sc_runs ?s). \<not> ar_finished (hr_run (sc_runs ?s ! i)))"
    unfolding shared_inv_def set_empty [symmetric] by auto
  moreover have "length (ar_completions (hr_run h)) = (if ar_finished (hr_run h) \<and> ae_has_callback (hr_env h) then 1 else 0)"
    if "h \<in> set (sc_runs ?s)" for h
    using inv that by (auto simp: shared_inv_def async_inv_def in_set_conv_nth)
  ultimately show ?thesis by (simp add: chain_is_running_def list_ex_iff list_all_iff bex_nth Let_def)
qed

text \<open>
  C3: requests in flight do not interfere. Whatever is interleaved with the events of a run
  (other requests that start, go on and finish, middlewares added to or removed from the
  chain, new handlers, timeouts, resets of the statistics), the run is afterwards as if
  only its own events and the pausing and cancelling of the chain had happened; only the
  statistics of the middlewares may differ.
\<close>

theorem requests_do_not_interfere:
  assumes "i < length (sc_runs (foldl (shared_step srt) (new_shared c st) es))"
    and "mc_has_io_context (sc_chain (foldl (shared_step srt) (new_shared c st) es))"
  shows "let s = foldl (shared_step srt) (new_shared c st) es;
      s1 = foldl (shared_step srt) s es'; s2 = foldl (shared_step srt) s (filter (concerns i) es')
    in hr_env (sc_runs s1 ! i) = hr_env (sc_runs s2 ! i) \<and>
       (hr_run (sc_runs s1 ! i))\<lparr>ar_stats := ms\<rparr> = (hr_run (sc_runs s2 ! i))\<lparr>ar_stats := ms\<rparr>"
proof -
  let ?s = "foldl (shared_step srt) (new_shared c st) es"
  have inv: "shared_inv ?s" by (rule shared.run_from_initial) blast
  have "same_for i ?s ?s" using assms by (simp add: same_for_def)
  from same_for_run [OF this inv inv, of srt es'] have
    "same_for i (foldl (shared_step srt) ?s es') (foldl (shared_step srt) ?s (filter (concerns i) es'))" .
  then have "hr_env (sc_runs (foldl (shared_step srt) ?s es') ! i) = hr_env (sc_runs (foldl (shared_step srt) ?s (filter (concerns i) es')) ! i)"
    "unstat (hr_run (sc_runs (foldl (shared_step srt) ?s es') ! i)) = unstat (hr_run (sc_runs (foldl (shared_step srt) ?s (filter (concerns i) es')) ! i))"
    by (simp_all add: same_for_def)
  from this(1) unstat_any [OF this(2)] show ?thesis unfolding Let_def by blast
qed

definition two_requests :: "unit shared_event list" where
  "two_requests = [Configure (Use (slow_middleware 1 0)), Start_run True sample_world, Start_run True sample_world]"

lemma two_requests_started:
  "let s = foldl (shared_step insertion_sort) (new_shared (new_chain True) (\<lambda>_. reset_stats)) two_requests
   in length (sc_runs s) = 2 \<and> mc_has_io_context (sc_chain s) \<and> \<not> ar_finished (hr_run (sc_runs s ! 0))"
  by (simp add: two_requests_def new_shared_def new_chain_def chain_use_def sort_middlewares_by_priority_def start_run_def
      snapshot_env_def execute_async_def new_async_run_def slow_middleware_def base_middleware_def after_async_body_def
      settle_def register_run_def Let_def)

theorem requests_do_not_interfere_witness:
  "let s = foldl (shared_step insertion_sort) (new_shared (new_chain True) (\<lambda>_. reset_stats)) two_requests;
       go_on = Run_event 0 (Ev_callback 0 R_Continue [] id)
   in ar_completions (hr_run (sc_runs (foldl (shared_step insertion_sort) s
          [Run_event 1 (Ev_callback 0 R_Stop [] id), Configure Clear_mws, Reset_statistics, go_on]) ! 0)) =
      ar_completions (hr_run (sc_runs (foldl (shared_step insertion_sort) s [go_on]) ! 0))"
proof -
  let ?s = "foldl (shared_step insertion_sort) (new_shared (new_chain True) (\<lambda>_. reset_stats)) two_requests"
  let ?go = "Run_event 0 (Ev_callback 0 R_Continue [] id) :: unit shared_event"
  let ?es = "[Run_event 1 (Ev_callback 0 R_Stop [] id), Configure Clear_mws, Reset_statistics, ?go]"
  have "0 < length (sc_runs ?s)" "mc_has_io_context (sc_chain ?s)" using two_requests_started by (simp_all add: Let_def)
  from requests_do_not_interfere [OF this, of ?es "\<lambda>_. reset_stats"]
  have "(hr_run (sc_runs (foldl (shared_step insertion_sort) ?s ?es) ! 0))\<lparr>ar_stats := \<lambda>_. reset_stats\<rparr> =
      (hr_run (sc_runs (foldl (shared_step insertion_sort) ?s [?go]) ! 0))\<lparr>ar_stats := \<lambda>_. reset_stats\<rparr>"
    by (simp add: Let_def del: foldl_Cons shared_step.simps)
  from arg_cong [OF this, of ar_completions] show ?thesis by (simp add: Let_def del: foldl_Cons shared_step.simps)
qed

text \<open>
  C12: after \<open>cancel\<close> no run that was active starts another middleware, ever, and none of them is
  reported as having run to its end: what completes later completes as stopped, failed or
  timed out.
\<close>

theorem cancel_stops_runs:
  assumes "i < length (sc_runs s)" and "s = foldl (shared_step srt) (new_shared c st) es"
    and "\<not> ar_finished (hr_run (sc_runs s ! i))"
  shows "let r = hr_run (sc_runs (foldl (shared_step srt) (chain_cancel s) es') ! i)
    in ar_index r = ar_index (hr_run (sc_runs s ! i)) \<and>
       (case ar_completions r of [] \<Rightarrow> True | [(res, msg)] \<Rightarrow> res \<noteq> R_Continue | _ \<Rightarrow> False)"
proof -
  let ?k = "ar_index (hr_run (sc_runs s ! i))" and ?t = "foldl (shared_step srt) (chain_cancel s) es'"
  have inv: "shared_inv s" unfolding assms(2) by (rule shared.run_from_initial) blast
  with assms(1,3) have "ar_completions (hr_run (sc_runs s ! i)) = []" "i \<in> set (mc_active_runs (sc_chain s))"
    by (auto simp: shared_inv_def async_inv_def)
  with assms(1) have i: "i < length (sc_runs (chain_cancel s))" and "cancelled_at ?k (hr_run (sc_runs (chain_cancel s) ! i))"
    by (simp_all add: chain_cancel_def cancel_loop_nth cancelled_at_def) (simp_all add: cancel_run_def)
  from cancelled_shared_run [OF this] have c: "cancelled_at ?k (hr_run (sc_runs ?t ! i))" .
  have "length (sc_runs s) \<le> length (sc_runs (foldl (shared_step srt) s es'))" for s es'
  proof (induction es' arbitrary: s)
    case (Cons e es')
    have "length (sc_runs s) \<le> length (sc_runs (shared_step srt s e))"
      by (cases e) (auto simp: start_run_def run_event_def chain_cancel_def cancel_loop_nth Let_def split: option.split async_event.split)
    with Cons.IH [of "shared_step srt s e"] show ?case by (simp del: shared_step.simps)
  qed simp
  from less_le_trans [OF i this] have "i < length (sc_runs ?t)" .
  moreover have "shared_inv ?t" by (intro shared.run_invar inv_chain_cancel inv)
  ultimately have "async_inv (hr_env (sc_runs ?t ! i)) (hr_run (sc_runs ?t ! i))" unfolding shared_inv_def by blast
  then have "length (ar_completions (hr_run (sc_runs ?t ! i))) \<le> 1" by (simp add: async_inv_def split: if_splits)
  with c show ?thesis by (cases "ar_completions (hr_run (sc_runs ?t ! i))") (auto simp: cancelled_at_def)
qed

theorem cancel_stops_runs_witness:
  "let s = foldl (shared_step insertion_sort) (new_shared (new_chain True) (\<lambda>_. reset_stats)) two_requests;
       r = hr_run (sc_runs (foldl (shared_step insertion_sort) (chain_cancel s) [Run_event 0 (Ev_callback 0 R_Continue [] id)]) ! 0)
   in ar_index r = ar_index (hr_run (sc_runs s ! 0))"
proof -
  let ?s = "foldl (shared_step insertion_sort) (new_shared (new_chain True) (\<lambda>_. reset_stats)) two_requests"
  have "0 < length (sc_runs ?s)" "\<not> ar_finished (hr_run (sc_runs ?s ! 0))" using two_requests_started by (simp_all add: Let_def)
  from cancel_stops_runs [OF this(1) refl this(2), of "[Run_event 0 (Ev_callback 0 R_Continue [] id)]"]
  show ?thesis by (simp add: Let_def del: foldl_Cons shared_step.simps)
qed

text \<open>
  Pausing does not hold requests back: a request that starts while the chain is paused
  completes at once with \<open>Continue\<close>, no middleware having run, and so does one in flight at its
  next step.
\<close>

lemma paused_chain_answers_unserved:
  assumes "mc_paused (sc_chain s)" and "mc_global_timeout (sc_chain s) \<le> 0" and "h = last (sc_runs (start_run True w s))"
  shows "ar_world (hr_run h) = w \<and> ar_completions (hr_run h) = [(R_Continue, [])]"
  using assms
  by (auto simp: start_run_def execute_async_def new_async_run_def snapshot_env_def complete_async_run_def try_finish_run_def Let_def
      split: option.split)

end
