(* ===== verification/Periodic_Timers.thy ===== *)
theory Periodic_Timers
  imports Strand_Pool Connection_Pool
begin

text \<open>
  The work that the pools repeat by timers: the metrics reports and health checks of
  \<open>StrandPool\<close> (src/server/strand_pool.cpp) and the cleaning of \<open>ConnectionPool\<close>
  (src/client/connection_pool.cpp), with their starts, stops and destruction. A timer of Asio
  has at most one wait here; the completion of a wait is posted, with its error code, when
  the time is over or the wait is cancelled, and its handler runs later.
\<close>

section \<open>A timer with one handler\<close>

text \<open>
  \<open>at_wait\<close> is the time the pending wait was armed with; \<open>at_done\<close> the completions posted and not
  yet handled, true for an expiry and false for \<open>operation_aborted\<close>.
\<close>

record asio_timer =
  at_wait :: "int option"
  at_done :: "bool list"

definition new_timer :: asio_timer where
  "new_timer = \<lparr>at_wait = None, at_done = []\<rparr>"

definition asio_cancel :: "asio_timer \<Rightarrow> asio_timer" where
  "asio_cancel t = (if at_wait t = None then t else \<lparr>at_wait = None, at_done = at_done t @ [False]\<rparr>)"

text \<open>\<open>expires_after\<close> cancels a pending wait, \<open>async_wait\<close> starts another.\<close>

definition asio_arm :: "int \<Rightarrow> asio_timer \<Rightarrow> asio_timer" where
  "asio_arm after t = (asio_cancel t)\<lparr>at_wait := Some after\<rparr>"

definition asio_expire :: "asio_timer \<Rightarrow> asio_timer" where
  "asio_expire t = (if at_wait t = None then t else \<lparr>at_wait = None, at_done = at_done t @ [True]\<rparr>)"

definition asio_handled :: "asio_timer \<Rightarrow> asio_timer" where
  "asio_handled t = t\<lparr>at_done := tl (at_done t)\<rparr>"

text \<open>An expiry is on its way: the timer waits, or the completion of an expired wait is posted.\<close>

definition timer_alive :: "asio_timer \<Rightarrow> bool" where
  "timer_alive t \<longleftrightarrow> at_wait t \<noteq> None \<or> True \<in> set (at_done t)"

lemma alive_arm [simp]: "timer_alive (asio_arm after t)"
  by (simp add: timer_alive_def asio_arm_def)

lemma alive_expire [simp]: "timer_alive (asio_expire t) = timer_alive t"
  by (auto simp: timer_alive_def asio_expire_def)

lemma alive_handled: "timer_alive t \<Longrightarrow> at_done t = False # bs \<Longrightarrow> timer_alive (asio_handled t)"
  by (simp add: timer_alive_def asio_handled_def)

text \<open>
  The contract of a repeated task: its handler works and arms the timer again if the wait
  expired and the owner is active, and does nothing otherwise.
\<close>

locale periodic_task =
  fixes timer :: "'s \<Rightarrow> asio_timer"
    and active :: "'s \<Rightarrow> bool"
    and worked :: "'s \<Rightarrow> nat"
    and handler :: "'s \<Rightarrow> 's"
  assumes handler_idle: "at_done (timer s) = [] \<Longrightarrow> handler s = s"
    and handler_timer: "at_done (timer s) = b # bs \<Longrightarrow> \<not> (b \<and> active s) \<Longrightarrow> timer (handler s) = asio_handled (timer s)"
    and handler_active: "active (handler s) = active s"
    and handler_rearms: "at_done (timer s) = True # bs \<Longrightarrow> active s \<Longrightarrow> timer_alive (timer (handler s))"
    and handler_works: "at_done (timer s) = b # bs \<Longrightarrow> worked (handler s) = worked s + (if b \<and> active s then 1 else 0)"
begin

lemma handler_keeps_alive: "active s \<Longrightarrow> timer_alive (timer s) \<Longrightarrow> timer_alive (timer (handler s))"
proof (cases "at_done (timer s)")
  case (Cons b bs)
  assume "active s" "timer_alive (timer s)"
  with Cons handler_rearms [of s bs] handler_timer [OF Cons] alive_handled [of "timer s" bs] show ?thesis by (cases b) simp_all
qed (simp add: handler_idle)

lemma inactive_does_nothing: "\<not> active s \<Longrightarrow> worked (handler s) = worked s \<and> \<not> active (handler s)"
  using handler_works [of s] handler_idle [of s] handler_active [of s] by (cases "at_done (timer s)") simp_all

lemma works_once: "active s \<Longrightarrow> at_done (timer s) = True # bs \<Longrightarrow> worked (handler s) = Suc (worked s)"
  by (simp add: handler_works)

end

section \<open>The timers of the strand pool\<close>

text \<open>
  The pool with its two timers and its metrics callback, whose calls are recorded report by
  report. The handlers hold a plain pointer to the pool: \<open>us_undefined\<close> is set when one reads
  a pool that is no more. The checks are counted.
\<close>

record strand_service =
  us_pool :: strand_pool
  us_metrics :: asio_timer
  us_health :: asio_timer
  us_callback :: bool
  us_reports :: "(string \<times> string \<times> rat) list list"
  us_checks :: nat
  us_destroyed :: bool
  us_undefined :: bool

definition new_strand_service :: "(string \<Rightarrow> nat) \<Rightarrow> strand_pool_config \<Rightarrow> int \<Rightarrow> strand_service" where
  "new_strand_service hash cfg now =
     \<lparr>us_pool = new_strand_pool hash cfg now, us_metrics = new_timer, us_health = new_timer, us_callback = False,
      us_reports = [], us_checks = 0, us_destroyed = False, us_undefined = False\<rparr>"

definition set_metrics_callback :: "bool \<Rightarrow> strand_service \<Rightarrow> strand_service" where
  "set_metrics_callback present s = s\<lparr>us_callback := present\<rparr>"

definition report_metrics_internal :: "strand_service \<Rightarrow> strand_service" where
  "report_metrics_internal s =
     s\<lparr>us_reports := us_reports s @ [if us_callback s then report_metrics (us_pool s) else []]\<rparr>"

definition perform_health_check_internal :: "strand_service \<Rightarrow> strand_service" where
  "perform_health_check_internal s = s\<lparr>us_pool := perform_health_check (us_pool s), us_checks := us_checks s + 1\<rparr>"

definition start_metrics_reporting :: "strand_service \<Rightarrow> strand_service" where
  "start_metrics_reporting s =
     s\<lparr>us_metrics := asio_arm (sc_metrics_report_interval (sd_config (us_pool s))) (us_metrics s)\<rparr>"

definition start_health_checking :: "strand_service \<Rightarrow> strand_service" where
  "start_health_checking s =
     s\<lparr>us_health := asio_arm (sc_health_check_interval (sd_config (us_pool s))) (us_health s)\<rparr>"

text \<open>The handlers of the two timers.\<close>

definition metrics_handler :: "strand_service \<Rightarrow> strand_service" where
  "metrics_handler s =
     (case at_done (us_metrics s) of
        [] \<Rightarrow> s
      | expired # _ \<Rightarrow>
          let s = s\<lparr>us_metrics := asio_handled (us_metrics s)\<rparr>
          in if \<not> expired then s
             else if us_destroyed s then s\<lparr>us_undefined := True\<rparr>
             else if sd_running (us_pool s) then start_metrics_reporting (report_metrics_internal s) else s)"

definition health_handler :: "strand_service \<Rightarrow> strand_service" where
  "health_handler s =
     (case at_done (us_health s) of
        [] \<Rightarrow> s
      | expired # _ \<Rightarrow>
          let s = s\<lparr>us_health := asio_handled (us_health s)\<rparr>
          in if \<not> expired then s
             else if us_destroyed s then s\<lparr>us_undefined := True\<rparr>
             else if sd_running (us_pool s) then start_health_checking (perform_health_check_internal s) else s)"

definition start_strand_pool :: "strand_service \<Rightarrow> strand_service" where
  "start_strand_pool s =
     (if sd_running (us_pool s) then s
      else start_health_checking (start_metrics_reporting (s\<lparr>us_pool := start_pool (us_pool s)\<rparr>)))"

definition stop_strand_pool :: "strand_service \<Rightarrow> strand_service" where
  "stop_strand_pool s =
     (if \<not> sd_running (us_pool s) then s
      else s\<lparr>us_pool := stop_pool (us_pool s), us_metrics := asio_cancel (us_metrics s), us_health := asio_cancel (us_health s)\<rparr>)"

text \<open>The destructor stops the pool; destroying the timers cancels their waits.\<close>

definition destroy_strand_pool :: "strand_service \<Rightarrow> strand_service" where
  "destroy_strand_pool s =
     (let s = stop_strand_pool s
      in s\<lparr>us_metrics := asio_cancel (us_metrics s), us_health := asio_cancel (us_health s), us_destroyed := True\<rparr>)"

datatype service_event =
    Pool_event strand_event
  | Set_metrics_cb bool
  | Metrics_expire | Metrics_run
  | Health_expire | Health_run
  | Report_now
  | Destroy_pool

text \<open>A pool that is destroyed is called no more, but posted handlers still run.\<close>

fun service_step ::
  "load_sort \<Rightarrow> (string \<Rightarrow> nat) \<Rightarrow> (nat \<Rightarrow> nat) \<Rightarrow> strand_service \<Rightarrow> service_event \<Rightarrow> strand_service" where
  "service_step srt hash draw s (Pool_event e) =
     (if us_destroyed s then s
      else case e of
             Start_pool \<Rightarrow> start_strand_pool s
           | Stop_pool \<Rightarrow> stop_strand_pool s
           | Health_check \<Rightarrow> perform_health_check_internal s
           | _ \<Rightarrow> s\<lparr>us_pool := strand_step srt hash draw (us_pool s) e\<rparr>)"
| "service_step srt hash draw s (Set_metrics_cb b) = (if us_destroyed s then s else set_metrics_callback b s)"
| "service_step srt hash draw s Metrics_expire = s\<lparr>us_metrics := asio_expire (us_metrics s)\<rparr>"
| "service_step srt hash draw s Metrics_run = metrics_handler s"
| "service_step srt hash draw s Health_expire = s\<lparr>us_health := asio_expire (us_health s)\<rparr>"
| "service_step srt hash draw s Health_run = health_handler s"
| "service_step srt hash draw s Report_now = (if us_destroyed s then s else report_metrics_internal s)"
| "service_step srt hash draw s Destroy_pool = (if us_destroyed s then s else destroy_strand_pool s)"

lemmas strand_timer_defs = start_metrics_reporting_def start_health_checking_def report_metrics_internal_def
  perform_health_check_internal_def

lemma health_check_sels [simp]:
  "sd_running (perform_health_check p) = sd_running p" "sd_config (perform_health_check p) = sd_config p"
  by (simp_all add: perform_health_check_def split: option.split)

definition service_active :: "strand_service \<Rightarrow> bool" where
  "service_active s \<longleftrightarrow> \<not> us_destroyed s \<and> sd_running (us_pool s)"

interpretation metrics: periodic_task us_metrics service_active "\<lambda>s. length (us_reports s)" metrics_handler
  by unfold_locales (auto simp: metrics_handler_def service_active_def strand_timer_defs Let_def split: list.split)

interpretation health: periodic_task us_health service_active us_checks health_handler
  by unfold_locales (auto simp: health_handler_def service_active_def strand_timer_defs Let_def split: list.split)

text \<open>While the pool runs both timers are alive, and the pool obeys the invariant of \<open>Strand_Pool\<close>.\<close>

definition service_inv :: "(string \<Rightarrow> nat) \<Rightarrow> strand_service \<Rightarrow> bool" where
  "service_inv hash s \<longleftrightarrow> strand_inv hash (us_pool s) \<and>
     (if service_active s then timer_alive (us_metrics s) \<and> timer_alive (us_health s) else True)"

lemma pool_step_running:
  "e \<noteq> Start_pool \<Longrightarrow> e \<noteq> Stop_pool \<Longrightarrow> sd_running (strand_step srt hash draw p e) = sd_running p"
proof -
  assume e: "e \<noteq> Start_pool" "e \<noteq> Stop_pool"
  have pick: "sd_running (snd (pick_index now i q)) = sd_running q" for now i q
    by (simp add: pick_index_def update_strand_stats_def Let_def)
  then have rr: "sd_running (snd (round_robin_strand now q)) = sd_running q" for now q
    by (simp add: round_robin_strand_def)
  have hash: "sd_running (snd (consistent_hash_strand now h q)) = sd_running q" for now h q
    by (simp add: consistent_hash_strand_def pick split: option.split)
  have create: "sd_running ((create_strand now ^^ n) q) = sd_running q" for now n q
    by (induction n) (simp_all add: create_strand_def)
  have remove: "sd_running (foldl remove_strand q is) = sd_running q" for q "is"
    by (induction "is" arbitrary: q) (simp_all add: remove_strand_def)
  have resize: "sd_running (snd (resize srt hash now n q)) = sd_running q" for now n q
    by (simp add: resize_def create remove update_consistent_hash_ring_def Let_def)
  from e show ?thesis
    by (cases e) (simp_all add: next_strand_def least_connections_strand_def random_strand_def weighted_round_robin_strand_def
        strand_by_hash_def update_strand_config_def set_load_balance_strategy_def set_health_check_callback_def
        pick rr hash resize Let_def case_prod_unfold split: load_balance_strategy.split option.split)
qed

lemma strand_step_inv: "strand_inv hash p \<Longrightarrow> strand_inv hash (strand_step srt hash draw p e)"
  by (rule strands.invar_step)

lemma strand_inv_flag: "strand_inv hash (p\<lparr>sd_running := b\<rparr>) = strand_inv hash p"
  by (simp add: strand_inv_def)

lemma service_handlers:
  "service_inv hash s \<Longrightarrow> service_inv hash (metrics_handler s)" "service_inv hash s \<Longrightarrow> service_inv hash (health_handler s)"
proof -
  assume inv: "service_inv hash s"
  have "us_pool (metrics_handler s) = us_pool s" "us_health (metrics_handler s) = us_health s"
    by (simp_all add: metrics_handler_def strand_timer_defs Let_def split: list.split)
  with inv metrics.handler_keeps_alive [of s] metrics.handler_active [of s] show "service_inv hash (metrics_handler s)"
    by (simp add: service_inv_def split: if_splits)
  have "us_pool (health_handler s) \<in> {us_pool s, perform_health_check (us_pool s)}" "us_metrics (health_handler s) = us_metrics s"
    by (simp_all add: health_handler_def strand_timer_defs Let_def split: list.split)
  with inv health.handler_keeps_alive [of s] health.handler_active [of s] strand_inv_health [of hash "us_pool s"]
  show "service_inv hash (health_handler s)"
    by (auto simp: service_inv_def split: if_splits)
qed

lemma service_inv_step: "service_inv hash s \<Longrightarrow> service_inv hash (service_step srt hash draw s e)"
proof (cases e)
  case (Pool_event a)
  assume inv: "service_inv hash s"
  show ?thesis
  proof (cases "a = Start_pool \<or> a = Stop_pool \<or> a = Health_check \<or> us_destroyed s")
    case True
    with inv Pool_event show ?thesis
      by (auto simp: service_inv_def start_strand_pool_def stop_strand_pool_def strand_timer_defs start_pool_def stop_pool_def
          strand_inv_flag strand_inv_health service_active_def)
  next
    case False
    with Pool_event have "service_step srt hash draw s e = s\<lparr>us_pool := strand_step srt hash draw (us_pool s) a\<rparr>"
      by (cases a) simp_all
    with inv False pool_step_running [of a srt hash draw "us_pool s"] strand_step_inv [of hash "us_pool s" srt draw a]
    show ?thesis by (simp add: service_inv_def service_active_def del: strand_step.simps)
  qed
next
  case Metrics_run
  assume "service_inv hash s"
  with Metrics_run service_handlers(1) show ?thesis by simp
next
  case Health_run
  assume "service_inv hash s"
  with Health_run service_handlers(2) show ?thesis by simp
qed (auto simp: service_inv_def service_active_def set_metrics_callback_def report_metrics_internal_def
  destroy_strand_pool_def stop_strand_pool_def stop_pool_def strand_inv_flag Let_def)

lemma service_inv_new: "service_inv hash (new_strand_service hash cfg now)"
proof -
  have "sd_running ((create_strand now ^^ n) q) = sd_running q" for n q by (induction n) (simp_all add: create_strand_def)
  then have "\<not> sd_running (new_strand_pool hash cfg now)"
    by (simp add: new_strand_pool_def update_consistent_hash_ring_def Let_def)
  then show ?thesis by (simp add: service_inv_def new_strand_service_def strand_inv_new service_active_def)
qed

interpretation strand_service: step_machine "\<lambda>s. \<exists>cfg now. s = new_strand_service hash cfg now"
  "service_step srt hash draw" "service_inv hash" for srt hash draw
  by unfold_locales (auto simp: service_inv_new service_inv_step)

text \<open>
  Reports and checks go on as long as the pool runs: for each timer an expiry is on its way,
  its handler does the work exactly once, and no other timer event does it. A pool that
  does not run works by no timer.
\<close>

lemma service_keeps_working:
  "let s = foldl (service_step srt hash draw) (new_strand_service hash cfg now) es
   in if service_active s then timer_alive (us_metrics s) \<and> timer_alive (us_health s)
      else length (us_reports (metrics_handler s)) = length (us_reports s) \<and> us_checks (health_handler s) = us_checks s"
proof -
  let ?s = "foldl (service_step srt hash draw) (new_strand_service hash cfg now) es"
  have "service_inv hash ?s" by (rule strand_service.run_from_initial) blast
  with metrics.inactive_does_nothing [of ?s] health.inactive_does_nothing [of ?s] show ?thesis
    by (simp add: service_inv_def Let_def)
qed

text \<open>
  The destructor cannot take back a completion that is already posted: its handler reads the
  pool through a plain pointer after the pool is gone. The next section shows that the
  connection pool, whose handler holds a weak pointer, has no such state.
\<close>

lemma handler_after_destruction:
  "us_undefined (foldl (service_step srt hash draw) (new_strand_service hash cfg now)
     [Pool_event Start_pool, Metrics_expire, Destroy_pool, Metrics_run])"
proof -
  have "sd_running ((create_strand now ^^ n) q) = sd_running q" for n q by (induction n) (simp_all add: create_strand_def)
  then have "\<not> sd_running (new_strand_pool hash cfg now)"
    by (simp add: new_strand_pool_def update_consistent_hash_ring_def Let_def)
  then show ?thesis
    by (simp add: new_strand_service_def start_strand_pool_def strand_timer_defs asio_arm_def asio_cancel_def asio_expire_def
        new_timer_def destroy_strand_pool_def stop_strand_pool_def start_pool_def stop_pool_def metrics_handler_def
        asio_handled_def Let_def)
qed

section \<open>The cleaning of the connection pool\<close>

text \<open>\<open>ku_io\<close> says that the I/O context has been given, \<open>ku_alive\<close> that the pool has an owner.\<close>

record cleanup_service =
  ku_pool :: conn_pool
  ku_interval :: int
  ku_timer :: asio_timer
  ku_io :: bool
  ku_alive :: bool
  ku_cleanups :: nat

definition new_cleanup_service :: "64 word \<Rightarrow> int \<Rightarrow> int \<Rightarrow> conn_store \<Rightarrow> cleanup_service" where
  "new_cleanup_service max_size idle_timeout interval store =
     \<lparr>ku_pool = new_conn_pool max_size idle_timeout store, ku_interval = interval, ku_timer = new_timer, ku_io = False,
      ku_alive = True, ku_cleanups = 0\<rparr>"

text \<open>The new timer replaces the old one, whose destruction cancels its wait.\<close>

definition start_pool_cleanup :: "cleanup_service \<Rightarrow> cleanup_service" where
  "start_pool_cleanup s = s\<lparr>ku_io := True, ku_timer := asio_arm (ku_interval s) (ku_timer s)\<rparr>"

definition cleanup_handler :: "int \<Rightarrow> cleanup_service \<Rightarrow> cleanup_service" where
  "cleanup_handler now s =
     (case at_done (ku_timer s) of
        [] \<Rightarrow> s
      | expired # _ \<Rightarrow>
          let s = s\<lparr>ku_timer := asio_handled (ku_timer s)\<rparr>
          in if \<not> expired then s
             else if ku_alive s \<and> ku_io s
             then start_pool_cleanup (s\<lparr>ku_pool := cleanup_expired now (ku_pool s), ku_cleanups := ku_cleanups s + 1\<rparr>)
             else s)"

definition destroy_conn_pool :: "cleanup_service \<Rightarrow> cleanup_service" where
  "destroy_conn_pool s = s\<lparr>ku_timer := asio_cancel (ku_timer s), ku_pool := pool_clear (ku_pool s), ku_alive := False\<rparr>"

interpretation cleanup: periodic_task ku_timer "\<lambda>s. ku_alive s \<and> ku_io s" ku_cleanups "cleanup_handler now" for now
  by unfold_locales (auto simp: cleanup_handler_def start_pool_cleanup_def Let_def split: list.split)

text \<open>The events of the timer, and those of the pool while it has an owner.\<close>

inductive cleanup_step :: "cleanup_service \<Rightarrow> cleanup_service \<Rightarrow> bool" where
  Use: "ku_alive s \<Longrightarrow> pool_step (ku_pool s) e p \<Longrightarrow> cleanup_step s (s\<lparr>ku_pool := p\<rparr>)"
| Begin: "ku_alive s \<Longrightarrow> cleanup_step s (start_pool_cleanup s)"
| Expire: "cleanup_step s (s\<lparr>ku_timer := asio_expire (ku_timer s)\<rparr>)"
| Handle: "cleanup_step s (cleanup_handler now s)"
| Destroy: "ku_alive s \<Longrightarrow> cleanup_step s (destroy_conn_pool s)"

definition cleanup_inv :: "cleanup_service \<Rightarrow> bool" where
  "cleanup_inv s \<longleftrightarrow> pool_inv (ku_pool s) \<and> (if ku_alive s \<and> ku_io s then timer_alive (ku_timer s) else True)"

lemma cleanup_step_inv: "cleanup_step s t \<Longrightarrow> cleanup_inv s \<Longrightarrow> cleanup_inv t"
proof (induction rule: cleanup_step.induct)
  case (Use s e p)
  then show ?case by (simp add: cleanup_inv_def pool_step_inv)
next
  case (Handle s now)
  have "ku_pool (cleanup_handler now s) \<in> {ku_pool s, cleanup_expired now (ku_pool s)}"
    by (simp add: cleanup_handler_def start_pool_cleanup_def Let_def split: list.split)
  moreover have "pool_inv (cleanup_expired now (ku_pool s))"
    using Handle.prems pool_step_inv [OF pool_step.Cleanup] by (simp add: cleanup_inv_def)
  ultimately show ?case
    using Handle.prems cleanup.handler_keeps_alive [of s now] cleanup.handler_active [of now s]
    by (auto simp: cleanup_inv_def split: if_splits)
qed (auto simp: cleanup_inv_def start_pool_cleanup_def destroy_conn_pool_def pool_inv_def idle_conns_def pool_clear_def)

text \<open>From the start of the timer to the end of the pool the cleaning is always on its way.\<close>

lemma cleanup_goes_on:
  "cleanup_step\<^sup>*\<^sup>* (new_cleanup_service max_size idle_timeout interval store) s \<Longrightarrow> ku_alive s \<Longrightarrow> ku_io s \<Longrightarrow>
   timer_alive (ku_timer s)"
proof -
  assume run: "cleanup_step\<^sup>*\<^sup>* (new_cleanup_service max_size idle_timeout interval store) s" and "ku_alive s" "ku_io s"
  from run have "cleanup_inv s"
  proof (induction rule: rtranclp_induct)
    case base
    show ?case by (simp add: cleanup_inv_def new_cleanup_service_def new_pool_inv)
  next
    case (step s t)
    then show ?case using cleanup_step_inv by blast
  qed
  with \<open>ku_alive s\<close> \<open>ku_io s\<close> show ?thesis by (simp add: cleanup_inv_def)
qed

text \<open>A pool that is gone is not touched any more.\<close>

lemma cleanup_after_destruction:
  "cleanup_step s t \<Longrightarrow> \<not> ku_alive s \<Longrightarrow> \<not> ku_alive t \<and> ku_pool t = ku_pool s \<and> ku_cleanups t = ku_cleanups s"
  by (induction rule: cleanup_step.induct) (auto simp: cleanup_handler_def Let_def split: list.split)

end
