(* ===== verification/Config_Watch.thy ===== *)
theory Config_Watch
  imports Config_Manager
begin

text \<open>
  The configuration manager with its watcher at work (src/config/config_manager.cpp and
  src/config/detail/config_watcher.cpp): the files on disk and the times they were written,
  the polling thread turn by turn, starting and stopping it, and what the document is after
  the file has changed. The turns of the thread and the calls of the manager are serialised.
\<close>

section \<open>State\<close>

text \<open>
  The thread's two times are those of \<open>config_watcher\<close>; \<open>wt_reloads\<close> counts the emissions of
  \<open>on_reload\<close>. \<open>wc_crashed\<close> is set when an exception leaves the thread, which ends the program.
\<close>

record watch_thread =
  wt_path :: string
  wt_interval :: int
  wt_running :: bool
  wt_times :: config_watcher
  wt_reloads :: nat

record watched_config =
  wc_manager :: config_manager
  wc_watcher :: "watch_thread option"
  wc_crashed :: bool

text \<open>The files, when each was written, and a clock that every write advances.\<close>

record config_files =
  gf_env :: config_env
  gf_time :: "string \<Rightarrow> int option"
  gf_clock :: int

definition new_watched :: watched_config where
  "new_watched = \<lparr>wc_manager = new_config_manager, wc_watcher = None, wc_crashed = False\<rparr>"

section \<open>ConfigWatcher\<close>

definition new_watcher :: "string \<Rightarrow> int \<Rightarrow> watch_thread" where
  "new_watcher path interval =
     \<lparr>wt_path = path, wt_interval = interval, wt_running = False,
      wt_times = \<lparr>gw_last_write = None, gw_debounce_until = 0\<rparr>, wt_reloads = 0\<rparr>"

definition last_write_time :: "config_files \<Rightarrow> watch_thread \<Rightarrow> int option" where
  "last_write_time fs w = gf_time fs (wt_path w)"

definition watcher_start :: "config_files \<Rightarrow> watch_thread \<Rightarrow> watch_thread" where
  "watcher_start fs w =
     (if wt_running w then w
      else w\<lparr>wt_running := True, wt_times := \<lparr>gw_last_write = last_write_time fs w, gw_debounce_until = 0\<rparr>\<rparr>)"

definition watcher_stop :: "watch_thread \<Rightarrow> watch_thread" where
  "watcher_stop w = (if \<not> wt_running w then w else w\<lparr>wt_running := False\<rparr>)"

text \<open>One turn of \<open>run_loop\<close> with the load it may do.\<close>

definition run_loop_turn :: "int \<Rightarrow> config_files \<Rightarrow> watched_config \<Rightarrow> watched_config" where
  "run_loop_turn now fs c =
     (case wc_watcher c of
        None \<Rightarrow> c
      | Some w \<Rightarrow>
          if \<not> wt_running w \<or> wc_crashed c then c
          else let (due, times) = watch_turn now (last_write_time fs w) (wt_times w); w = w\<lparr>wt_times := times\<rparr>
               in if \<not> due then c\<lparr>wc_watcher := Some w\<rparr>
                  else case load_file (gf_env fs) (wt_path w) (wc_manager c) of
                         (Inl e, m) \<Rightarrow> c\<lparr>wc_manager := m, wc_watcher := Some w, wc_crashed := True\<rparr>
                       | (Inr ok, m) \<Rightarrow> c\<lparr>wc_manager := m, wc_watcher := Some (w\<lparr>wt_reloads := wt_reloads w + 1\<rparr>)\<rparr>)"

section \<open>Watching by the manager\<close>

definition start_watching :: "int \<Rightarrow> config_files \<Rightarrow> watched_config \<Rightarrow> watched_config" where
  "start_watching interval fs c =
     (if gm_path (wc_manager c) = [] then c
      else let w = (case wc_watcher c of None \<Rightarrow> new_watcher (gm_path (wc_manager c)) interval | Some w \<Rightarrow> w)
           in c\<lparr>wc_watcher := Some (watcher_start fs w)\<rparr>)"

definition stop_watching :: "watched_config \<Rightarrow> watched_config" where
  "stop_watching c = c\<lparr>wc_watcher := map_option watcher_stop (wc_watcher c)\<rparr>"

text \<open>\<open>initialize\<close>: the watcher is started unless loading throws, also when loading fails.\<close>

definition initialize_watched ::
  "string \<Rightarrow> bool \<Rightarrow> int \<Rightarrow> config_files \<Rightarrow> watched_config \<Rightarrow> bool throws \<times> watched_config" where
  "initialize_watched path enable_watch interval fs c =
     (case config_initialize (gf_env fs) path (wc_manager c) of
        (Inl e, m) \<Rightarrow> (Inl e, c\<lparr>wc_manager := m\<rparr>)
      | (Inr ok, m) \<Rightarrow>
          let c = c\<lparr>wc_manager := m\<rparr>
          in (Inr ok, if enable_watch then start_watching interval fs c else c))"

definition reload_watched :: "config_files \<Rightarrow> watched_config \<Rightarrow> watched_config" where
  "reload_watched fs c = c\<lparr>wc_manager := snd (reload (gf_env fs) (wc_manager c))\<rparr>"

section \<open>The world of one configuration file\<close>

datatype file_change = Write_json "json option" | Write_yaml "yaml option" | Remove_file

text \<open>
  A write gives the file new contents, well-formed or not, and a time after all earlier ones;
  the other events are a turn of the watcher, so many milliseconds after the one before, a
  reload, and stopping and initialising again.
\<close>

datatype watch_event =
    Change string file_change nat
  | Turn nat
  | Reload_now
  | Stop_watching
  | Initialize_again int

record watch_world =
  ww_config :: watched_config
  ww_files :: config_files
  ww_last_turn :: int

definition change_file :: "string \<Rightarrow> file_change \<Rightarrow> nat \<Rightarrow> config_files \<Rightarrow> config_files" where
  "change_file path ch d fs =
     (let t = gf_clock fs + 1 + int d; fs = fs\<lparr>gf_clock := t\<rparr>
      in case ch of
           Write_json doc \<Rightarrow> fs\<lparr>gf_env := (gf_env fs)\<lparr>ge_json_file := (ge_json_file (gf_env fs))(path := doc)\<rparr>,
                               gf_time := (gf_time fs)(path := Some t)\<rparr>
         | Write_yaml doc \<Rightarrow> fs\<lparr>gf_env := (gf_env fs)\<lparr>ge_yaml_file := (ge_yaml_file (gf_env fs))(path := doc)\<rparr>,
                               gf_time := (gf_time fs)(path := Some t)\<rparr>
         | Remove_file \<Rightarrow>
             fs\<lparr>gf_env := (gf_env fs)\<lparr>ge_json_file := (ge_json_file (gf_env fs))(path := None),
                                     ge_yaml_file := (ge_yaml_file (gf_env fs))(path := None)\<rparr>,
                gf_time := (gf_time fs)(path := None)\<rparr>)"

fun watch_step :: "watch_world \<Rightarrow> watch_event \<Rightarrow> watch_world" where
  "watch_step s (Change path ch d) = s\<lparr>ww_files := change_file path ch d (ww_files s)\<rparr>"
| "watch_step s (Turn d) =
     (let now = ww_last_turn s + int d
      in s\<lparr>ww_config := run_loop_turn now (ww_files s) (ww_config s), ww_last_turn := now\<rparr>)"
| "watch_step s Reload_now = s\<lparr>ww_config := reload_watched (ww_files s) (ww_config s)\<rparr>"
| "watch_step s Stop_watching = s\<lparr>ww_config := stop_watching (ww_config s)\<rparr>"
| "watch_step s (Initialize_again interval) =
     s\<lparr>ww_config := snd (initialize_watched (gm_path (wc_manager (ww_config s))) True interval (ww_files s) (ww_config s))\<rparr>"

text \<open>A program that initialises its configuration from a file and watches it, on a clock not before 0.\<close>

definition start_world :: "string \<Rightarrow> int \<Rightarrow> config_files \<Rightarrow> nat \<Rightarrow> watch_world" where
  "start_world path interval fs t0 =
     \<lparr>ww_config = snd (initialize_watched path True interval fs new_watched), ww_files = fs, ww_last_turn = int t0\<rparr>"

section \<open>What a load leaves\<close>

text \<open>The document a load would install now.\<close>

definition loadable :: "config_env \<Rightarrow> string \<Rightarrow> config_manager \<Rightarrow> json option" where
  "loadable env path m =
     (case loader_for env path m of
        None \<Rightarrow> None
      | Some loader \<Rightarrow>
          (case loader path of
             None \<Rightarrow> None
           | Some doc \<Rightarrow>
               let merged = deep_merge (default_document (ge_processors env)) doc
               in case (case gm_validator m of None \<Rightarrow> None | Some v \<Rightarrow> v merged) of Some err \<Rightarrow> None | None \<Rightarrow> Some merged))"

lemma rebuild_keeps:
  "rebuild_snapshot_unlocked env m = (x, m') \<Longrightarrow>
   gm_document m' = gm_document m \<and> gm_loaders m' = gm_loaders m \<and> gm_validator m' = gm_validator m \<and> gm_path m' = gm_path m"
  by (auto simp: rebuild_snapshot_unlocked_def Let_def split: sum.splits)

lemma load_file_installs:
  assumes "load_file env path m = (r, m')"
  shows "gm_document m' = (case loadable env path m of None \<Rightarrow> gm_document m | Some d \<Rightarrow> d)"
    and "gm_loaders m' = gm_loaders m" and "gm_validator m' = gm_validator m" and "gm_path m' = gm_path m"
  using assms
  by (auto simp: load_file_def loadable_def config_log_def notify_subscribers_unlocked_def Let_def
      split: option.splits prod.splits if_splits dest!: rebuild_keeps)

lemma loadable_cong:
  assumes "gm_loaders m' = gm_loaders m" and "gm_validator m' = gm_validator m"
  shows "loadable env path m' = loadable env path m"
  unfolding loadable_def loader_for_def assms by (rule refl)

text \<open>The document is that of the file as it is now, if the file can be loaded.\<close>

definition up_to_date :: "config_files \<Rightarrow> string \<Rightarrow> config_manager \<Rightarrow> bool" where
  "up_to_date fs path m = (case loadable (gf_env fs) path m of None \<Rightarrow> True | Some d \<Rightarrow> gm_document m = d)"

lemma load_up_to_date:
  "load_file (gf_env fs) path m = (r, m') \<Longrightarrow> up_to_date fs path m' \<and> gm_path m' = gm_path m"
  using load_file_installs [of "gf_env fs" path m r m'] loadable_cong [of m' m "gf_env fs" path]
  by (simp add: up_to_date_def split: option.split)

lemma loader_only:
  "loader_for env path m = Some l \<Longrightarrow> ge_json_file env' path = ge_json_file env path \<Longrightarrow> ge_yaml_file env' path = ge_yaml_file env path \<Longrightarrow>
   \<exists>l'. loader_for env' path m = Some l' \<and> l' path = l path"
  by (auto simp: loader_for_def load_json_static_def load_yaml_static_def Let_def split: option.splits if_splits)

lemma loader_none: "loader_for env path m = None \<Longrightarrow> loader_for env' path m = None"
  by (auto simp: loader_for_def Let_def split: option.splits if_splits)

lemma loadable_other_file:
  assumes "ge_json_file env' path = ge_json_file env path" and "ge_yaml_file env' path = ge_yaml_file env path"
    and "ge_processors env' = ge_processors env"
  shows "loadable env' path m = loadable env path m"
proof (cases "loader_for env path m")
  case None
  with loader_none [OF None, of env'] show ?thesis by (simp add: loadable_def)
next
  case (Some l)
  from loader_only [OF Some assms(1,2)] obtain l' where "loader_for env' path m = Some l'" "l' path = l path" by blast
  with Some show ?thesis unfolding loadable_def assms(3) by simp
qed

section \<open>Invariant\<close>

definition files_ok :: "config_files \<Rightarrow> bool" where
  "files_ok fs \<longleftrightarrow> (\<forall>p t. gf_time fs p = Some t \<longrightarrow> t \<le> gf_clock fs)"

text \<open>A change is waiting to be seen.\<close>

definition unseen :: "config_files \<Rightarrow> watch_thread \<Rightarrow> bool" where
  "unseen fs w \<longleftrightarrow> last_write_time fs w \<noteq> None \<and> last_write_time fs w \<noteq> gw_last_write (wt_times w)"

definition thread_inv :: "int \<Rightarrow> config_files \<Rightarrow> config_manager \<Rightarrow> watch_thread \<Rightarrow> bool" where
  "thread_inv now fs m w \<longleftrightarrow> wt_path w = gm_path m \<and>
     (\<forall>t. gw_last_write (wt_times w) = Some t \<longrightarrow> t \<le> gf_clock fs) \<and>
     gw_debounce_until (wt_times w) \<le> now + 300 \<and>
     (wt_running w \<and> last_write_time fs w \<noteq> None \<and> \<not> unseen fs w \<longrightarrow> up_to_date fs (gm_path m) m)"

definition watch_inv :: "string \<Rightarrow> watch_world \<Rightarrow> bool" where
  "watch_inv path s \<longleftrightarrow> gm_path (wc_manager (ww_config s)) = path \<and> files_ok (ww_files s) \<and> 0 \<le> ww_last_turn s \<and>
     (case wc_watcher (ww_config s) of
        None \<Rightarrow> True | Some w \<Rightarrow> thread_inv (ww_last_turn s) (ww_files s) (wc_manager (ww_config s)) w)"

lemma files_ok_change: "files_ok fs \<Longrightarrow> files_ok (change_file path ch d fs)"
  by (cases ch) (force simp: files_ok_def change_file_def Let_def)+

lemma change_file_sels:
  "gf_clock fs \<le> gf_clock (change_file path ch d fs)"
  "q \<noteq> path \<Longrightarrow> gf_time (change_file path ch d fs) q = gf_time fs q \<and>
     ge_json_file (gf_env (change_file path ch d fs)) q = ge_json_file (gf_env fs) q \<and>
     ge_yaml_file (gf_env (change_file path ch d fs)) q = ge_yaml_file (gf_env fs) q"
  "ge_processors (gf_env (change_file path ch d fs)) = ge_processors (gf_env fs)"
  "gf_time (change_file path ch d fs) path = Some t \<Longrightarrow> gf_clock fs < t"
  by (cases ch; simp add: change_file_def Let_def)+

text \<open>A change leaves the watcher's invariant: to its own file it is one not seen yet.\<close>

lemma thread_inv_change:
  assumes "thread_inv now fs m w"
  shows "thread_inv now (change_file path ch d fs) m w"
proof (cases "wt_path w = path")
  case True
  have "t < t'" if "gw_last_write (wt_times w) = Some t" "gf_time (change_file path ch d fs) path = Some t'" for t t'
    using assms that(1) change_file_sels(4) [OF that(2)] by (force simp: thread_inv_def)
  then have "last_write_time (change_file path ch d fs) w \<noteq> None \<Longrightarrow> unseen (change_file path ch d fs) w"
    using True by (force simp: unseen_def last_write_time_def)
  moreover have "t \<le> gf_clock (change_file path ch d fs)" if "gw_last_write (wt_times w) = Some t" for t
    using assms that change_file_sels(1) [of fs path ch d] by (force simp: thread_inv_def)
  ultimately show ?thesis using assms by (auto simp: thread_inv_def)
next
  case False
  have same: "last_write_time (change_file path ch d fs) w = last_write_time fs w"
    using change_file_sels(2) [OF False] by (simp add: last_write_time_def)
  have "gm_path m = wt_path w" using assms by (simp add: thread_inv_def)
  then have "up_to_date (change_file path ch d fs) (gm_path m) m = up_to_date fs (gm_path m) m"
    using loadable_other_file [of "gf_env (change_file path ch d fs)" "wt_path w" "gf_env fs" m]
      change_file_sels(2) [OF False, of ch d fs] change_file_sels(3) by (simp add: up_to_date_def)
  moreover have "t \<le> gf_clock (change_file path ch d fs)" if "gw_last_write (wt_times w) = Some t" for t
    using assms that change_file_sels(1) [of fs path ch d] by (force simp: thread_inv_def)
  ultimately show ?thesis using assms same by (auto simp: thread_inv_def unseen_def)
qed

lemma thread_inv_later: "thread_inv now fs m w \<Longrightarrow> now \<le> now' \<Longrightarrow> thread_inv now' fs m w"
  by (simp add: thread_inv_def)

text \<open>After a load the invariant holds again whatever the document was.\<close>

lemma thread_inv_loaded:
  "thread_inv now fs m w \<Longrightarrow> load_file (gf_env fs) (gm_path m) m = (r, m') \<Longrightarrow> thread_inv now fs m' w"
  using load_up_to_date [of fs "gm_path m" m r m'] by (simp add: thread_inv_def)

lemma thread_inv_started:
  "files_ok fs \<Longrightarrow> 0 \<le> now \<Longrightarrow> up_to_date fs (gm_path m) m \<Longrightarrow> wt_path w = gm_path m \<Longrightarrow>
   \<not> wt_running w \<Longrightarrow> thread_inv now fs m (watcher_start fs w)"
  by (simp add: thread_inv_def watcher_start_def last_write_time_def files_ok_def)

lemma watch_invD:
  assumes "watch_inv path s"
  shows "gm_path (wc_manager (ww_config s)) = path" "files_ok (ww_files s)" "0 \<le> ww_last_turn s"
    "wc_watcher (ww_config s) = Some w \<Longrightarrow> thread_inv (ww_last_turn s) (ww_files s) (wc_manager (ww_config s)) w"
  using assms by (simp_all add: watch_inv_def)

lemma watch_inv_loaded:
  assumes "watch_inv path s" and "load_file (gf_env (ww_files s)) path (wc_manager (ww_config s)) = (r, m)"
    and "wc_watcher (ww_config s) = Some w"
  shows "thread_inv (ww_last_turn s) (ww_files s) m w"
proof -
  have "load_file (gf_env (ww_files s)) (gm_path (wc_manager (ww_config s))) (wc_manager (ww_config s)) = (r, m)"
    unfolding watch_invD(1) [OF assms(1)] by (rule assms(2))
  from thread_inv_loaded [OF watch_invD(4) [OF assms(1,3)] this] show ?thesis .
qed

lemma watch_inv_initialize:
  assumes "watch_inv path s"
  shows "watch_inv path (s\<lparr>ww_config := snd (initialize_watched path True interval (ww_files s) (ww_config s))\<rparr>)"
proof -
  let ?c = "ww_config s" and ?fs = "ww_files s"
  obtain r m where load: "load_file (gf_env ?fs) path (wc_manager ?c) = (r, m)" by fastforce
  have "(wc_manager ?c)\<lparr>gm_path := path\<rparr> = wc_manager ?c"
    using assms by (cases "wc_manager ?c") (simp add: watch_inv_def)
  with load have init: "config_initialize (gf_env ?fs) path (wc_manager ?c) = (r, m)"
    by (simp add: config_initialize_def)
  from load_up_to_date [OF load] watch_invD(1) [OF assms] have m: "up_to_date ?fs path m" "gm_path m = path" by simp_all
  have w: "thread_inv (ww_last_turn s) ?fs m w" if "wc_watcher ?c = Some w" for w
    using watch_inv_loaded [OF assms load that] .
  then have "thread_inv (ww_last_turn s) ?fs m (watcher_start ?fs w)" if "wc_watcher ?c = Some w" for w
    using thread_inv_started [of ?fs "ww_last_turn s" m w] watch_invD(2,3) [OF assms] m that
    by (cases "wt_running w") (auto simp: thread_inv_def watcher_start_def)
  moreover have "thread_inv (ww_last_turn s) ?fs m (watcher_start ?fs (new_watcher path interval))"
    using thread_inv_started assms m by (simp add: watch_inv_def new_watcher_def)
  ultimately show ?thesis
    using assms m init w
    by (cases r) (auto simp: watch_inv_def initialize_watched_def start_watching_def Let_def split: option.split)
qed

text \<open>What a turn does to a watcher that runs.\<close>

lemma run_loop_turn_cases:
  assumes "wc_watcher c = Some w" and "wt_running w" and "\<not> wc_crashed c"
  shows "(run_loop_turn now fs c = c \<and> (gw_debounce_until (wt_times w) \<le> now \<longrightarrow> \<not> unseen fs w)) \<or>
    (unseen fs w \<and> (\<exists>r m w'. load_file (gf_env fs) (wt_path w) (wc_manager c) = (r, m) \<and>
       wc_manager (run_loop_turn now fs c) = m \<and> wc_watcher (run_loop_turn now fs c) = Some w' \<and>
       wt_path w' = wt_path w \<and> wt_running w' \<and> wt_reloads w' \<le> wt_reloads w + 1 \<and>
       wt_times w' = \<lparr>gw_last_write = last_write_time fs w, gw_debounce_until = now + 300\<rparr>))"
proof (cases "fst (watch_turn now (last_write_time fs w) (wt_times w))")
  case True
  obtain r m where load: "load_file (gf_env fs) (wt_path w) (wc_manager c) = (r, m)" by fastforce
  from True have t: "watch_turn now (last_write_time fs w) (wt_times w) =
      (True, \<lparr>gw_last_write = last_write_time fs w, gw_debounce_until = now + 300\<rparr>)" and u: "unseen fs w"
    by (simp_all add: watch_turn_def unseen_def split: if_splits)
  show ?thesis using assms t u load by (cases r) (simp_all add: run_loop_turn_def)
next
  case False
  then have t: "watch_turn now (last_write_time fs w) (wt_times w) = (False, wt_times w)"
    by (simp add: watch_turn_def split: if_splits)
  have "c\<lparr>wc_watcher := Some w\<rparr> = c" using assms(1) by (cases c) simp
  with t assms have "run_loop_turn now fs c = c" by (simp add: run_loop_turn_def)
  moreover have "gw_debounce_until (wt_times w) \<le> now \<Longrightarrow> \<not> unseen fs w"
    using False by (auto simp: watch_turn_def unseen_def split: if_splits)
  ultimately show ?thesis by blast
qed

lemma run_loop_turn_off:
  "wc_watcher c = None \<or> (\<exists>w. wc_watcher c = Some w \<and> \<not> wt_running w) \<or> wc_crashed c \<Longrightarrow> run_loop_turn now fs c = c"
  by (auto simp: run_loop_turn_def split: option.split)

lemma watch_inv_turn:
  assumes "watch_inv path s"
  shows "watch_inv path (watch_step s (Turn d))"
proof -
  let ?now = "ww_last_turn s + int d" and ?c = "ww_config s" and ?fs = "ww_files s"
  have idle: "watch_inv path (s\<lparr>ww_last_turn := ?now\<rparr>)"
    using assms by (auto simp: watch_inv_def intro: thread_inv_later split: option.splits)
  have same: "s\<lparr>ww_config := ?c, ww_last_turn := ?now\<rparr> = s\<lparr>ww_last_turn := ?now\<rparr>" by (cases s) simp
  show ?thesis
  proof (cases "wc_watcher ?c = None \<or> (\<exists>w. wc_watcher ?c = Some w \<and> \<not> wt_running w) \<or> wc_crashed ?c")
    case True
    with idle same show ?thesis by (simp add: run_loop_turn_off Let_def)
  next
    case False
    then obtain w where w: "wc_watcher ?c = Some w" "wt_running w" "\<not> wc_crashed ?c" by auto
    from run_loop_turn_cases [OF w, of ?now ?fs] show ?thesis
    proof (elim disjE conjE exE)
      assume "run_loop_turn ?now ?fs ?c = ?c"
      with idle same show ?thesis by (simp add: Let_def)
    next
      fix r m w'
      assume 1: "load_file (gf_env ?fs) (wt_path w) (wc_manager ?c) = (r, m)" "wc_manager (run_loop_turn ?now ?fs ?c) = m"
        "wc_watcher (run_loop_turn ?now ?fs ?c) = Some w'" "wt_path w' = wt_path w"
        "wt_times w' = \<lparr>gw_last_write = last_write_time ?fs w, gw_debounce_until = ?now + 300\<rparr>"
      from assms w(1) have "wt_path w = path" "gm_path (wc_manager ?c) = path" "files_ok ?fs"
        by (simp_all add: watch_inv_def thread_inv_def)
      with 1 assms load_up_to_date [OF 1(1)] show ?thesis
        by (simp add: watch_inv_def thread_inv_def files_ok_def last_write_time_def Let_def)
    qed
  qed
qed

lemma watch_inv_step: "watch_inv path s \<Longrightarrow> watch_inv path (watch_step s e)"
proof (cases e)
  case (Change q ch d)
  assume "watch_inv path s"
  with Change show ?thesis by (auto simp: watch_inv_def files_ok_change thread_inv_change split: option.splits)
next
  case (Turn d)
  assume "watch_inv path s"
  with watch_inv_turn Turn show ?thesis by blast
next
  case Reload_now
  assume inv: "watch_inv path s"
  obtain r m where load: "load_file (gf_env (ww_files s)) path (wc_manager (ww_config s)) = (r, m)" by fastforce
  have "snd (reload (gf_env (ww_files s)) (wc_manager (ww_config s))) \<in> {wc_manager (ww_config s), m}"
    unfolding reload_def watch_invD(1) [OF inv] load by simp
  moreover have "gm_path m = path" using load_up_to_date [OF load] watch_invD(1) [OF inv] by simp
  moreover have "thread_inv (ww_last_turn s) (ww_files s) m w" if "wc_watcher (ww_config s) = Some w" for w
    using watch_inv_loaded [OF inv load that] .
  ultimately show ?thesis using inv Reload_now
    by (auto simp: watch_inv_def reload_watched_def split: option.split)
next
  case Stop_watching
  assume "watch_inv path s"
  with Stop_watching show ?thesis
    by (auto simp: watch_inv_def stop_watching_def watcher_stop_def thread_inv_def unseen_def last_write_time_def split: option.splits)
next
  case (Initialize_again interval)
  assume "watch_inv path s"
  with watch_inv_initialize [OF this, of interval] Initialize_again show ?thesis by (simp add: watch_inv_def)
qed

lemma watch_inv_start: "files_ok fs \<Longrightarrow> watch_inv path (start_world path interval fs t0)"
proof -
  assume "files_ok fs"
  then have inv: "watch_inv path \<lparr>ww_config = new_watched\<lparr>wc_manager := new_config_manager\<lparr>gm_path := path\<rparr>\<rparr>, ww_files = fs, ww_last_turn = int t0\<rparr>"
    by (simp add: watch_inv_def new_watched_def)
  have "initialize_watched path True interval fs (new_watched\<lparr>wc_manager := new_config_manager\<lparr>gm_path := path\<rparr>\<rparr>) =
      initialize_watched path True interval fs new_watched"
    by (simp add: initialize_watched_def config_initialize_def new_watched_def split: prod.split sum.split)
  with watch_inv_initialize [OF inv, of interval] show ?thesis by (simp add: start_world_def)
qed

interpretation watch: step_machine "\<lambda>s. \<exists>interval fs t0. s = start_world path interval fs t0 \<and> files_ok fs" watch_step "watch_inv path"
  for path
  by unfold_locales (auto simp: watch_inv_start watch_inv_step simp del: watch_step.simps)

section \<open>Loads are no more than changes\<close>

fun is_change :: "watch_event \<Rightarrow> bool" where
  "is_change (Change path ch d) = True"
| "is_change _ = False"

text \<open>The changes seen so far, with the one that waits to be seen.\<close>

definition reload_count :: "watch_world \<Rightarrow> nat" where
  "reload_count s = (case wc_watcher (ww_config s) of None \<Rightarrow> 0 | Some w \<Rightarrow> wt_reloads w)"

definition seen_count :: "config_files \<Rightarrow> watched_config \<Rightarrow> nat" where
  "seen_count fs c = (case wc_watcher c of None \<Rightarrow> 0
     | Some w \<Rightarrow> wt_reloads w + (if wt_running w \<and> unseen fs w then 1 else 0))"

definition seen_or_due :: "watch_world \<Rightarrow> nat" where
  "seen_or_due s = seen_count (ww_files s) (ww_config s)"

lemma seen_start_watching: "seen_count fs (start_watching interval fs c) \<le> seen_count fs c"
  by (auto simp: seen_count_def start_watching_def watcher_start_def new_watcher_def unseen_def last_write_time_def
      split: option.split)

lemma seen_count_manager [simp]: "seen_count fs (c\<lparr>wc_manager := m\<rparr>) = seen_count fs c"
  by (simp add: seen_count_def)

lemma seen_initialize: "seen_count fs (snd (initialize_watched path True interval fs c)) \<le> seen_count fs c"
  using seen_start_watching [of fs interval]
  by (auto simp: initialize_watched_def Let_def split: prod.split sum.split) (metis seen_count_manager)

lemma seen_turn: "seen_count fs (run_loop_turn now fs c) \<le> seen_count fs c"
proof (cases "wc_watcher c = None \<or> (\<exists>w. wc_watcher c = Some w \<and> \<not> wt_running w) \<or> wc_crashed c")
  case True
  then show ?thesis by (simp add: run_loop_turn_off)
next
  case False
  then obtain w where w: "wc_watcher c = Some w" "wt_running w" "\<not> wc_crashed c" by auto
  from run_loop_turn_cases [OF w, of now fs] w show ?thesis
    by (auto simp: seen_count_def unseen_def last_write_time_def)
qed

lemma seen_step: "seen_or_due (watch_step s e) \<le> seen_or_due s + (if is_change e then 1 else 0)"
proof (cases e)
  case (Change q ch d)
  then show ?thesis by (auto simp: seen_or_due_def seen_count_def split: option.split)
next
  case (Turn d)
  then show ?thesis by (simp add: seen_or_due_def seen_turn Let_def)
next
  case (Initialize_again interval)
  then show ?thesis by (simp add: seen_or_due_def seen_initialize)
qed (simp_all add: seen_or_due_def seen_count_def reload_watched_def stop_watching_def watcher_stop_def split: option.split)

lemma seen_run: "seen_or_due (foldl watch_step s es) \<le> seen_or_due s + length (filter is_change es)"
proof (induction es arbitrary: s)
  case (Cons e es)
  from Cons.IH [of "watch_step s e"] seen_step [of s e] show ?case by (auto simp del: watch_step.simps split: if_splits)
qed simp

lemma seen_start: "seen_or_due (start_world path interval fs t0) = 0"
  using seen_initialize [of fs path interval new_watched]
  by (simp add: seen_or_due_def start_world_def) (simp add: seen_count_def new_watched_def)

section \<open>Properties\<close>

definition watching :: "watch_world \<Rightarrow> bool" where
  "watching s = (\<not> wc_crashed (ww_config s) \<and>
     (case wc_watcher (ww_config s) of None \<Rightarrow> False | Some w \<Rightarrow> wt_running w \<and> last_write_time (ww_files s) w \<noteq> None))"


text \<open>A program whose settings file is empty at first.\<close>

definition empty_settings :: config_files where
  "empty_settings = \<lparr>gf_env = \<lparr>ge_json_file = (\<lambda>_. Some (JObject [])), ge_yaml_file = (\<lambda>_. None), ge_processors = 8\<rparr>,
     gf_time = (\<lambda>_. Some 1), gf_clock = 1\<rparr>"

definition settings_world :: watch_world where
  "settings_world = start_world ''app.json'' 2000 empty_settings 0"

lemma app_loader:
  "gm_loaders m = [] \<Longrightarrow> loader_for env ''app.json'' m = Some (load_json_static env)"
  by (simp add: loader_for_def extension_def path_elements_def Let_def)

lemma deep_merge_nothing: "deep_merge (default_document hw) (JObject []) = default_document hw"
  by (simp add: default_document_def)

lemma settings_world_started:
  "wc_crashed (ww_config settings_world) = False"
  "wc_watcher (ww_config settings_world) = Some \<lparr>wt_path = ''app.json'', wt_interval = 2000, wt_running = True,
     wt_times = \<lparr>gw_last_write = Some 1, gw_debounce_until = 0\<rparr>, wt_reloads = 0\<rparr>"
  "ww_files settings_world = empty_settings" "ww_last_turn settings_world = 0"
  "gm_loaders (wc_manager (ww_config settings_world)) = []" "gm_validator (wc_manager (ww_config settings_world)) = None"
proof -
  let ?m = "new_config_manager\<lparr>gm_path := ''app.json''\<rparr>"
  have sels: "gm_loaders ?m = []" "gm_validator ?m = None" "gm_path ?m = ''app.json''" by (simp_all add: new_config_manager_def)
  obtain m where m: "load_file (gf_env empty_settings) ''app.json'' ?m = (Inr True, m)"
    using app_loader [OF sels(1), of "gf_env empty_settings"] sels(2) default_document_agrees [of 8]
    by (simp add: load_file_def load_json_static_def empty_settings_def deep_merge_nothing rebuild_snapshot_unlocked_def Let_def
        del: deep_merge.simps)
  have keep: "gm_loaders m = []" "gm_validator m = None" "gm_path m = ''app.json''"
    using load_file_installs [OF m] sels by simp_all
  have "ww_config settings_world = start_watching 2000 empty_settings (new_watched\<lparr>wc_manager := m\<rparr>)"
    using m by (simp add: settings_world_def start_world_def initialize_watched_def config_initialize_def new_watched_def Let_def)
  with keep show "wc_crashed (ww_config settings_world) = False"
    "wc_watcher (ww_config settings_world) = Some \<lparr>wt_path = ''app.json'', wt_interval = 2000, wt_running = True,
       wt_times = \<lparr>gw_last_write = Some 1, gw_debounce_until = 0\<rparr>, wt_reloads = 0\<rparr>"
    "gm_loaders (wc_manager (ww_config settings_world)) = []" "gm_validator (wc_manager (ww_config settings_world)) = None"
    by (simp_all add: start_watching_def watcher_start_def new_watcher_def new_watched_def last_write_time_def empty_settings_def)
qed (simp_all add: settings_world_def start_world_def)


section \<open>Behaviours worth knowing\<close>

text \<open>
  A write between the load of \<open>initialize\<close> and the start of its watcher is lost: the watcher
  takes the time it finds at its start for that of the load, and no turn loads the file.
\<close>

lemma write_before_start_lost:
  assumes "wc_watcher c = None" and "gm_path (wc_manager c) \<noteq> []"
  shows "run_loop_turn now fs (start_watching interval fs c) = start_watching interval fs c"
proof -
  let ?w = "watcher_start fs (new_watcher (gm_path (wc_manager c)) interval)"
  have c: "start_watching interval fs c = c\<lparr>wc_watcher := Some ?w\<rparr>" using assms by (simp add: start_watching_def)
  have "wt_times ?w = \<lparr>gw_last_write = last_write_time fs ?w, gw_debounce_until = 0\<rparr>"
    by (simp add: watcher_start_def new_watcher_def last_write_time_def)
  then have "watch_turn now (last_write_time fs ?w) (wt_times ?w) = (False, wt_times ?w)" by (simp add: watch_turn_def)
  then show ?thesis by (simp add: c run_loop_turn_def)
qed

text \<open>Initialising from another file keeps the watcher of the first one, whose next change replaces the new settings.\<close>

lemma watcher_keeps_first_path:
  assumes "wc_watcher c = Some w"
  shows "\<exists>w'. wc_watcher (snd (initialize_watched path True interval fs c)) = Some w' \<and> wt_path w' = wt_path w"
  using assms
  by (auto simp: initialize_watched_def start_watching_def watcher_start_def Let_def split: prod.split sum.split)

text \<open>A file with a value of the wrong type ends the program: nothing catches what the load throws in the thread.\<close>

lemma bad_file_ends_program:
  "wc_crashed (ww_config (foldl watch_step settings_world [Change ''app.json'' (Write_json (Some (JArray []))) 0, Turn 300]))"
proof -
  let ?m = "wc_manager (ww_config settings_world)" and ?fs = "change_file ''app.json'' (Write_json (Some (JArray []))) 0 empty_settings"
  have "loader_for (gf_env ?fs) ''app.json'' ?m = Some (load_json_static (gf_env ?fs))"
    using settings_world_started(5) by (rule app_loader)
  then have "fst (load_file (gf_env ?fs) ''app.json'' ?m) = Inl type_error"
    by (simp add: load_file_def load_json_static_def settings_world_started change_file_def empty_settings_def Let_def
        deep_merge_not_objects rebuild_snapshot_unlocked_def snapshot_of_def json_from_doc_def doc_section_def)
  then obtain m where "load_file (gf_env ?fs) ''app.json'' ?m = (Inl type_error, m)" by (metis prod.collapse)
  moreover have "gf_time ?fs ''app.json'' = Some 2" by (simp add: change_file_def empty_settings_def Let_def)
  ultimately show ?thesis
    by (simp add: run_loop_turn_def settings_world_started watch_turn_def last_write_time_def Let_def)
qed

end
