(* ===== verification/Callback_Build.thy ===== *)
theory Callback_Build
  imports Server
begin

text \<open>
  The branches for compilers without coroutines: \<open>SslSession\<close> (src/server/ssl_session.cpp) and
  \<open>WssSession\<close> (src/server/wss_session.cpp) as chains of completion handlers, and the accept
  loops of server.cpp and ssl_server.cpp that restart themselves from their handlers; with
  what relates them to the coroutines of \<open>Session\<close> and \<open>Server\<close>. The like branch of
  \<open>Session::run\<close> does not compile and is left out.
\<close>

section \<open>Accepting\<close>

definition accept_loop_cb :: "'c server \<Rightarrow> 'c server" where
  "accept_loop_cb s = (if sv_stopping s then s else s\<lparr>sv_waiting := True\<rparr>)"

definition accept_handler :: "(nat + io_error) \<Rightarrow> 'c server \<Rightarrow> 'c server" where
  "accept_handler r s =
     (let s = s\<lparr>sv_waiting := False\<rparr>
      in case r of
           Inr ec \<Rightarrow> if ec = Ec_aborted then s else accept_loop_cb s
         | Inl sock \<Rightarrow> accept_loop_cb (start_accepted sock s))"

definition ssl_accept_loop_cb :: "'c server \<Rightarrow> 'c server" where
  "ssl_accept_loop_cb s = (if sv_stopping s then s else s\<lparr>sv_waiting := True\<rparr>)"

definition ssl_accept_handler :: "(nat + io_error) \<Rightarrow> 'c server \<Rightarrow> 'c server" where
  "ssl_accept_handler r s =
     (let s = s\<lparr>sv_waiting := False\<rparr>
      in case r of
           Inr ec \<Rightarrow> if ec = Ec_aborted \<and> sv_stopping s then s else ssl_accept_loop_cb s
         | Inl sock \<Rightarrow> ssl_accept_loop_cb (start_accepted sock s))"

fun server_step_cb :: "bool \<Rightarrow> 'c server \<Rightarrow> server_event \<Rightarrow> 'c server" where
  "server_step_cb tls s (Accepted sock) =
     (if sv_waiting s then (if tls then ssl_accept_handler else accept_handler) (Inl sock) s else s)"
| "server_step_cb tls s (Accept_failed ec) =
     (if sv_waiting s then (if tls then ssl_accept_handler else accept_handler) (Inr ec) s else s)"
| "server_step_cb tls s Stop_server = (if tls then stop_ssl_server else stop_server) s"
| "server_step_cb tls s (Bind_router r) = bind_router r s"

text \<open>Both builds of a server do the same on every event.\<close>

lemma accept_loops_agree: "accept_loop_cb (s\<lparr>sv_waiting := False\<rparr>) = accept_loop (s\<lparr>sv_waiting := False\<rparr>)"
  by (cases s) (simp add: accept_loop_cb_def accept_loop_def)

lemma accept_builds_agree: "foldl (server_step_cb tls) s es = foldl (server_step tls) s es"
proof -
  have "ssl_accept_handler r s = ssl_accepted r s \<and> accept_handler r s = accepted r s" for r and s :: "'a server"
    by (cases s) (simp add: ssl_accept_handler_def ssl_accepted_def accept_handler_def accepted_def accept_loop_cb_def
        ssl_accept_loop_cb_def accept_loop_def start_accepted_def Let_def split: sum.split)
  then have "server_step_cb tls s e = server_step tls s e" for s :: "'a server" and e by (cases e) simp_all
  then show ?thesis by (induction es arbitrary: s) (simp_all del: server_step_cb.simps server_step.simps)
qed

section \<open>WssSession\<close>

definition wss_echo_loop :: "ws_session \<Rightarrow> ws_session" where
  "wss_echo_loop s = s\<lparr>ws_phase := Ws_reading\<rparr>"

definition wss_start_accept :: "ws_session \<Rightarrow> ws_session" where
  "wss_start_accept s = (arm_idle_timer s)\<lparr>ws_phase := Ws_accepting\<rparr>"

definition wss_accepted :: "io_error option \<Rightarrow> ws_session \<Rightarrow> ws_session" where
  "wss_accepted ec s = (if ec \<noteq> None then ws_end s else wss_echo_loop s)"

text \<open>
  The handlers of the read and of the write: a message is its text flag and its bytes; the
  write sends the buffer, which the next turn of the loop finds empty.
\<close>

definition wss_read_handler :: "(bool \<times> string) + io_error \<Rightarrow> ws_session \<Rightarrow> ws_session" where
  "wss_read_handler r s =
     (case r of
        Inr ec \<Rightarrow> ws_end s
      | Inl (text, msg) \<Rightarrow>
          s\<lparr>ws_buffer := ws_buffer s @ msg, ws_received := ws_received s @ [(text, msg)], ws_text := text, ws_phase := Ws_writing\<rparr>)"

definition wss_write_handler :: "io_error option \<Rightarrow> ws_session \<Rightarrow> ws_session" where
  "wss_write_handler ec s =
     (if ec \<noteq> None then ws_end s
      else wss_echo_loop (s\<lparr>ws_echoed := ws_echoed s @ [(ws_text s, ws_buffer s)], ws_buffer := []\<rparr>))"

definition wss_on_timeout_idle :: "ws_session \<Rightarrow> ws_session" where
  "wss_on_timeout_idle s = s\<lparr>ws_open := False\<rparr>"

text \<open>Beast fails the read of a message longer than \<open>read_message_max\<close>.\<close>

fun wss_step :: "ws_session \<Rightarrow> ws_event \<Rightarrow> ws_session" where
  "wss_step s (Ws_accept ec) = (if ws_phase s = Ws_accepting then wss_accepted ec s else s)"
| "wss_step s (Ws_message text msg) =
     (if ws_phase s = Ws_reading
      then wss_read_handler (if wl_max_message_bytes (ws_limits s) < length msg then Inr (Ec_other ''message too big'')
                             else Inl (text, msg)) s
      else s)"
| "wss_step s (Ws_failed ec) =
     (if ws_phase s = Ws_reading then wss_read_handler (Inr ec) s
      else if ws_phase s = Ws_writing then wss_write_handler (Some ec) s else s)"
| "wss_step s Ws_sent = (if ws_phase s = Ws_writing \<and> ws_open s then wss_write_handler None s else s)"
| "wss_step s Ws_idle = (if sb_idle s = None then s else wss_on_timeout_idle (s\<lparr>sb_idle := None\<rparr>))"

lemma wss_builds_agree: "foldl wss_step (wss_start_accept s) es = foldl ws_step (start_accept s) es"
proof -
  have "wss_step s e = ws_step s e" for s e
    by (cases e; cases s) (auto simp: wss_accepted_def ws_accepted_def wss_echo_loop_def wss_read_handler_def ws_read_def
        wss_write_handler_def ws_written_def wss_on_timeout_idle_def ws_on_timeout_idle_def ws_end_def)
  then have "foldl wss_step s es = foldl ws_step s es" for s
    by (induction es arbitrary: s) (simp_all del: wss_step.simps ws_step.simps)
  then show ?thesis by (simp add: wss_start_accept_def start_accept_def)
qed

section \<open>SslSession\<close>

text \<open>
  The request context is a local variable of the read handler: it is gone when \<open>execute_async\<close>
  returns. \<open>cb_undefined\<close> is set when a middleware or a handler of the chain is given it
  afterwards, and when the response is changed while it is being written. \<open>cb_escaped\<close> is an
  exception that leaves a handler and with it the thread's event loop.
\<close>

record 'x cb_session =
  cb_session :: "'x session"
  cb_undefined :: bool
  cb_escaped :: "cpp_exn option"

definition new_cb_session :: "session_limits \<Rightarrow> 'x cb_session" where
  "new_cb_session l = \<lparr>cb_session = set_limits l new_session, cb_undefined = False, cb_escaped = None\<rparr>"

definition do_read_request :: "'x session \<Rightarrow> 'x session" where
  "do_read_request s = (arm_header_timer s)\<lparr>sn_abort := Abort_none, sn_phase := Reading\<rparr>"

text \<open>\<open>start\<close> and the head of \<open>run\<close>; the handshake's handler.\<close>

definition start_cb_session :: "'x cb_session \<Rightarrow> 'x cb_session" where
  "start_cb_session c =
     c\<lparr>cb_session := arm_handshake_timer ((arm_idle_timer (cb_session c))\<lparr>sn_phase := Handshaking\<rparr>)\<rparr>"

definition cb_handshake_handler :: "io_error option \<Rightarrow> 'x session \<Rightarrow> 'x session" where
  "cb_handshake_handler ec s =
     (let s = cancel_handshake_timer s
      in case ec of
           Some e \<Rightarrow> end_session Ended (if e = Ec_aborted \<and> sn_abort s = Handshake_timeout then shutdown_socket s else s)
         | None \<Rightarrow> do_read_request (on_activity s))"

definition cb_read_error :: "io_error \<Rightarrow> 'x session \<Rightarrow> 'x session" where
  "cb_read_error ec s =
     (let s = cancel_header_timer s
      in if ec = Ec_aborted
         then let why = sn_abort s; s = s\<lparr>sn_abort := Abort_none\<rparr>
              in if why = Header_timeout then write_timeout ''Header read timeout'' s
                 else if why = Body_timeout then write_timeout ''Body read timeout'' s
                 else end_session Ended s
         else end_session Ended s)"

text \<open>The completion callback of the chain, called with the response as the world has it.\<close>

definition cb_answer :: "'x world \<Rightarrow> 'x session \<Rightarrow> 'x session" where
  "cb_answer w s = s\<lparr>sn_res := res_prepare_payload (w_res w), sn_phase := Writing, sn_run := None\<rparr>"

text \<open>After a burst of work: the callback may have run, and the response may be touched after it.\<close>

definition cb_after_burst :: "'x async_run \<Rightarrow> 'x cb_session \<Rightarrow> 'x cb_session" where
  "cb_after_burst r c =
     (case ar_answer r of
        None \<Rightarrow> c\<lparr>cb_session := (cb_session c)\<lparr>sn_phase := In_chain, sn_run := Some r\<rparr>\<rparr>
      | Some w \<Rightarrow> c\<lparr>cb_session := cb_answer w (cb_session c),
                   cb_undefined := cb_undefined c \<or> w_res (ar_world r) \<noteq> w_res w\<rparr>)"

definition cb_read_done :: "'x session_env \<Rightarrow> http_request \<Rightarrow> 'x chain_view \<Rightarrow> 'x cb_session \<Rightarrow> 'x cb_session" where
  "cb_read_done env rq cv c =
     (let s = cb_session c;
          s = on_activity (cancel_header_timer (s\<lparr>sn_req := rq, sn_read := sn_read s @ [rq]\<rparr>)); c = c\<lparr>cb_session := s\<rparr>
      in if se_upgrade env rq then c\<lparr>cb_session := end_session Upgraded s\<rparr>
         else case execute_async (se_chain env) (cv_paused cv) (cv_stats cv)
                     \<lparr>w_ctx = new_request_context rq, w_res = sn_res s, w_now = cv_now cv, w_ext = cv_ext cv\<rparr> of
                None \<Rightarrow> c
              | Some (x, r) \<Rightarrow> (cb_after_burst r c)\<lparr>cb_escaped := x\<rparr>)"

text \<open>
  What an event of a run does with the context: a further middleware is asked whether it
  executes, or the timeout handler of the application is called.
\<close>

fun context_used :: "'x async_env \<Rightarrow> 'x async_run \<Rightarrow> 'x async_event \<Rightarrow> bool" where
  "context_used env r (Ev_global_timer f) = (ar_global_pending r \<and> \<not> ar_timed_out r \<and> ae_th env \<noteq> None)"
| "context_used env r (Ev_mw_timer f) = (ar_mw_timer r \<noteq> None \<and> ar_mw_pending r \<and> \<not> ar_timed_out r \<and> ae_th env \<noteq> None)"
| "context_used env r e = (ar_index r < ar_index (async_step env r e))"

definition cb_chain_event :: "'x session_env \<Rightarrow> 'x async_event \<Rightarrow> 'x cb_session \<Rightarrow> 'x cb_session" where
  "cb_chain_event env e c =
     (case sn_run (cb_session c) of
        None \<Rightarrow> c
      | Some r \<Rightarrow>
          cb_after_burst (async_step (se_chain env) r e)
            (c\<lparr>cb_undefined := cb_undefined c \<or> context_used (se_chain env) r e\<rparr>))"

definition cb_write_handler :: "'x session_env \<Rightarrow> io_error option \<Rightarrow> 'x session \<Rightarrow> 'x session" where
  "cb_write_handler env ec s =
     (if ec \<noteq> None then end_session Ended (shutdown_socket s)
      else let s = s\<lparr>sn_sent := sn_sent s @ [(sn_req s, sn_res s)], sn_served := sn_served s + 1\<rparr>
           in if \<not> keep_open env s then end_session Ended (shutdown_socket s)
              else do_read_request (on_activity
                     (s\<lparr>sn_req := empty_request, sn_res := new_response 200 (rq_version (sn_req s))\<rparr>)))"

definition on_session :: "('x session \<Rightarrow> 'x session) \<Rightarrow> 'x cb_session \<Rightarrow> 'x cb_session" where
  "on_session f c = c\<lparr>cb_session := f (cb_session c)\<rparr>"

text \<open>The events are those of the coroutines; no coroutine is resumed here. An escaped exception ends all.\<close>

fun cb_handle :: "'x session_env \<Rightarrow> 'x cb_session \<Rightarrow> 'x session_event \<Rightarrow> 'x cb_session" where
  "cb_handle env c (Ev_handshake ec) =
     (if sn_phase (cb_session c) = Handshaking then on_session (cb_handshake_handler ec) c else c)"
| "cb_handle env c Ev_handshake_timer =
     (if sn_handshake (cb_session c) = None then c
      else on_session (\<lambda>s. on_handshake_timer (s\<lparr>sn_handshake := None\<rparr>)) c)"
| "cb_handle env c (Ev_read rq cv) = (if sn_phase (cb_session c) = Reading then cb_read_done env rq cv c else c)"
| "cb_handle env c (Ev_read_error ec) = (if sn_phase (cb_session c) = Reading then on_session (cb_read_error ec) c else c)"
| "cb_handle env c (Ev_chain e) = cb_chain_event env e c"
| "cb_handle env c Ev_resume = c"
| "cb_handle env c Ev_written =
     (if \<not> sn_open (cb_session c) then c
      else if sn_phase (cb_session c) = Writing then on_session (cb_write_handler env None) c
      else if sn_phase (cb_session c) = Writing_timeout
           then on_session (\<lambda>s. end_session Ended (s\<lparr>sn_final := Some (sn_res s)\<rparr>)) c else c)"
| "cb_handle env c (Ev_write_error ec) =
     (if sn_phase (cb_session c) = Writing then on_session (cb_write_handler env (Some ec)) c
      else if sn_phase (cb_session c) = Writing_timeout then on_session (end_session Ended) c else c)"
| "cb_handle env c Ev_idle =
     (if sb_idle (cb_session c) = None then c else on_session (\<lambda>s. on_timeout_idle (s\<lparr>sb_idle := None\<rparr>)) c)"
| "cb_handle env c Ev_header =
     (if sb_header (cb_session c) = None then c else on_session (\<lambda>s. on_timeout_header (s\<lparr>sb_header := None\<rparr>)) c)"
| "cb_handle env c Ev_body =
     (if sb_body (cb_session c) = None then c else on_session (\<lambda>s. on_timeout_body (s\<lparr>sb_body := None\<rparr>)) c)"

definition cb_step :: "'x session_env \<Rightarrow> 'x cb_session \<Rightarrow> 'x session_event \<Rightarrow> 'x cb_session" where
  "cb_step env c e = (if cb_escaped c = None then cb_handle env c e else c)"

section \<open>Both builds on prompt chains\<close>

text \<open>
  A chain is prompt if every run completes before \<open>execute_async\<close> returns, lets no exception
  out, and nothing touches the response after the completion.
\<close>

definition prompt :: "'x session_env \<Rightarrow> bool" where
  "prompt env \<longleftrightarrow> (\<forall>p st w. \<exists>r w'. execute_async (se_chain env) p st w = Some (None, r) \<and>
     ar_answer r = Some w' \<and> w_res (ar_world r) = w_res w')"

text \<open>The coroutine is resumed after the completion of each run.\<close>

fun with_resume :: "'x session_event \<Rightarrow> 'x session_event list" where
  "with_resume (Ev_read rq cv) = [Ev_read rq cv, Ev_resume]"
| "with_resume Ev_resume = []"
| "with_resume e = [e]"

definition same_session :: "'x session \<Rightarrow> 'x cb_session \<Rightarrow> bool" where
  "same_session s c \<longleftrightarrow> cb_session c = s \<and> sn_run s = None \<and> \<not> cb_undefined c \<and> cb_escaped c = None"

lemma answered_completions:
  "execute_async env p st w = Some (x, r) \<Longrightarrow> ar_answer r = Some w' \<Longrightarrow> ar_completions r \<noteq> []"
  using execute_async_inv [of env p st w x r] by (auto simp: async_inv_def)

lemma do_read_request_begin: "do_read_request s = begin_read s"
  by (simp add: do_read_request_def begin_read_def)

lemma no_run [simp]:
  "sn_run (end_session ph s) = None" "sn_run (shutdown_socket s) = sn_run s" "sn_run (begin_read s) = sn_run s"
  "sn_run (on_activity s) = sn_run s" "sn_run (write_timeout t s) = sn_run s" "sn_run (cancel_header_timer s) = sn_run s"
  "sn_run (cancel_handshake_timer s) = sn_run s" "sn_run (on_handshake_timer s) = sn_run s"
  by (simp_all add: end_session_def shutdown_socket_def begin_read_def session_timer_defs write_timeout_def
      cancel_handshake_timer_def on_handshake_timer_def)

lemma end_upgraded: "end_session Upgraded (cancel_body_timer (cancel_header_timer (cancel_idle_timer s))) = end_session Upgraded s"
  by (simp add: end_session_def session_timer_defs)

lemma same_read:
  assumes "prompt env" and "same_session s c" and "sn_phase s = Reading"
  shows "same_session (session_step env (session_step env s (Ev_read rq cv)) Ev_resume) (cb_read_done env rq cv c)"
proof -
  let ?s = "on_activity (cancel_header_timer (s\<lparr>sn_req := rq, sn_read := sn_read s @ [rq]\<rparr>))"
  let ?w = "\<lparr>w_ctx = new_request_context rq, w_res = sn_res ?s, w_now = cv_now cv, w_ext = cv_ext cv\<rparr>"
  from assms(1) obtain r w' where r: "execute_async (se_chain env) (cv_paused cv) (cv_stats cv) ?w = Some (None, r)"
    "ar_answer r = Some w'" "w_res (ar_world r) = w_res w'" unfolding prompt_def by blast
  have c: "cb_session c = s" "\<not> cb_undefined c" "cb_escaped c = None" and run: "sn_run ?s = None"
    using assms(2) by (simp_all add: same_session_def)
  have req: "sn_req ?s = rq" by (simp add: session_timer_defs)
  show ?thesis
  proof (cases "se_upgrade env rq")
    case True
    then have "session_step env s (Ev_read rq cv) = end_session Upgraded ?s"
      using assms(3) by (simp add: read_done_def Let_def end_upgraded)
    moreover have "cb_read_done env rq cv c = c\<lparr>cb_session := end_session Upgraded ?s\<rparr>"
      using True by (simp add: cb_read_done_def c Let_def)
    ultimately show ?thesis using c by (simp add: same_session_def)
  next
    case False
    have "session_step env s (Ev_read rq cv) = ?s\<lparr>sn_phase := In_chain, sn_run := Some r\<rparr>"
      using False assms(3) r(1) req by (simp add: read_done_def enter_chain_def Let_def)
    then have "session_step env (session_step env s (Ev_read rq cv)) Ev_resume = cb_answer w' ?s"
      using answered_completions [OF r(1,2)] r(3) by (simp add: chain_resumed_def cb_answer_def)
    moreover have "cb_read_done env rq cv c = c\<lparr>cb_session := cb_answer w' ?s\<rparr>"
      using False r c by (simp add: cb_read_done_def cb_after_burst_def Let_def)
    ultimately show ?thesis using c by (simp add: same_session_def cb_answer_def)
  qed
qed

lemma same_handlers:
  "cb_handshake_handler ec s = handshake_done ec s" "cb_read_error er s = read_failed er s"
  "cb_write_handler env None s = write_done env s" "cb_write_handler env (Some er) s = write_failed s"
  by (simp_all add: cb_handshake_handler_def handshake_done_def cb_read_error_def read_failed_def cb_write_handler_def
      write_done_def write_failed_def do_read_request_begin Let_def split: option.split abort_reason.split)

lemma handlers_no_run:
  "sn_run s = None \<Longrightarrow> sn_run (handshake_done ec s) = None" "sn_run s = None \<Longrightarrow> sn_run (read_failed er s) = None"
  "sn_run s = None \<Longrightarrow> sn_run (write_done env s) = None" "sn_run (write_failed s) = None"
  by (simp_all add: handshake_done_def read_failed_def write_done_def write_failed_def Let_def split: option.split abort_reason.split)

lemma same_step:
  assumes "prompt env" and "same_session s c"
  shows "same_session (foldl (ssl_session_step env) s (with_resume e)) (cb_step env c e)"
proof -
  have c: "cb_session c = s" "sn_run s = None" "\<not> cb_undefined c" "cb_escaped c = None"
    using assms(2) by (simp_all add: same_session_def)
  have idle: "same_session s c" by (rule assms(2))
  show ?thesis
  proof (cases e)
    case (Ev_read rq cv)
    have "session_step env s Ev_resume = s" using c(2) by simp
    with Ev_read same_read [OF assms, of rq cv] c idle show ?thesis by (simp add: cb_step_def)
  next
    case (Ev_handshake ec)
    with c idle show ?thesis by (simp add: cb_step_def on_session_def same_handlers same_session_def handlers_no_run)
  next
    case (Ev_read_error er)
    with c idle show ?thesis by (simp add: cb_step_def on_session_def same_handlers same_session_def handlers_no_run)
  next
    case Ev_written
    with c idle show ?thesis by (simp add: cb_step_def on_session_def same_handlers same_session_def handlers_no_run)
  next
    case (Ev_write_error er)
    with c idle show ?thesis by (simp add: cb_step_def on_session_def same_handlers same_session_def handlers_no_run)
  next
    case (Ev_chain a)
    with c idle show ?thesis by (simp add: cb_step_def cb_chain_event_def)
  qed (use c idle in \<open>simp_all add: cb_step_def on_session_def same_session_def on_timeout_idle_def on_timeout_header_def
         on_timeout_body_def\<close>)
qed

lemma same_run:
  "prompt env \<Longrightarrow> same_session s c \<Longrightarrow>
   same_session (foldl (ssl_session_step env) s (concat (map with_resume es))) (foldl (cb_step env) c es)"
proof (induction es arbitrary: s c)
  case (Cons e es)
  from Cons.IH [OF Cons.prems(1) same_step [OF Cons.prems, of e]] show ?case by simp
qed simp

lemma same_started: "same_session (start_ssl_session (set_limits l new_session)) (start_cb_session (new_cb_session l))"
  by (simp add: same_session_def start_ssl_session_def start_cb_session_def new_cb_session_def arm_handshake_timer_def
      session_timer_defs new_session_def)

section \<open>Properties\<close>

text \<open>
  C25: the two builds of the TLS session agree on a prompt chain. Over any sequence of
  completions and timer expiries the session of handlers goes through the states of the
  coroutine (which is resumed after each run), so that it reads, answers, times out and
  ends alike; it runs into nothing undefined, and lets no exception out.
\<close>

theorem tls_builds_agree:
  assumes "prompt env"
  shows "let c = foldl (cb_step env) (start_cb_session (new_cb_session l)) es
    in cb_session c = foldl (ssl_session_step env) (start_ssl_session (set_limits l new_session)) (concat (map with_resume es)) \<and>
       \<not> cb_undefined c \<and> cb_escaped c = None"
  using same_run [OF assms same_started, of l es] by (simp add: same_session_def Let_def)

definition answering_env :: "unit middleware list \<Rightarrow> unit session_env" where
  "answering_env ms = plain_env\<lparr>se_chain := sample_env ms\<rparr>"

lemma answering_prompt: "prompt (answering_env [answer_middleware 1 404])"
  by (simp add: prompt_def answering_env_def plain_env_def sample_env_def execute_async_def new_async_run_def answer_middleware_def
      base_middleware_def async_callback_def handle_middleware_result_run_def count_result_def drop_mw_timer_def
      complete_async_run_def try_finish_run_def after_async_body_def Let_def)

theorem tls_builds_agree_witness:
  "let env = answering_env [answer_middleware 1 404]; es = [Ev_handshake None, Ev_read empty_request plain_view, Ev_written]
   in cb_session (foldl (cb_step env) (start_cb_session (new_cb_session default_session_limits)) es) =
      foldl (ssl_session_step env) (start_ssl_session (set_limits default_session_limits new_session))
        [Ev_handshake None, Ev_read empty_request plain_view, Ev_resume, Ev_written]"
  using tls_builds_agree [OF answering_prompt, of default_session_limits "[Ev_handshake None, Ev_read empty_request plain_view, Ev_written]"]
  by (simp add: Let_def del: ssl_session_step.simps)

section \<open>Behaviours worth knowing\<close>

text \<open>
  The callback of the chain runs inside the innermost middleware: the response is on its way
  before the code behind \<open>next()\<close> of the middlewares around it has run. Their headers are
  lost, and they change a response that is being written; the coroutine sends them.
\<close>

lemmas burst_simps = execute_async_def new_async_run_def base_middleware_def async_callback_def handle_middleware_result_run_def
  count_result_def drop_mw_timer_def complete_async_run_def try_finish_run_def after_async_body_def sample_env_def Let_def

lemma answer_before_outer_middlewares:
  assumes "sn_phase s = Reading" and "sn_res s = res_init"
  shows "let c = cb_step (answering_env [tag_middleware 1 Low ''a'']) \<lparr>cb_session = s, cb_undefined = False, cb_escaped = None\<rparr>
           (Ev_read rq plain_view)
    in rs_sets (sn_res (cb_session c)) = [(''X-In'', ''a'')] \<and> cb_undefined c"
  using assms
  by (simp add: cb_step_def cb_read_done_def cb_after_burst_def cb_answer_def answering_env_def plain_env_def plain_view_def
      burst_simps tag_middleware_def session_timer_defs res_set_def res_prepare_payload_def new_response_def)

lemma outer_middlewares_in_coroutine:
  assumes "sn_phase s = Reading" and "sn_res s = res_init"
  shows "rs_sets (sn_res (foldl (ssl_session_step (answering_env [tag_middleware 1 Low ''a''])) s [Ev_read rq plain_view, Ev_resume])) =
    [(''X-In'', ''a''), (''X-Out'', ''a'')]"
  using assms
  by (simp add: read_done_def enter_chain_def chain_resumed_def answering_env_def plain_env_def plain_view_def
      burst_simps tag_middleware_def session_timer_defs res_set_def res_prepare_payload_def new_response_def)

text \<open>A middleware that calls back later passes the context on to the next one when it is gone.\<close>

lemma context_outlived:
  assumes "sn_phase s = Reading"
  shows "cb_undefined (foldl (cb_step (answering_env [slow_middleware 1 0, answer_middleware 2 200]))
     \<lparr>cb_session = s, cb_undefined = False, cb_escaped = None\<rparr> [Ev_read rq plain_view, Ev_chain (Ev_callback 0 R_Continue [] id)])"
  using assms
  by (simp add: cb_step_def cb_read_done_def cb_after_burst_def cb_chain_event_def answering_env_def plain_env_def plain_view_def
      burst_simps slow_middleware_def answer_middleware_def session_timer_defs)

text \<open>An exception that is not a standard one leaves the handler, and the thread of the event loop with it.\<close>

lemma unknown_exception_escapes:
  assumes "sn_phase s = Reading"
  shows "cb_escaped (cb_step (answering_env [base_middleware 1 (Raise Unknown_exn)]) \<lparr>cb_session = s, cb_undefined = False, cb_escaped = None\<rparr>
     (Ev_read rq plain_view)) = Some Unknown_exn"
  using assms
  by (simp add: cb_step_def cb_read_done_def cb_after_burst_def answering_env_def plain_env_def plain_view_def
      burst_simps session_timer_defs split: option.split)

end
