(* ===== verification/Context_Types.thy ===== *)
theory Context_Types
  imports Body_Middleware Auth_Middleware Header_Middleware Static_Middleware Router_Dispatch
begin

text \<open>
  The values of a \<open>RequestContext\<close> are \<open>std::any\<close>: the key says which type a reader asks for.
  This theory states the types the middlewares of the library give to their keys, that each of
  them keeps every context well typed, and that a run of any pipeline of them never hands an
  ill-typed context to a middleware, whatever the middleware would do with it.
\<close>

section \<open>Types\<close>

definition item_typed :: "string \<Rightarrow> any_value \<Rightarrow> bool" where
  "item_typed k v =
     (if k = ''auth.user'' then any_user v \<noteq> None
      else if k = ''foxhttp.body.form'' then any_form v \<noteq> None
      else if k = ''foxhttp.body.multipart'' then (case v of Any_multipart _ \<Rightarrow> True | _ \<Rightarrow> False)
      else if k = ''request_id'' then any_string v \<noteq> None
      else if k \<in> {''response_time_start'', ''logger_start_time''} then (case v of Any_time _ \<Rightarrow> True | _ \<Rightarrow> False)
      else True)"

definition body_typed :: "string \<Rightarrow> any_value \<Rightarrow> bool" where
  "body_typed ty v =
     (if ty = ''nlohmann::json'' then any_json v \<noteq> None
      else if ty = ''std::string'' then any_string v \<noteq> None
      else True)"

definition context_typed :: "request_context \<Rightarrow> bool" where
  "context_typed ctx =
     (list_all (\<lambda>(k, v). item_typed k v) (rc_items ctx) \<and> list_all (\<lambda>(ty, v). body_typed ty v) (rc_parsed_body ctx))"

definition typed_world :: "'x world \<Rightarrow> bool" where
  "typed_world w = context_typed (w_ctx w)"

lemma list_all_put: "list_all p m \<Longrightarrow> p (k, v) \<Longrightarrow> list_all p (put k v m)"
  by (induction k v m rule: put.induct) auto

lemma typed_new [simp]: "context_typed (new_request_context rq)"
  by (simp add: context_typed_def new_request_context_def)

lemma typed_set: "context_typed ctx \<Longrightarrow> item_typed k v \<Longrightarrow> context_typed (ctx_set k v ctx)"
  by (simp add: context_typed_def ctx_set_def list_all_put)

lemma typed_body: "context_typed ctx \<Longrightarrow> body_typed ty v \<Longrightarrow> context_typed (set_parsed_body ty v ctx)"
  by (simp add: context_typed_def set_parsed_body_def list_all_put)

lemma typed_path_params [simp]: "context_typed (extract_path_params r caps ctx) = context_typed ctx"
  by (simp add: extract_path_params_def set_path_parameters_def context_typed_def Let_def)

text \<open>A checked read of a well-typed context does not fail for the type.\<close>

lemma typed_json_read:
  "context_typed ctx \<Longrightarrow> parsed_body any_json ''nlohmann::json'' ctx \<noteq> Inl (Runtime_error ''parsed_body type mismatch'')"
  by (auto simp: context_typed_def parsed_body_def body_typed_def list_all_iff dest!: map_of_SomeD split: option.splits)

section \<open>Bodies that keep a property of the world\<close>

primrec keeps :: "('x world \<Rightarrow> bool) \<Rightarrow> 'x async_prog \<Rightarrow> bool" where
  "keeps P (A_Done w) = P w"
| "keeps P (A_Raise e w) = P w"
| "keeps P (A_Next w k) = (P w \<and> (\<forall>w'. P w' \<longrightarrow> keeps P (k w')))"
| "keeps P (A_Callback res msg w k) = (P w \<and> (\<forall>w'. P w' \<longrightarrow> keeps P (k w')))"

primrec keeps_sync :: "('x world \<Rightarrow> bool) \<Rightarrow> 'x mw_prog \<Rightarrow> bool" where
  "keeps_sync P (Done w) = P w"
| "keeps_sync P (Raise e w) = P w"
| "keeps_sync P (Call_next w k) = (P w \<and> (\<forall>w'. P w' \<longrightarrow> keeps_sync P (k w')))"

lemma keeps_default: "keeps_sync P p \<Longrightarrow> keeps P (default_async p)"
  by (induction p) auto

definition kept_by :: "('x world \<Rightarrow> bool) \<Rightarrow> 'x middleware \<Rightarrow> bool" where
  "kept_by P m = (\<forall>w. P w \<longrightarrow> keeps P (mw_async m w))"

text \<open>The middleware that does something else (\<open>stray\<close>) where the property does not hold.\<close>

definition guarded :: "('x world \<Rightarrow> bool) \<Rightarrow> ('x world \<Rightarrow> 'x async_prog) \<Rightarrow> 'x middleware \<Rightarrow> 'x middleware" where
  "guarded P stray m = m\<lparr>mw_async := (\<lambda>w. if P w then mw_async m w else stray w)\<rparr>"

definition guarded_env :: "('x world \<Rightarrow> bool) \<Rightarrow> ('x world \<Rightarrow> 'x async_prog) \<Rightarrow> 'x async_env \<Rightarrow> 'x async_env" where
  "guarded_env P stray env = env\<lparr>ae_pipeline := map (guarded P stray) (ae_pipeline env)\<rparr>"

lemma guarded_sels [simp]:
  "mw_should_execute (guarded P stray m) = mw_should_execute m" "mw_timeout (guarded P stray m) = mw_timeout m"
  "mw_id (guarded P stray m) = mw_id m" "mw_async (guarded P stray m) w = (if P w then mw_async m w else stray w)"
  by (simp_all add: guarded_def)

lemma guarded_env_sels [simp]:
  "ae_pipeline (guarded_env P stray env) = map (guarded P stray) (ae_pipeline env)"
  "ae_has_callback (guarded_env P stray env) = ae_has_callback env" "ae_has_io (guarded_env P stray env) = ae_has_io env"
  "ae_stats (guarded_env P stray env) = ae_stats env" "ae_global_timeout (guarded_env P stray env) = ae_global_timeout env"
  "ae_eh (guarded_env P stray env) = ae_eh env" "ae_th (guarded_env P stray env) = ae_th env"
  by (simp_all add: guarded_env_def)

lemma guarded_runs [simp]:
  "complete_async_run (guarded_env P stray env) = complete_async_run env"
  "handle_error_run (guarded_env P stray env) = handle_error_run env"
  "handle_timeout_run (guarded_env P stray env) = handle_timeout_run env"
  "new_async_run (guarded_env P stray env) = new_async_run env"
  "may_start_async (guarded_env P stray env) r = may_start_async env r"
  by (auto simp: fun_eq_iff complete_async_run_def handle_error_run_def handle_timeout_run_def run_timeout_handler_def
      new_async_run_def may_start_async_def Let_def)

lemma guarded_count [simp]: "count_result (guarded_env P stray env) (guarded P stray m) t res r = count_result env m t res r"
  by (cases res) (simp_all add: count_result_def Let_def)

lemma guarded_after [simp]: "after_async_body (guarded_env P stray env) (guarded P stray m) y = after_async_body env m y"
  by (cases y; cases "fst y") (simp_all add: after_async_body_def)

lemma guarded_started: "may_start_async env r \<Longrightarrow> started (guarded_env P stray env) r = started env r"
  by (simp add: started_def may_start_async_def setup_middleware_timeout_def Let_def)

section \<open>Runs that keep it\<close>

text \<open>
  What a run relies on: every middleware of the pipeline keeps the property, and so do the
  answers to an exception and to a timeout.
\<close>

locale world_invariant =
  fixes P :: "'x world \<Rightarrow> bool" and env :: "'x async_env"
  assumes pipeline_keeps: "m \<in> set (ae_pipeline env) \<Longrightarrow> kept_by P m"
    and error_keeps: "P w \<Longrightarrow> P (case ae_eh env of Some eh \<Rightarrow> eh w e | None \<Rightarrow> async_error_response e w)"
    and timeout_keeps: "P w \<Longrightarrow> P (case ae_th env of Some th \<Rightarrow> th w | None \<Rightarrow> timeout_response w)"
begin

lemma error_run_keeps: "P (ar_world r) \<Longrightarrow> P (ar_world (handle_error_run env e r))"
  using error_keeps [of "ar_world r" e] by (simp add: handle_error_run_def)

lemma timeout_run_keeps: "P (ar_world r) \<Longrightarrow> P (ar_world (handle_timeout_run env r))"
  using timeout_keeps [of "ar_world r"] by (simp add: handle_timeout_run_def run_timeout_handler_def)

lemma after_keeps: "P (ar_world (snd y)) \<Longrightarrow> P (ar_world (snd (after_async_body env m y)))"
  by (auto simp: after_async_body_def error_run_keeps split: prod.splits option.splits)

lemma body_agrees:
  assumes "\<And>r. P (ar_world r) \<Longrightarrow> nxt' r = nxt r \<and> pred_option (\<lambda>y. P (ar_world (snd y))) (nxt r)"
    and "\<And>res msg r. P (ar_world r) \<Longrightarrow> cb' res msg r = cb res msg r \<and> pred_option (\<lambda>y. P (ar_world (snd y))) (cb res msg r)"
  shows "keeps P p \<Longrightarrow> run_async_body nxt' cb' p r = run_async_body nxt cb p r \<and>
    pred_option (\<lambda>y. P (ar_world (snd y))) (run_async_body nxt cb p r)"
proof (induction p arbitrary: r)
  case (A_Next w k)
  with assms(1) [of "r\<lparr>ar_world := w\<rparr>"] show ?case
    by (auto simp: rangeI split: option.splits)
next
  case (A_Callback res msg w k)
  with assms(2) [of "r\<lparr>ar_world := w\<rparr>" res msg] show ?case
    by (auto simp: rangeI split: option.splits)
qed simp_all

lemma step_agrees:
  "P (ar_world r) \<Longrightarrow> execute_next_async_step n (guarded_env P stray env) r = execute_next_async_step n env r \<and>
   pred_option (\<lambda>y. P (ar_world (snd y))) (execute_next_async_step n env r)"
proof (induction n arbitrary: r)
  case (Suc n)
  let ?g = "guarded_env P stray env"
  show ?case
  proof (cases "may_start_async env r")
    case True
    let ?m = "ae_pipeline env ! ar_index r"
    have len: "ar_index r < length (ae_pipeline env)" using True by (simp add: may_start_async_def)
    then have m: "ae_pipeline ?g ! ar_index r = guarded P stray ?m" "kept_by P ?m" by (simp_all add: pipeline_keeps)
    have cb: "async_callback ?g (execute_next_async_step n ?g) (guarded P stray ?m) t res msg q =
          async_callback env (execute_next_async_step n env) ?m t res msg q \<and>
        pred_option (\<lambda>y. P (ar_world (snd y))) (async_callback env (execute_next_async_step n env) ?m t res msg q)"
      if "P (ar_world q)" for t res msg q
      using that Suc.IH [of "count_result env ?m t res (drop_mw_timer q)"]
      by (cases res) (simp_all add: async_callback_def handle_middleware_result_run_def run_open_keeps)
    have nxt: "execute_next_async_step n ?g (drop_mw_timer q) = execute_next_async_step n env (drop_mw_timer q) \<and>
        pred_option (\<lambda>y. P (ar_world (snd y))) (execute_next_async_step n env (drop_mw_timer q))" if "P (ar_world q)" for q
      using that Suc.IH [of "drop_mw_timer q"] by (simp add: run_open_keeps)
    let ?run = "run_async_body (\<lambda>q. execute_next_async_step n env (drop_mw_timer q))
      (async_callback env (execute_next_async_step n env) ?m (w_now (ar_world r))) (mw_async ?m (ar_world r)) (started env r)"
    have "keeps P (mw_async ?m (ar_world r))" using m(2) Suc.prems by (simp add: kept_by_def)
    then have run: "run_async_body (\<lambda>q. execute_next_async_step n ?g (drop_mw_timer q))
        (async_callback ?g (execute_next_async_step n ?g) (guarded P stray ?m) (w_now (ar_world r)))
        (mw_async ?m (ar_world r)) (started env r) = ?run \<and> pred_option (\<lambda>y. P (ar_world (snd y))) ?run"
      by (intro body_agrees nxt cb)
    have after: "pred_option (\<lambda>y. P (ar_world (snd y))) (map_option (after_async_body env ?m) ?run)"
      using run after_keeps [of _ ?m] by (cases ?run) simp_all
    have g: "may_start_async ?g r" using True by simp
    show ?thesis
      unfolding async_start_step [OF True] async_start_step [OF g] m(1) Let_def guarded_sels guarded_started [OF True]
      using run after Suc.prems Suc.IH [of "r\<lparr>ar_index := ar_index r + 1\<rparr>"]
      by (simp add: option.map_comp comp_def fun_eq_iff cong: option.map_cong del: execute_next_async_step.simps)
  next
    case False
    then show ?thesis
      using Suc.prems timeout_run_keeps [of "r\<lparr>ar_timed_out := True\<rparr>"]
      by (auto simp: may_start_async_def simp flip: not_less)
  qed
qed simp

lemma run_agrees:
  assumes "P w"
  shows "execute_async (guarded_env P stray env) paused st w = execute_async env paused st w \<and>
    pred_option (\<lambda>y. P (ar_world (snd y))) (execute_async env paused st w)"
proof -
  have "P (ar_world (new_async_run env paused st w))" using assms by (simp add: new_async_run_def Let_def)
  from step_agrees [OF this, of "Suc (length (ae_pipeline env))" stray] this error_run_keeps show ?thesis
    by (auto simp: execute_async_def Let_def simp del: execute_next_async_step.simps split: option.splits)
qed

end

section \<open>The middlewares of the library\<close>

text \<open>A middleware that does not touch the context, or stores into it what its key promises.\<close>

lemma typed_same_context [simp]:
  "typed_world (w\<lparr>w_res := r\<rparr>) = typed_world w" "typed_world (w\<lparr>w_ext := x\<rparr>) = typed_world w"
  "typed_world (async_error_response e w) = typed_world w" "typed_world (timeout_response w) = typed_world w"
  "typed_world (compress_if cd m w) = typed_world w"
  by (simp_all add: typed_world_def async_error_response_def timeout_response_def compress_if_def)

lemma auth_types: "kept_by typed_world (auth_mw i am)"
  by (auto simp: kept_by_def auth_mw_def base_middleware_def auth_operator_def typed_world_def item_typed_def
      intro!: typed_set keeps_default split: sum.split option.split)

lemma parse_and_store_types:
  assumes "\<And>v. context_typed (store v ctx)" and "context_typed ctx" and "parse_and_store reg k store ctx = Inr ctx'"
  shows "context_typed ctx'"
  using assms by (auto simp: parse_and_store_def split: sum.splits if_splits)

lemma parse_by_type_types:
  assumes "context_typed ctx" and "parse_by_type pf base ctx = Inr ctx'"
  shows "context_typed ctx'"
  using assms by (auto simp: parse_by_type_def item_typed_def body_typed_def split: if_splits
      intro!: typed_set typed_body elim!: parse_and_store_types [rotated -1])

lemma body_types: "kept_by typed_world (body_mw i name b pf)"
  by (auto simp: kept_by_def body_mw_def base_middleware_def body_async_def handle_body_def typed_world_def Let_def
      split: sum.splits if_splits intro: parse_by_type_types)

lemma header_types:
  "kept_by typed_world (cors_middleware i c)" "kept_by typed_world (security_middleware i s)"
  "kept_by typed_world (compression_middleware i cd m)"
  by (simp_all add: kept_by_def cors_middleware_def cors_async_def security_middleware_def security_sync_def
      compression_middleware_def compression_async_def base_middleware_def Let_def)

lemma response_time_types: "kept_by typed_world (response_time_middleware i header)"
  by (auto simp: kept_by_def response_time_middleware_def response_time_async_def typed_world_def item_typed_def intro: typed_set)

lemma static_types: "kept_by typed_world (static_mw i fs sm)"
  by (auto simp: kept_by_def static_mw_def static_async_def Let_def split: prod.split)

lemma conditional_types: "kept_by typed_world m \<Longrightarrow> kept_by typed_world (conditional_middleware m c)"
  by (simp add: kept_by_def conditional_middleware_def)

text \<open>The dispatch keeps the types if the handlers of its routes do.\<close>

definition table_handlers :: "'h route_table \<Rightarrow> 'h list" where
  "table_handlers t = map (sr_handler \<circ> snd) (rt_static t) @ map dr_handler (rt_dynamic t)"

definition handlers_typed :: "'x callable_api_handler route_table \<Rightarrow> bool" where
  "handlers_typed t = (\<forall>h\<in>set (table_handlers t). \<forall>w. typed_world w \<longrightarrow> typed_world (snd (handle_request h w)))"

lemma resolved_dynamic:
  "resolve_dynamic key m ctx rs = ((h, ms), ctx') \<Longrightarrow>
   pred_option (\<lambda>h. h \<in> dr_handler ` set rs) h \<and> context_typed ctx' = context_typed ctx"
  by (induction rs) (auto simp: pred_option_def split: option.splits if_splits)

lemma resolved_handler:
  assumes "resolve_route_with_method t path m ctx = ((h, ms), ctx')"
  shows "pred_option (\<lambda>h. h \<in> set (table_handlers t)) h \<and> context_typed ctx' = context_typed ctx"
proof (cases "map_of (rt_static t) (normalize_path path)")
  case None
  with assms resolved_dynamic [of "normalize_path path" m ctx "rt_dynamic t" h ms ctx'] show ?thesis
    by (auto simp: resolve_route_with_method_def table_handlers_def pred_option_def Let_def)
next
  case (Some r)
  then have "(normalize_path path, r) \<in> set (rt_static t)" by (rule map_of_SomeD)
  then have "sr_handler r \<in> set (table_handlers t)" by (force simp: table_handlers_def)
  with Some assms show ?thesis
    by (auto simp: resolve_route_with_method_def Let_def split: if_splits)
qed

lemma dispatch_types:
  assumes "pred_option handlers_typed router" and "handlers_typed glob" and "typed_world w"
  shows "typed_world (snd (dispatch router glob w))"
proof (cases router)
  case None
  obtain h ms ctx where r: "resolve_route_with_method glob (ctx_path (w_ctx w)) Verb_unknown (w_ctx w) = ((h, ms), ctx)"
    by (metis surj_pair)
  with resolved_handler [OF r] assms None show ?thesis
    by (auto simp: dispatch_def resolve_route_def handlers_typed_def typed_world_def Let_def split: option.split)
next
  case (Some t)
  obtain h ms ctx where r: "resolve_route_with_method t (ctx_path (w_ctx w)) (ctx_method (w_ctx w)) (w_ctx w) = ((h, ms), ctx)"
    by (metis surj_pair)
  with resolved_handler [OF r] assms Some show ?thesis
    by (cases h) (auto simp: dispatch_unresolved dispatch_resolved handlers_typed_def typed_world_def)
qed

lemma dispatch_middleware_types:
  assumes "pred_option handlers_typed router" and "handlers_typed glob"
  shows "kept_by typed_world (router_dispatch_middleware i router glob)"
proof -
  have "keeps typed_world (dispatch_async router glob w)" if "typed_world w" for w
    using dispatch_types [OF assms that] by (cases "dispatch router glob w") (auto simp: dispatch_async_def split: option.split)
  then show ?thesis by (simp add: kept_by_def)
qed

text \<open>The pipelines of the library: its middlewares, some of them conditional, and a dispatch.\<close>

inductive library_middleware :: "'x middleware \<Rightarrow> bool" where
  "library_middleware (auth_mw i am)"
| "library_middleware (body_mw i name b pf)"
| "library_middleware (cors_middleware i c)"
| "library_middleware (security_middleware i s)"
| "library_middleware (compression_middleware i cd m)"
| "library_middleware (response_time_middleware i header)"
| "library_middleware (static_mw i fs sm)"
| "pred_option handlers_typed router \<Longrightarrow> handlers_typed glob \<Longrightarrow> library_middleware (router_dispatch_middleware i router glob)"
| "library_middleware m \<Longrightarrow> library_middleware (conditional_middleware m c)"

lemma library_types: "library_middleware m \<Longrightarrow> kept_by typed_world m"
  by (induction rule: library_middleware.induct)
     (simp_all add: auth_types body_types header_types response_time_types static_types dispatch_middleware_types
       conditional_types)


definition typed_pipeline :: "unit middleware list" where
  "typed_pipeline = [response_time_middleware 1 ''X-Response-Time'', body_mw 2 ''body'' True (default_factory (\<lambda>_. Parsed JNull)),
     router_dispatch_middleware 3 None empty_table]"


end
