(* ===== verification/Applications.thy ===== *)
theory Applications
  imports Context_Types Logger_Middleware Request_Flow
begin

text \<open>
  include/foxhttp/middleware/middleware_factories.hpp and programs of src/examples: what a client
  of them receives. The JSON echo server (05_json_body.cpp), the middlewares of
  03_middleware_chain.cpp, the instance router (10_instance_router.cpp), the routes with
  parameters (02_routing.cpp) and the error counter (08_error_handling.cpp) are composed here
  from the models of the parts they use. A line feed in a text is \<open>line\<close>.
\<close>

section \<open>Factories\<close>

text \<open>The two booleans are those of \<open>setup_logger\<close>: the file can be opened, the name is not registered.\<close>

definition create_logger_middleware ::
  "bool \<Rightarrow> bool \<Rightarrow> string \<Rightarrow> log_level \<Rightarrow> log_format \<Rightarrow> string \<Rightarrow> bool \<Rightarrow> cpp_exn option \<times> logger" where
  "create_logger_middleware file_ok name_free name level fmt file console = new_logger file_ok name_free name level fmt file console"

definition create_simple_logger :: "bool \<Rightarrow> bool \<Rightarrow> string \<Rightarrow> cpp_exn option \<times> logger" where
  "create_simple_logger file_ok name_free name = create_logger_middleware file_ok name_free name Info Simple [] True"

definition create_json_logger :: "bool \<Rightarrow> bool \<Rightarrow> string \<Rightarrow> string \<Rightarrow> cpp_exn option \<times> logger" where
  "create_json_logger file_ok name_free name file = create_logger_middleware file_ok name_free name Info Json_format file True"

definition create_access_logger :: "bool \<Rightarrow> bool \<Rightarrow> string \<Rightarrow> string \<Rightarrow> cpp_exn option \<times> logger" where
  "create_access_logger file_ok name_free name file = create_logger_middleware file_ok name_free name Info Apache file True"

definition create_debug_logger :: "bool \<Rightarrow> bool \<Rightarrow> string \<Rightarrow> string \<Rightarrow> cpp_exn option \<times> logger" where
  "create_debug_logger file_ok name_free name file = create_logger_middleware file_ok name_free name Debug Detailed file True"

definition create_performance_logger :: "bool \<Rightarrow> bool \<Rightarrow> string \<Rightarrow> string \<Rightarrow> cpp_exn option \<times> logger" where
  "create_performance_logger file_ok name_free name file = create_logger_middleware file_ok name_free name Warn Simple file False"

definition create_cors_middleware :: "nat \<Rightarrow> string \<Rightarrow> string \<Rightarrow> string \<Rightarrow> 'x middleware" where
  "create_cors_middleware i origin methods headers =
     cors_middleware i (default_cors\<lparr>co_origin := origin, co_methods := methods, co_headers := headers\<rparr>)"

definition create_response_time_middleware :: "nat \<Rightarrow> string \<Rightarrow> 'x middleware" where
  "create_response_time_middleware i header = response_time_middleware i header"

definition create_static_middleware :: "file_system \<Rightarrow> string \<Rightarrow> fs_path \<Rightarrow> string \<Rightarrow> static_middleware" where
  "create_static_middleware fs url_prefix document_root index_file = new_static_middleware fs url_prefix document_root index_file"

definition create_body_parser_middleware :: "nat \<Rightarrow> string \<Rightarrow> bool \<Rightarrow> parser_factory \<Rightarrow> 'x middleware" where
  "create_body_parser_middleware i name bad_request_on_parse_error pf = body_mw i name bad_request_on_parse_error pf"

text \<open>
  Every level a logger of the library writes at is at least its own, but for the performance
  logger: the durations of requests are logged at level \<open>Info\<close>, which its level \<open>Warn\<close> drops.
\<close>

fun level_number :: "log_level \<Rightarrow> nat" where
  "level_number Trace = 0" | "level_number Debug = 1" | "level_number Info = 2"
| "level_number Warn = 3" | "level_number Error = 4" | "level_number Critical = 5"

lemma performance_logger_drops_durations:
  assumes "create_performance_logger file_ok name_free name file = (x, l)"
    and "lg_calls (log_request_complete l ctx res rid dur b s) = lg_calls s @ [(lv, f, args)]"
  shows "level_number lv < level_number (lo_level l)"
proof -
  have "lo_level l = Warn" "lo_format l = Simple"
    using assms(1) by (auto simp: create_performance_logger_def create_logger_middleware_def new_logger_def setup_logger_def Let_def
        split: if_splits)
  with assms(2) show ?thesis by (auto simp: log_request_complete_def log_call_def Let_def split: if_splits)
qed

section \<open>Pipelines of two\<close>

text \<open>
  A middleware that works on the world, lets the rest run and then reports \<open>Continue\<close>, before
  a dispatch; and one that answers itself and reports \<open>Stop\<close>.
\<close>

lemma forwarding_step:
  assumes "ae_has_callback env" and "run_open env r" and "ar_index r = 0" and "\<not> ar_finished r"
    and "ae_pipeline env = [m, router_dispatch_middleware i router glob]" and "mw_should_execute m (w_ctx (ar_world r))"
    and "mw_async m (ar_world r) = A_Next w (\<lambda>w. A_Callback R_Continue [] w A_Done)"
    and "dispatch router glob w = (None, a)"
  shows "\<exists>r'. execute_next_async_step (Suc (Suc n)) env r = Some (None, r') \<and> ar_completions r' \<noteq> [] \<and> ar_world r' = a"
proof -
  let ?step = "execute_next_async_step (Suc n) env" and ?q = "drop_mw_timer ((started env r)\<lparr>ar_world := w\<rparr>)"
  have start: "may_start_async env r" using assms(2,3,5) by (simp add: may_start_async_def run_open_def)
  have q: "run_open env ?q" "ar_index ?q = 1" "\<not> ar_finished ?q" "ar_world ?q = w"
    using assms(2-4) by (simp_all add: run_open_keeps) (simp_all add: drop_mw_timer_def)
  obtain r2 where r2: "?step ?q = Some (None, r2)" "ar_world r2 = a" "ar_finished r2" "ar_index r2 = 2" "ar_completions r2 \<noteq> []"
    using dispatch_step [of env ?q i router glob None a n] q assms(1,5,8) by auto
  then have "run_over env r2" using assms(5) by (simp add: run_over_def)
  then obtain r3 where r3: "async_callback env ?step m (w_now (ar_world r)) R_Continue [] r2 = Some (None, r3)"
      "ar_world r3 = a" "ar_completions r3 \<noteq> []"
    using late_callback [of env r2 n m "w_now (ar_world r)"] r2(2,5) by auto
  let ?run = "run_async_body (\<lambda>r. ?step (drop_mw_timer r)) (async_callback env ?step m (w_now (ar_world r)))
    (mw_async m (ar_world r)) (started env r)"
  have "?run = Some (None, r3\<lparr>ar_world := a\<rparr>)"
    using r2(1) r3 by (simp add: assms(7) del: execute_next_async_step.simps)
  moreover have "execute_next_async_step (Suc (Suc n)) env r = map_option (after_async_body env m) ?run"
    unfolding async_start_step [OF start] assms(3,5) by (simp add: assms(6) Let_def del: execute_next_async_step.simps)
  ultimately show ?thesis using r3(3) by (simp add: after_async_body_def del: execute_next_async_step.simps)
qed

lemma stopping_step:
  assumes "ae_has_callback env" and "run_open env r" and "ar_index r = 0" and "\<not> ar_finished r"
    and "ae_pipeline env = m # ms" and "mw_should_execute m (w_ctx (ar_world r))"
    and "mw_async m (ar_world r) = A_Callback R_Stop [] w A_Done"
  shows "\<exists>r'. execute_next_async_step (Suc n) env r = Some (None, r') \<and> ar_completions r' \<noteq> [] \<and> ar_world r' = w"
proof -
  have start: "may_start_async env r" using assms(2,3,5) by (simp add: may_start_async_def run_open_def)
  show ?thesis
    unfolding async_start_step [OF start] assms(3,5)
    by (simp add: assms(1,4,6,7) after_async_body_def async_callback_def handle_middleware_result_run_def complete_async_run_def
        try_finish_run_def drop_mw_timer_def count_result_def Let_def del: execute_next_async_step.simps)
qed

lemma two_response:
  assumes "length (ae_pipeline (se_chain env)) = 2" and "ae_global_timeout (se_chain env) \<le> 0" and "\<not> cv_paused cv"
    and "w = \<lparr>w_ctx = new_request_context rq, w_res = res, w_now = cv_now cv, w_ext = cv_ext cv\<rparr>"
    and "\<And>r. run_open (se_chain env) r \<Longrightarrow> ar_index r = 0 \<Longrightarrow> \<not> ar_finished r \<Longrightarrow> ar_world r = w \<Longrightarrow>
      \<exists>r'. execute_next_async_step (Suc (Suc (Suc 0))) (se_chain env) r = Some (None, r') \<and> ar_completions r' \<noteq> [] \<and>
        w_res (ar_world r') = a"
  shows "chain_response env cv res rq = Some (res_prepare_payload a)"
proof -
  have "ae_pipeline (se_chain env) \<noteq> []" using assms(1) by auto
  with assms(1-3) assms(5) [of "new_async_run (se_chain env) False (cv_stats cv) w"] show ?thesis
    by (auto simp: chain_response_def execute_async_def assms(4) new_async_run_def run_open_def numeral_2_eq_2 Let_def
        simp del: execute_next_async_step.simps)
qed

section \<open>Handlers of the examples\<close>

definition line :: string where
  "line = [CHR 0x0A]"

text \<open>The dash of the texts, in UTF-8.\<close>

definition dash :: string where
  "dash = [CHR 0xE2, CHR 0x80, CHR 0x94]"

definition text_response :: "nat \<Rightarrow> string \<Rightarrow> string \<Rightarrow> http_response \<Rightarrow> http_response" where
  "text_response status ct body res = res_set_body body (res_set ''Content-Type'' ct (res_result status res))"

definition text_handler :: "nat \<Rightarrow> string \<Rightarrow> (request_context \<Rightarrow> string) \<Rightarrow> 'x callable_api_handler" where
  "text_handler status ct body =
     make_api_handler (\<lambda>w. (None, w\<lparr>w_res := text_response status ct (body (w_ctx w)) (w_res w)\<rparr>))"

section \<open>The JSON echo server\<close>

text \<open>\<open>dump\<close> is nlohmann's; its exceptions are standard ones.\<close>

definition echo_handler :: "(json \<Rightarrow> string throws) \<Rightarrow> 'x callable_api_handler" where
  "echo_handler dump = make_api_handler (\<lambda>w.
     let ctx = w_ctx w; res = w_res w
     in if ctx_method ctx \<noteq> Verb_post
        then (None, w\<lparr>w_res := text_response 405 ''text/plain'' (''Use POST with a JSON body'' @ line) res\<rparr>)
        else
          let expected = ''Expected JSON body (middleware may have skipped parsing)'' @ line
          in case parsed_body any_json ''nlohmann::json'' ctx of
               Inl e \<Rightarrow> (None, w\<lparr>w_res := text_response 400 ''text/plain'' expected res\<rparr>)
             | Inr j \<Rightarrow>
                 let res = res_set ''Content-Type'' ''application/json'' (res_result 200 res)
                 in case dump j of
                      Inl e \<Rightarrow> (None, w\<lparr>w_res := text_response 400 ''text/plain'' expected res\<rparr>)
                    | Inr s \<Rightarrow> (None, w\<lparr>w_res := res_set_body s res\<rparr>))"

definition echo_routes :: "(json \<Rightarrow> string throws) \<Rightarrow> 'x callable_api_handler route_table" where
  "echo_routes dump =
     register_static_handler ''/api/echo'' (echo_handler dump)
       (register_static_handler ''/''
          (text_handler 200 ''text/plain''
             (\<lambda>_. ''Example 05 '' @ dash @ '' POST JSON to /api/echo with Content-Type: application/json'' @ line))
          empty_table)"

definition echo_pipeline :: "(string \<Rightarrow> json_outcome) \<Rightarrow> (json \<Rightarrow> string throws) \<Rightarrow> 'x middleware list" where
  "echo_pipeline jparse dump =
     [create_body_parser_middleware 1 ''BodyParserMiddleware'' True (default_factory jparse),
      router_dispatch_middleware 2 None (echo_routes dump)]"

text \<open>A static route of the global table answers a request of any method.\<close>

lemma json_body_stored:
  "parsed_body any_json ''nlohmann::json'' (set_parsed_body ''nlohmann::json'' (Any_json j) ctx) = Inr j"
  by (simp add: parsed_body_def set_parsed_body_def)

lemma echo_key: "normalize_path ''/api/echo'' = ''/api/echo''" "normalize_path ''/'' = ''/''"
  by code_simp+

text \<open>What the dispatch makes of a request whose JSON body has been parsed.\<close>

lemma echo_dispatch:
  assumes "ctx_path (w_ctx w) = ''/api/echo''"
  shows "dispatch None (echo_routes dump) w = handle_request (echo_handler dump) w"
  using assms
  by (simp add: dispatch_def resolve_route_def resolve_route_with_method_def echo_routes_def register_static_handler_def add_static_route_def
      add_static_route_method_def echo_key empty_table_def method_matches_def Let_def)

definition echo_answer :: "(string \<Rightarrow> json_outcome) \<Rightarrow> (json \<Rightarrow> string throws) \<Rightarrow> http_request \<Rightarrow> http_response \<Rightarrow> http_response" where
  "echo_answer jparse dump rq res =
     (case json_parse jparse default_json_config rq of
        Inl e \<Rightarrow> bad_request e res
      | Inr j \<Rightarrow>
          let res = res_set ''Content-Type'' ''application/json'' (res_result 200 res)
          in case dump j of
               Inl e \<Rightarrow> text_response 400 ''text/plain'' (''Expected JSON body (middleware may have skipped parsing)'' @ line) res
             | Inr s \<Rightarrow> res_set_body s res)"

text \<open>The run of the two middlewares within \<open>execute_async\<close>.\<close>

lemma parsed_request [simp]:
  "ctx_path (set_parsed_body k v ctx) = ctx_path ctx" "ctx_method (set_parsed_body k v ctx) = ctx_method ctx"
  by (simp_all add: ctx_path_def ctx_method_def set_parsed_body_def)

lemma echo_handled:
  assumes "ctx_path (w_ctx w) = ''/api/echo''" and "ctx_method (w_ctx w) = Verb_post"
    and "json_parse jparse default_json_config rq = Inr j"
  shows "dispatch None (echo_routes dump) (w\<lparr>w_ctx := set_parsed_body ''nlohmann::json'' (Any_json j) (w_ctx w)\<rparr>) =
    (None, w\<lparr>w_ctx := set_parsed_body ''nlohmann::json'' (Any_json j) (w_ctx w),
             w_res := echo_answer jparse dump rq (w_res w)\<rparr>)"
  using assms
  by (simp add: echo_dispatch handle_request_def echo_handler_def make_api_handler_def json_body_stored echo_answer_def Let_def
      split: sum.split)

lemma echo_step:
  assumes "ae_pipeline env = echo_pipeline jparse dump" and "ae_has_callback env"
    and "run_open env r" and "ar_index r = 0" and "\<not> ar_finished r" and "w = ar_world r"
    and "ctx_path (w_ctx w) = ''/api/echo''" and "ctx_method (w_ctx w) = Verb_post"
    and "rq_body (rc_req (w_ctx w)) \<noteq> []" and "rq_find (rc_req (w_ctx w)) ''Content-Type'' = Some ''application/json''"
  shows "\<exists>r'. execute_next_async_step (Suc (Suc n)) env r = Some (None, r') \<and> ar_completions r' \<noteq> [] \<and>
    w_res (ar_world r') = echo_answer jparse dump (rc_req (w_ctx w)) (w_res w)"
proof -
  let ?b = "create_body_parser_middleware 1 ''BodyParserMiddleware'' True (default_factory jparse) :: 'a middleware"
  have b: "mw_async ?b = body_async True (default_factory jparse)" "mw_should_execute ?b = (\<lambda>_. True)"
    by (simp_all add: create_body_parser_middleware_def body_mw_def base_middleware_def)
  have pipe: "ae_pipeline env = [?b, router_dispatch_middleware 2 None (echo_routes dump)]"
    using assms(1) by (simp add: echo_pipeline_def)
  note body = json_body_handled [OF assms(9,10), of jparse "w_res w"]
  show ?thesis
  proof (cases "json_parse jparse default_json_config (rc_req (w_ctx w))")
    case (Inl e)
    then have "body_async True (default_factory jparse) w =
        A_Callback R_Stop [] (w\<lparr>w_ctx := w_ctx w, w_res := bad_request e (w_res w)\<rparr>) A_Done"
      by (simp add: body_async_def body Let_def)
    then obtain r' where "execute_next_async_step (Suc (Suc n)) env r = Some (None, r')" "ar_completions r' \<noteq> []"
        "ar_world r' = w\<lparr>w_ctx := w_ctx w, w_res := bad_request e (w_res w)\<rparr>"
      using stopping_step [OF assms(2-5) pipe, where n = "Suc n" and w = "w\<lparr>w_ctx := w_ctx w, w_res := bad_request e (w_res w)\<rparr>"]
        b assms(6) by (auto simp del: execute_next_async_step.simps)
    with Inl show ?thesis by (simp add: echo_answer_def del: execute_next_async_step.simps)
  next
    case (Inr j)
    then have "body_async True (default_factory jparse) w =
        A_Next (w\<lparr>w_ctx := set_parsed_body ''nlohmann::json'' (Any_json j) (w_ctx w)\<rparr>) (\<lambda>w. A_Callback R_Continue [] w A_Done)"
      by (simp add: body_async_def body Let_def)
    then obtain r' where "execute_next_async_step (Suc (Suc n)) env r = Some (None, r')" "ar_completions r' \<noteq> []"
        "w_res (ar_world r') = echo_answer jparse dump (rc_req (w_ctx w)) (w_res w)"
      using forwarding_step [OF assms(2-5) pipe _ _ echo_handled [OF assms(7,8) Inr], of n] b assms(6)
      by (auto simp del: execute_next_async_step.simps)
    then show ?thesis by blast
  qed
qed

text \<open>What a session sends for a request to the server.\<close>

lemma echo_chain_response:
  assumes "ae_pipeline (se_chain env) = echo_pipeline jparse dump" and "ae_has_callback (se_chain env)"
    and "ae_global_timeout (se_chain env) \<le> 0" and "\<not> cv_paused cv"
    and "ctx_path (new_request_context rq) = ''/api/echo''" and "rq_method rq = Verb_post"
    and "rq_body rq \<noteq> []" and "rq_find rq ''Content-Type'' = Some ''application/json''"
  shows "chain_response env cv res rq = Some (res_prepare_payload (echo_answer jparse dump rq res))"
proof -
  let ?w = "\<lparr>w_ctx = new_request_context rq, w_res = res, w_now = cv_now cv, w_ext = cv_ext cv\<rparr>"
  have rq: "rc_req (new_request_context rq) = rq" by (simp add: new_request_context_def)
  show ?thesis
  proof (rule two_response [OF _ assms(3,4) refl])
    fix r assume "run_open (se_chain env) r" "ar_index r = 0" "\<not> ar_finished r" "ar_world r = ?w"
    with echo_step [OF assms(1,2), of r ?w "Suc 0"] assms(5-8)
    show "\<exists>r'. execute_next_async_step (Suc (Suc (Suc 0))) (se_chain env) r = Some (None, r') \<and> ar_completions r' \<noteq> [] \<and>
      w_res (ar_world r') = echo_answer jparse dump rq res" by (simp add: rq ctx_method_def del: execute_next_async_step.simps)
  qed (simp add: assms(1) echo_pipeline_def)
qed

text \<open>
  C16: a session of the JSON echo server that is sent a JSON document answers with the document
  the parser made of it, dumped, with status 200 and type application/json; with what the
  body parser says of a document it refuses, status 400; and with status 400 when the
  document cannot be dumped.
\<close>

theorem json_echo:
  assumes "ae_pipeline (se_chain env) = echo_pipeline jparse dump" and "ae_has_callback (se_chain env)"
    and "ae_global_timeout (se_chain env) \<le> 0" and "\<not> cv_paused cv" and "\<not> se_upgrade env rq"
    and "ctx_path (new_request_context rq) = ''/api/echo''" and "rq_method rq = Verb_post"
    and "rq_body rq \<noteq> []" and "rq_find rq ''Content-Type'' = Some ''application/json''"
  shows "sn_sent (foldl (session_step env) (start_session (set_limits l new_session)) (exchange (rq, cv))) =
    [(rq, res_prepare_payload (echo_answer jparse dump rq (new_response 200 11)))]"
  using serve_from [OF waiting_started, of env l "[(rq, cv)]"] assms by (simp add: echo_chain_response)

definition echo_env :: "unit session_env" where
  "echo_env = plain_env\<lparr>se_chain := sample_env (echo_pipeline (\<lambda>s. if s = ''[]'' then Parsed (JArray []) else Parse_error ''x'')
     (\<lambda>j. Inr ''[]''))\<rparr>"

theorem json_echo_witness:
  "map (\<lambda>(rq, r). (rs_status r, rs_body r, rs_sets r))
     (sn_sent (foldl (session_step echo_env) (start_session (set_limits default_session_limits new_session))
       (exchange (make_request Verb_post ''/api/echo'' [(''Content-Type'', ''application/json'')] ''[]'', plain_view)))) =
   [(200, ''[]'', [(''Content-Type'', ''application/json'')])]"
proof -
  let ?parse = "\<lambda>s. if s = ''[]'' then Parsed (JArray []) else Parse_error ''x''"
  let ?rq = "make_request Verb_post ''/api/echo'' [(''Content-Type'', ''application/json'')] ''[]''"
  have "ctx_path (new_request_context ?rq) = ''/api/echo''" by code_simp
  then have "sn_sent (foldl (session_step echo_env) (start_session (set_limits default_session_limits new_session)) (exchange (?rq, plain_view))) =
      [(?rq, res_prepare_payload (echo_answer ?parse (\<lambda>j. Inr ''[]'') ?rq (new_response 200 11)))]"
    by (intro json_echo) (simp_all add: echo_env_def plain_env_def sample_env_def plain_view_def)
  moreover have "map (\<lambda>(rq, r). (rs_status r, rs_body r, rs_sets r))
      [(?rq, res_prepare_payload (echo_answer ?parse (\<lambda>j. Inr ''[]'') ?rq (new_response 200 11)))] =
      [(200, ''[]'', [(''Content-Type'', ''application/json'')])]"
  proof -
    have "json_parse ?parse default_json_config ?rq = Inr (JArray [])"
      by (simp add: json_parse_def parse_with_validation_def preprocess_json_eq default_json_config_def make_request_def
          validate_depth_def new_validation_def Let_def)
    then have a: "echo_answer ?parse (\<lambda>j. Inr ''[]'') ?rq (new_response 200 11) =
        res_set_body ''[]'' (res_set ''Content-Type'' ''application/json'' (res_result 200 (new_response 200 11)))"
      by (simp add: echo_answer_def)
    show ?thesis unfolding a by code_simp
  qed
  ultimately show ?thesis by simp
qed

text \<open>The handlers of the server keep the types of the context, so its runs do.\<close>

lemma echo_handlers_typed: "handlers_typed (echo_routes dump)"
  by (auto simp: handlers_typed_def table_handlers_def echo_routes_def register_static_handler_def add_static_route_def add_static_route_method_def
      empty_table_def echo_key echo_handler_def text_handler_def handle_request_def make_api_handler_def Let_def
      split: sum.split)

interpretation echo_types: world_invariant typed_world
  "\<lparr>ae_pipeline = echo_pipeline jparse dump, ae_eh = None, ae_th = None, ae_global_timeout = t, ae_stats = stats,
    ae_has_callback = cb, ae_has_io = io\<rparr>" for jparse dump t stats cb io
  by unfold_locales
     (auto simp: echo_pipeline_def create_body_parser_middleware_def echo_handlers_typed
        intro!: library_types library_middleware.intros)

section \<open>The time of a response\<close>

text \<open>
  A session runs its chain asynchronously, and the asynchronous operator of the response time
  middleware sets no header: the answer is that of the dispatch, whatever the header's name.
\<close>

lemma response_time_not_sent:
  assumes "ae_pipeline (se_chain env) = [create_response_time_middleware k header, router_dispatch_middleware i router glob]"
    and "ae_has_callback (se_chain env)" and "ae_global_timeout (se_chain env) \<le> 0" and "\<not> cv_paused cv"
    and w: "w = \<lparr>w_ctx = ctx_set ''response_time_start'' (Any_time (cv_now cv)) (new_request_context rq), w_res = res,
            w_now = cv_now cv, w_ext = cv_ext cv\<rparr>"
    and "dispatch router glob w = (None, a)"
  shows "chain_response env cv res rq = Some (res_prepare_payload (w_res a))"
proof (rule two_response [OF _ assms(3,4) refl])
  let ?m = "create_response_time_middleware k header :: 'a middleware"
  fix r assume r: "run_open (se_chain env) r" "ar_index r = 0" "\<not> ar_finished r"
    "ar_world r = \<lparr>w_ctx = new_request_context rq, w_res = res, w_now = cv_now cv, w_ext = cv_ext cv\<rparr>"
  have "mw_async ?m (ar_world r) = A_Next w (\<lambda>w. A_Callback R_Continue [] w A_Done)" "mw_should_execute ?m (w_ctx (ar_world r))"
    by (simp_all add: create_response_time_middleware_def response_time_middleware_def response_time_async_def base_middleware_def r(4) w)
  from forwarding_step [OF assms(2) r(1-3) assms(1) this(2,1) assms(6), of "Suc 0"]
  show "\<exists>r'. execute_next_async_step (Suc (Suc (Suc 0))) (se_chain env) r = Some (None, r') \<and> ar_completions r' \<noteq> [] \<and>
      w_res (ar_world r') = w_res a" by auto
qed (simp add: assms(1))

section \<open>The server with an instance router\<close>

text \<open>
  However its routes were registered, a table serves one handler per path: the method of the
  request decides whether the route answers, not which.
\<close>

lemma resolve_dynamic_one_handler:
  assumes "resolve_dynamic key m ctx rs = ((Some h, ms), ctx1)" and "resolve_dynamic key m' ctx' rs = ((Some h', ms'), ctx2)"
  shows "h = h'"
  using assms by (induction rs) (auto split: option.splits if_splits)

lemma one_handler_per_path:
  assumes "resolve_route_with_method t path m ctx = ((Some h, ms), ctx1)"
    and "resolve_route_with_method t path m' ctx' = ((Some h', ms'), ctx2)"
  shows "h = h'"
  using assms by (auto simp: resolve_route_with_method_def Let_def split: option.splits if_splits dest: resolve_dynamic_one_handler)

text \<open>A body of the example, with the values of its two fields.\<close>

definition two_fields :: "string \<Rightarrow> string \<Rightarrow> string \<Rightarrow> string \<Rightarrow> string" where
  "two_fields k v k' v' =
     ''{'' @ quoted k @ '':'' @ quoted v @ '','' @ quoted k' @ '':'' @ quoted v' @ ''}''"

definition users_routes :: "'x callable_api_handler route_sort \<Rightarrow> 'x callable_api_handler route_table throws" where
  "users_routes srt =
     (let json = ''application/json'';
          t = add_static_route ''/''
                (text_handler 200 ''text/plain''
                   (\<lambda>_. ''Example 10 - Instance-based router with HTTP method routing.'' @ line @
                        ''Try: GET /api/users, POST /api/users'' @ line)) empty_table;
          t = add_static_route_method ''/api/users'' Verb_get
                (text_handler 200 json (\<lambda>_. two_fields ''action'' ''list_users'' ''method'' ''GET'')) t;
          t = add_static_route_method ''/api/users'' Verb_post
                (text_handler 200 json (\<lambda>_. two_fields ''action'' ''create_user'' ''method'' ''POST'')) t
      in case add_dynamic_route_method srt ''/api/users/{id}'' Verb_get
                (text_handler 200 json (\<lambda>ctx. two_fields ''action'' ''get_user'' ''id'' (path_parameter ctx ''id''))) t of
           Inl e \<Rightarrow> Inl e
         | Inr t \<Rightarrow> add_dynamic_route_method srt ''/api/users/{id}'' Verb_delete
                (text_handler 200 json (\<lambda>ctx. two_fields ''action'' ''delete_user'' ''id'' (path_parameter ctx ''id''))) t)"

text \<open>The second registration of /api/users replaces the first: a GET is answered with 405 and \<open>Allow: POST\<close>.\<close>

lemma users_static:
  assumes "users_routes srt = Inr t"
  shows "map_of (rt_static t) ''/api/users'' =
    Some \<lparr>sr_pattern = ''/api/users'', sr_handler = text_handler 200 ''application/json''
            (\<lambda>_. two_fields ''action'' ''create_user'' ''method'' ''POST''), sr_method = Verb_post\<rparr>"
proof -
  have "normalize_path ''/api/users'' = ''/api/users''" by code_simp
  with assms show ?thesis
    by (auto simp: users_routes_def add_dynamic_route_method_def add_static_route_method_def add_static_route_def Let_def
        split: sum.splits)
qed

lemma get_users_refused:
  assumes "users_routes srt = Inr t" and "ctx_path (w_ctx w) = ''/api/users''" and "ctx_method (w_ctx w) = Verb_get"
  shows "dispatch (Some t) glob w = (None, w\<lparr>w_res := set_405_response [Verb_post] (w_res w)\<rparr>)"
proof -
  have "normalize_path ''/api/users'' = ''/api/users''" by code_simp
  with assms(2,3) have "resolve_route_with_method t (ctx_path (w_ctx w)) (ctx_method (w_ctx w)) (w_ctx w) = ((None, [Verb_post]), w_ctx w)"
    by (simp add: resolve_route_with_method_def users_static [OF assms(1)] method_matches_def)
  from dispatch_unresolved [OF this, of glob] show ?thesis by simp
qed

section \<open>Routes with parameters\<close>

text \<open>02_routing.cpp, on the global router.\<close>

definition user_handler :: "'x callable_api_handler" where
  "user_handler = text_handler 200 ''application/json''
     (\<lambda>ctx. ''{'' @ quoted ''user_id'' @ '':'' @ quoted (path_parameter ctx ''id'') @ ''}'')"

definition item_handler :: "'x callable_api_handler" where
  "item_handler = text_handler 200 ''application/json''
     (\<lambda>ctx. two_fields ''category'' (path_parameter ctx ''category'') ''id'' (path_parameter ctx ''id''))"

definition routing_routes :: "'x callable_api_handler route_sort \<Rightarrow> 'x callable_api_handler route_table throws" where
  "routing_routes srt =
     (let t = register_static_handler ''/''
                (text_handler 200 ''text/plain''
                   (\<lambda>_. ''Example 02 '' @ dash @ '' routing. Try /api/users/{id} and /api/items/{category}/{id}'' @ line)) empty_table
      in case register_dynamic_handler srt ''/api/users/{id}'' user_handler t of
           Inl e \<Rightarrow> Inl e
         | Inr t \<Rightarrow> register_dynamic_handler srt ''/api/items/{category}/{id}'' item_handler t)"

definition user_route :: "'x callable_api_handler dynamic_route" where
  "user_route = \<lparr>dr_pattern = ''/api/users/{id}'', dr_handler = user_handler,
     dr_regex = items_of [Lit ''/api/users/'', Param ''id''], dr_param_names = [''id''], dr_method = Verb_unknown\<rparr>"

definition item_route :: "'x callable_api_handler dynamic_route" where
  "item_route = \<lparr>dr_pattern = ''/api/items/{category}/{id}'', dr_handler = item_handler,
     dr_regex = items_of [Lit ''/api/items/'', Param ''category'', Lit ''/'', Param ''id''],
     dr_param_names = [''category'', ''id''], dr_method = Verb_unknown\<rparr>"

lemma routing_patterns:
  "parse_pattern ''/api/users/{id}'' = Inr (items_of [Lit ''/api/users/'', Param ''id''], [''id''])"
  "parse_pattern ''/api/items/{category}/{id}'' =
     Inr (items_of [Lit ''/api/items/'', Param ''category'', Lit ''/'', Param ''id''], [''category'', ''id''])"
  using parse_pattern_tokens [of "[Lit ''/api/users/'', Param ''id'']"]
    parse_pattern_tokens [of "[Lit ''/api/items/'', Param ''category'', Lit ''/'', Param ''id'']"]
  by (simp_all add: pattern_of_def names_of_def)

lemma routing_table:
  assumes "std_sort srt"
  shows "\<exists>t. routing_routes srt = Inr t \<and> table_inv t \<and> map fst (rt_static t) = [''/''] \<and> set (rt_dynamic t) = {user_route, item_route}"
proof -
  let ?h = "text_handler 200 ''text/plain''
    (\<lambda>_. ''Example 02 '' @ dash @ '' routing. Try /api/users/{id} and /api/items/{category}/{id}'' @ line) :: 'a callable_api_handler"
  let ?es = "[Add_static ''/'' Verb_unknown ?h, Add_dynamic ''/api/users/{id}'' Verb_unknown user_handler,
    Add_dynamic ''/api/items/{category}/{id}'' Verb_unknown item_handler]"
  have "routing_routes srt = Inr (foldl (route_step srt) empty_table ?es)"
    by (simp add: routing_routes_def register_static_handler_def add_static_route_def register_dynamic_handler_def
        add_dynamic_route_def add_dynamic_route_method_def routing_patterns Let_def)
  moreover have "table_inv (foldl (route_step srt) empty_table ?es)"
    by (rule route_sorting.reachable_inv [OF route_sorting_of_std_sort [OF assms]])
  moreover have "map fst (rt_static (foldl (route_step srt) empty_table ?es)) = [''/'']"
    "set (rt_dynamic (foldl (route_step srt) empty_table ?es)) = {user_route, item_route}"
    by (auto simp: add_dynamic_route_method_def add_static_route_method_def routing_patterns empty_table_def echo_key Let_def
        user_route_def item_route_def std_sort.sort_set [OF assms strict_weak_more_specific])
  ultimately show ?thesis by (intro exI [where x = "foldl (route_step srt) empty_table ?es"] conjI)
qed

text \<open>A request for the user of an identifier is answered with that identifier, whatever other routes there are.\<close>

lemma user_answered:
  assumes "std_sort srt" and "routing_routes srt = Inr t" and "uid \<noteq> []" and "CHR ''/'' \<notin> set uid"
    and "ctx_path (w_ctx w) = ''/api/users/'' @ uid"
  shows "w_res (snd (dispatch None t w)) = text_response 200 ''application/json''
    (''{'' @ quoted ''user_id'' @ '':'' @ quoted uid @ ''}'') (w_res w)"
proof -
  let ?key = "''/api/users/'' @ uid" and ?u = "user_route :: 'a callable_api_handler dynamic_route"
  have "last uid \<noteq> CHR ''/''" using assms(3,4) last_in_set by metis
  then have key: "normalize_path ?key = ?key"
    using assms(3) by (simp add: normalize_path_def strip_trailing_slash_def)
  obtain t: "table_inv t" "map fst (rt_static t) = [''/'']" "set (rt_dynamic t) = {user_route, item_route}"
    using routing_table [OF assms(1)] assms(2) by auto
  then have static: "map_of (rt_static t) ?key = None" by (auto simp: map_of_eq_None_iff simp flip: set_map)
  have fits: "matches_path ?key ?u" "\<not> matches_path ?key (item_route :: 'a callable_api_handler dynamic_route)"
    using assms(3,4) by (auto simp: matches_path_def user_route_def item_route_def items_of_def intro!: exI [where x = "[uid]"])
  have "find (matches_path ?key) (rt_dynamic t) \<noteq> None" using t(3) fits(1) by (auto simp: find_None_iff)
  then obtain r where r: "find (matches_path ?key) (rt_dynamic t) = Some r" by blast
  then have "r \<in> set (rt_dynamic t)" "matches_path ?key r" by (auto simp: find_Some_iff)
  with t(3) fits(2) have user: "r = ?u" by auto
  then have "dr_method r = Verb_unknown" by (simp add: user_route_def)
  with resolve_spec [OF t(1), of ?key Verb_unknown "w_ctx w"] key static r obtain caps where
    "fill (dr_regex r) caps = Some ?key"
    "resolve_route_with_method t ?key Verb_unknown (w_ctx w) = ((Some (dr_handler r), []), extract_path_params r caps (w_ctx w))"
    by (simp only: option.case method_matches_def simp_thms if_True) blast
  then have caps: "fill (dr_regex ?u) caps = Some ?key"
      "resolve_route_with_method t ?key Verb_unknown (w_ctx w) = ((Some user_handler, []), extract_path_params ?u caps (w_ctx w))"
    by (simp_all add: user) (simp_all add: user_route_def)
  have "caps = [uid]"
    using caps(1) by (cases caps) (auto simp: user_route_def items_of_def split: if_splits)
  then have "path_parameter (extract_path_params ?u caps (w_ctx w)) ''id'' = uid"
    using path_parameters_read [of ?u caps 0 "w_ctx w"] by (simp add: user_route_def)
  with caps(2) show ?thesis
    by (simp add: dispatch_def resolve_route_def assms(5) handle_request_def user_handler_def text_handler_def make_api_handler_def Let_def)
qed

section \<open>The server that counts its errors\<close>

text \<open>
  08_error_handling.cpp. The error logger is the part of the world the handlers share; what it
  prints is left out.
\<close>

record error_logger =
  el_error_count :: "64 word"

definition log_error :: "error_logger \<Rightarrow> error_logger" where
  "log_error l = l\<lparr>el_error_count := el_error_count l + 1\<rparr>"

definition get_error_count :: "error_logger \<Rightarrow> nat" where
  "get_error_count l = unat (el_error_count l)"

definition error_body :: "string \<Rightarrow> string" where
  "error_body s = ''{'' @ quoted ''error'' @ '':'' @ quoted s @ '','' @ quoted ''code'' @ '':500}''"

definition throw_handler :: "error_logger callable_api_handler" where
  "throw_handler = make_api_handler (\<lambda>w.
     (None, w\<lparr>w_ext := log_error (w_ext w),
              w_res := text_response 500 ''application/json'' (error_body ''Exception caught and logged'') (w_res w)\<rparr>))"

definition stats_body :: "error_logger \<Rightarrow> string" where
  "stats_body l = ''{'' @ quoted ''error_count'' @ '':'' @ to_string (get_error_count l) @ ''}''"

definition stats_handler :: "error_logger callable_api_handler" where
  "stats_handler = make_api_handler (\<lambda>w. (None, w\<lparr>w_res := text_response 200 ''application/json'' (stats_body (w_ext w)) (w_res w)\<rparr>))"

text \<open>The callback that the handler of /callback declares is never called.\<close>

definition callback_handler :: "error_logger callable_api_handler" where
  "callback_handler = make_api_handler (\<lambda>w.
     (None, w\<lparr>w_res := text_response 200 ''application/json''
        (''{'' @ quoted ''message'' @ '':'' @ quoted ''Error callback demonstration'' @ '','' @ quoted ''error_count'' @ '':'' @
         to_string (get_error_count (w_ext w)) @ ''}'') (w_res w)\<rparr>))"

definition error_routes :: "error_logger callable_api_handler route_table" where
  "error_routes =
     (let t = register_static_handler ''/''
                (text_handler 200 ''text/plain''
                   (\<lambda>_. ''FoxHttp example 08 '' @ dash @ '' error handling.'' @ line @
                        ''Try: GET /error  GET /throw  GET /stats'' @ line)) empty_table;
          t = register_static_handler ''/error'' (text_handler 500 ''application/json'' (\<lambda>_. error_body ''Simulated error'')) t;
          t = register_static_handler ''/throw'' throw_handler t;
          t = register_static_handler ''/stats'' stats_handler t
      in register_static_handler ''/callback'' callback_handler t)"

text \<open>The dispatch of one request, with the logger before and after it.\<close>

definition error_request :: "http_request \<Rightarrow> error_logger \<Rightarrow> http_response \<times> error_logger" where
  "error_request rq l =
     (let w = snd (dispatch None error_routes
                     \<lparr>w_ctx = new_request_context rq, w_res = new_response 200 11, w_now = 0, w_ext = l\<rparr>)
      in (w_res w, w_ext w))"

definition asks_for :: "string \<Rightarrow> http_request \<Rightarrow> bool" where
  "asks_for path rq = (normalize_path (ctx_path (new_request_context rq)) = path)"

lemma error_keys:
  "normalize_path ''/'' = ''/''" "normalize_path ''/error'' = ''/error''" "normalize_path ''/throw'' = ''/throw''"
  "normalize_path ''/stats'' = ''/stats''" "normalize_path ''/callback'' = ''/callback''"
  by code_simp+

lemma error_request_logger: "snd (error_request rq l) = (if asks_for ''/throw'' rq then log_error l else l)"
  by (simp add: error_request_def asks_for_def dispatch_def resolve_route_def resolve_route_with_method_def error_routes_def
      register_static_handler_def add_static_route_def add_static_route_method_def empty_table_def error_keys method_matches_def handle_request_def
      text_handler_def throw_handler_def stats_handler_def callback_handler_def make_api_handler_def Let_def)

lemma error_request_stats:
  "asks_for ''/stats'' rq \<Longrightarrow>
   fst (error_request rq l) = text_response 200 ''application/json'' (stats_body l) (new_response 200 11)"
  by (simp add: error_request_def asks_for_def dispatch_def resolve_route_def resolve_route_with_method_def error_routes_def
      register_static_handler_def add_static_route_def add_static_route_method_def empty_table_def error_keys method_matches_def handle_request_def
      stats_handler_def make_api_handler_def Let_def)

text \<open>What /stats reports is the number of requests for /throw before it, as a 64-bit counter holds it.\<close>

lemma errors_counted:
  assumes "l = foldl (\<lambda>l rq. snd (error_request rq l)) \<lparr>el_error_count = 0\<rparr> rqs"
  shows "get_error_count l = length (filter (asks_for ''/throw'') rqs) mod 2 ^ 64"
proof -
  have "el_error_count (foldl (\<lambda>l rq. snd (error_request rq l)) l0 rqs) =
      el_error_count l0 + of_nat (length (filter (asks_for ''/throw'') rqs))" for l0
    by (induction rqs arbitrary: l0) (simp_all add: error_request_logger log_error_def)
  then show ?thesis by (simp add: assms get_error_count_def unat_of_nat)
qed

end
