(* ===== verification/Constants.thy ===== *)
theory Constants
  imports Configs Server
begin

text \<open>
  include/foxhttp/core/constants.hpp: the constants that are named as the defaults of the
  library, and where the configuration structs have others. Sizes are in bytes, times in
  milliseconds.
\<close>

section \<open>Sizes\<close>

definition kDefaultMaxBodySize :: nat where "kDefaultMaxBodySize = 10 * 1024 * 1024"

definition kDefaultMaxJsonDepth :: nat where "kDefaultMaxJsonDepth = 100"

definition kDefaultMaxFieldSize :: nat where "kDefaultMaxFieldSize = 10 * 1024 * 1024"

definition kDefaultMaxFileSize :: nat where "kDefaultMaxFileSize = 100 * 1024 * 1024"

definition kDefaultMaxTotalSize :: nat where "kDefaultMaxTotalSize = 500 * 1024 * 1024"

definition kDefaultMemoryThreshold :: nat where "kDefaultMemoryThreshold = 1024 * 1024"

definition kDefaultMaxFields :: nat where "kDefaultMaxFields = 1000"

section \<open>Times\<close>

definition kDefaultIoTimeout :: int where "kDefaultIoTimeout = 30 * 1000"

definition kDefaultHandshakeTimeout :: int where "kDefaultHandshakeTimeout = 30 * 1000"

definition kDefaultIdleTimeout :: int where "kDefaultIdleTimeout = 60 * 1000"

definition kDefaultHeaderTimeout :: int where "kDefaultHeaderTimeout = 30 * 1000"

definition kDefaultBodyTimeout :: int where "kDefaultBodyTimeout = 30 * 1000"

definition kDefaultGlobalTimeout :: int where "kDefaultGlobalTimeout = 0"

section \<open>Pools\<close>

definition kDefaultMaxRequestsPerConnection :: nat where "kDefaultMaxRequestsPerConnection = 0"

definition kDefaultIoContextPoolSize :: "64 word" where "kDefaultIoContextPoolSize = 0"

definition kDefaultStrandPoolInitialSize :: nat where "kDefaultStrandPoolInitialSize = 4"

definition kDefaultStrandPoolMinSize :: nat where "kDefaultStrandPoolMinSize = 1"

definition kDefaultStrandPoolMaxSize :: nat where "kDefaultStrandPoolMaxSize = 64"

definition kDefaultStrandHealthCheckInterval :: int where "kDefaultStrandHealthCheckInterval = 5000"

definition kDefaultStrandMetricsInterval :: int where "kDefaultStrandMetricsInterval = 10000"

definition kDefaultMaxPoolSize :: nat where "kDefaultMaxPoolSize = 100"

definition kDefaultConnectionIdleTimeout :: int where "kDefaultConnectionIdleTimeout = 60 * 1000"

definition kDefaultCleanupInterval :: int where "kDefaultCleanupInterval = 10 * 1000"

definition kDefaultStrandLoadThreshold :: rat where "kDefaultStrandLoadThreshold = 8 / 10"

definition kDefaultStrandIdleThreshold :: rat where "kDefaultStrandIdleThreshold = 2 / 10"

definition kDefaultTimerBucketCount :: nat where "kDefaultTimerBucketCount = 16"

definition kDefaultTimerCleanupInterval :: int where "kDefaultTimerCleanupInterval = 60000"

definition kDefaultTimerStatisticsInterval :: int where "kDefaultTimerStatisticsInterval = 30000"

definition kDefaultTempDirectory :: string where "kDefaultTempDirectory = ''/tmp''"

section \<open>Protocol\<close>

definition kDefaultHttpPort :: "16 word" where "kDefaultHttpPort = 80"

definition kDefaultHttpsPort :: "16 word" where "kDefaultHttpsPort = 443"

definition kHttp11Version :: nat where "kHttp11Version = 11"

lemmas constants = kDefaultMaxBodySize_def kDefaultMaxJsonDepth_def kDefaultMaxFieldSize_def kDefaultMaxFileSize_def
  kDefaultMaxTotalSize_def kDefaultMemoryThreshold_def kDefaultMaxFields_def kDefaultIoTimeout_def kDefaultHandshakeTimeout_def
  kDefaultIdleTimeout_def kDefaultHeaderTimeout_def kDefaultBodyTimeout_def kDefaultGlobalTimeout_def
  kDefaultMaxRequestsPerConnection_def kDefaultIoContextPoolSize_def kDefaultStrandPoolInitialSize_def
  kDefaultStrandPoolMinSize_def kDefaultStrandPoolMaxSize_def kDefaultStrandHealthCheckInterval_def
  kDefaultStrandMetricsInterval_def kDefaultTimerBucketCount_def kDefaultTimerCleanupInterval_def
  kDefaultTimerStatisticsInterval_def kDefaultTempDirectory_def
  kDefaultMaxPoolSize_def kDefaultConnectionIdleTimeout_def kDefaultCleanupInterval_def kDefaultStrandLoadThreshold_def
  kDefaultStrandIdleThreshold_def kDefaultHttpPort_def kDefaultHttpsPort_def kHttp11Version_def

section \<open>The configuration structs\<close>

text \<open>The defaults of the parsers, of the strand pool's bounds and intervals and of the timers are the constants.\<close>

lemma configs_have_the_constants:
  "jc_max_size default_json_config = kDefaultMaxBodySize" "jc_max_depth default_json_config = kDefaultMaxJsonDepth"
  "mc_max_field_size default_multipart_config = kDefaultMaxFieldSize"
  "mc_max_file_size default_multipart_config = kDefaultMaxFileSize"
  "mc_max_total_size default_multipart_config = kDefaultMaxTotalSize"
  "mc_memory_threshold default_multipart_config = kDefaultMemoryThreshold"
  "mc_temp_directory default_multipart_config = kDefaultTempDirectory"
  "fc_max_fields default_form_config = kDefaultMaxFields"
  "sc_min_size (default_strand_pool_config hw) = kDefaultStrandPoolMinSize"
  "sc_max_size (default_strand_pool_config hw) = kDefaultStrandPoolMaxSize"
  "sc_health_check_interval (default_strand_pool_config hw) = kDefaultStrandHealthCheckInterval"
  "sc_metrics_report_interval (default_strand_pool_config hw) = kDefaultStrandMetricsInterval"
  "sc_load_threshold (default_strand_pool_config hw) = kDefaultStrandLoadThreshold"
  "sc_idle_threshold (default_strand_pool_config hw) = kDefaultStrandIdleThreshold"
  "tc_bucket_count default_timer_manager_config = kDefaultTimerBucketCount"
  "tc_cleanup_interval default_timer_manager_config = kDefaultTimerCleanupInterval"
  "tc_statistics_report_interval default_timer_manager_config = kDefaultTimerStatisticsInterval"
  by (simp_all add: constants default_json_config_def default_multipart_config_def default_form_config_def
      default_strand_pool_config_def default_timer_manager_config_def)

text \<open>
  Those of a session are not: every timeout is shorter, and a connection serves 1000 requests
  where the constant says there is no limit. The pool of io contexts refuses its size.
\<close>

lemma session_defaults_differ:
  "sl_idle_timeout default_session_limits < kDefaultIdleTimeout"
  "sl_header_read_timeout default_session_limits < kDefaultHeaderTimeout"
  "sl_body_read_timeout default_session_limits < kDefaultBodyTimeout"
  "sl_handshake_timeout default_session_limits < kDefaultHandshakeTimeout"
  "sl_max_requests_per_connection default_session_limits \<noteq> kDefaultMaxRequestsPerConnection"
  by (simp_all add: constants default_session_limits_def)

lemma default_io_pool_refused: "\<exists>e. new_io_pool kDefaultIoContextPoolSize = Inl e"
  by (simp add: new_io_pool_def constants)

end
