(* ===== verification/Client_Server.thy ===== *)
theory Client_Server
  imports Http_Client Request_Flow
begin

text \<open>
  The client of src/client/http_client.cpp against the server of src/server/session.cpp: one
  request, from the URL the application writes to the call of its handler with the answer of
  the route's handler. Serialising and parsing of messages is Boost.Beast's: \<open>wire\<close> is the
  request a server reads when a client writes one.
\<close>

section \<open>A connection to a server\<close>

text \<open>
  The network between a client and a new session of a server: everything succeeds, and the
  client reads the first answer the session sends, or the end of the stream.
\<close>

definition loopback ::
  "(client_request \<Rightarrow> http_request) \<Rightarrow> 'x session_env \<Rightarrow> session_limits \<Rightarrow> 'x chain_view \<Rightarrow> client_request \<Rightarrow> io_error network" where
  "loopback wire env l cv q =
     \<lparr>nw_resolve = (\<lambda>_ _. None), nw_connect = (\<lambda>_. None), nw_handshake = (\<lambda>_. None), nw_write = (\<lambda>_. None),
      nw_read = (case sn_sent (foldl (session_step env) (start_session (set_limits l new_session)) (exchange (wire q, cv))) of
                   [] \<Rightarrow> Inl Ec_end_of_stream | (rq, r) # _ \<Rightarrow> Inr r),
      nw_not_supported = Ec_other ''not supported''\<rparr>"

lemma exchange_sends:
  "sn_sent (foldl (session_step env) (start_session (set_limits l new_session)) (exchange (rq, cv))) =
   (if se_upgrade env rq then []
    else case chain_response env cv (new_response 200 11) rq of None \<Rightarrow> [] | Some r \<Rightarrow> [(rq, r)])"
  using serve_from [OF waiting_started, of env l "[(rq, cv)]"] by (simp split: option.split)

lemma loopback_transfer:
  "transfer False bv (loopback wire env l cv (client_request_of bv s)) s =
   (let rq = wire (client_request_of bv s)
    in if se_upgrade env rq then Inl Ec_end_of_stream
       else case chain_response env cv (new_response 200 11) rq of None \<Rightarrow> Inl Ec_end_of_stream | Some r \<Rightarrow> Inr r)"
  by (simp add: transfer_def transfer_http_def loopback_def exchange_sends Let_def split: option.split)

section \<open>What the client starts\<close>

lemma started_spec:
  assumes "to_lower scheme = ''http://''"
    and "host \<noteq> []" "CHR '':'' \<notin> set host" "CHR ''/'' \<notin> set host" "CHR '':'' \<notin> set port" "CHR ''/'' \<notin> set port"
    and "target \<noteq> []" "hd target = CHR ''/''"
    and "new_request_builder False c m (scheme @ host @ '':'' @ port @ target) = Inr b0" and "rb_body body b0 = Inr b1"
    and "rb_then (Some h) b1 = Inr b2"
  shows "\<exists>s. kr_started b2 = [s] \<and> ks_method s = m \<and> ks_target_path s = target \<and> ks_body s = body \<and>
    ks_on_success s = Some h \<and> ks_base s = \<lparr>kb_https = False, kb_host = host, kb_port = port,
      kb_host_field = (if port = ''80'' then host else host @ '':'' @ port)\<rparr>"
proof -
  have "to_lower ''http://'' = ''http://''" by code_simp
  with assms(1) have "starts_with_ci (scheme @ host @ '':'' @ port @ target) ''http://''" by (rule starts_with_ci_drop)
  with assms show ?thesis
    using absolute_url_parts [of scheme False False host port target]
    by (auto simp: new_request_builder_def builder_op_defs Let_def)
qed

section \<open>Through the server and back\<close>

lemma path_of_target:
  assumes "CHR ''?'' \<notin> set path" and "if query = [] then True else hd query = CHR ''?''"
    and "rq_target rq = path @ query"
  shows "ctx_path (new_request_context rq) = path"
proof (cases query)
  case Nil
  moreover have "find_sub ''?'' path = None" using assms(1) by (simp only: find_sub_char_None not_False_eq_True)
  ultimately show ?thesis using assms(3) by (simp add: ctx_path_def new_request_context_def)
next
  case (Cons q qs)
  with assms show ?thesis using find_sub_char_append [of "CHR ''?''" path qs] by (simp add: ctx_path_def new_request_context_def)
qed


text \<open>A GET of a URL with a query, through a middleware that tags the answer.\<close>

definition greeter :: "unit callable_api_handler" where
  "greeter = make_api_handler (\<lambda>w. (None, w\<lparr>w_res := res_set_body ''hello'' (res_result 200 (w_res w))\<rparr>))"

definition greeting_table :: "unit callable_api_handler route_table" where
  "greeting_table = add_static_route_method ''/hello'' Verb_get greeter empty_table"

definition greeting_tag :: "unit wrapper" where
  "greeting_tag = \<lparr>wr_mw = tag_middleware 1 Low ''a'', wr_pre = (\<lambda>w. w\<lparr>w_res := res_set ''X-In'' ''a'' (w_res w)\<rparr>),
     wr_post = (\<lambda>w. w\<lparr>w_res := res_set ''X-Out'' ''a'' (w_res w)\<rparr>)\<rparr>"

definition greeting_env :: "unit session_env" where
  "greeting_env = plain_env\<lparr>se_chain := sample_env [tag_middleware 1 Low ''a'', router_dispatch_middleware 9 (Some greeting_table) empty_table]\<rparr>"

definition plain_wire :: "client_request \<Rightarrow> http_request" where
  "plain_wire q = make_request (kq_method q) (kq_target q) (kq_fields q) (kq_body q)"

definition greeting_client :: http_client where
  "greeting_client = \<lparr>kc_base = \<lparr>kb_https = False, kb_host = ''h'', kb_port = ''80'', kb_host_field = ''h''\<rparr>,
     kc_options = default_client_options, kc_ssl_ctx = False\<rparr>"


end
