(* ===== verification/Shutdown.thy ===== *)
theory Shutdown
  imports Server
begin

text \<open>
  How a program of the library ends (src/examples/07_graceful_shutdown.cpp): signal handlers
  that stop the server and the pool of io contexts, the pool whose threads \<open>run_blocking\<close>
  joins, and the main thread that waits for a flag. The pool has one thread, on which the
  server and the signal set run.
\<close>

section \<open>The program\<close>

record graceful =
  gr_server :: "nat server"
  gr_pool :: io_pool
  gr_sigs :: signal_set
  gr_running :: bool
  gr_shutdown_requested :: bool

text \<open>
  The handlers, numbers 0 and 1. The handler of SIGINT sleeps two seconds between the two calls: as it
  occupies the only thread of the pool, nothing else happens in that time.
\<close>

definition on_sigint :: "graceful \<Rightarrow> graceful" where
  "on_sigint g =
     (let g = g\<lparr>gr_shutdown_requested := True\<rparr>;
          g = g\<lparr>gr_server := stop_server (gr_server g)\<rparr>;
          g = g\<lparr>gr_pool := stop_io_pool (gr_pool g)\<rparr>
      in g\<lparr>gr_running := False\<rparr>)"

definition on_sigterm :: "graceful \<Rightarrow> graceful" where
  "on_sigterm g =
     (let g = g\<lparr>gr_shutdown_requested := True\<rparr>;
          g = g\<lparr>gr_server := stop_server (gr_server g)\<rparr>;
          g = g\<lparr>gr_pool := stop_io_pool (gr_pool g)\<rparr>
      in g\<lparr>gr_running := False\<rparr>)"

definition call_handler :: "nat \<Rightarrow> graceful \<Rightarrow> graceful" where
  "call_handler h g = (if h = 0 then on_sigint g else on_sigterm g)"

definition graceful_start :: "nat \<Rightarrow> graceful throws" where
  "graceful_start chain =
     (case new_io_pool 1 of
        Inl e \<Rightarrow> Inl e
      | Inr p \<Rightarrow>
          let (server, p) = new_server p chain; (_, p) = get_io_context p;
              sigs = start_signals (register_handler 15 1 (register_handler 2 0 new_signal_set))
          in Inr \<lparr>gr_server = server, gr_pool = p, gr_sigs = sigs, gr_running = True, gr_shutdown_requested = False\<rparr>)"

text \<open>What completes on the thread of the pool; after the pool is stopped nothing does.\<close>

datatype graceful_event = Connection server_event | Signal int

fun graceful_step :: "graceful \<Rightarrow> graceful_event \<Rightarrow> graceful" where
  "graceful_step g (Connection e) =
     (if ip_stopped (gr_pool g) then g else g\<lparr>gr_server := server_step False (gr_server g) e\<rparr>)"
| "graceful_step g (Signal sig) =
     (if ip_stopped (gr_pool g) then g
      else let sigs = signal_arrived sig (gr_sigs g);
               calls = drop (length (ss_calls (gr_sigs g))) (ss_calls sigs)
           in foldl (\<lambda>g (h, _). call_handler h g) (g\<lparr>gr_sigs := sigs\<rparr>) calls)"

text \<open>The states the program passes through, as \<open>run_blocking\<close> sees them.\<close>

fun course :: "graceful \<Rightarrow> graceful_event list \<Rightarrow> graceful list" where
  "course g [] = [g]"
| "course g (e # es) = g # course (graceful_step g e) es"

section \<open>Lemmas\<close>

fun stops :: "graceful_event \<Rightarrow> bool" where
  "stops (Signal sig) = (sig = 2 \<or> sig = 15)"
| "stops (Connection _) = False"

text \<open>Before the first such signal everything runs, after it nothing does.\<close>

definition graceful_up :: "graceful \<Rightarrow> bool" where
  "graceful_up g = (io_pool_ok (gr_pool g) \<and> ip_size (gr_pool g) = 1 \<and> \<not> ip_stopped (gr_pool g) \<and> gr_running g \<and>
     ss_waiting (gr_sigs g) \<and> \<not> ss_stopped (gr_sigs g) \<and>
     (\<forall>sig. handlers_for sig (gr_sigs g) = (if sig = 2 then [0] else if sig = 15 then [1] else [])))"

definition graceful_down :: "graceful \<Rightarrow> bool" where
  "graceful_down g = (io_pool_ok (gr_pool g) \<and> ip_size (gr_pool g) = 1 \<and> ip_stopped (gr_pool g) \<and> \<not> gr_running g \<and>
     sv_stopping (gr_server g))"

lemma start_up: "graceful_start c = Inr g \<Longrightarrow> graceful_up g"
  using io_pool_ok_kept
  by (auto simp: graceful_start_def graceful_up_def new_server_def start_signals_def do_async_wait_def new_signal_set_def
      accept_loop_def handlers_for_def register_handler_def get_io_context_def new_io_pool_def io_pool_ok_def Let_def
      split: sum.splits prod.splits if_splits)

lemma down_stays: "graceful_down g \<Longrightarrow> graceful_step g e = g"
  by (cases e) (simp_all add: graceful_down_def)

lemma handler_down: "graceful_up g \<Longrightarrow> graceful_down (call_handler h (g\<lparr>gr_sigs := s\<rparr>)) \<and>
    sv_sessions (gr_server (call_handler h (g\<lparr>gr_sigs := s\<rparr>))) = sv_sessions (gr_server g)"
  using io_pool_ok_kept(3) [of "gr_pool g"]
  by (simp add: call_handler_def on_sigint_def on_sigterm_def graceful_up_def graceful_down_def stop_server_def
      stop_io_pool_def Let_def)

lemma up_step:
  assumes "graceful_up g"
  shows "if stops e then graceful_down (graceful_step g e) \<and> sv_sessions (gr_server (graceful_step g e)) = sv_sessions (gr_server g)
    else graceful_up (graceful_step g e)"
proof (cases e)
  case (Connection c)
  with assms show ?thesis by (simp add: graceful_up_def)
next
  case (Signal sig)
  with assms handler_down [OF assms] show ?thesis
    by (auto simp: graceful_up_def signal_arrived_def handle_signal_def do_async_wait_def handlers_for_def Let_def)
qed

lemma down_run: "graceful_down g \<Longrightarrow> foldl graceful_step g es = g \<and> course g es = replicate (Suc (length es)) g"
  by (induction es) (simp_all add: down_stays)

lemma run_until_signal:
  "graceful_up g \<Longrightarrow>
   (if list_ex stops es then graceful_down (foldl graceful_step g es) else graceful_up (foldl graceful_step g es)) \<and>
   sv_sessions (gr_server (foldl graceful_step g es)) =
     sv_sessions (gr_server (foldl graceful_step g (takeWhile (\<lambda>e. \<not> stops e) es))) \<and>
   list_all (\<lambda>g. io_pool_ok (gr_pool g) \<and> ip_size (gr_pool g) = 1) (course g es) \<and>
   find ip_stopped (map gr_pool (course g es)) = (if list_ex stops es then Some (gr_pool (foldl graceful_step g es)) else None)"
proof (induction es arbitrary: g)
  case Nil
  then show ?case by (simp add: graceful_up_def)
next
  case (Cons e es)
  have g: "io_pool_ok (gr_pool g) \<and> ip_size (gr_pool g) = 1" "\<not> ip_stopped (gr_pool g)"
    using Cons.prems by (simp_all add: graceful_up_def)
  show ?case
  proof (cases "stops e")
    case True
    then have d: "graceful_down (graceful_step g e)" "sv_sessions (gr_server (graceful_step g e)) = sv_sessions (gr_server g)"
      using up_step [OF Cons.prems, of e] by simp_all
    with True g down_run [OF d(1), of es] show ?thesis
      by (simp add: list_all_iff graceful_down_def del: graceful_step.simps)
  next
    case False
    with up_step [OF Cons.prems, of e] Cons.IH [of "graceful_step g e"] g show ?thesis
      by (simp del: graceful_step.simps)
  qed
qed

section \<open>Properties\<close>



end
