(* ===== verification/Router_Instances.thy ===== *)
theory Router_Instances
  imports Router_Dispatch Slots
begin

text \<open>
  include/foxhttp/router/router.hpp and src/router/router.cpp: the objects of class \<open>Router\<close>. A
  router holds a shared pointer to its table, so several routers may share one; the program's
  global router is made at its first use. Tables are numbered in the order of their
  creation, routers likewise.
\<close>

section \<open>The store\<close>

record 'h router_store =
  rs_tables :: "nat \<Rightarrow> 'h route_table"
  rs_next :: nat
  rs_routers :: "nat list"
  rs_global :: "nat option"

definition empty_store :: "'h router_store" where
  "empty_store = \<lparr>rs_tables = (\<lambda>_. empty_table), rs_next = 0, rs_routers = [], rs_global = None\<rparr>"

definition create_detached :: "'h router_store \<Rightarrow> nat \<times> 'h router_store" where
  "create_detached s = (rs_next s, s\<lparr>rs_tables := (rs_tables s)(rs_next s := empty_table), rs_next := rs_next s + 1\<rparr>)"

text \<open>The constructor; \<open>None\<close> is the null pointer it has by default.\<close>

definition construct_router :: "nat option \<Rightarrow> 'h router_store \<Rightarrow> nat \<times> 'h router_store" where
  "construct_router table s =
     (let (t, s) = (case table of Some t \<Rightarrow> (t, s) | None \<Rightarrow> create_detached s)
      in (length (rs_routers s), s\<lparr>rs_routers := rs_routers s @ [t]\<rparr>))"

definition table_ref :: "nat \<Rightarrow> 'h router_store \<Rightarrow> nat" where
  "table_ref r s = rs_routers s ! r"

definition global_router :: "'h router_store \<Rightarrow> nat \<times> 'h router_store" where
  "global_router s =
     (case rs_global s of
        Some g \<Rightarrow> (g, s)
      | None \<Rightarrow> let (g, s) = construct_router None s in (g, s\<lparr>rs_global := Some g\<rparr>))"

section \<open>Instances\<close>

definition router_add_static_method :: "nat \<Rightarrow> string \<Rightarrow> verb \<Rightarrow> 'h \<Rightarrow> 'h router_store \<Rightarrow> 'h router_store" where
  "router_add_static_method r path m h s =
     s\<lparr>rs_tables := (rs_tables s)(table_ref r s := add_static_route_method path m h (rs_tables s (table_ref r s)))\<rparr>"

definition router_add_static :: "nat \<Rightarrow> string \<Rightarrow> 'h \<Rightarrow> 'h router_store \<Rightarrow> 'h router_store" where
  "router_add_static r path h s =
     s\<lparr>rs_tables := (rs_tables s)(table_ref r s := add_static_route path h (rs_tables s (table_ref r s)))\<rparr>"

definition router_add_dynamic_method ::
  "'h route_sort \<Rightarrow> nat \<Rightarrow> string \<Rightarrow> verb \<Rightarrow> 'h \<Rightarrow> 'h router_store \<Rightarrow> cpp_exn option \<times> 'h router_store" where
  "router_add_dynamic_method srt r pattern m h s =
     (case add_dynamic_route_method srt pattern m h (rs_tables s (table_ref r s)) of
        Inl e \<Rightarrow> (Some e, s) | Inr t \<Rightarrow> (None, s\<lparr>rs_tables := (rs_tables s)(table_ref r s := t)\<rparr>))"

definition router_add_dynamic ::
  "'h route_sort \<Rightarrow> nat \<Rightarrow> string \<Rightarrow> 'h \<Rightarrow> 'h router_store \<Rightarrow> cpp_exn option \<times> 'h router_store" where
  "router_add_dynamic srt r pattern h s =
     (case add_dynamic_route srt pattern h (rs_tables s (table_ref r s)) of
        Inl e \<Rightarrow> (Some e, s) | Inr t \<Rightarrow> (None, s\<lparr>rs_tables := (rs_tables s)(table_ref r s := t)\<rparr>))"

definition router_resolver :: "nat \<Rightarrow> string \<Rightarrow> request_context \<Rightarrow> 'h router_store \<Rightarrow> 'h option \<times> request_context" where
  "router_resolver r path ctx s = resolve_route (rs_tables s (table_ref r s)) path ctx"

definition router_resolver_with_method ::
  "nat \<Rightarrow> string \<Rightarrow> verb \<Rightarrow> request_context \<Rightarrow> 'h router_store \<Rightarrow> ('h option \<times> verb list) \<times> request_context" where
  "router_resolver_with_method r path m ctx s = resolve_route_with_method (rs_tables s (table_ref r s)) path m ctx"

text \<open>The overloads for callables.\<close>

definition router_add_static_fn :: "nat \<Rightarrow> string \<Rightarrow> 'x api_handler \<Rightarrow> 'x callable_api_handler router_store \<Rightarrow> 'x callable_api_handler router_store" where
  "router_add_static_fn r path fn s = router_add_static r path (make_api_handler fn) s"

definition router_add_static_method_fn ::
  "nat \<Rightarrow> string \<Rightarrow> verb \<Rightarrow> 'x api_handler \<Rightarrow> 'x callable_api_handler router_store \<Rightarrow> 'x callable_api_handler router_store" where
  "router_add_static_method_fn r path m fn s = router_add_static_method r path m (make_api_handler fn) s"

definition router_add_dynamic_fn ::
  "'x callable_api_handler route_sort \<Rightarrow> nat \<Rightarrow> string \<Rightarrow> 'x api_handler \<Rightarrow> 'x callable_api_handler router_store \<Rightarrow>
   cpp_exn option \<times> 'x callable_api_handler router_store" where
  "router_add_dynamic_fn srt r pattern fn s = router_add_dynamic srt r pattern (make_api_handler fn) s"

definition router_add_dynamic_method_fn ::
  "'x callable_api_handler route_sort \<Rightarrow> nat \<Rightarrow> string \<Rightarrow> verb \<Rightarrow> 'x api_handler \<Rightarrow> 'x callable_api_handler router_store \<Rightarrow>
   cpp_exn option \<times> 'x callable_api_handler router_store" where
  "router_add_dynamic_method_fn srt r pattern m fn s = router_add_dynamic_method srt r pattern m (make_api_handler fn) s"

section \<open>The functions of the class\<close>

definition global_add_static :: "string \<Rightarrow> 'h \<Rightarrow> 'h router_store \<Rightarrow> 'h router_store" where
  "global_add_static path h s = (let (g, s) = global_router s in router_add_static g path h s)"

definition global_add_dynamic ::
  "'h route_sort \<Rightarrow> string \<Rightarrow> 'h \<Rightarrow> 'h router_store \<Rightarrow> cpp_exn option \<times> 'h router_store" where
  "global_add_dynamic srt pattern h s = (let (g, s) = global_router s in router_add_dynamic srt g pattern h s)"

definition global_resolve_route ::
  "string \<Rightarrow> request_context \<Rightarrow> 'h router_store \<Rightarrow> ('h option \<times> request_context) \<times> 'h router_store" where
  "global_resolve_route path ctx s = (let (g, s) = global_router s in (router_resolver g path ctx s, s))"

text \<open>
  What \<open>REGISTER_STATIC_HANDLER\<close> and \<open>REGISTER_DYNAMIC_HANDLER\<close> define: an object whose constructor
  registers a new handler of the class before \<open>main\<close> runs. An exception there ends the
  program, here \<open>None\<close>.
\<close>

datatype 'h registrar = Static_registrar string 'h | Dynamic_registrar string 'h

fun run_registrar :: "'h route_sort \<Rightarrow> 'h registrar \<Rightarrow> 'h router_store \<Rightarrow> 'h router_store option" where
  "run_registrar srt (Static_registrar path h) s = Some (global_add_static path h s)"
| "run_registrar srt (Dynamic_registrar pattern h) s =
     (case global_add_dynamic srt pattern h s of (None, s) \<Rightarrow> Some s | (Some e, s) \<Rightarrow> None)"

fun run_registrars :: "'h route_sort \<Rightarrow> 'h registrar list \<Rightarrow> 'h router_store \<Rightarrow> 'h router_store option" where
  "run_registrars srt [] s = Some s"
| "run_registrars srt (x # xs) s = (case run_registrar srt x s of None \<Rightarrow> None | Some s \<Rightarrow> run_registrars srt xs s)"

section \<open>Who sees a registration\<close>

datatype 'h router_event =
    New_router "nat option"
  | Use_global
  | Route_static nat string verb 'h
  | Route_dynamic nat string verb 'h

text \<open>Only routers that exist are used, and only tables that exist are given to new ones.\<close>

fun router_step :: "'h route_sort \<Rightarrow> 'h router_store \<Rightarrow> 'h router_event \<Rightarrow> 'h router_store" where
  "router_step srt s (New_router t) =
     (if pred_option (\<lambda>t. t < rs_next s) t then snd (construct_router t s) else s)"
| "router_step srt s Use_global = snd (global_router s)"
| "router_step srt s (Route_static r p m h) = (if r < length (rs_routers s) then router_add_static_method r p m h s else s)"
| "router_step srt s (Route_dynamic r p m h) =
     (if r < length (rs_routers s) then snd (router_add_dynamic_method srt r p m h s) else s)"

text \<open>The registrations of a history with the tables they go to.\<close>

fun registrations :: "'h route_sort \<Rightarrow> 'h router_store \<Rightarrow> 'h router_event list \<Rightarrow> (nat \<times> 'h route_event) list" where
  "registrations srt s [] = []"
| "registrations srt s (e # es) =
     (case e of
        Route_static r p m h \<Rightarrow> if r < length (rs_routers s) then [(table_ref r s, Add_static p m h)] else []
      | Route_dynamic r p m h \<Rightarrow> if r < length (rs_routers s) then [(table_ref r s, Add_dynamic p m h)] else []
      | _ \<Rightarrow> []) @ registrations srt (router_step srt s e) es"

definition tables_step :: "'h route_sort \<Rightarrow> (nat \<Rightarrow> 'h route_table) \<Rightarrow> nat \<times> 'h route_event \<Rightarrow> unit \<times> (nat \<Rightarrow> 'h route_table)" where
  "tables_step srt = (\<lambda>ts (t, e). ((), ts(t := route_step srt (ts t) e)))"

interpretation tables: isolated_slots "tables_step srt" fst "\<lambda>t (i, e). ((), route_step srt t e)" for srt
  by unfold_locales (simp_all add: tables_step_def split: prod.split)

definition store_inv :: "'h router_store \<Rightarrow> bool" where
  "store_inv s \<longleftrightarrow> (\<forall>t\<ge>rs_next s. rs_tables s t = empty_table) \<and> list_all (\<lambda>t. t < rs_next s) (rs_routers s) \<and>
     pred_option (\<lambda>g. g < length (rs_routers s)) (rs_global s)"

lemma construct_inv:
  assumes "store_inv s" and "pred_option (\<lambda>t. t < rs_next s) t"
  shows "store_inv (snd (construct_router t s))" "rs_tables (snd (construct_router t s)) = rs_tables s"
  using assms
  by (auto simp: store_inv_def construct_router_def create_detached_def list_all_iff split: option.split)
     (fastforce simp: pred_option_def)+

lemma global_inv:
  assumes "store_inv s"
  shows "store_inv (snd (global_router s))" "rs_tables (snd (global_router s)) = rs_tables s"
    and "fst (global_router s) < length (rs_routers (snd (global_router s)))"
  using assms construct_inv [of s None]
  by (auto simp: global_router_def construct_router_def store_inv_def split: option.split prod.split)

lemma add_inv:
  assumes "store_inv s" and "r < length (rs_routers s)"
  shows "store_inv (s\<lparr>rs_tables := (rs_tables s)(table_ref r s := t)\<rparr>)"
proof -
  have "table_ref r s < rs_next s" using assms by (simp add: store_inv_def table_ref_def list_all_length)
  with assms(1) show ?thesis by (auto simp: store_inv_def)
qed

lemma dynamic_tables:
  "rs_tables (snd (router_add_dynamic_method srt r p m h s)) =
     (rs_tables s)(table_ref r s := route_step srt (rs_tables s (table_ref r s)) (Add_dynamic p m h))"
  by (simp add: router_add_dynamic_method_def split: sum.split)

lemma store_inv_step: "store_inv s \<Longrightarrow> store_inv (router_step srt s e)"
  by (cases e) (auto simp: construct_inv global_inv add_inv router_add_static_method_def router_add_dynamic_method_def split: sum.split)

interpretation store: step_machine "\<lambda>s. s = empty_store" "router_step srt" store_inv for srt
  by unfold_locales (simp_all add: store_inv_step, simp add: empty_store_def store_inv_def)

lemma tables_of_history:
  "store_inv s \<Longrightarrow> rs_tables (foldl (router_step srt) s es) = run_state (tables_step srt) (rs_tables s) (registrations srt s es)"
proof (induction es arbitrary: s)
  case (Cons e es)
  from Cons.IH [OF store_inv_step [OF Cons.prems, where srt = srt and e = e]] Cons.prems show ?case
    by (cases e) (auto simp: run_state_def tables_step_def construct_inv global_inv router_add_static_method_def dynamic_tables
        simp del: route_step.simps(2) fun_upd_apply)
qed (simp add: run_state_def)

text \<open>
  Each table is what the registrations through the routers that hold it build from the empty
  table, in their order; registrations through any other router have no part in it.
\<close>

lemma routers_isolated:
  "rs_tables (foldl (router_step srt) empty_store es) t =
   foldl (route_step srt) empty_table (map snd (filter (\<lambda>x. fst x = t) (registrations srt empty_store es)))"
proof -
  have "rs_tables (foldl (router_step srt) empty_store es) t =
      run_state (\<lambda>t (i, e). ((), route_step srt t e)) (rs_tables empty_store t) (filter (\<lambda>e. fst e = t) (registrations srt empty_store es))"
    by (subst tables_of_history) (simp_all add: tables.slot_state, simp add: empty_store_def store_inv_def)
  also have "rs_tables empty_store t = (empty_table :: 'a route_table)" by (simp add: empty_store_def)
  finally show ?thesis by (simp add: run_state_def foldl_map case_prod_beta)
qed

text \<open>So the tables of all routers are well formed, and all that holds of resolution holds for each of them.\<close>

lemma instance_tables_ok: "table_inv (rs_tables (foldl (router_step insertion_sort) empty_store es) t)"
  unfolding routers_isolated by (rule insertion_routes.table.run_from_initial) simp

text \<open>
  Two routers see each other's routes exactly when they share a table; the global router is
  one of them, and the program's static registrations come first in its table.
\<close>

lemma sharing_routers:
  "router_resolver_with_method r' path m ctx (router_add_static_method r p v h s) =
    (if table_ref r s = table_ref r' s
     then resolve_route_with_method (add_static_route_method p v h (rs_tables s (table_ref r s))) path m ctx
     else router_resolver_with_method r' path m ctx s)"
  by (simp add: router_resolver_with_method_def router_add_static_method_def table_ref_def)

lemma global_add_fresh:
  assumes "rs_global s = Some g"
  shows "global_add_static p h s = router_add_static g p h s"
  using assms by (simp add: global_add_static_def global_router_def)

lemma registrars_from:
  assumes "rs_global s = Some 0" and "table_ref 0 s = 0"
  shows "\<exists>s'. run_registrars srt (map (\<lambda>(p, h). Static_registrar p h) rs) s = Some s' \<and> rs_global s' = Some 0 \<and> table_ref 0 s' = 0 \<and>
    rs_tables s' 0 = foldl (\<lambda>t (p, h). add_static_route p h t) (rs_tables s 0) rs"
  using assms
proof (induction rs arbitrary: s)
  case (Cons x rs)
  obtain p h where x: "x = (p, h)" by fastforce
  let ?s = "router_add_static 0 p h s"
  have "rs_global ?s = Some 0" "table_ref 0 ?s = 0" "rs_tables ?s 0 = add_static_route p h (rs_tables s 0)"
    using Cons.prems by (simp_all add: router_add_static_def table_ref_def)
  with Cons.IH [of ?s] Cons.prems(1) show ?case by (simp add: x global_add_fresh)
qed simp

lemma global_after_registrars:
  "\<exists>s. run_registrars srt (map (\<lambda>(p, h). Static_registrar p h) rs) (snd (global_router empty_store)) = Some s \<and>
    rs_global s = Some 0 \<and> rs_tables s (table_ref 0 s) = foldl (\<lambda>t (p, h). add_static_route p h t) empty_table rs"
proof -
  let ?s = "snd (global_router empty_store) :: 'a router_store"
  have s: "rs_global ?s = Some 0" "table_ref 0 ?s = 0" "rs_tables ?s 0 = empty_table"
    by (simp_all add: global_router_def construct_router_def create_detached_def empty_store_def table_ref_def)
  from registrars_from [OF s(1,2), of srt rs] s(3) show ?thesis by auto
qed

text \<open>
  A class registered by \<open>REGISTER_DYNAMIC_HANDLER\<close> with a pattern that cannot be parsed ends the
  program before \<open>main\<close>.
\<close>

lemma bad_registrar_ends:
  assumes "parse_pattern p = Inl e"
  shows "run_registrars srt (Dynamic_registrar p h # xs) s = None"
  using assms
  by (simp add: global_add_dynamic_def router_add_dynamic_def add_dynamic_route_def add_dynamic_route_method_def split: prod.split)

section \<open>The singleton table\<close>

text \<open>
  \<open>RouteTable::instance()\<close>, which the documentation takes for the table of the global router: no
  router holds it, as the global router makes a detached table of its own.
\<close>

record 'h route_program =
  rp_store :: "'h router_store"
  rp_instance :: "'h route_table"

definition clear_instance :: "'h route_program \<Rightarrow> 'h route_program" where
  "clear_instance p = p\<lparr>rp_instance := clear_routes (rp_instance p)\<rparr>"

definition global_table :: "'h router_store \<Rightarrow> 'h route_table" where
  "global_table s = (let (g, s) = global_router s in rs_tables s (table_ref g s))"

lemma global_twice: "global_router (snd (global_router s)) = global_router s"
  by (auto simp: global_router_def construct_router_def split: option.split prod.split)

lemma global_table_kept [simp]: "global_table (snd (global_router s)) = global_table s"
  by (simp add: global_table_def global_twice)

lemma global_resolves: "global_resolve_route path ctx s = (resolve_route (global_table s) path ctx, snd (global_router s))"
  by (simp add: global_resolve_route_def router_resolver_def global_table_def case_prod_beta Let_def)

lemma global_tables:
  "global_table (global_add_static p h s) = add_static_route p h (global_table s)"
  "fst (global_add_dynamic srt p h s) = (case add_dynamic_route srt p h (global_table s) of Inl e \<Rightarrow> Some e | Inr _ \<Rightarrow> None)"
  "global_table (snd (global_add_dynamic srt p h s)) = (case add_dynamic_route srt p h (global_table s) of Inl e \<Rightarrow> global_table s | Inr t \<Rightarrow> t)"
proof -
  obtain g u where gs: "global_router s = (g, u)" by fastforce
  then have "global_router u = (g, u)" using global_twice [of s] by simp
  then have "rs_global u = Some g" by (auto simp: global_router_def construct_router_def split: option.splits prod.splits)
  with gs show "global_table (global_add_static p h s) = add_static_route p h (global_table s)"
    "fst (global_add_dynamic srt p h s) = (case add_dynamic_route srt p h (global_table s) of Inl e \<Rightarrow> Some e | Inr _ \<Rightarrow> None)"
    "global_table (snd (global_add_dynamic srt p h s)) = (case add_dynamic_route srt p h (global_table s) of Inl e \<Rightarrow> global_table s | Inr t \<Rightarrow> t)"
    by (simp_all add: global_add_static_def global_add_dynamic_def router_add_static_def router_add_dynamic_def global_table_def
        global_router_def table_ref_def split: sum.split)
qed

text \<open>Clearing the singleton, as the documentation advises between test cases, leaves every route of the program.\<close>

lemma clear_instance_keeps_routes:
  "global_resolve_route path ctx (rp_store (clear_instance p)) = global_resolve_route path ctx (rp_store p)"
  by (simp add: clear_instance_def)

end
