(* ===== verification/Statistics.thy ===== *)
theory Statistics
  imports Strand_Pool Timer_Manager Middleware_Chain
begin

text \<open>
  The statistics objects of src/server/strand_pool.cpp, src/server/timer_manager.cpp and
  src/middleware/middleware.cpp, and the reports printed from them. A statistics object is a
  group of atomic counters that other threads change while it is copied: a copy reads
  one counter after the other, and is given the object at the time of each read.
\<close>

section \<open>Copies\<close>

definition copy_strand_stats :: "(nat \<Rightarrow> strand_stats) \<Rightarrow> strand_stats" where
  "copy_strand_stats s =
     \<lparr>sk_total = sk_total (s 0), sk_active = sk_active (s 1), sk_completed = sk_completed (s 2), sk_failed = sk_failed (s 3),
      sk_exec_time = sk_exec_time (s 4), sk_last_used = sk_last_used (s 5), sk_healthy = sk_healthy (s 6)\<rparr>"

definition assign_strand_stats :: "bool \<Rightarrow> (nat \<Rightarrow> strand_stats) \<Rightarrow> strand_stats \<Rightarrow> strand_stats" where
  "assign_strand_stats same s this =
     (if same then this
      else this\<lparr>sk_total := sk_total (s 0), sk_active := sk_active (s 1), sk_completed := sk_completed (s 2), sk_failed := sk_failed (s 3),
        sk_exec_time := sk_exec_time (s 4), sk_last_used := sk_last_used (s 5), sk_healthy := sk_healthy (s 6)\<rparr>)"

definition copy_timer_statistics :: "(nat \<Rightarrow> timer_statistics) \<Rightarrow> timer_statistics" where
  "copy_timer_statistics s =
     \<lparr>ts_scheduled = ts_scheduled (s 0), ts_executed = ts_executed (s 1), ts_cancelled = ts_cancelled (s 2),
      ts_failed = ts_failed (s 3), ts_pending = ts_pending (s 4), ts_time = ts_time (s 5)\<rparr>"

definition assign_timer_statistics :: "bool \<Rightarrow> (nat \<Rightarrow> timer_statistics) \<Rightarrow> timer_statistics \<Rightarrow> timer_statistics" where
  "assign_timer_statistics same s this =
     (if same then this
      else this\<lparr>ts_scheduled := ts_scheduled (s 0), ts_executed := ts_executed (s 1), ts_cancelled := ts_cancelled (s 2),
        ts_failed := ts_failed (s 3), ts_pending := ts_pending (s 4), ts_time := ts_time (s 5)\<rparr>)"

definition copy_mw_stats :: "(nat \<Rightarrow> mw_stats) \<Rightarrow> mw_stats" where
  "copy_mw_stats s =
     \<lparr>ms_execution_count = ms_execution_count (s 0), ms_total_time = ms_total_time (s 1),
      ms_error_count = ms_error_count (s 2), ms_timeout_count = ms_timeout_count (s 3)\<rparr>"

definition assign_mw_stats :: "bool \<Rightarrow> (nat \<Rightarrow> mw_stats) \<Rightarrow> mw_stats \<Rightarrow> mw_stats" where
  "assign_mw_stats same s this =
     (if same then this
      else this\<lparr>ms_execution_count := ms_execution_count (s 0), ms_total_time := ms_total_time (s 1),
        ms_error_count := ms_error_count (s 2), ms_timeout_count := ms_timeout_count (s 3)\<rparr>)"

lemma copies_of_quiet_objects [simp]:
  "copy_strand_stats (\<lambda>_. s) = s" "copy_timer_statistics (\<lambda>_. ts) = ts" "copy_mw_stats (\<lambda>_. ms) = ms"
  by (simp_all add: copy_strand_stats_def copy_timer_statistics_def copy_mw_stats_def)

lemma assignment_is_copy:
  "assign_strand_stats False s this1 = copy_strand_stats s" "assign_timer_statistics False ts this2 = copy_timer_statistics ts"
  "assign_mw_stats False ms this3 = copy_mw_stats ms"
  by (simp_all add: assign_strand_stats_def copy_strand_stats_def assign_timer_statistics_def copy_timer_statistics_def
      assign_mw_stats_def copy_mw_stats_def)

text \<open>
  A copy is not a snapshot: each counter lies between what it was when the copy began and
  when it ended, but the counters need not have had their values at one time. While every
  object counts no more executions in error than executions, its copy may show more.
\<close>

definition mw_counters_grow :: "(nat \<Rightarrow> mw_stats) \<Rightarrow> bool" where
  "mw_counters_grow s \<longleftrightarrow> mono (\<lambda>i. ms_execution_count (s i)) \<and> mono (\<lambda>i. ms_total_time (s i)) \<and>
     mono (\<lambda>i. ms_error_count (s i)) \<and> mono (\<lambda>i. ms_timeout_count (s i))"

lemma copy_between:
  assumes "mw_counters_grow s"
  shows "ms_execution_count (copy_mw_stats s) = ms_execution_count (s 0)"
    and "ms_total_time (s 0) \<le> ms_total_time (copy_mw_stats s)" "ms_total_time (copy_mw_stats s) \<le> ms_total_time (s 3)"
    and "ms_error_count (s 0) \<le> ms_error_count (copy_mw_stats s)" "ms_error_count (copy_mw_stats s) \<le> ms_error_count (s 3)"
    and "ms_timeout_count (copy_mw_stats s) = ms_timeout_count (s 3)"
  using assms by (simp_all add: mw_counters_grow_def copy_mw_stats_def mono_def)

lemma copy_not_snapshot:
  "\<exists>s. mw_counters_grow s \<and> (\<forall>i. ms_error_count (s i) \<le> ms_execution_count (s i)) \<and>
    ms_execution_count (copy_mw_stats s) < ms_error_count (copy_mw_stats s)"
proof -
  let ?s = "\<lambda>i::nat. if i = 0 then reset_stats else reset_stats\<lparr>ms_execution_count := 1, ms_error_count := 1\<rparr>"
  have "mw_counters_grow ?s \<and> (\<forall>i. ms_error_count (?s i) \<le> ms_execution_count (?s i)) \<and>
      ms_execution_count (copy_mw_stats ?s) < ms_error_count (copy_mw_stats ?s)"
    by (simp add: mw_counters_grow_def copy_mw_stats_def reset_stats_def mono_def)
  then show ?thesis by blast
qed

section \<open>Reports\<close>

text \<open>The lines written, without their line feeds; \<open>show\<close> prints a double.\<close>

definition strategy_name :: "load_balance_strategy \<Rightarrow> string" where
  "strategy_name s = (case s of RoundRobin \<Rightarrow> ''Round Robin'' | LeastConnections \<Rightarrow> ''Least Connections''
     | ConsistentHash \<Rightarrow> ''Consistent Hash'' | Random \<Rightarrow> ''random'' | WeightedRoundRobin \<Rightarrow> ''Weighted Round Robin'')"

definition strand_lines :: "(rat \<Rightarrow> string) \<Rightarrow> nat \<Rightarrow> strand_stats \<Rightarrow> string list" where
  "strand_lines show i s =
     [''  Strand '' @ to_string i @ '':'',
      ''    Total Requests: '' @ to_string (sk_total s),
      ''    Active Requests: '' @ to_string (sk_active s),
      ''    Completed Requests: '' @ to_string (sk_completed s),
      ''    Failed Requests: '' @ to_string (sk_failed s),
      ''    Load Factor: '' @ show (load_factor s * 100) @ ''%'',
      ''    Avg Execution Time: '' @ format_duration (average_strand_time s),
      ''    Healthy: '' @ (if sk_healthy s then ''Yes'' else ''No'')]"

definition print_strand_pool_statistics :: "(rat \<Rightarrow> string) \<Rightarrow> strand_pool \<Rightarrow> string list" where
  "print_strand_pool_statistics show p =
     (let stats = strand_statistics p
      in [''=== Strand Pool Statistics ==='', ''Pool Size: '' @ to_string (strand_pool_size p),
          ''Strategy: '' @ strategy_name (sc_strategy (sd_config p)), ''Strand Details:''] @
         concat (map (\<lambda>i. strand_lines show i (stats ! i)) [0..<length stats]) @
         [''==============================''])"

definition report_statistics :: "timer_manager \<Rightarrow> string list" where
  "report_statistics m =
     (let stats = get_timer_statistics m
      in [''=== Timer Manager Statistics ==='',
          ''Total Scheduled: '' @ to_string (ts_scheduled stats),
          ''Total Executed: '' @ to_string (ts_executed stats),
          ''Total Cancelled: '' @ to_string (ts_cancelled stats),
          ''Total Failed: '' @ to_string (ts_failed stats),
          ''Current Pending: '' @ to_string (ts_pending stats),
          ''Average Execution Time: '' @ to_string_int (average_execution_time stats) @ [char_of (206 :: nat), char_of (188 :: nat)] @ ''s'',
          ''================================''])"

text \<open>\<open>order\<close> is that in which the unordered map is walked.\<close>

definition print_statistics ::
  "((string \<times> mw_stats) list \<Rightarrow> (string \<times> mw_stats) list) \<Rightarrow> (nat \<Rightarrow> mw_stats) \<Rightarrow> 'x chain \<Rightarrow> string list" where
  "print_statistics order st c =
     ''=== middleware statistics ==='' # concat (map (\<lambda>(name, stat).
        [''middleware: '' @ name,
         ''  executions: '' @ to_string (ms_execution_count stat),
         ''  total time ('' @ [char_of (206 :: nat), char_of (188 :: nat)] @ ''s): '' @ to_string_int (ms_total_time stat),
         ''  errors: '' @ to_string (ms_error_count stat),
         ''  timeouts: '' @ to_string (ms_timeout_count stat)]) (order (get_statistics st c)))"

section \<open>What the reports say\<close>

text \<open>The report of a timer manager says the same whatever has happened.\<close>

lemma timer_report_constant: "report_statistics m = report_statistics m'"
  by (simp add: report_statistics_def get_timer_statistics_def)

text \<open>
  Durations lose less than one of the unit they are printed in; the number printed is the
  duration's in that unit, rounded down.
\<close>

definition duration_unit :: "int \<Rightarrow> int" where
  "duration_unit us = (if us < 1000 then 1 else if us < 1000000 then 1000 else 1000000)"

lemma format_duration_loss:
  assumes "0 \<le> us"
  shows "\<exists>v u. format_duration us = to_string_int v @ u \<and> duration_unit us * v \<le> us \<and> us < duration_unit us * (v + 1)"
proof -
  have "\<exists>u. format_duration us = to_string_int (us div duration_unit us) @ u"
    by (simp add: format_duration_def duration_unit_def)
  moreover have pos: "0 < duration_unit us" by (simp add: duration_unit_def)
  have "duration_unit us * (us div duration_unit us) + us mod duration_unit us = us" by (rule mult_div_mod_eq)
  then have "duration_unit us * (us div duration_unit us) \<le> us" "us < duration_unit us * (us div duration_unit us + 1)"
    using pos_mod_sign [OF pos, of us] pos_mod_bound [OF pos, of us] by (linarith, simp only: distrib_left mult_1_right)
  ultimately show ?thesis by blast
qed

text \<open>A pool in use never reports a completed request, and its load factor is 0 or 100 percent.\<close>

lemma load_factor_extreme: "sk_completed s = 0 \<Longrightarrow> load_factor s * 100 = (if sk_active s = 0 then 0 else 100)"
  by (simp add: load_factor_def)

lemma strand_report_length:
  "length (print_strand_pool_statistics show p) = 5 + 8 * length (sd_stats p)"
proof -
  have "length (concat (map (\<lambda>i. strand_lines show i (f i)) [0..<n])) = 8 * n" for f n
    by (induction n) (simp_all add: strand_lines_def)
  then show ?thesis by (simp add: print_strand_pool_statistics_def strand_statistics_def Let_def)
qed

text \<open>Middlewares of one name share one entry of the report: the last of them in the pipeline is shown.\<close>

lemma report_hides_namesakes:
  assumes "mc_mws c = xs @ m # m' # ys" and "mw_name m = mw_name m'"
  shows "print_statistics order st c = print_statistics order st (c\<lparr>mc_mws := xs @ m' # ys\<rparr>)"
  using assms by (simp add: print_statistics_def get_statistics_def)

end
