(* ===== verification/Resources.thy ===== *)
theory Resources
  imports Session
begin

text \<open>
  Two small parts that prepare or release what others use: the settings of a TLS server
  (include/foxhttp/config/tls.hpp) and the guard that cancels a timer at the end of a scope
  (include/foxhttp/detail/timer_guard.hpp).
\<close>

section \<open>TLS settings\<close>

text \<open>
  The context of Boost.Asio keeps what it was given; whether it takes a file is OpenSSL's
  decision, here a parameter that returns the exception thrown for a file it refuses.
\<close>

datatype tls_option = Default_workarounds | No_sslv2 | No_sslv3 | Single_dh_use

datatype tls_file = Chain_file | Key_file_pem | Dh_file

record tls_context =
  tx_options :: "tls_option set"
  tx_files :: "(tls_file \<times> string) list"

definition use_tls_file ::
  "(tls_file \<Rightarrow> string \<Rightarrow> cpp_exn option) \<Rightarrow> tls_file \<Rightarrow> string \<Rightarrow> tls_context \<Rightarrow> cpp_exn option \<times> tls_context" where
  "use_tls_file accept k path c =
     (case accept k path of Some e \<Rightarrow> (Some e, c) | None \<Rightarrow> (None, c\<lparr>tx_files := tx_files c @ [(k, path)]\<rparr>))"

definition load_server_certificate ::
  "(tls_file \<Rightarrow> string \<Rightarrow> cpp_exn option) \<Rightarrow> string \<Rightarrow> string \<Rightarrow> string \<Rightarrow> tls_context \<Rightarrow> cpp_exn option \<times> tls_context" where
  "load_server_certificate accept cert_chain_file private_key_file dh_file c =
     (let c = c\<lparr>tx_options := tx_options c \<union> {Default_workarounds, No_sslv2, No_sslv3, Single_dh_use}\<rparr>
      in case use_tls_file accept Chain_file cert_chain_file c of
           (Some e, c) \<Rightarrow> (Some e, c)
         | (None, c) \<Rightarrow>
             (case use_tls_file accept Key_file_pem private_key_file c of
                (Some e, c) \<Rightarrow> (Some e, c)
              | (None, c) \<Rightarrow> if dh_file \<noteq> [] then use_tls_file accept Dh_file dh_file c else (None, c)))"

text \<open>
  The old protocols are off however the call ends. It returns exactly when every file it is
  given is accepted, and then the context has taken them, the chain before the key; when it
  throws, the exception is that of the first file refused and the files before it stay.
\<close>

definition server_files :: "string \<Rightarrow> string \<Rightarrow> string \<Rightarrow> (tls_file \<times> string) list" where
  "server_files cert key dh = [(Chain_file, cert), (Key_file_pem, key)] @ (if dh \<noteq> [] then [(Dh_file, dh)] else [])"

lemma load_options:
  "{No_sslv2, No_sslv3} \<subseteq> tx_options (snd (load_server_certificate accept cert key dh c))"
  by (simp add: load_server_certificate_def use_tls_file_def Let_def split: option.split)

lemma load_outcome:
  "let (x, c') = load_server_certificate accept cert key dh c;
       files = server_files cert key dh;
       taken = takeWhile (\<lambda>(k, p). accept k p = None) files
   in tx_files c' = tx_files c @ taken \<and>
      x = (if taken = files then None else (case files ! length taken of (k, p) \<Rightarrow> accept k p))"
  by (simp add: load_server_certificate_def use_tls_file_def server_files_def Let_def split: option.split)

section \<open>Timer guards\<close>

text \<open>
  A scope that declares a guard: its body runs, and the guard's destructor cancels the timer
  whether the body returned or threw. An exception of \<open>cancel\<close> would be logged and dropped.
\<close>

definition timer_guarded :: "('s \<Rightarrow> 's) \<Rightarrow> ('s \<Rightarrow> 'r throws \<times> 's) \<Rightarrow> 's \<Rightarrow> 'r throws \<times> 's" where
  "timer_guarded cancel body s = (let (r, s) = body s in (r, cancel s))"

lemma timer_guarded_header_timer:
  "sb_header (snd (timer_guarded cancel_header_timer body s)) = None \<and> fst (timer_guarded cancel_header_timer body s) = fst (body s)"
  for s :: "'a session_base_scheme"
  by (simp add: timer_guarded_def cancel_header_timer_def split: prod.split)

text \<open>Guards nest: the inner timer is cancelled first.\<close>

lemma timer_guarded_nested: "timer_guarded f (timer_guarded g body) = timer_guarded (f \<circ> g) body"
  by (simp add: timer_guarded_def fun_eq_iff split: prod.split)

end
