(* ===== verification/Client_Examples.thy ===== *)
theory Client_Examples
  imports Http_Client
begin

text \<open>
  Two programs of src/examples that use the client: 06_http_client.cpp, which sends a request
  with callbacks and another one from a coroutine to a server of its own, and
  09_client_timeout.cpp, which sets timeouts in five ways. A coroutine that is spawned runs
  until its first operation of the network; the operations complete in any order.
\<close>

section \<open>Chained calls\<close>

definition chained :: "'a throws \<Rightarrow> ('a \<Rightarrow> 'b throws) \<Rightarrow> 'b throws" where
  "chained x f = (case x of Inl e \<Rightarrow> Inl e | Inr a \<Rightarrow> f a)"

lemma chained_simps [simp]: "chained (Inl e) f = Inl e" "chained (Inr a) f = f a"
  by (simp_all add: chained_def)

text \<open>
  The line a coroutine prints for its request; \<open>message\<close> is the text of an error code. A call that
  throws while the request is built is caught by the same handler.
\<close>

definition await_line ::
  "(http_response \<Rightarrow> string) \<Rightarrow> string \<Rightarrow> ('e \<Rightarrow> string) \<Rightarrow> bool \<Rightarrow> string \<Rightarrow> 'e network \<Rightarrow> request_builder throws \<Rightarrow> string" where
  "await_line show_response label message tls bv nw b =
     (case chained b rb_as_awaitable of
        Inl e \<Rightarrow> label @ what e
      | Inr b \<Rightarrow> (case transfer_await tls bv nw (last (kr_started b)) of
                    Inl ec \<Rightarrow> label @ message ec | Inr res \<Rightarrow> show_response res))"

section \<open>The five demonstrations of timeouts\<close>

definition status_line :: "http_response \<Rightarrow> string" where
  "status_line res = ''Response status: '' @ to_string (rs_status res)"

text \<open>A demonstration prints a title first; an exception of the constructor ends it.\<close>

type_synonym demo = "string \<times> string throws"

definition httpbin :: "bool \<Rightarrow> http_client throws" where
  "httpbin tls = new_http_client tls ''http://httpbin.org''"

definition demo_default_timeout :: "('e \<Rightarrow> string) \<Rightarrow> bool \<Rightarrow> string \<Rightarrow> 'e network \<Rightarrow> demo" where
  "demo_default_timeout message tls bv nw =
     (''=== Demo 1: Default Timeout (30s) ==='',
      chained (httpbin tls) (\<lambda>client.
        Inr (await_line status_line ''Error: '' message tls bv nw (client_get tls ''/get'' client))))"

definition demo_custom_client_timeout :: "('e \<Rightarrow> string) \<Rightarrow> bool \<Rightarrow> string \<Rightarrow> 'e network \<Rightarrow> demo" where
  "demo_custom_client_timeout message tls bv nw =
     (''=== Demo 2: Custom Client Timeout ==='',
      chained (httpbin tls) (\<lambda>client.
        let opts = set_user_agent ''FoxHttp-Timeout-Example/1.0''
                     (set_request_timeout 10000 (set_connection_timeout 5000 default_client_options));
            client = set_client_options opts client
        in Inr (await_line status_line ''Error: '' message tls bv nw (client_get tls ''/get'' client))))"

definition demo_per_request_timeout :: "('e \<Rightarrow> string) \<Rightarrow> bool \<Rightarrow> string \<Rightarrow> 'e network \<Rightarrow> demo" where
  "demo_per_request_timeout message tls bv nw =
     (''=== Demo 3: Per-Request Timeout ==='',
      chained (httpbin tls) (\<lambda>client.
        Inr (await_line status_line ''Error: '' message tls bv nw
               (chained (chained (client_get tls ''/get'' client) (rb_connection_timeout 3000)) (rb_request_timeout 5000)))))"

definition demo_timeout_with_options :: "('e \<Rightarrow> string) \<Rightarrow> bool \<Rightarrow> string \<Rightarrow> 'e network \<Rightarrow> demo" where
  "demo_timeout_with_options message tls bv nw =
     (''=== Demo 4: Request Timeout with Options ==='',
      chained (httpbin tls) (\<lambda>client.
        let timeout_opts = rt_set_request_timeout 4000 (rt_set_connection_timeout 2000 default_request_timeouts)
        in Inr (await_line status_line ''Error: '' message tls bv nw
                  (chained (client_get tls ''/get'' client) (rb_timeout timeout_opts)))))"

definition demo_short_timeout :: "('e \<Rightarrow> string) \<Rightarrow> bool \<Rightarrow> string \<Rightarrow> 'e network \<Rightarrow> demo" where
  "demo_short_timeout message tls bv nw =
     (''=== Demo 5: Very Short Timeout (Expected to Fail) ==='',
      chained (httpbin tls) (\<lambda>client.
        Inr (await_line status_line ''Expected timeout error: '' message tls bv nw
               (chained (chained (client_get tls ''/delay/5'' client) (rb_connection_timeout 100)) (rb_request_timeout 200)))))"

text \<open>
  \<open>main\<close>: the five coroutines start in the order in which they were spawned, each prints its
  title and waits for the network; \<open>order\<close> is that in which their operations complete. A
  detached coroutine's exception is dropped.
\<close>

definition timeout_demos :: "('e \<Rightarrow> string) \<Rightarrow> bool \<Rightarrow> string \<Rightarrow> (nat \<Rightarrow> 'e network) \<Rightarrow> demo list" where
  "timeout_demos message tls bv nws =
     [demo_default_timeout message tls bv (nws 0), demo_custom_client_timeout message tls bv (nws 1),
      demo_per_request_timeout message tls bv (nws 2), demo_timeout_with_options message tls bv (nws 3),
      demo_short_timeout message tls bv (nws 4)]"

definition client_timeout_main :: "('e \<Rightarrow> string) \<Rightarrow> bool \<Rightarrow> string \<Rightarrow> (nat \<Rightarrow> 'e network) \<Rightarrow> nat list \<Rightarrow> string list" where
  "client_timeout_main message tls bv nws order =
     (let ds = timeout_demos message tls bv nws
      in map fst ds @ concat (map (\<lambda>i. case snd (ds ! i) of Inl e \<Rightarrow> [] | Inr l \<Rightarrow> [l]) order) @ [''=== All demos completed ===''])"

lemma httpbin_client:
  "httpbin tls = Inr \<lparr>kc_base = \<lparr>kb_https = False, kb_host = ''httpbin.org'', kb_port = ''80'', kb_host_field = ''httpbin.org''\<rparr>,
     kc_options = default_client_options, kc_ssl_ctx = False\<rparr>"
  by (cases tls) code_simp+

text \<open>The request that every demonstration starts: only the target differs.\<close>

definition httpbin_spec :: "string \<Rightarrow> request_spec" where
  "httpbin_spec target =
     \<lparr>ks_base = \<lparr>kb_https = False, kb_host = ''httpbin.org'', kb_port = ''80'', kb_host_field = ''httpbin.org''\<rparr>, ks_method = Verb_get,
      ks_target_path = target, ks_headers = [], ks_body = [], ks_ssl_ctx = False, ks_on_success = None, ks_on_error = None\<rparr>"

definition httpbin_line :: "string \<Rightarrow> ('e \<Rightarrow> string) \<Rightarrow> bool \<Rightarrow> string \<Rightarrow> 'e network \<Rightarrow> string \<Rightarrow> string" where
  "httpbin_line label message tls bv nw target =
     (case transfer_await tls bv nw (httpbin_spec target) of Inl ec \<Rightarrow> label @ message ec | Inr res \<Rightarrow> status_line res)"

lemma relative_builder:
  "starts_with_ci t ''http://'' = False \<Longrightarrow> starts_with_ci t ''https://'' = False \<Longrightarrow>
   client_get tls t c = Inr \<lparr>kr_spec = \<lparr>ks_base = kc_base c, ks_method = Verb_get, ks_target_path = normalize_relative_target t,
     ks_headers = [], ks_body = [], ks_ssl_ctx = kc_ssl_ctx c, ks_on_success = None, ks_on_error = None\<rparr>,
     kr_timeouts = default_request_timeouts, kr_consumed = False, kr_started = []\<rparr>"
  by (simp add: client_get_def new_request_builder_def)

lemma demo_targets:
  "starts_with_ci ''/get'' ''http://'' = False" "starts_with_ci ''/get'' ''https://'' = False"
  "starts_with_ci ''/delay/5'' ''http://'' = False" "starts_with_ci ''/delay/5'' ''https://'' = False"
  "normalize_relative_target ''/get'' = ''/get''" "normalize_relative_target ''/delay/5'' = ''/delay/5''"
  by code_simp+

lemmas demo_defs = demo_default_timeout_def demo_custom_client_timeout_def demo_per_request_timeout_def
  demo_timeout_with_options_def demo_short_timeout_def

text \<open>
  The timeouts have no effect: the first four demonstrations print the same line over the same
  network, and the fifth, which is expected to fail, prints the status of any answer.
\<close>

lemma demo_lines:
  "snd (demo_default_timeout message tls bv nw) = Inr (httpbin_line ''Error: '' message tls bv nw ''/get'')"
  "snd (demo_custom_client_timeout message tls bv nw) = Inr (httpbin_line ''Error: '' message tls bv nw ''/get'')"
  "snd (demo_per_request_timeout message tls bv nw) = Inr (httpbin_line ''Error: '' message tls bv nw ''/get'')"
  "snd (demo_timeout_with_options message tls bv nw) = Inr (httpbin_line ''Error: '' message tls bv nw ''/get'')"
  "snd (demo_short_timeout message tls bv nw) = Inr (httpbin_line ''Expected timeout error: '' message tls bv nw ''/delay/5'')"
  by (simp_all add: demo_defs httpbin_client set_client_options_def relative_builder demo_targets await_line_def builder_op_defs
      httpbin_line_def httpbin_spec_def Let_def del: starts_with_ci.simps)

lemma short_timeout_succeeds:
  assumes "\<forall>h p. nw_resolve nw h p = None" and "nw_connect nw 30000 = None" and "\<forall>q. nw_write nw q = None"
    and "nw_read nw = Inr res"
  shows "snd (demo_short_timeout message tls bv nw) = Inr (''Response status: '' @ to_string (rs_status res))"
  using assms
  by (simp add: demo_lines httpbin_line_def transfer_await_def transfer_def transfer_http_def httpbin_spec_def status_line_def)

text \<open>Whatever the order, the program prints its titles first, one line per demonstration, and its end.\<close>

lemma timeout_demos_report:
  assumes "mset order = mset [0, 1, 2, 3, 4]"
  shows "\<exists>ls. client_timeout_main message tls bv nws order =
      map fst (timeout_demos message tls bv nws) @ ls @ [''=== All demos completed ===''] \<and>
    mset ls = mset (httpbin_line ''Expected timeout error: '' message tls bv (nws 4) ''/delay/5'' #
      map (\<lambda>i. httpbin_line ''Error: '' message tls bv (nws i) ''/get'') [0, 1, 2, 3])"
proof -
  let ?ds = "timeout_demos message tls bv nws"
  let ?l = "\<lambda>i. case snd (?ds ! i) of Inl e \<Rightarrow> [] | Inr l \<Rightarrow> [l]"
  let ?h = "\<lambda>i. if i = 4 then httpbin_line ''Expected timeout error: '' message tls bv (nws 4) ''/delay/5''
    else httpbin_line ''Error: '' message tls bv (nws i) ''/get''"
  have "set order = {0, 1, 2, 3, 4}" using mset_eq_setD [OF assms] by auto
  then have "map ?l order = map (\<lambda>i. [?h i]) order" by (auto simp: timeout_demos_def demo_lines)
  then have l: "concat (map ?l order) = map ?h order" by (simp only: concat_map_singleton)
  have "mset (map ?h order) = image_mset ?h (mset [0, 1, 2, 3, 4])" by (simp only: mset_map assms)
  then show ?thesis unfolding client_timeout_main_def Let_def l by (intro exI [of _ "map ?h order"]) simp
qed

section \<open>The client and its stub of a server\<close>

text \<open>
  The stub accepts one connection, reads one request, whatever it is, and answers it. Reading
  and writing report their errors in a code that is not looked at. The version of the request
  is 11: the client sends that, and a request that cannot be read has it.
\<close>

definition stub_answer :: "nat \<Rightarrow> http_response" where
  "stub_answer version =
     res_prepare_payload (res_set_body (''Hello from 06_http_client stub'' @ [CHR 0x0A])
       (res_set ''Content-Type'' ''text/plain'' (new_response 200 version)))"

definition one_shot_server :: "'e \<Rightarrow> 'e network" where
  "one_shot_server not_supported =
     \<lparr>nw_resolve = (\<lambda>_ _. None), nw_connect = (\<lambda>_. None), nw_handshake = (\<lambda>_. None), nw_write = (\<lambda>_. None),
      nw_read = Inr (stub_answer 11), nw_not_supported = not_supported\<rparr>"

text \<open>
  The program, given the ports its two servers were assigned and the networks between it and
  them: what it prints, without line feeds but those of the body. Handler 1 prints an
  error and stops the io context, handler 2 prints the response.
\<close>

definition show_response :: "string \<Rightarrow> http_response \<Rightarrow> string" where
  "show_response label res = label @ to_string (rs_status res) @ '' '' @ rs_body res"

definition handler_line :: "('e \<Rightarrow> string) \<Rightarrow> 'e handler_call \<Rightarrow> string" where
  "handler_line message call =
     (case call of Call_error h ec \<Rightarrow> ''chain error: '' @ message ec | Call_success h res \<Rightarrow> show_response ''then: '' res)"

definition chain_leg ::
  "('e \<Rightarrow> string) \<Rightarrow> (json \<Rightarrow> string) \<Rightarrow> bool \<Rightarrow> string \<Rightarrow> 'e network \<Rightarrow> nat \<Rightarrow> string list throws" where
  "chain_leg message dump tls bv nw port =
     chained (new_http_client tls (''http://127.0.0.1:'' @ to_string port)) (\<lambda>client.
     chained (client_post tls ''/demo'' client) (\<lambda>b.
     chained (rb_body_json dump (JObject [(''msg'', JString ''chain'')]) b) (\<lambda>b.
     chained (rb_catch_error (Some 1) b) (\<lambda>b.
     chained (rb_then (Some 2) b) (\<lambda>b.
       Inr (concat (map (\<lambda>s. map (handler_line message) (run_callbacks tls bv nw s)) (kr_started b))))))))"

definition await_leg ::
  "('e \<Rightarrow> string) \<Rightarrow> bool \<Rightarrow> string \<Rightarrow> 'e network \<Rightarrow> nat \<Rightarrow> string list throws" where
  "await_leg message tls bv nw port =
     chained (new_http_client tls (''http://127.0.0.1:'' @ to_string port)) (\<lambda>client2.
       Inr [await_line (show_response ''await: '') ''await error: '' message tls bv nw (client_get tls ''/await'' client2)])"

definition http_client_main ::
  "('e \<Rightarrow> string) \<Rightarrow> (json \<Rightarrow> string) \<Rightarrow> bool \<Rightarrow> string \<Rightarrow>
   'e network \<Rightarrow> nat \<Rightarrow> 'e network \<Rightarrow> nat \<Rightarrow> string list throws" where
  "http_client_main message dump tls bv nw port nw2 port2 =
     chained (chain_leg message dump tls bv nw port) (\<lambda>out.
     chained (await_leg message tls bv nw2 port2) (\<lambda>out2. Inr (out @ out2)))"

lemma local_base:
  "new_http_client tls (''http://127.0.0.1:'' @ to_string port) =
   Inr \<lparr>kc_base = \<lparr>kb_https = False, kb_host = ''127.0.0.1'', kb_port = to_string port,
         kb_host_field = (if to_string port = to_string 80 then ''127.0.0.1'' else ''127.0.0.1:'' @ to_string port)\<rparr>,
       kc_options = default_client_options, kc_ssl_ctx = False\<rparr>"
proof -
  let ?a = "''127.0.0.1:'' @ to_string port"
  have "CHR ''/'' \<notin> set (to_string port)" "CHR '':'' \<notin> set (to_string port)"
    by (auto dest: to_string_digits simp: isdigit_def byte_def)
  then have "find_sub ''/'' ?a = None" "rfind_char ?a CHR '':'' = Some 9"
    using rfind_char_last [of "CHR '':''" "to_string port" "''127.0.0.1''"]
    by (simp_all only: find_sub_char_None) (simp_all)
  then have a: "parse_authority False ?a = Some (\<lparr>kb_https = False, kb_host = ''127.0.0.1'', kb_port = to_string port,
      kb_host_field = (if to_string port = to_string 80 then ''127.0.0.1'' else ?a)\<rparr>, ''/'')"
    by (simp add: parse_authority_def del: to_string_inject)
  have "starts_with_ci (''http://'' @ ?a) ''http://''" "\<not> starts_with_ci (''http://'' @ ?a) ''https://''"
    by (simp_all add: ci_eq_def tolower_char_def isupper_def byte_def)
  with a show ?thesis
    by (simp add: new_http_client_def parse_base_only_def parse_absolute_url_def del: starts_with_ci.simps to_string_inject)
qed

lemma stub_targets:
  "starts_with_ci ''/demo'' ''http://'' = False" "starts_with_ci ''/demo'' ''https://'' = False"
  "starts_with_ci ''/await'' ''http://'' = False" "starts_with_ci ''/await'' ''https://'' = False"
  by code_simp+

lemma local_client:
  "\<exists>b. new_http_client tls (''http://127.0.0.1:'' @ to_string port) =
     Inr \<lparr>kc_base = b, kc_options = default_client_options, kc_ssl_ctx = False\<rparr> \<and> \<not> kb_https b"
  unfolding local_base by (intro exI conjI, rule refl) simp

lemma chain_leg_runs:
  "\<exists>s. chain_leg message dump tls bv nw port = Inr (map (handler_line message) (run_callbacks tls bv nw s)) \<and>
    ks_on_error s = Some 1 \<and> ks_on_success s = Some 2 \<and> \<not> kb_https (ks_base s)"
proof -
  obtain b where b: "new_http_client tls (''http://127.0.0.1:'' @ to_string port) =
      Inr \<lparr>kc_base = b, kc_options = default_client_options, kc_ssl_ctx = False\<rparr>" "\<not> kb_https b" using local_client by blast
  show ?thesis
    unfolding chain_leg_def b(1)
    by (simp add: client_post_def new_request_builder_def stub_targets builder_op_defs Let_def del: starts_with_ci.simps)
       (intro exI conjI, rule refl, simp_all add: b(2))
qed

lemma await_leg_runs:
  "\<exists>s. await_leg message tls bv nw port = Inr [case transfer tls bv nw s of Inl ec \<Rightarrow> ''await error: '' @ message ec
      | Inr res \<Rightarrow> show_response ''await: '' res] \<and> \<not> kb_https (ks_base s)"
proof -
  obtain b where b: "new_http_client tls (''http://127.0.0.1:'' @ to_string port) =
      Inr \<lparr>kc_base = b, kc_options = default_client_options, kc_ssl_ctx = False\<rparr>" "\<not> kb_https b" using local_client by blast
  show ?thesis
    unfolding await_leg_def b(1)
    by (simp add: relative_builder stub_targets builder_op_defs await_line_def transfer_await_def del: starts_with_ci.simps)
       (intro exI conjI, rule refl, simp add: b(2))
qed

lemma stub_transfer: "\<not> kb_https (ks_base s) \<Longrightarrow> transfer tls bv (one_shot_server x) s = Inr (stub_answer 11)"
  by (simp add: transfer_def transfer_http_def one_shot_server_def)

lemma stub_line: "show_response label (stub_answer 11) = label @ ''200 Hello from 06_http_client stub'' @ [CHR 0x0A]"
proof -
  have "rs_status (stub_answer 11) = 200" "rs_body (stub_answer 11) = ''Hello from 06_http_client stub'' @ [CHR 0x0A]"
    "to_string 200 = ''200''" by code_simp+
  then show ?thesis by (simp add: show_response_def)
qed

text \<open>
  With its stubs the program prints the two answers, the first from the success handler; over a
  network that does not connect it prints the errors, each from the error handler of its
  style.
\<close>

lemma http_client_prints:
  "http_client_main message dump tls bv (one_shot_server x) port (one_shot_server x) port2 =
   Inr [''then: '' @ ''200 Hello from 06_http_client stub'' @ [CHR 0x0A], ''await: '' @ ''200 Hello from 06_http_client stub'' @ [CHR 0x0A]]"
  using chain_leg_runs [of message dump tls bv "one_shot_server x" port] await_leg_runs [of message tls bv "one_shot_server x" port2]
  by (auto simp: http_client_main_def run_callbacks_def stub_transfer handler_line_def stub_line)

lemma http_client_reports:
  assumes "\<forall>h p. nw_resolve nw h p = None" and "nw_connect nw 30000 = Some e"
  shows "http_client_main message dump tls bv nw port nw port2 = Inr [''chain error: '' @ message e, ''await error: '' @ message e]"
proof -
  have "\<not> kb_https (ks_base s) \<Longrightarrow> transfer tls bv nw s = Inl e" for s
    using assms by (simp add: transfer_def transfer_http_def)
  then show ?thesis
    using chain_leg_runs [of message dump tls bv nw port] await_leg_runs [of message tls bv nw port2]
    by (auto simp: http_client_main_def run_callbacks_def handler_line_def)
qed

end
