(* ===== verification/Example_Servers.thy ===== *)
theory Example_Servers
  imports Applications Shared_Chain Shutdown
begin

text \<open>
  Two programs of src/examples as wholes, from \<open>main\<close> to the bytes a client receives:
  01_hello_server.cpp and 04_static_files.cpp. A program makes a pool of one context, the
  signal handlers, a server with its chain and the routes of the global router; what it
  answers then follows from the models of the chain, the middlewares, the router and the
  session.
\<close>

section \<open>Programs\<close>

text \<open>The routes are those of the global router when the pool begins to run.\<close>

record 'x server_program =
  pg_pool :: io_pool
  pg_signals :: signal_set
  pg_server :: "'x chain server"
  pg_routes :: "'x callable_api_handler route_table"

text \<open>
  What the programs have in common: the handlers of the signals, then the server with its
  middlewares in the order of the calls of \<open>use\<close>.
\<close>

definition make_program ::
  "'x mw_sort \<Rightarrow> (int \<times> nat) list \<Rightarrow> 'x middleware list \<Rightarrow> 'x callable_api_handler route_table \<Rightarrow> 'x server_program throws" where
  "make_program srt handlers ms routes =
     (case new_io_pool 1 of
        Inl e \<Rightarrow> Inl e
      | Inr pool \<Rightarrow>
          let (_, pool) = get_io_context pool;
              sigs = start_signals (register_all handlers new_signal_set);
              (server, pool) = new_server pool (new_chain True);
              server = foldl (\<lambda>s m. server_use srt m s) server ms
          in Inr \<lparr>pg_pool = pool, pg_signals = sigs, pg_server = server, pg_routes = routes\<rparr>)"

text \<open>01_hello_server.cpp. The handlers 0 and 1 both stop the pool.\<close>

definition hello_routes :: "'x callable_api_handler route_table" where
  "hello_routes =
     register_static_handler ''/api/version'' (text_handler 200 ''application/json'' (\<lambda>_. ''{'' @ quoted ''example'' @ '':'' @ quoted ''01_hello_server'' @ ''}''))
       (register_static_handler ''/health'' (text_handler 200 ''application/json'' (\<lambda>_. ''{'' @ quoted ''status'' @ '':'' @ quoted ''ok'' @ ''}''))
         (register_static_handler ''/''
            (text_handler 200 ''text/plain''
               (\<lambda>_. ''FoxHttp example 01 '' @ dash @ '' hello server.'' @ line @ ''Try: GET /health  GET /api/version'' @ line))
            empty_table))"

definition hello_main :: "'x mw_sort \<Rightarrow> 'x server_program throws" where
  "hello_main srt = make_program srt [(2, 0), (15, 1)] [router_dispatch_middleware 1 None hello_routes] hello_routes"

text \<open>
  04_static_files.cpp, with the file system and the directory that the build sets. Before it
  serves it prints the canonical path of the directory, which throws when there is none.
\<close>

definition static_routes :: "'x callable_api_handler route_table" where
  "static_routes =
     register_static_handler ''/api/ping'' (text_handler 200 ''application/json'' (\<lambda>_. ''{'' @ quoted ''ping'' @ '':'' @ quoted ''pong'' @ ''}''))
       (register_static_handler ''/''
          (text_handler 200 ''text/plain''
             (\<lambda>_. ''Example 04 '' @ dash @ '' static files at /static/ (from examples/www). API: GET /api/ping'' @ line))
          empty_table)"

definition example_files :: "file_system \<Rightarrow> fs_path \<Rightarrow> static_middleware" where
  "example_files fs www = new_static_middleware fs ''/static'' www ''index.html''"

definition static_main :: "'x mw_sort \<Rightarrow> file_system \<Rightarrow> fs_path \<Rightarrow> 'x server_program throws" where
  "static_main srt fs www =
     (case make_program srt [(2, 0)]
             [static_mw 1 fs (example_files fs www), router_dispatch_middleware 2 None static_routes] static_routes of
        Inl e \<Rightarrow> Inl e
      | Inr pg \<Rightarrow> if weakly_canonical fs www = None then Inl (Runtime_error ''weakly_canonical'') else Inr pg)"

section \<open>Started programs\<close>

lemma one_context: "\<exists>pool. new_io_pool 1 = Inr pool"
  by (simp add: new_io_pool_def)

lemma program_starts: "\<exists>pg. make_program srt handlers ms routes = Inr pg \<and>
    sv_chain (pg_server pg) = foldl (\<lambda>c m. chain_use srt m c) (new_chain True) ms"
proof -
  have "sv_chain (foldl (\<lambda>s m. server_use srt m s) s ms) = foldl (\<lambda>c m. chain_use srt m c) (sv_chain s) ms" for s
    by (induction ms arbitrary: s) (simp_all add: server_use_def)
  then show ?thesis using one_context
    by (auto simp: make_program_def new_server_def accept_loop_def Let_def split: prod.split)
qed

lemma static_main_starts:
  "weakly_canonical fs www = Some c \<Longrightarrow> \<exists>pg :: 'x server_program. static_main srt fs www = Inr pg"
proof -
  obtain pg :: "'x server_program" where
    "make_program srt [(2, 0)] [static_mw 1 fs (example_files fs www), router_dispatch_middleware 2 None static_routes] static_routes = Inr pg"
    using program_starts by blast
  then show "weakly_canonical fs www = Some c \<Longrightarrow> ?thesis" by (simp add: static_main_def)
qed

text \<open>A pipeline of one middleware, and of two with different priorities, whatever the sort.\<close>

lemma used_one:
  assumes "std_sort srt"
  shows "mc_mws (chain_use srt m (new_chain io)) = [m]"
proof -
  from std_sort.sort_perm [OF assms strict_weak_priority, of "[m]"] have "mset (srt priority_less [m]) = {#m#}" by simp
  then have "srt priority_less [m] = [m]" by simp
  then show ?thesis by (simp add: chain_use_def new_chain_def sort_middlewares_by_priority_def)
qed

lemma used_two:
  assumes "std_sort srt" and "priority_value (mw_priority m) < priority_value (mw_priority m')"
  shows "mc_mws (chain_use srt m' (chain_use srt m (new_chain io))) = [m, m']"
proof -
  let ?l = "srt priority_less [m, m']"
  have p: "mset ?l = mset [m, m']" by (rule std_sort.sort_perm [OF assms(1) strict_weak_priority])
  then have "length ?l = 2" using mset_eq_length [OF p] by simp
  then obtain a b where ab: "?l = [a, b]" by (cases ?l; cases "tl ?l") auto
  have "a = m \<and> b = m' \<or> a = m' \<and> b = m" using p unfolding ab by (auto simp: add_mset_eq_singleton_iff add_eq_conv_diff)
  moreover have "\<not> priority_less b a"
    using std_sort.sort_ordered [OF assms(1) strict_weak_priority, of "[m, m']"] ab by (simp add: ordered_by_def)
  ultimately have "?l = [m, m']" using ab assms(2) by (auto simp: priority_less_def)
  then show ?thesis
    using used_one [OF assms(1), of m io] by (simp add: chain_use_def new_chain_def sort_middlewares_by_priority_def split: if_splits)
qed

lemma used_settings:
  "mc_global_timeout (foldl (\<lambda>c m. chain_use srt m c) c ms) = mc_global_timeout c"
  by (induction ms arbitrary: c) (simp_all add: chain_use_def sort_middlewares_by_priority_def Let_def)

section \<open>Answers\<close>

text \<open>What the dispatch of the two programs makes of a request: its path decides.\<close>

definition hello_answer :: "request_context \<Rightarrow> http_response \<Rightarrow> http_response" where
  "hello_answer ctx res =
     (let key = normalize_path (ctx_path ctx)
      in if key = ''/'' then text_response 200 ''text/plain''
              (''FoxHttp example 01 '' @ dash @ '' hello server.'' @ line @ ''Try: GET /health  GET /api/version'' @ line) res
         else if key = ''/health'' then text_response 200 ''application/json'' (''{'' @ quoted ''status'' @ '':'' @ quoted ''ok'' @ ''}'') res
         else if key = ''/api/version''
         then text_response 200 ''application/json'' (''{'' @ quoted ''example'' @ '':'' @ quoted ''01_hello_server'' @ ''}'') res
         else set_404_response res)"

definition static_answer :: "request_context \<Rightarrow> http_response \<Rightarrow> http_response" where
  "static_answer ctx res =
     (let key = normalize_path (ctx_path ctx)
      in if key = ''/'' then text_response 200 ''text/plain''
              (''Example 04 '' @ dash @ '' static files at /static/ (from examples/www). API: GET /api/ping'' @ line) res
         else if key = ''/api/ping'' then text_response 200 ''application/json'' (''{'' @ quoted ''ping'' @ '':'' @ quoted ''pong'' @ ''}'') res
         else set_404_response res)"

lemma example_keys: "normalize_path ''/health'' = ''/health''" "normalize_path ''/api/version'' = ''/api/version''"
  "normalize_path ''/api/ping'' = ''/api/ping''"
  by code_simp+

lemma hello_dispatch: "dispatch None hello_routes w = (None, w\<lparr>w_res := hello_answer (w_ctx w) (w_res w)\<rparr>)"
  by (simp add: dispatch_def resolve_route_def resolve_route_with_method_def hello_routes_def register_static_handler_def
      add_static_route_def add_static_route_method_def empty_table_def echo_key example_keys method_matches_def handle_request_def
      text_handler_def make_api_handler_def hello_answer_def Let_def)

lemma static_dispatch: "dispatch None static_routes w = (None, w\<lparr>w_res := static_answer (w_ctx w) (w_res w)\<rparr>)"
  by (simp add: dispatch_def resolve_route_def resolve_route_with_method_def static_routes_def register_static_handler_def
      add_static_route_def add_static_route_method_def empty_table_def echo_key example_keys method_matches_def handle_request_def
      text_handler_def make_api_handler_def static_answer_def Let_def)

section \<open>Sessions of the programs\<close>

definition program_env :: "(http_request \<Rightarrow> bool) \<Rightarrow> (http_response \<Rightarrow> bool) \<Rightarrow> 'x server_program \<Rightarrow> 'x session_env" where
  "program_env upgrade keep_alive pg =
     \<lparr>se_chain = snapshot_env True (sv_chain (pg_server pg)), se_upgrade = upgrade, se_keep_alive = keep_alive\<rparr>"

lemma started_env:
  assumes "make_program srt handlers ms routes = Inr pg"
  shows "ae_pipeline (se_chain (program_env u k pg)) = mc_mws (foldl (\<lambda>c m. chain_use srt m c) (new_chain True) ms)"
    and "ae_global_timeout (se_chain (program_env u k pg)) \<le> 0" "ae_has_callback (se_chain (program_env u k pg))"
proof -
  obtain pg' where "make_program srt handlers ms routes = Inr pg'"
      "sv_chain (pg_server pg') = foldl (\<lambda>c m. chain_use srt m c) (new_chain True) ms" using program_starts by blast
  with assms show "ae_pipeline (se_chain (program_env u k pg)) = mc_mws (foldl (\<lambda>c m. chain_use srt m c) (new_chain True) ms)"
      "ae_global_timeout (se_chain (program_env u k pg)) \<le> 0" "ae_has_callback (se_chain (program_env u k pg))"
    by (simp_all add: program_env_def snapshot_env_def used_settings) (simp add: new_chain_def)
qed

lemma hello_chain_response:
  assumes "std_sort srt" and "hello_main srt = Inr pg" and "\<not> cv_paused cv"
  shows "chain_response (program_env u k pg) cv res rq =
    Some (res_prepare_payload (hello_answer (new_request_context rq) res))"
proof -
  note env = started_env [OF assms(2) [unfolded hello_main_def], of u k]
  from chain_response_dispatch [of "program_env u k pg" "[]" 1 None hello_routes cv] env assms(1,3) used_one [OF assms(1)]
  show ?thesis by (simp add: hello_dispatch)
qed

text \<open>A file below the document root when the path is under /static and the method allows it, otherwise the routes.\<close>

definition site_answer :: "file_system \<Rightarrow> fs_path \<Rightarrow> request_context \<Rightarrow> http_response \<Rightarrow> http_response" where
  "site_answer fs www ctx res =
     (let (r, res') = try_serve fs (example_files fs www) ctx res
      in if r = Not_applicable then static_answer ctx res' else res_prepare_payload res')"

lemma static_chain_response:
  assumes "std_sort srt" and "static_main srt fs www = Inr pg" and "\<not> cv_paused cv"
  shows "chain_response (program_env u k pg) cv res rq =
    Some (res_prepare_payload (site_answer fs www (new_request_context rq) res))"
proof -
  let ?m = "static_mw 1 fs (example_files fs www) :: 'a middleware" and ?env = "program_env u k pg"
  let ?w = "\<lparr>w_ctx = new_request_context rq, w_res = res, w_now = cv_now cv, w_ext = cv_ext cv\<rparr>"
  have m: "mw_async ?m = static_async fs (example_files fs www)" "mw_should_execute ?m = (\<lambda>_. True)" "mw_priority ?m = Normal"
    by (simp_all add: static_mw_def base_middleware_def)
  have "make_program srt [(2, 0)] [?m, router_dispatch_middleware 2 None static_routes] static_routes = Inr pg"
    using assms(2) by (auto simp: static_main_def split: sum.splits if_splits)
  note env = started_env [OF this, of u k]
  have pipe: "ae_pipeline (se_chain ?env) = [?m, router_dispatch_middleware 2 None static_routes]"
    using used_two [OF assms(1), of ?m "router_dispatch_middleware 2 None static_routes"] env(1) m(3) by simp
  obtain r res' where t: "try_serve fs (example_files fs www) (new_request_context rq) res = (r, res')" by fastforce
  show ?thesis
  proof (rule two_response [OF _ env(2) assms(3) refl])
    show "length (ae_pipeline (se_chain ?env)) = 2" by (simp add: pipe)
    fix q assume q: "run_open (se_chain ?env) q" "ar_index q = 0" "\<not> ar_finished q" "ar_world q = ?w"
    have ex: "mw_should_execute ?m (w_ctx (ar_world q))" by (simp only: m)
    show "\<exists>q'. execute_next_async_step (Suc (Suc (Suc 0))) (se_chain ?env) q = Some (None, q') \<and> ar_completions q' \<noteq> [] \<and>
        w_res (ar_world q') = site_answer fs www (new_request_context rq) res"
    proof (cases "r = Not_applicable")
      case True
      then have "mw_async ?m (ar_world q) = A_Next (?w\<lparr>w_res := res'\<rparr>) (\<lambda>w. A_Callback R_Continue [] w A_Done)"
        unfolding m q(4) by (simp add: static_async_def t)
      from forwarding_step [OF env(3) q(1-3) pipe ex this static_dispatch, of "Suc 0"] True
      show ?thesis by (auto simp: site_answer_def t simp del: execute_next_async_step.simps)
    next
      case False
      then have "mw_async ?m (ar_world q) = A_Callback R_Stop [] (?w\<lparr>w_res := res_prepare_payload res'\<rparr>) A_Done"
        unfolding m q(4) by (simp add: static_async_def t)
      from stopping_step [OF env(3) q(1-3) pipe ex this, of "Suc (Suc 0)"] False
      show ?thesis by (auto simp: site_answer_def t simp del: execute_next_async_step.simps)
    qed
  qed
qed

lemma serve_each:
  assumes "sl_enable_keep_alive l" and "sl_max_requests_per_connection l = 0"
  shows "list_all (\<lambda>(rq, cv). \<not> se_upgrade env rq \<and> rq_version rq = 11 \<and>
      chain_response env cv (new_response 200 11) rq = Some (f rq) \<and> se_keep_alive env (f rq)) rs \<Longrightarrow>
    serve env l n 11 rs = map (\<lambda>(rq, cv). (rq, f rq)) rs"
  by (induction rs arbitrary: n) (use assms in auto)

lemma hello_site:
  assumes "std_sort srt" and "hello_main srt = Inr pg"
    and "sl_enable_keep_alive l" and "sl_max_requests_per_connection l = 0"
    and "list_all (\<lambda>(rq, cv). \<not> u rq \<and> rq_version rq = 11 \<and> \<not> cv_paused cv \<and>
      k (res_prepare_payload (hello_answer (new_request_context rq) (new_response 200 11)))) rs"
  shows "sn_sent (foldl (session_step (program_env u k pg)) (start_session (set_limits l new_session)) (concat (map exchange rs))) =
    map (\<lambda>(rq, cv). (rq, res_prepare_payload (hello_answer (new_request_context rq) (new_response 200 11)))) rs"
proof -
  let ?f = "\<lambda>rq. res_prepare_payload (hello_answer (new_request_context rq) (new_response 200 11))"
  have "serve (program_env u k pg) l 0 11 rs = map (\<lambda>(rq, cv). (rq, ?f rq)) rs"
    by (rule serve_each [OF assms(3,4)])
       (use assms(5) hello_chain_response [OF assms(1,2)] in \<open>auto simp: list_all_iff program_env_def\<close>)
  then show ?thesis using serve_from [OF waiting_started, of "program_env u k pg" l rs] by simp
qed


lemma sample_site:
  "example_files sample_fs [''www''] =
     \<lparr>st_prefix = ''/static'', st_doc_root = [''www''], st_index_file = ''index.html'', st_max_file_size = 64 * 1024 * 1024\<rparr>"
proof -
  have "normalize_prefix ''/static'' = ''/static''" "weakly_canonical sample_fs [''www''] = Some [''www'']" by code_simp+
  then show ?thesis by (simp add: example_files_def new_static_middleware_def)
qed

lemma sample_canonical: "weakly_canonical sample_fs [''www''] = Some [''www'']"
  by code_simp

lemma sample_file_served:
  "\<exists>res'. try_serve sample_fs (example_files sample_fs [''www'']) (new_request_context (make_request Verb_get ''/static/css/a.css'' [] [])) res =
      (Served, res') \<and> rs_status res' = 200 \<and> rs_body res' = ''b{}''"
proof -
  let ?m = "example_files sample_fs [''www'']" and ?ctx = "new_request_context (make_request Verb_get ''/static/css/a.css'' [] [])"
  have "plain_dir sample_fs (st_doc_root ?m)"
    unfolding sample_site by (auto simp: plain_dir_def plain_name_def sample_fs_def prefix_Cons)
  moreover have "list_all plain_name [''css'', ''a.css'']" by (simp add: plain_name_def)
  moreover have "\<forall>q. strict_prefix q [''css'', ''a.css''] \<longrightarrow> st_doc_root ?m @ q = [] \<or> sample_fs (st_doc_root ?m @ q) = Some Directory"
    unfolding sample_site by (auto simp: strict_prefix_def prefix_Cons sample_fs_def)
  moreover have "ctx_method ?ctx = Verb_get" by (simp add: ctx_method_def new_request_context_def)
  moreover have "ctx_path ?ctx = st_prefix ?m @ ''/'' @ join_with (CHR ''/'') [''css'', ''a.css'']"
    unfolding sample_site by (simp add: ctx_path_def new_request_context_def)
  ultimately show ?thesis
    using static_serves_file [of sample_fs ?m "[''css'', ''a.css'']" "''b{}''" ?ctx "''/''" res]
    unfolding sample_site by (auto simp: sample_fs_def)
qed

lemma sample_not_static:
  "\<not> prefix ''/static'' (ctx_path ctx) \<Longrightarrow> site_answer sample_fs [''www''] ctx res = static_answer ctx res"
  unfolding site_answer_def sample_site by (simp add: try_serve_def)


end
