(* ===== verification/Async_Flow.thy ===== *)
theory Async_Flow
  imports Applications
begin

text \<open>
  What an asynchronous run of a chain (src/middleware/middleware_chain.cpp) computes when its
  middlewares act at once, as all of the library's do: each forwards the request and works
  again on the way back, passes it on, ends the run, or fails. The reference is a function
  over the pipeline with a stack of those on the way back.
\<close>

section \<open>Behaviours\<close>

datatype 'x behaviour =
    Forwards "'x world" "'x world \<Rightarrow> 'x world"
  | Passes "'x world"
  | Ends mw_result string "'x world"
  | Fails cpp_exn "'x world"

fun body_of :: "'x behaviour \<Rightarrow> 'x async_prog" where
  "body_of (Forwards u f) = A_Next u (\<lambda>w. A_Callback R_Continue [] (f w) A_Done)"
| "body_of (Passes u) = A_Callback R_Continue [] u A_Done"
| "body_of (Ends res msg u) = A_Callback res msg u A_Done"
| "body_of (Fails e u) = A_Raise e u"

fun proper :: "'x behaviour \<Rightarrow> bool" where
  "proper (Forwards u f) = True"
| "proper (Passes u) = True"
| "proper (Ends res msg u) = (res \<noteq> R_Continue)"
| "proper (Fails e u) = is_std_exception e"

record 'x item =
  it_mw :: "'x middleware"
  it_does :: "'x world \<Rightarrow> 'x behaviour"

definition prompt_item :: "'x item \<Rightarrow> bool" where
  "prompt_item x \<longleftrightarrow> (\<forall>w. mw_async (it_mw x) w = body_of (it_does x w) \<and> proper (it_does x w))"

section \<open>Reference\<close>

type_synonym 'x error_hook = "('x world \<Rightarrow> cpp_exn \<Rightarrow> 'x world) option"

definition failed :: "'x error_hook \<Rightarrow> cpp_exn \<Rightarrow> 'x world \<Rightarrow> 'x world" where
  "failed eh e w = (case eh of Some h \<Rightarrow> h w e | None \<Rightarrow> async_error_response e w)"

text \<open>
  The stack holds what the forwarding middlewares do when \<open>next()\<close> returns, the innermost
  first. When a middleware ends the run, the innermost forwarding one goes on, and its
  callback with \<open>Continue\<close> starts the middlewares after the one that ended the run.
\<close>

fun flow :: "'x error_hook \<Rightarrow> ('x world \<Rightarrow> 'x world) list \<Rightarrow> 'x item list \<Rightarrow> 'x world \<Rightarrow> 'x world" where
  "flow eh st [] w = foldl (\<lambda>w f. f w) w st"
| "flow eh st (x # xs) w =
     (if \<not> mw_should_execute (it_mw x) (w_ctx w) then flow eh st xs w
      else case it_does x w of
             Forwards u f \<Rightarrow> flow eh (f # st) xs u
           | Passes u \<Rightarrow> flow eh st xs u
           | Ends res msg u \<Rightarrow> (case st of [] \<Rightarrow> u | f # st \<Rightarrow> flow eh st xs (f u))
           | Fails e u \<Rightarrow> (case st of [] \<Rightarrow> failed eh e u | f # st \<Rightarrow> flow eh st xs (f (failed eh e u))))"

definition resumed :: "'x error_hook \<Rightarrow> ('x world \<Rightarrow> 'x world) list \<Rightarrow> 'x item list \<Rightarrow> 'x world \<Rightarrow> 'x world" where
  "resumed eh st xs w = (case st of [] \<Rightarrow> w | f # st \<Rightarrow> flow eh st xs (f w))"

section \<open>Runs\<close>

text \<open>A run with the items that are left; once it is finished it has completed.\<close>

definition at_items :: "'x async_env \<Rightarrow> 'x item list \<Rightarrow> 'x async_run \<Rightarrow> bool" where
  "at_items env xs r \<longleftrightarrow> drop (ar_index r) (ae_pipeline env) = map it_mw xs \<and> run_open env r \<and>
     (if ar_finished r then ar_completions r \<noteq> [] else True)"

lemma at_items_keeps:
  "at_items env xs (drop_mw_timer r) = at_items env xs r" "at_items env xs (count_result env m t res r) = at_items env xs r"
  "at_items env xs (r\<lparr>ar_world := w\<rparr>) = at_items env xs r"
  by (simp_all add: at_items_def run_open_def drop_mw_timer_def count_result_def Let_def)

lemma at_items_started:
  assumes "at_items env (x # xs) r"
  shows "ae_pipeline env ! ar_index r = it_mw x" "may_start_async env r" "at_items env xs (started env r)"
    "at_items env xs (r\<lparr>ar_index := ar_index r + 1\<rparr>)" "ar_index r < length (ae_pipeline env)"
proof -
  have d: "drop (ar_index r) (ae_pipeline env) = it_mw x # map it_mw xs" using assms by (simp add: at_items_def)
  then show less: "ar_index r < length (ae_pipeline env)" by (metis drop_all list.simps(3) not_le)
  with d have "ae_pipeline env ! ar_index r = it_mw x \<and> drop (Suc (ar_index r)) (ae_pipeline env) = map it_mw xs"
    using Cons_nth_drop_Suc [OF less] by simp
  with assms less show "ae_pipeline env ! ar_index r = it_mw x" "may_start_async env r" "at_items env xs (started env r)"
      "at_items env xs (r\<lparr>ar_index := ar_index r + 1\<rparr>)"
    by (auto simp: at_items_def run_open_def may_start_async_def started_def setup_middleware_timeout_def Let_def)
qed

lemma completed:
  assumes "at_items env xs r" and "ae_has_callback env"
  shows "at_items env xs (complete_async_run env res msg r)" "ar_finished (complete_async_run env res msg r)"
  using assms by (auto simp: at_items_def run_open_def complete_async_run_def try_finish_run_def Let_def)

lemma handled:
  assumes "at_items env xs r" and "ae_has_callback env"
  shows "at_items env xs (handle_error_run env e r)" "ar_finished (handle_error_run env e r)"
    "ar_world (handle_error_run env e r) = failed (ae_eh env) e (ar_world r)"
  using completed [OF _ assms(2)] assms(1)
  by (simp_all add: handle_error_run_def at_items_keeps failed_def)

lemma flow_step:
  assumes "ae_has_callback env"
  shows "\<forall>x\<in>set xs. prompt_item x \<Longrightarrow> at_items env xs r \<Longrightarrow> length xs < n \<Longrightarrow>
    \<exists>r' ys. execute_next_async_step n env r = Some (None, r') \<and> at_items env ys r' \<and> ar_finished r' \<and>
      set ys \<subseteq> set xs \<and> length ys \<le> length xs \<and>
      (\<forall>st. flow (ae_eh env) st xs (ar_world r) = resumed (ae_eh env) st ys (ar_world r'))"
proof (induction n arbitrary: xs r)
  case (Suc n)
  show ?case
  proof (cases xs)
    case Nil
    with Suc.prems(2) have "length (ae_pipeline env) \<le> ar_index r" "run_open env r" by (simp_all add: at_items_def)
    then have "execute_next_async_step (Suc n) env r = Some (None, complete_async_run env R_Continue [] r)"
      by (simp add: run_open_def)
    moreover have "flow (ae_eh env) st [] w = resumed (ae_eh env) st [] w" for st w by (cases st) (simp_all add: resumed_def)
    ultimately show ?thesis using completed [OF Suc.prems(2) assms] Nil by auto
  next
    case (Cons x ys)
    let ?step = "execute_next_async_step n env" and ?w = "ar_world r" and ?m = "it_mw x"
    note s = at_items_started [OF Suc.prems(2) [unfolded Cons]]
    have x: "mw_async ?m ?w = body_of (it_does x ?w)" "proper (it_does x ?w)" and ps: "\<forall>y\<in>set ys. prompt_item y"
      using Suc.prems(1) Cons by (auto simp: prompt_item_def)
    have go: "\<exists>r' zs. ?step q = Some (None, r') \<and> at_items env zs r' \<and> ar_finished r' \<and> set zs \<subseteq> set ws \<and>
        length zs \<le> length ws \<and> (\<forall>st. flow (ae_eh env) st ws (ar_world q) = resumed (ae_eh env) st zs (ar_world r'))"
      if "at_items env ws q" "set ws \<subseteq> set ys" "length ws \<le> length ys" for q ws
      using that ps Suc.prems(3) Cons by (intro Suc.IH) auto
    show ?thesis
    proof (cases "mw_should_execute ?m (w_ctx ?w)")
      case False
      obtain r' zs where "?step (r\<lparr>ar_index := ar_index r + 1\<rparr>) = Some (None, r')" "at_items env zs r'" "ar_finished r'"
        "set zs \<subseteq> set ys" "length zs \<le> length ys" "\<forall>st. flow (ae_eh env) st ys ?w = resumed (ae_eh env) st zs (ar_world r')"
        using go [OF s(4)] by auto
      with False s(1) async_start_step [OF s(2), of n] Cons show ?thesis
        by (intro exI [of _ r'] exI [of _ zs]) (auto simp del: execute_next_async_step.simps)
    next
      case True
      let ?nxt = "\<lambda>r. ?step (drop_mw_timer r)" and ?cb = "async_callback env ?step ?m (w_now ?w)"
      have cb: "\<exists>r' zs. ?cb R_Continue [] q = Some (None, r') \<and> at_items env zs r' \<and> ar_finished r' \<and> set zs \<subseteq> set ws \<and>
          length zs \<le> length ws \<and> (\<forall>st. flow (ae_eh env) st ws (ar_world q) = resumed (ae_eh env) st zs (ar_world r'))"
        if "at_items env ws q" "set ws \<subseteq> set ys" "length ws \<le> length ys" for q ws
        using go [of ws "count_result env ?m (w_now ?w) R_Continue (drop_mw_timer q)"] that
        by (simp add: async_callback_def handle_middleware_result_run_def at_items_keeps run_open_keeps
            del: execute_next_async_step.simps)
      have step: "execute_next_async_step (Suc n) env r =
          map_option (after_async_body env ?m) (run_async_body ?nxt ?cb (body_of (it_does x ?w)) (started env r))"
        using True s(1) x(1) unfolding async_start_step [OF s(2)] by (simp add: Let_def del: execute_next_async_step.simps)
      show ?thesis
      proof (cases "it_does x ?w")
        case (Forwards u f)
        obtain r2 ws where r2: "?nxt ((started env r)\<lparr>ar_world := u\<rparr>) = Some (None, r2)" "at_items env ws r2" "set ws \<subseteq> set ys"
          "length ws \<le> length ys" "\<forall>st. flow (ae_eh env) st ys u = resumed (ae_eh env) st ws (ar_world r2)"
          using go [of ys "drop_mw_timer ((started env r)\<lparr>ar_world := u\<rparr>)"] s(3) by (auto simp: at_items_keeps run_open_keeps)
        obtain r3 zs where r3: "?cb R_Continue [] (r2\<lparr>ar_world := f (ar_world r2)\<rparr>) = Some (None, r3)" "at_items env zs r3" "ar_finished r3"
          "set zs \<subseteq> set ws" "length zs \<le> length ws"
          "\<forall>st. flow (ae_eh env) st ws (f (ar_world r2)) = resumed (ae_eh env) st zs (ar_world r3)"
          using cb [of ws "r2\<lparr>ar_world := f (ar_world r2)\<rparr>"] r2(2-4) by (auto simp: at_items_keeps)
        have "execute_next_async_step (Suc n) env r = Some (None, r3)"
          using r2(1) r3(1) unfolding step Forwards by (simp add: after_async_body_def del: execute_next_async_step.simps)
        moreover have "flow (ae_eh env) st xs ?w = resumed (ae_eh env) st zs (ar_world r3)" for st
          using r2(5) r3(6) Cons True Forwards by (simp add: resumed_def)
        ultimately show ?thesis using r2(3,4) r3(2-5) Cons by (intro exI [of _ r3] exI [of _ zs]) auto
      next
        case (Passes u)
        obtain r3 zs where r3: "?cb R_Continue [] ((started env r)\<lparr>ar_world := u\<rparr>) = Some (None, r3)" "at_items env zs r3" "ar_finished r3"
          "set zs \<subseteq> set ys" "length zs \<le> length ys" "\<forall>st. flow (ae_eh env) st ys u = resumed (ae_eh env) st zs (ar_world r3)"
          using cb [of ys "(started env r)\<lparr>ar_world := u\<rparr>"] s(3) by (auto simp: at_items_keeps)
        have "execute_next_async_step (Suc n) env r = Some (None, r3)"
          using r3(1) unfolding step Passes by (simp add: after_async_body_def del: execute_next_async_step.simps)
        moreover have "flow (ae_eh env) st xs ?w = resumed (ae_eh env) st zs (ar_world r3)" for st
          using r3(6) Cons True Passes by simp
        ultimately show ?thesis using r3(2-5) Cons by (intro exI [of _ r3] exI [of _ zs]) auto
      next
        case (Ends res msg u)
        let ?q = "count_result env ?m (w_now ?w) res (drop_mw_timer ((started env r)\<lparr>ar_world := u\<rparr>))"
        have q: "at_items env ys ?q" "ar_world ?q = u" using s(3) by (simp_all add: at_items_keeps run_open_keeps)
        from Ends x(2) have "\<exists>msg'. ?cb res msg ((started env r)\<lparr>ar_world := u\<rparr>) = Some (None, complete_async_run env res msg' ?q)"
          by (auto simp: async_callback_def handle_middleware_result_run_def split: mw_result.split)
        then obtain msg' where "?cb res msg ((started env r)\<lparr>ar_world := u\<rparr>) = Some (None, complete_async_run env res msg' ?q)" by blast
        then have "execute_next_async_step (Suc n) env r = Some (None, complete_async_run env res msg' ?q)"
          unfolding step Ends by (simp add: after_async_body_def del: execute_next_async_step.simps)
        moreover have "flow (ae_eh env) st xs ?w = resumed (ae_eh env) st ys u" for st
          using Cons True Ends by (simp add: resumed_def)
        ultimately show ?thesis using completed [OF q(1) assms] q(2) Cons
          by (intro exI [of _ "complete_async_run env res msg' ?q"] exI [of _ ys]) auto
      next
        case (Fails e u)
        let ?s = "(started env r)\<lparr>ar_world := u\<rparr>"
        define q where "q = (if ae_stats env then ?s\<lparr>ar_stats := count_error (mw_id ?m) (ar_stats ?s)\<rparr> else ?s)"
        have q: "after_async_body env ?m (Some e, ?s) = (None, handle_error_run env e q)" "at_items env ys q" "ar_world q = u"
          using Fails x(2) s(3) by (auto simp: q_def after_async_body_def at_items_def run_open_def)
        then have "execute_next_async_step (Suc n) env r = Some (None, handle_error_run env e q)"
          unfolding step Fails by (simp del: execute_next_async_step.simps)
        moreover have "flow (ae_eh env) st xs ?w = resumed (ae_eh env) st ys (failed (ae_eh env) e u)" for st
          using Cons True Fails by (simp add: resumed_def)
        ultimately show ?thesis using handled [OF q(2) assms, of e] q(3) Cons
          by (intro exI [of _ "handle_error_run env e q"] exI [of _ ys]) auto
      qed
    qed
  qed
qed simp

section \<open>The middlewares of the library\<close>

definition response_time_item :: "nat \<Rightarrow> string \<Rightarrow> 'x item" where
  "response_time_item i header = \<lparr>it_mw = response_time_middleware i header,
     it_does = (\<lambda>w. Forwards (w\<lparr>w_ctx := ctx_set ''response_time_start'' (Any_time (w_now w)) (w_ctx w)\<rparr>) id)\<rparr>"

definition cors_item :: "nat \<Rightarrow> cors \<Rightarrow> 'x item" where
  "cors_item i c = \<lparr>it_mw = cors_middleware i c,
     it_does = (\<lambda>w. let w = w\<lparr>w_res := cors_headers c (w_ctx w) (w_res w)\<rparr>
       in if ctx_method (w_ctx w) = Verb_options then Ends R_Stop [] (w\<lparr>w_res := res_result 200 (w_res w)\<rparr>) else Forwards w id)\<rparr>"

definition compression_item :: "nat \<Rightarrow> codecs \<Rightarrow> compression \<Rightarrow> 'x item" where
  "compression_item i cd m = \<lparr>it_mw = compression_middleware i cd m, it_does = (\<lambda>w. Forwards w (compress_if cd m))\<rparr>"

definition static_item :: "nat \<Rightarrow> file_system \<Rightarrow> static_middleware \<Rightarrow> 'x item" where
  "static_item i fs m = \<lparr>it_mw = static_mw i fs m,
     it_does = (\<lambda>w. let (r, res) = try_serve fs m (w_ctx w) (w_res w); w = w\<lparr>w_res := res\<rparr>
       in if r = Not_applicable then Forwards w id else Ends R_Stop [] (w\<lparr>w_res := res_prepare_payload res\<rparr>))\<rparr>"

definition logger_item :: "nat \<Rightarrow> logger \<Rightarrow> log_state item" where
  "logger_item i l = \<lparr>it_mw = logger_middleware i l,
     it_does = (\<lambda>w. let (rid, u) = logger_begin l w in Forwards u (logger_callback l rid (w_now w) R_Continue []))\<rparr>"

definition body_item :: "nat \<Rightarrow> string \<Rightarrow> bool \<Rightarrow> parser_factory \<Rightarrow> 'x item" where
  "body_item i name b pf = \<lparr>it_mw = body_mw i name b pf,
     it_does = (\<lambda>w. case handle_body b pf (w_ctx w) (w_res w) of
       Inl e \<Rightarrow> Fails e w
     | Inr (stop, ctx, res) \<Rightarrow> let w = w\<lparr>w_ctx := ctx, w_res := res\<rparr> in if stop then Ends R_Stop [] w else Forwards w id)\<rparr>"

definition dispatch_item ::
  "nat \<Rightarrow> 'x callable_api_handler route_table option \<Rightarrow> 'x callable_api_handler route_table \<Rightarrow> 'x item" where
  "dispatch_item i router glob = \<lparr>it_mw = router_dispatch_middleware i router glob,
     it_does = (\<lambda>w. case dispatch router glob w of
       (None, w) \<Rightarrow> Ends R_Stop [] w
     | (Some e, w) \<Rightarrow> if is_std_exception e then Ends R_Error (what e) w else Fails e w)\<rparr>"

lemmas item_defs = response_time_item_def cors_item_def compression_item_def static_item_def logger_item_def body_item_def
  dispatch_item_def response_time_middleware_def cors_middleware_def compression_middleware_def static_mw_def
  logger_middleware_def body_mw_def router_dispatch_middleware_def base_middleware_def

lemma stock_prompt [simp]:
  "prompt_item (response_time_item i header)" "prompt_item (cors_item i c)" "prompt_item (compression_item i cd m)"
  "prompt_item (static_item i fs sm)" "prompt_item (logger_item i l)"
  by (auto simp: prompt_item_def item_defs response_time_async_def cors_async_def compression_async_def static_async_def
      logger_async_def Let_def split: prod.split)

text \<open>The two that may let an exception through do so at once; it has to be a standard one.\<close>

lemma body_prompt: "(\<And>ctx res e. handle_body b pf ctx res = Inl e \<Longrightarrow> is_std_exception e) \<Longrightarrow> prompt_item (body_item i name b pf)"
  by (auto simp: prompt_item_def item_defs body_async_def Let_def split: sum.split prod.split)

lemma dispatch_prompt:
  "(\<And>w e. fst (dispatch router glob w) = Some e \<Longrightarrow> is_std_exception e) \<Longrightarrow> prompt_item (dispatch_item i router glob)"
  by (auto simp: prompt_item_def item_defs dispatch_async_def split: prod.splits option.splits) (metis fst_conv)+

section \<open>Answers\<close>

text \<open>A middleware that ends the run has the last word exactly when none before it went forward.\<close>

lemma stop_is_final:
  "mw_should_execute (it_mw x) (w_ctx w) \<Longrightarrow> it_does x w = Ends res msg u \<Longrightarrow> flow eh [] (x # xs) w = u"
  by simp

lemma stop_undone:
  assumes "mw_should_execute (it_mw x) (w_ctx w)" and "it_does x w = Forwards v f"
    and "mw_should_execute (it_mw y) (w_ctx v)" and "it_does y v = Ends res msg u"
  shows "flow eh [] (x # y # xs) w = flow eh [] xs (f u)"
  using assms by simp

lemma preflight_undone:
  assumes "ctx_method (w_ctx w) = Verb_options"
  shows "\<exists>v. flow eh [] (response_time_item i h # cors_item j c # xs) w = flow eh [] xs v \<and> rs_status (w_res v) = 200"
  using assms by (auto simp: item_defs ctx_method_def ctx_set_def res_result_def Let_def)

lemma empty_dispatch: "dispatch None empty_table w = (None, w\<lparr>w_res := set_404_response (w_res w)\<rparr>)"
  by (simp add: dispatch_def resolve_route_def resolve_route_with_method_def empty_table_def Let_def)

lemma flow_response:
  assumes "ae_pipeline (se_chain env) = map it_mw items" and "list_all prompt_item items" and "items \<noteq> []"
    and "ae_has_callback (se_chain env)" and "ae_global_timeout (se_chain env) \<le> 0" and "\<not> cv_paused cv"
  shows "chain_response env cv res rq = Some (res_prepare_payload (w_res (flow (ae_eh (se_chain env)) [] items
    \<lparr>w_ctx = new_request_context rq, w_res = res, w_now = cv_now cv, w_ext = cv_ext cv\<rparr>)))"
proof -
  let ?w = "\<lparr>w_ctx = new_request_context rq, w_res = res, w_now = cv_now cv, w_ext = cv_ext cv\<rparr>"
  let ?r = "new_async_run (se_chain env) False (cv_stats cv) ?w"
  have "at_items (se_chain env) items ?r" "ar_world ?r = ?w"
    using assms(1,5) by (simp_all add: at_items_def run_open_def new_async_run_def)
  with flow_step [OF assms(4), of items ?r "Suc (length items)"] assms(2)
  obtain r ys where r: "execute_next_async_step (Suc (length items)) (se_chain env) ?r = Some (None, r)"
      "at_items (se_chain env) ys r" "ar_finished r" "flow (ae_eh (se_chain env)) [] items ?w = ar_world r"
    by (auto simp: list_all_iff resumed_def simp del: execute_next_async_step.simps)
  then have "ar_completions r \<noteq> []" by (simp add: at_items_def)
  with r(1,4) assms(1,3,6) show ?thesis
    by (simp add: chain_response_def execute_async_def del: execute_next_async_step.simps)
qed

text \<open>
  C10: what a session's request gets from a chain of prompt middlewares: the response that the
  reference computes over the pipeline. A middleware that forwards works again on the
  response on the way back; one that stops, reports an error or throws behind a forwarding
  one does not stop the run, since the middlewares after it run when the forwarding one
  reports \<open>Continue\<close>. As a consequence a preflight request that the CORS middleware has
  answered is dispatched all the same when the response-time middleware is used too.
\<close>

theorem async_flow:
  assumes "ae_pipeline (se_chain env) = map it_mw items" and "list_all prompt_item items" and "items \<noteq> []"
    and "ae_has_callback (se_chain env)" and "ae_global_timeout (se_chain env) \<le> 0" and "\<not> cv_paused cv"
  shows "chain_response env cv res rq = Some (res_prepare_payload (w_res (flow (ae_eh (se_chain env)) [] items
    \<lparr>w_ctx = new_request_context rq, w_res = res, w_now = cv_now cv, w_ext = cv_ext cv\<rparr>)))"
  by (rule flow_response [OF assms])

definition preflight_env :: "unit session_env" where
  "preflight_env =
     \<lparr>se_chain = \<lparr>ae_pipeline = [response_time_middleware 0 ''X-Response-Time'', cors_middleware 1 default_cors,
         router_dispatch_middleware 2 None empty_table], ae_eh = None, ae_th = None, ae_global_timeout = 0, ae_stats = False,
         ae_has_callback = True, ae_has_io = True\<rparr>, se_upgrade = (\<lambda>_. False), se_keep_alive = (\<lambda>_. True)\<rparr>"

theorem async_flow_witness:
  "map_option (\<lambda>r. (rs_status r, rs_body r))
     (chain_response preflight_env plain_view (new_response 200 11) (make_request Verb_options ''/x'' [] [])) =
   Some (404, ''Not Found'')"
proof -
  let ?items = "[response_time_item 0 ''X-Response-Time'', cors_item 1 default_cors, dispatch_item 2 None empty_table] :: unit item list"
  have "ae_pipeline (se_chain preflight_env) = map it_mw ?items"
    by (simp add: preflight_env_def response_time_item_def cors_item_def dispatch_item_def)
  moreover have "prompt_item (dispatch_item 2 None empty_table :: unit item)"
    by (rule dispatch_prompt) (simp add: empty_dispatch)
  ultimately have "chain_response preflight_env plain_view (new_response 200 11) (make_request Verb_options ''/x'' [] []) =
      Some (res_prepare_payload (w_res (flow None [] ?items \<lparr>w_ctx = new_request_context (make_request Verb_options ''/x'' [] []),
        w_res = new_response 200 11, w_now = cv_now plain_view, w_ext = cv_ext plain_view\<rparr>)))" (is "_ = Some (_ (w_res (flow _ _ _ ?w)))")
    by (subst async_flow [of _ ?items]) (simp_all add: preflight_env_def plain_view_def)
  moreover have "ctx_method (w_ctx ?w) = Verb_options" by (simp add: ctx_method_def new_request_context_def make_request_def)
  then obtain v where "flow None [] ?items ?w = flow None [] [dispatch_item 2 None empty_table] v"
    using preflight_undone by blast
  moreover have "flow None [] [dispatch_item 2 None empty_table] v = v\<lparr>w_res := set_404_response (w_res v)\<rparr>"
    by (simp add: item_defs empty_dispatch)
  ultimately show ?thesis by (simp add: res_prepare_payload_def set_404_response_def)
qed

end
