(* ===== verification/Example_Programs.thy ===== *)
theory Example_Programs
  imports Example_Servers Async_Flow
begin

text \<open>
  The other server programs of src/examples as wholes: 02_routing.cpp, 03_middleware_chain.cpp,
  05_json_body.cpp, 08_error_handling.cpp and 10_instance_router.cpp with their \<open>main\<close>, and the
  routes of 07_graceful_shutdown.cpp, whose \<open>main\<close> is in Shutdown. An exception that \<open>main\<close>
  catches ends the program with status 1; it is the left value.
\<close>

section \<open>02_routing.cpp\<close>

definition routing_main ::
  "'x mw_sort \<Rightarrow> 'x callable_api_handler route_sort \<Rightarrow> 'x server_program throws" where
  "routing_main srt rsrt =
     (case routing_routes rsrt of
        Inl e \<Rightarrow> Inl e
      | Inr routes \<Rightarrow> make_program srt [(2, 0)] [router_dispatch_middleware 1 None routes] routes)"

section \<open>03_middleware_chain.cpp\<close>

definition first_cors_middleware :: "nat \<Rightarrow> cors \<Rightarrow> 'x middleware" where
  "first_cors_middleware i c = (cors_middleware i c)\<lparr>mw_priority := Lowest\<rparr>"

definition chain_routes :: "'x callable_api_handler route_table" where
  "chain_routes =
     register_static_handler ''/api/hello'' (text_handler 200 ''application/json'' (\<lambda>_. ''{'' @ quoted ''message'' @ '':'' @ quoted ''hello'' @ ''}''))
       (register_static_handler ''/''
          (text_handler 200 ''text/plain''
             (\<lambda>_. ''Example 03 '' @ dash @ '' see X-Response-Time and server logs.'' @ line @ ''GET /api/hello'' @ line))
          empty_table)"

definition example_cors :: cors where
  "example_cors = default_cors\<lparr>co_origin := ''*'', co_methods := ''GET, POST, OPTIONS'', co_headers := ''Content-Type''\<rparr>"

definition chain_main :: "log_state mw_sort \<Rightarrow> bool \<Rightarrow> bool \<Rightarrow> log_state server_program throws" where
  "chain_main srt file_ok name_free =
     (case create_simple_logger file_ok name_free ''example03'' of
        (Some e, _) \<Rightarrow> Inl e
      | (None, logger) \<Rightarrow>
          make_program srt [(2, 0)]
            [first_cors_middleware 1 example_cors, logger_middleware 2 logger, response_time_middleware 3 ''X-Response-Time'',
             router_dispatch_middleware 4 None chain_routes] chain_routes)"

section \<open>05_json_body.cpp\<close>

definition json_body_main ::
  "'x mw_sort \<Rightarrow> (string \<Rightarrow> json_outcome) \<Rightarrow> (json \<Rightarrow> string throws) \<Rightarrow> 'x server_program throws" where
  "json_body_main srt jparse dump = make_program srt [(2, 0)] (echo_pipeline jparse dump) (echo_routes dump)"

section \<open>07_graceful_shutdown.cpp\<close>

text \<open>
  The handlers read the flag of the program, which is the part of the world they share. The slow
  one holds the only thread of the pool for five seconds.
\<close>

definition slow_handler :: "bool callable_api_handler" where
  "slow_handler = make_api_handler (\<lambda>w.
     (None, w\<lparr>w_now := w_now w + 5000000,
              w_res := text_response 200 ''text/plain'' (''This was a slow request (5 seconds).'' @ line) (w_res w)\<rparr>))"

definition health_page_handler :: "bool callable_api_handler" where
  "health_page_handler = make_api_handler (\<lambda>w.
     (None, w\<lparr>w_res := text_response 200 ''application/json''
        (''{'' @ quoted ''status'' @ '':'' @ quoted ''ok'' @ '','' @ quoted ''shutdown_requested'' @ '':'' @
         (if w_ext w then ''true'' else ''false'') @ ''}'') (w_res w)\<rparr>))"

definition graceful_routes :: "bool callable_api_handler route_table" where
  "graceful_routes =
     register_static_handler ''/health'' health_page_handler
       (register_static_handler ''/slow'' slow_handler
         (register_static_handler ''/''
            (text_handler 200 ''text/plain''
               (\<lambda>_. ''FoxHttp example 07 '' @ dash @ '' graceful shutdown.'' @ line @
                    ''Press Ctrl+C to see graceful shutdown in action.'' @ line))
            empty_table))"

section \<open>08_error_handling.cpp\<close>

definition error_main :: "error_logger mw_sort \<Rightarrow> error_logger server_program throws" where
  "error_main srt =
     make_program srt [(2, 0), (15, 1)] [router_dispatch_middleware 1 None error_routes] error_routes"

text \<open>The lines of the main thread: one every five seconds while errors have been logged, and the last one.\<close>

definition monitor_lines :: "error_logger list \<Rightarrow> error_logger \<Rightarrow> string list" where
  "monitor_lines seen final =
     map (\<lambda>l. ''[Monitor] Total errors logged: '' @ to_string (get_error_count l)) (filter (\<lambda>l. get_error_count l > 0) seen) @
     [''[Server] Stopped. Total errors: '' @ to_string (get_error_count final)]"

section \<open>10_instance_router.cpp\<close>

text \<open>The global router has no routes in this program.\<close>

definition instance_main ::
  "'x mw_sort \<Rightarrow> 'x callable_api_handler route_sort \<Rightarrow> 'x server_program throws" where
  "instance_main srt rsrt =
     (case users_routes rsrt of
        Inl e \<Rightarrow> Inl e
      | Inr routes \<Rightarrow> make_program srt [(2, 0)] [router_dispatch_middleware 1 (Some routes) empty_table] empty_table)"

section \<open>Pipelines of the programs\<close>

lemma used_mset:
  assumes "std_sort srt"
  shows "mset (mc_mws (foldl (\<lambda>c m. chain_use srt m c) c ms)) = mset (mc_mws c) + mset ms"
proof (induction ms arbitrary: c)
  case (Cons m ms)
  have "mset (mc_mws (chain_use srt m c)) = add_mset m (mset (mc_mws c))"
    using std_sort.sort_perm [OF assms strict_weak_priority] by (simp add: chain_use_def sort_middlewares_by_priority_def Let_def)
  with Cons show ?case by simp
qed simp

lemma used_auto_sort: "mc_auto_sort (foldl (\<lambda>c m. chain_use srt m c) c ms) = mc_auto_sort c"
  by (induction ms arbitrary: c) (simp_all add: chain_use_def sort_middlewares_by_priority_def Let_def)

text \<open>Middlewares of different priorities end up in the order of these, in whatever order they are used.\<close>

lemma used_distinct:
  fixes ms ms' :: "'x middleware list"
  assumes "std_sort srt" and "mset ms = mset ms'" and "sorted_wrt (\<lambda>m m'. priority_value (mw_priority m) < priority_value (mw_priority m')) ms'"
  shows "mc_mws (foldl (\<lambda>c m. chain_use srt m c) (new_chain io) ms) = ms'"
proof -
  let ?f = "\<lambda>m :: 'x middleware. priority_value (mw_priority m)"
  let ?xs = "mc_mws (foldl (\<lambda>c m. chain_use srt m c) (new_chain io) ms)"
  have eq: "mset ?xs = mset ms'" using used_mset [OF assms(1), of "new_chain io" ms] assms(2) by (simp add: new_chain_def)
  have "sorted_wrt (<) (map ?f ms')" using assms(3) by (simp add: sorted_wrt_map)
  then have s': "sorted (map ?f ms')" "distinct (map ?f ms')" by (simp_all only: strict_sorted_iff)
  have "sorted (map ?f ?xs)"
  proof (cases ms rule: rev_cases)
    case Nil
    then show ?thesis by (simp add: new_chain_def)
  next
    case (snoc ns m)
    have "mc_auto_sort (foldl (\<lambda>c m. chain_use srt m c) (new_chain io) ns)"
      unfolding used_auto_sort by (simp add: new_chain_def)
    then show ?thesis
      using std_sort.sort_ordered [OF assms(1) strict_weak_priority] snoc
      by (simp add: chain_use_def [of srt m] sort_middlewares_by_priority_def ordered_sorted)
  qed
  moreover have "distinct (map ?f ?xs)"
    using mset_eq_imp_distinct_iff [of "map ?f ?xs" "map ?f ms'"] eq s'(2) by simp
  moreover have "set ?xs = set ms'" using mset_eq_setD [OF eq] .
  moreover have "inj_on ?f (set ms')" using s'(2) by (simp add: distinct_map)
  ultimately show ?thesis using s' map_sorted_distinct_set_unique [of ?f ?xs ms'] by simp
qed

text \<open>So what is proved of these pipelines elsewhere holds for the sessions of the programs.\<close>

lemma program_pipelines:
  "routing_main srt rsrt = Inr pg \<Longrightarrow> std_sort srt \<Longrightarrow>
     \<exists>t. routing_routes rsrt = Inr t \<and> ae_pipeline (se_chain (program_env u k pg)) = [router_dispatch_middleware 1 None t]"
  "json_body_main srt jparse dump = Inr pg \<Longrightarrow> std_sort srt \<Longrightarrow>
     ae_pipeline (se_chain (program_env u k pg)) = echo_pipeline jparse dump"
  "instance_main srt rsrt = Inr pg \<Longrightarrow> std_sort srt \<Longrightarrow>
     \<exists>t. users_routes rsrt = Inr t \<and> ae_pipeline (se_chain (program_env u k pg)) = [router_dispatch_middleware 1 (Some t) empty_table]"
  by (auto simp: routing_main_def json_body_main_def instance_main_def used_distinct started_env(1) echo_pipeline_def
      create_body_parser_middleware_def body_mw_def base_middleware_def split: sum.splits
      simp del: foldl_Cons foldl_Nil)

lemma error_pipeline:
  "error_main srt = Inr pg \<Longrightarrow> std_sort srt \<Longrightarrow>
   ae_pipeline (se_chain (program_env u k pg)) = [router_dispatch_middleware 1 None error_routes]"
  by (simp add: error_main_def used_distinct started_env(1) del: foldl_Cons foldl_Nil)

section \<open>What the chain of 03 answers\<close>

definition first_cors_item :: "nat \<Rightarrow> cors \<Rightarrow> 'x item" where
  "first_cors_item i c = (cors_item i c)\<lparr>it_mw := first_cors_middleware i c\<rparr>"

lemma first_cors_prompt [simp]: "prompt_item (first_cors_item i c)"
  by (auto simp: prompt_item_def first_cors_item_def first_cors_middleware_def item_defs cors_async_def Let_def)

definition chain_page :: "request_context \<Rightarrow> http_response \<Rightarrow> http_response" where
  "chain_page ctx res =
     (let key = normalize_path (ctx_path ctx)
      in if key = ''/'' then text_response 200 ''text/plain''
              (''Example 03 '' @ dash @ '' see X-Response-Time and server logs.'' @ line @ ''GET /api/hello'' @ line) res
         else if key = ''/api/hello'' then text_response 200 ''application/json'' (''{'' @ quoted ''message'' @ '':'' @ quoted ''hello'' @ ''}'') res
         else set_404_response res)"

definition chain_answer :: "request_context \<Rightarrow> http_response \<Rightarrow> http_response" where
  "chain_answer ctx res =
     (let res = cors_headers example_cors ctx res
      in if ctx_method ctx = Verb_options then res_result 200 res else chain_page ctx res)"

lemma hello_key: "normalize_path ''/api/hello'' = ''/api/hello''"
  by code_simp

lemma chain_dispatch: "dispatch None chain_routes w = (None, w\<lparr>w_res := chain_page (w_ctx w) (w_res w)\<rparr>)"
  by (simp add: dispatch_def resolve_route_def resolve_route_with_method_def chain_routes_def register_static_handler_def
      add_static_route_def add_static_route_method_def empty_table_def echo_key hello_key method_matches_def handle_request_def
      text_handler_def make_api_handler_def chain_page_def Let_def)

lemma chain_page_items: "chain_page (ctx_set k v ctx) res = chain_page ctx res"
  by (simp add: chain_page_def ctx_path_def ctx_set_def)

definition chain_items :: "logger \<Rightarrow> log_state item list" where
  "chain_items l =
     [first_cors_item 1 example_cors, response_time_item 3 ''X-Response-Time'', logger_item 2 l, dispatch_item 4 None chain_routes]"

lemma chain_flow:
  "w_res (flow eh [] (chain_items l) w) = chain_answer (w_ctx w) (w_res w)"
  by (simp add: chain_items_def first_cors_item_def first_cors_middleware_def item_defs chain_dispatch chain_answer_def
      logger_begin_def generate_request_id_def logger_callback_def chain_page_items Let_def)

text \<open>
  The comment of the program holds: its CORS middleware answers a preflight request for good, as
  it comes first; every other request gets its headers and its route's text. The field
  \<open>X-Response-Time\<close> that the page at / announces is not there.
\<close>

lemma chain_example_response:
  assumes "std_sort srt" and "chain_main srt file_ok name_free = Inr pg" and "\<not> cv_paused cv"
  shows "chain_response (program_env u k pg) cv res rq =
    Some (res_prepare_payload (chain_answer (new_request_context rq) res))"
proof -
  obtain l where l: "make_program srt [(2, 0)]
      [first_cors_middleware 1 example_cors, logger_middleware 2 l, response_time_middleware 3 ''X-Response-Time'',
       router_dispatch_middleware 4 None chain_routes] chain_routes = Inr pg"
    using assms(2) by (auto simp: chain_main_def split: prod.splits option.splits)
  note env = started_env [OF l, of u k]
  have "ae_pipeline (se_chain (program_env u k pg)) = map it_mw (chain_items l)"
    unfolding env(1)
    by (rule used_distinct [OF assms(1)])
       (simp_all add: chain_items_def first_cors_item_def first_cors_middleware_def item_defs)
  moreover have "list_all prompt_item (chain_items l)" "chain_items l \<noteq> []"
    using dispatch_prompt [of None chain_routes 4] by (simp_all add: chain_items_def chain_dispatch)
  ultimately show ?thesis
    using flow_response [OF _ _ _ env(3,2) assms(3), of "chain_items l" res rq] by (simp add: chain_flow)
qed

section \<open>What the routes of 07 answer\<close>

text \<open>The page /health tells whether a shutdown was requested; only /slow takes time, and only it is delayed.\<close>

lemma graceful_keys: "normalize_path ''/slow'' = ''/slow''"
  by code_simp

lemma graceful_dispatch:
  assumes "normalize_path (ctx_path (w_ctx w)) = key"
  shows "let (e, w') = dispatch None graceful_routes w
    in e = None \<and> w_ext w' = w_ext w \<and> w_now w' = w_now w + (if key = ''/slow'' then 5000000 else 0) \<and>
       (key = ''/health'' \<longrightarrow> rs_body (w_res w') =
          ''{'' @ quoted ''status'' @ '':'' @ quoted ''ok'' @ '','' @ quoted ''shutdown_requested'' @ '':'' @
          (if w_ext w then ''true'' else ''false'') @ ''}'')"
  using assms
  by (auto simp: dispatch_def resolve_route_def resolve_route_with_method_def graceful_routes_def register_static_handler_def
      add_static_route_def add_static_route_method_def empty_table_def echo_key example_keys graceful_keys method_matches_def
      handle_request_def text_handler_def slow_handler_def health_page_handler_def text_response_def make_api_handler_def Let_def)

end
