(* ===== verification/Benchmarks.thy ===== *)
theory Benchmarks
  imports Router_Instances Example_Programs Form_Parser Plain_Text_Parser Json_Parser
begin

text \<open>
  The programs of src/benchmark: what each measures, as one iteration of its loop, and whether it
  measures what it says. How long anything takes is not part of the model.
\<close>

section \<open>Routes\<close>

text \<open>
  router_benchmark.cpp. A benchmark resets the routes, registers its own with a handler \<open>h\<close>
  that does nothing, resolves a path once per iteration, and resets the routes again.
\<close>

datatype bench_route = On_static string | On_dynamic string

definition reset_routes :: "'h route_program \<Rightarrow> 'h route_program" where
  "reset_routes p = clear_instance p"

fun bench_register :: "'h route_sort \<Rightarrow> 'h \<Rightarrow> bench_route list \<Rightarrow> 'h route_program \<Rightarrow> 'h route_program throws" where
  "bench_register srt h [] p = Inr p"
| "bench_register srt h (On_static path # rs) p = bench_register srt h rs (p\<lparr>rp_store := global_add_static path h (rp_store p)\<rparr>)"
| "bench_register srt h (On_dynamic pattern # rs) p =
     (case global_add_dynamic srt pattern h (rp_store p) of
        (Some e, s) \<Rightarrow> Inl e
      | (None, s) \<Rightarrow> bench_register srt h rs (p\<lparr>rp_store := s\<rparr>))"

definition router_benchmark ::
  "'h route_sort \<Rightarrow> 'h \<Rightarrow> bench_route list \<Rightarrow> verb \<Rightarrow> string \<Rightarrow> 'h route_program \<Rightarrow>
   (('h option \<times> request_context) \<times> 'h route_program) throws" where
  "router_benchmark srt h routes vb path p =
     (case bench_register srt h routes (reset_routes p) of
        Inl e \<Rightarrow> Inl e
      | Inr p \<Rightarrow>
          let (found, s) = global_resolve_route path (new_request_context (make_request vb path [] [])) (rp_store p)
          in Inr (found, reset_routes (p\<lparr>rp_store := s\<rparr>)))"

definition bm_resolve_static where
  "bm_resolve_static srt h = router_benchmark srt h [On_static ''/api/ping''] Verb_get ''/api/ping''"

definition bm_resolve_dynamic where
  "bm_resolve_dynamic srt h = router_benchmark srt h [On_dynamic ''/api/users/{id}''] Verb_unknown ''/api/users/12345''"

definition bm_resolve_not_found where
  "bm_resolve_not_found srt h =
     router_benchmark srt h [On_static ''/api/ping'', On_dynamic ''/api/users/{id}''] Verb_unknown ''/missing/route''"

definition table_depth_routes :: "nat \<Rightarrow> bench_route list" where
  "table_depth_routes n = map (\<lambda>i. On_static (''/bm/s/'' @ to_string i)) [0..<n]"

text \<open>The arguments are 8, 64 and 512.\<close>

definition bm_static_table_depth where
  "bm_static_table_depth n srt h = router_benchmark srt h (table_depth_routes n) Verb_get (''/bm/s/'' @ to_string (n - 1))"

definition scan_depth_routes :: "nat \<Rightarrow> bench_route list" where
  "scan_depth_routes n = map (\<lambda>i. On_dynamic (''/bm/nope/'' @ to_string i @ ''/{x}'')) [0..<n] @ [On_dynamic ''/bm/final/{id}'']"

definition bm_dynamic_scan_depth where
  "bm_dynamic_scan_depth n srt h = router_benchmark srt h (scan_depth_routes n) Verb_unknown ''/bm/final/ok''"

definition bm_static_beats_dynamic where
  "bm_static_beats_dynamic srt h =
     router_benchmark srt h [On_dynamic ''/api/item/{id}'', On_static ''/api/item/exact''] Verb_unknown ''/api/item/exact''"

section \<open>What the router's benchmarks measure\<close>

fun bench_event :: "'h \<Rightarrow> bench_route \<Rightarrow> 'h route_event" where
  "bench_event h (On_static path) = Add_static path Verb_unknown h"
| "bench_event h (On_dynamic pattern) = Add_dynamic pattern Verb_unknown h"

fun bench_ok :: "bench_route \<Rightarrow> bool" where
  "bench_ok (On_static path) = True"
| "bench_ok (On_dynamic pattern) = (\<exists>x. parse_pattern pattern = Inr x)"

lemma bench_registered:
  assumes "list_all bench_ok rs"
  shows "\<exists>p'. bench_register srt h rs p = Inr p' \<and>
    global_table (rp_store p') = foldl (route_step srt) (global_table (rp_store p)) (map (bench_event h) rs)"
  using assms
proof (induction rs arbitrary: p)
  case (Cons r rs)
  show ?case
  proof (cases r)
    case (On_static path)
    with Cons.IH [of "p\<lparr>rp_store := global_add_static path h (rp_store p)\<rparr>"] Cons.prems show ?thesis
      by (auto simp: global_tables add_static_route_def)
  next
    case (On_dynamic pattern)
    obtain e s where gs: "global_add_dynamic srt pattern h (rp_store p) = (e, s)" by fastforce
    from On_dynamic Cons.prems obtain re names where "parse_pattern pattern = Inr (re, names)" by auto
    then obtain t where t: "add_dynamic_route_method srt pattern Verb_unknown h (global_table (rp_store p)) = Inr t"
      by (simp add: add_dynamic_route_method_def Let_def)
    then have "e = None" "global_table s = t"
      using global_tables(2,3) [of srt pattern h "rp_store p"] gs by (simp_all add: add_dynamic_route_def)
    with On_dynamic gs t Cons.IH [of "p\<lparr>rp_store := s\<rparr>"] Cons.prems show ?thesis by auto
  qed
qed simp

text \<open>
  What a benchmark finds, and the table it leaves: resetting has no effect, so its routes are
  added to those of all benchmarks before it.
\<close>

lemma router_benchmark_found:
  assumes "list_all bench_ok rs"
    and "t = foldl (route_step srt) (global_table (rp_store p)) (map (bench_event h) rs)"
  shows "\<exists>p'. router_benchmark srt h rs vb path p =
      Inr (resolve_route t path (new_request_context (make_request vb path [] [])), p') \<and> global_table (rp_store p') = t"
  using bench_registered [OF assms(1), of srt h "reset_routes p"] assms(2)
  by (auto simp: router_benchmark_def reset_routes_def clear_instance_def global_resolves)

text \<open>A path registered last is found at once, whatever was registered before, and whatever dynamic route has its shape.\<close>

lemma static_hit:
  "resolve_route (foldl (route_step srt) t (map (bench_event h) (rs @ [On_static path]))) path ctx = (Some h, ctx)"
  by (simp add: resolve_route_def resolve_route_with_method_def add_static_route_method_def method_matches_def Let_def)

definition finds :: "(('h option \<times> request_context) \<times> 'h route_program) throws \<Rightarrow> 'h option \<Rightarrow> bool" where
  "finds out h = (case out of Inl e \<Rightarrow> False | Inr ((found, ctx), p) \<Rightarrow> found = h)"

lemma static_benchmark_hits:
  assumes "list_all bench_ok rs"
  shows "finds (router_benchmark srt h (rs @ [On_static path]) vb path p) (Some h)"
  using router_benchmark_found [of "rs @ [On_static path]" _ srt p h vb path] assms static_hit [of srt _ h rs path]
  by (force simp: finds_def)

lemma static_benchmarks_hit:
  "finds (bm_resolve_static srt h p) (Some h)"
  "0 < n \<Longrightarrow> finds (bm_static_table_depth n srt h p) (Some h)"
  "finds (bm_static_beats_dynamic srt h p) (Some h)"
proof -
  show "finds (bm_resolve_static srt h p) (Some h)"
    using static_benchmark_hits [of "[]" srt h "''/api/ping''"] by (simp add: bm_resolve_static_def)
  have "\<exists>x. parse_pattern ''/api/item/{id}'' = Inr x"
    using parse_pattern_tokens [of "[Lit ''/api/item/'', Param ''id'']"] by (simp add: pattern_of_def)
  then show "finds (bm_static_beats_dynamic srt h p) (Some h)"
    using static_benchmark_hits [of "[On_dynamic ''/api/item/{id}'']" srt h "''/api/item/exact''"] by (simp add: bm_static_beats_dynamic_def)
  assume "0 < n"
  then obtain m where "n = Suc m" by (cases n) auto
  then show "finds (bm_static_table_depth n srt h p) (Some h)"
    using static_benchmark_hits [of "table_depth_routes m" srt h "''/bm/s/'' @ to_string m"]
    by (simp add: bm_static_table_depth_def table_depth_routes_def list_all_iff)
qed

section \<open>Scanning the dynamic routes\<close>

definition bench_dynamic :: "'h \<Rightarrow> token list \<Rightarrow> 'h dynamic_route" where
  "bench_dynamic h ts = \<lparr>dr_pattern = pattern_of ts, dr_handler = h, dr_regex = items_of ts, dr_param_names = names_of ts,
     dr_method = Verb_unknown\<rparr>"

definition scan_table :: "'h route_sort \<Rightarrow> 'h \<Rightarrow> token list list \<Rightarrow> 'h route_table" where
  "scan_table srt h tss = foldl (route_step srt) empty_table (map (\<lambda>ts. Add_dynamic (pattern_of ts) Verb_unknown h) tss)"

lemma scan_routes:
  assumes "std_sort srt" and "list_all (list_all token_ok) tss"
  shows "table_inv (scan_table srt h tss)" "rt_static (scan_table srt h tss) = []"
    and "mset (rt_dynamic (scan_table srt h tss)) = mset (map (bench_dynamic h) tss)"
proof -
  let ?rs = "map (\<lambda>ts. (pattern_of ts, Verb_unknown, h)) tss"
  have fold: "scan_table srt h tss = foldl (route_step srt) empty_table (map as_event ?rs)"
    by (simp add: scan_table_def comp_def)
  show inv: "table_inv (scan_table srt h tss)"
    unfolding fold by (rule route_sorting.reachable_inv [OF route_sorting_of_std_sort [OF assms(1)]])
  show "rt_static (scan_table srt h tss) = []" unfolding fold static_untouched by (simp add: empty_table_def)
  have "List.map_filter mk_route ?rs = map (bench_dynamic h) tss"
    using assms(2) by (induction tss) (auto simp: map_filter_simps mk_route_def parse_pattern_tokens bench_dynamic_def)
  with inv registered_routes [of srt empty_table ?rs]
  show "mset (rt_dynamic (scan_table srt h tss)) = mset (map (bench_dynamic h) tss)"
    unfolding fold table_inv_def by (simp add: empty_table_def)
qed

lemma only_match:
  assumes "table_inv t" and "rt_static t = []" and "r \<in> set (rt_dynamic t)" and "dr_method r = Verb_unknown"
    and "matches_path (normalize_path path) r" and "\<forall>r'\<in>set (rt_dynamic t). matches_path (normalize_path path) r' \<longrightarrow> r' = r"
  shows "\<exists>caps. fill (dr_regex r) caps = Some (normalize_path path) \<and>
    resolve_route t path ctx = (Some (dr_handler r), extract_path_params r caps ctx)"
proof -
  have "find (matches_path (normalize_path path)) (rt_dynamic t) \<noteq> None" using assms(3,5) by (auto simp: find_None_iff)
  then obtain r' where r': "find (matches_path (normalize_path path)) (rt_dynamic t) = Some r'" by blast
  then have "r' \<in> set (rt_dynamic t)" "matches_path (normalize_path path) r'" by (auto simp: find_Some_iff)
  with assms(6) have "r' = r" by blast
  with resolve_spec [OF assms(1), of path Verb_unknown ctx] r' assms(2,4) show ?thesis
    by (auto simp: resolve_route_def method_matches_def)
qed

lemma fill_lit_param: "fill (items_of [Lit l, Param n]) caps = Some s \<longleftrightarrow>
    (\<exists>v. caps = [v] \<and> v \<noteq> [] \<and> CHR ''/'' \<notin> set v \<and> s = l @ v)"
proof -
  have chars: "fill (map Re_char l @ is) caps = map_option ((@) l) (fill is caps)" for "is" and caps
    by (induction l) (cases "fill is caps"; simp add: option.map_comp comp_def)+
  show ?thesis by (cases caps; cases "tl caps") (auto simp: items_of_def chars)
qed

lemma matches_lit_param:
  "matches_path s (bench_dynamic h [Lit l, Param n]) \<longleftrightarrow> (\<exists>v. v \<noteq> [] \<and> CHR ''/'' \<notin> set v \<and> s = l @ v)"
  by (auto simp: matches_path_def bench_dynamic_def fill_lit_param)

lemma scanned:
  assumes "std_sort srt" and "list_all (list_all token_ok) tss" and "global_table (rp_store p) = empty_table"
    and "[Lit l, Param n] \<in> set tss" and "normalize_path path = l @ v" and "v \<noteq> []" and "CHR ''/'' \<notin> set v"
    and "\<forall>ts\<in>set tss. matches_path (l @ v) (bench_dynamic h ts) \<longrightarrow> ts = [Lit l, Param n]"
  shows "\<exists>ctx p'. router_benchmark srt h (map (\<lambda>ts. On_dynamic (pattern_of ts)) tss) vb path p = Inr ((Some h, ctx), p') \<and>
    path_parameter ctx n = v \<and> global_table (rp_store p') = scan_table srt h tss"
proof -
  let ?t = "scan_table srt h tss" and ?r = "bench_dynamic h [Lit l, Param n]"
  let ?rs = "map (\<lambda>ts. On_dynamic (pattern_of ts)) tss" and ?ctx = "new_request_context (make_request vb path [] [])"
  have "list_all bench_ok ?rs" using assms(2) by (auto simp: list_all_iff parse_pattern_tokens)
  moreover have "?t = foldl (route_step srt) (global_table (rp_store p)) (map (bench_event h) ?rs)"
    by (simp add: scan_table_def assms(3) comp_def)
  ultimately obtain p' where p': "router_benchmark srt h ?rs vb path p = Inr (resolve_route ?t path ?ctx, p')"
      "global_table (rp_store p') = ?t"
    using router_benchmark_found [of ?rs ?t srt p h vb path] by blast
  note t = scan_routes [OF assms(1,2), of h]
  then have dyn: "set (rt_dynamic ?t) = bench_dynamic h ` set tss" by (metis mset_eq_setD set_map)
  have r: "dr_method ?r = Verb_unknown" "dr_handler ?r = h" "dr_regex ?r = items_of [Lit l, Param n]"
    by (simp_all add: bench_dynamic_def)
  have mem: "?r \<in> set (rt_dynamic ?t)" unfolding dyn using assms(4) by (rule imageI)
  have fits: "matches_path (normalize_path path) ?r"
    unfolding assms(5) matches_lit_param using assms(6,7) by blast
  have only: "\<forall>r'\<in>set (rt_dynamic ?t). matches_path (normalize_path path) r' \<longrightarrow> r' = ?r"
    unfolding dyn assms(5) using assms(8) by blast
  obtain caps where caps: "fill (items_of [Lit l, Param n]) caps = Some (l @ v)"
      "resolve_route ?t path ?ctx = (Some h, extract_path_params ?r caps ?ctx)"
    using only_match [OF t(1,2) mem r(1) fits only, of ?ctx] unfolding r(2,3) assms(5) by blast
  then have "caps = [v]" unfolding fill_lit_param by auto
  then have "path_parameter (extract_path_params ?r caps ?ctx) n = v"
    using path_parameters_read [of ?r caps 0 ?ctx] by (simp add: bench_dynamic_def names_of_def)
  with p' caps(2) show ?thesis by metis
qed

lemma dynamic_benchmark_hits:
  assumes "std_sort srt" and "global_table (rp_store p) = empty_table"
  shows "\<exists>ctx p'. bm_resolve_dynamic srt h p = Inr ((Some h, ctx), p') \<and> path_parameter ctx ''id'' = ''12345''"
proof -
  have "normalize_path ''/api/users/12345'' = ''/api/users/'' @ ''12345''" by code_simp
  from scanned [OF assms(1) _ assms(2) _ this, of "[[Lit ''/api/users/'', Param ''id'']]" "''id''" h Verb_unknown] show ?thesis
    by (fastforce simp: bm_resolve_dynamic_def pattern_of_def)
qed

text \<open>The path of the third benchmark has no route: what is measured is a miss of both tables.\<close>

lemma not_found_benchmark_misses:
  assumes "std_sort srt" and "global_table (rp_store p) = empty_table"
  shows "finds (bm_resolve_not_found srt h p) None"
proof -
  let ?t = "foldl (route_step srt) empty_table [Add_static ''/api/ping'' Verb_unknown h, Add_dynamic ''/api/users/{id}'' Verb_unknown h]"
  have parse: "parse_pattern ''/api/users/{id}'' = Inr (items_of [Lit ''/api/users/'', Param ''id''], [''id''])"
    using parse_pattern_tokens [of "[Lit ''/api/users/'', Param ''id'']"] by (simp add: pattern_of_def names_of_def)
  have keys: "normalize_path ''/missing/route'' = ''/missing/route''" "normalize_path ''/api/ping'' = ''/api/ping''" by code_simp+
  have "table_inv ?t" by (rule route_sorting.reachable_inv [OF route_sorting_of_std_sort [OF assms(1)]])
  moreover have "map_of (rt_static ?t) ''/missing/route'' = None"
    by (simp add: add_static_route_method_def add_dynamic_route_method_def parse keys empty_table_def Let_def)
  moreover have "rt_dynamic ?t = srt more_specific [bench_dynamic h [Lit ''/api/users/'', Param ''id'']]"
    by (simp add: add_static_route_method_def add_dynamic_route_method_def parse empty_table_def bench_dynamic_def pattern_of_def
        names_of_def Let_def)
  then have "set (rt_dynamic ?t) = {bench_dynamic h [Lit ''/api/users/'', Param ''id'']}"
    by (simp add: std_sort.sort_set [OF assms(1) strict_weak_more_specific])
  then have "find (matches_path ''/missing/route'') (rt_dynamic ?t) = None"
    by (simp add: find_None_iff matches_lit_param)
  ultimately have miss: "fst (resolve_route ?t ''/missing/route'' ctx) = None" for ctx
    using resolve_spec [of ?t "''/missing/route''" Verb_unknown ctx] by (simp add: keys resolve_route_def del: foldl_Cons foldl_Nil)
  have ok: "list_all bench_ok [On_static ''/api/ping'', On_dynamic ''/api/users/{id}'']" by (simp add: parse)
  have eq: "?t = foldl (route_step srt) (global_table (rp_store p)) (map (bench_event h) [On_static ''/api/ping'', On_dynamic ''/api/users/{id}''])"
    by (simp only: assms(2) bench_event.simps list.map)
  obtain p' where "bm_resolve_not_found srt h p =
      Inr (resolve_route ?t ''/missing/route'' (new_request_context (make_request Verb_unknown ''/missing/route'' [] [])), p')"
    unfolding bm_resolve_not_found_def
    using router_benchmark_found [OF ok eq, of Verb_unknown "''/missing/route''"] by (elim exE conjE)
  with miss [of "new_request_context (make_request Verb_unknown ''/missing/route'' [] [])"] show ?thesis
    by (simp add: finds_def case_prod_beta del: foldl_Cons foldl_Nil)
qed

text \<open>
  As the comment says, the decoys come before the target: they have one segment more that is
  not a parameter, and the path of the benchmark matches the target alone.
\<close>

lemma segments_step:
  assumes "l \<noteq> []" and "CHR ''/'' \<notin> set l"
  shows "count_segments (CHR ''/'' # l @ CHR ''/'' # rest) = Suc (count_segments (CHR ''/'' # rest))"
    "count_segments (CHR ''/'' # l) = 1"
proof -
  have hd: "dropWhile (\<lambda>c. c = CHR ''/'') (l @ rest') = l @ rest'" for rest'
    using assms by (cases l) auto
  have tl: "dropWhile (\<lambda>c. c \<noteq> CHR ''/'') (l @ rest') = dropWhile (\<lambda>c. c \<noteq> CHR ''/'') rest'" for rest'
    using assms(2) by (intro dropWhile_append2) auto
  have nil: "dropWhile (\<lambda>c. c \<noteq> CHR ''/'') l = []" using assms(2) by (auto simp: dropWhile_eq_Nil_conv)
  show "count_segments (CHR ''/'' # l @ CHR ''/'' # rest) = Suc (count_segments (CHR ''/'' # rest))"
    using assms(1) hd [of "CHR ''/'' # rest"] tl [of "CHR ''/'' # rest"] by (subst count_segments.simps) simp
  show "count_segments (CHR ''/'' # l) = 1"
    using assms(1) hd [of "[]"] by (subst count_segments.simps) (simp add: nil count_segments.simps [of "[]"])
qed

definition decoy :: "nat \<Rightarrow> token list" where
  "decoy i = [Lit (''/bm/nope/'' @ to_string i @ ''/''), Param ''x'']"

definition scan_target :: "token list" where
  "scan_target = [Lit ''/bm/final/'', Param ''id'']"

lemma decoy_first: "more_specific (bench_dynamic h (decoy i)) (bench_dynamic h scan_target)"
proof -
  have digits: "to_string i \<noteq> []" "CHR ''/'' \<notin> set (to_string i)" using to_string_digits [of "CHR ''/''" i] by (auto simp: isdigit_def byte_def)
  have "count_segments (pattern_of (decoy i)) = 4"
    using segments_step(1) [of "''bm''" "''nope/'' @ to_string i @ ''/{x}''"] segments_step(1) [of "''nope''" "to_string i @ ''/{x}''"]
      segments_step(1) [OF digits, of "''{x}''"] segments_step(2) [of "''{x}''"]
    by (simp add: decoy_def pattern_of_def)
  moreover have "count_segments (pattern_of scan_target) = 3"
    using segments_step(1) [of "''bm''" "''final/{id}''"] segments_step(1) [of "''final''" "''{id}''"] segments_step(2) [of "''{id}''"]
    by (simp add: scan_target_def pattern_of_def)
  ultimately show ?thesis
    by (simp add: more_specific_def specificity_def bench_dynamic_def names_of_def decoy_def scan_target_def)
qed

lemma scan_depth_tokens:
  "scan_depth_routes n = map (\<lambda>ts. On_dynamic (pattern_of ts)) (map decoy [0..<n] @ [scan_target])"
  "list_all (list_all token_ok) (map decoy [0..<n] @ [scan_target])"
proof -
  have "CHR ''{'' \<notin> set (to_string i)" for i using to_string_digits [of "CHR ''{''" i] by (auto simp: isdigit_def byte_def)
  then show "list_all (list_all token_ok) (map decoy [0..<n] @ [scan_target])" by (auto simp: list_all_iff decoy_def scan_target_def)
qed (simp add: scan_depth_routes_def decoy_def scan_target_def pattern_of_def comp_def)

lemma scan_benchmark_hits:
  assumes "std_sort srt" and "global_table (rp_store p) = empty_table"
  shows "\<exists>ctx p'. bm_dynamic_scan_depth n srt h p = Inr ((Some h, ctx), p') \<and> path_parameter ctx ''id'' = ''ok'' \<and>
    length (rt_dynamic (global_table (rp_store p'))) = n + 1 \<and>
    last (rt_dynamic (global_table (rp_store p'))) = bench_dynamic h scan_target"
proof -
  let ?tss = "map decoy [0..<n] @ [scan_target]"
  let ?rs = "rt_dynamic (scan_table srt h ?tss)"
  have key: "normalize_path ''/bm/final/ok'' = ''/bm/final/'' @ ''ok''" by code_simp
  have "\<not> matches_path (''/bm/final/'' @ ''ok'') (bench_dynamic h (decoy i))" for i
    by (simp add: decoy_def matches_lit_param)
  then have "\<forall>ts\<in>set ?tss. matches_path (''/bm/final/'' @ ''ok'') (bench_dynamic h ts) \<longrightarrow> ts = [Lit ''/bm/final/'', Param ''id'']"
    by (auto simp: scan_target_def)
  from scanned [OF assms(1) scan_depth_tokens(2) assms(2) _ key _ _ this, of Verb_unknown]
  obtain ctx p' where p': "bm_dynamic_scan_depth n srt h p = Inr ((Some h, ctx), p')" "path_parameter ctx ''id'' = ''ok''"
      "global_table (rp_store p') = scan_table srt h ?tss"
    by (auto simp: bm_dynamic_scan_depth_def scan_depth_tokens(1) scan_target_def)
  note t = scan_routes [OF assms(1) scan_depth_tokens(2), of h n]
  have rs: "mset ?rs = add_mset (bench_dynamic h scan_target) (mset (map (\<lambda>i. bench_dynamic h (decoy i)) [0..<n]))"
    unfolding t(3) by (simp add: comp_def)
  have len: "length ?rs = n + 1" using arg_cong [OF rs, of size] by simp
  have "last ?rs = bench_dynamic h scan_target"
  proof (rule ccontr)
    assume no: "last ?rs \<noteq> bench_dynamic h scan_target"
    have "?rs \<noteq> []" using len by auto
    then obtain qs where qs: "?rs = qs @ [last ?rs]" by (metis append_butlast_last_id)
    have all: "set ?rs = insert (bench_dynamic h scan_target) ((\<lambda>i. bench_dynamic h (decoy i)) ` {0..<n})"
      using arg_cong [OF rs, of set_mset] by simp
    then obtain i where "last ?rs = bench_dynamic h (decoy i)" using \<open>?rs \<noteq> []\<close> last_in_set [of ?rs] no by auto
    moreover have "bench_dynamic h scan_target \<in> set qs" using all no qs by (metis UnE empty_iff empty_set insertI1 list.simps(15) set_append insertE)
    moreover have "ordered_by more_specific (qs @ [last ?rs])" using t(1) qs by (simp add: table_inv_def)
    ultimately show False using decoy_first [of h i] by (auto simp: ordered_by_def sorted_wrt_append)
  qed
  with p' len show ?thesis by metis
qed

text \<open>
  What the resets were to prevent: the second run of the same benchmark, as for another
  argument, scans the routes of both.
\<close>

lemma scan_routes_accumulate:
  assumes "std_sort srt" and "bm_dynamic_scan_depth n srt h p = Inr (found, p')"
  shows "length (rt_dynamic (global_table (rp_store p'))) = length (rt_dynamic (global_table (rp_store p))) + n + 1"
proof -
  let ?rs = "map (\<lambda>ts. (pattern_of ts, Verb_unknown, h)) (map decoy [0..<n] @ [scan_target])"
  have step: "length (rt_dynamic (route_step srt t (as_event (pattern_of ts, Verb_unknown, h)))) = Suc (length (rt_dynamic t))"
    if "list_all token_ok ts" for t ts
    using that mset_eq_length [OF std_sort.sort_perm [OF assms(1) strict_weak_more_specific]]
    by (simp add: add_dynamic_route_method_def parse_pattern_tokens Let_def)
  have len: "length (rt_dynamic (foldl (route_step srt) t (map (\<lambda>ts. as_event (pattern_of ts, Verb_unknown, h)) tss))) =
      length (rt_dynamic t) + length tss" if "list_all (list_all token_ok) tss" for t tss
    using that by (induction tss arbitrary: t) (simp_all add: step del: as_event.simps route_step.simps)
  have ok: "list_all bench_ok (scan_depth_routes n)"
    using scan_depth_tokens [of n] by (auto simp: list_all_iff parse_pattern_tokens simp del: map_append)
  have "map (bench_event h) (scan_depth_routes n) = map (\<lambda>ts. as_event (pattern_of ts, Verb_unknown, h)) (map decoy [0..<n] @ [scan_target])"
    unfolding scan_depth_tokens(1) by simp
  with router_benchmark_found [OF ok refl, where srt = srt and p = p and h = h and vb = Verb_unknown and path = "''/bm/final/ok''"] assms(2) len [OF scan_depth_tokens(2)]
  show ?thesis by (auto simp: bm_dynamic_scan_depth_def simp del: map_append as_event.simps)
qed

section \<open>Chains and sessions\<close>

text \<open>middleware_chain_benchmark.cpp: chains of middlewares that only call \<open>next()\<close>, run synchronously.\<close>

definition noop_middleware :: "nat \<Rightarrow> 'x middleware" where
  "noop_middleware i = functional_middleware i (''noop_'' @ to_string i) (Some (\<lambda>w. Call_next w Done)) None None Normal 0"

definition bm_empty_execute :: "nat \<Rightarrow> (nat \<Rightarrow> mw_stats) \<Rightarrow> 'x world \<Rightarrow> (cpp_exn option \<times> 'x world \<times> (nat \<Rightarrow> mw_stats) \<times> 'x chain) option" where
  "bm_empty_execute run st w = execute run (enable_statistics False (new_chain True)) st w"

definition bm_pass_through_depth ::
  "'x mw_sort \<Rightarrow> nat \<Rightarrow> nat \<Rightarrow> (nat \<Rightarrow> mw_stats) \<Rightarrow> 'x world \<Rightarrow> (cpp_exn option \<times> 'x world \<times> (nat \<Rightarrow> mw_stats) \<times> 'x chain) option" where
  "bm_pass_through_depth srt n run st w =
     (let c = foldl (\<lambda>c i. chain_use srt (noop_middleware i) c) (enable_statistics False (new_chain True)) [0..<n]
      in execute run c st w)"

lemma pass_through_idle:
  assumes "std_sort srt"
  shows "\<exists>st' c'. bm_pass_through_depth srt n run st w = Some (None, w, st', c')"
    "\<exists>st' c'. bm_empty_execute run st w = Some (None, w, st', c')"
proof -
  let ?base = "enable_statistics False (new_chain True)" and ?ms = "map noop_middleware [0..<n]"
  let ?c = "foldl (\<lambda>c m. chain_use srt m c) ?base ?ms" and ?wrap = "\<lambda>m. \<lparr>wr_mw = m, wr_pre = id, wr_post = id\<rparr>"
  have c0: "mc_mws ?base = []" "mc_global_timeout ?base \<le> 0" "\<not> mc_paused ?base" by (simp_all add: enable_statistics_def new_chain_def)
  have "mset (mc_mws ?c) = mset ?ms" using used_mset [OF assms, of ?base ?ms] c0(1) by simp
  then have "set (mc_mws ?c) = set ?ms" by (rule mset_eq_setD)
  then have "\<forall>x\<in>set (map ?wrap (mc_mws ?c)). wraps x"
    by (auto simp: wraps_def noop_middleware_def functional_middleware_def)
  moreover have "onion (map ?wrap ms) v = v" for ms and v :: "'a world" by (induction ms arbitrary: v) simp_all
  moreover have keeps: "mc_global_timeout (foldl (\<lambda>c m. chain_use srt m c) c ms) = mc_global_timeout c \<and>
      mc_paused (foldl (\<lambda>c m. chain_use srt m c) c ms) = mc_paused c" for c ms
    by (induction ms arbitrary: c) (simp_all add: chain_use_def sort_middlewares_by_priority_def Let_def)
  ultimately have "\<exists>st' c'. execute run ?c st w = Some (None, w, st', c')"
    using execute_wraps [of ?c "map ?wrap (mc_mws ?c)" run st w] keeps [of ?base ?ms] c0(2,3)
    by (simp only: map_map comp_def map_ident wrapper.simps simp_thms)
  then show "\<exists>st' c'. bm_pass_through_depth srt n run st w = Some (None, w, st', c')"
    by (simp add: bm_pass_through_depth_def foldl_map)
  show "\<exists>st' c'. bm_empty_execute run st w = Some (None, w, st', c')"
    using execute_wraps [of ?base "[]" run st w] c0 by (simp add: bm_empty_execute_def)
qed

text \<open>
  coroutine_throughput_benchmark.cpp: a server on the loopback whose chain answers \<open>ok\<close>. The
  benchmarks send a request after each answer, on one connection or on one each.
\<close>

definition bench_ok_middleware :: "nat \<Rightarrow> 'x middleware" where
  "bench_ok_middleware i = functional_middleware i ''bench_ok''
     (Some (\<lambda>w. Call_next (w\<lparr>w_res := text_response 200 ''text/plain'' ''ok'' (w_res w)\<rparr>) Done)) None None Normal 0"

definition make_ok_chain :: "'x mw_sort \<Rightarrow> 'x chain" where
  "make_ok_chain srt = chain_use srt (bench_ok_middleware 1) (new_chain True)"

definition loopback_server :: "(http_request \<Rightarrow> bool) \<Rightarrow> (http_response \<Rightarrow> bool) \<Rightarrow> 'x mw_sort \<Rightarrow> 'x session_env" where
  "loopback_server upgrade keep_alive srt =
     \<lparr>se_chain = snapshot_env True (make_ok_chain srt), se_upgrade = upgrade, se_keep_alive = keep_alive\<rparr>"

definition bm_await_bridge :: "'x mw_sort \<Rightarrow> 'x chain_view \<Rightarrow> http_response option" where
  "bm_await_bridge srt cv =
     chain_response (loopback_server (\<lambda>_. False) (\<lambda>_. False) srt) cv (new_response 500 11) (make_request Verb_get ''/'' [] [])"

definition keepalive_get :: http_request where
  "keepalive_get = make_request Verb_get ''/'' [(''Host'', ''localhost''), (''Connection'', ''keep-alive'')] []"

definition bm_http11_keepalive ::
  "(http_request \<Rightarrow> bool) \<Rightarrow> (http_response \<Rightarrow> bool) \<Rightarrow> 'x mw_sort \<Rightarrow> 'x chain_view list \<Rightarrow> (http_request \<times> http_response) list" where
  "bm_http11_keepalive upgrade keep_alive srt cvs =
     sn_sent (foldl (session_step (loopback_server upgrade keep_alive srt))
       (start_session (set_limits default_session_limits new_session)) (concat (map (\<lambda>cv. exchange (keepalive_get, cv)) cvs)))"

definition bench_ok_item :: "nat \<Rightarrow> 'x item" where
  "bench_ok_item i = \<lparr>it_mw = bench_ok_middleware i,
     it_does = (\<lambda>w. Forwards (w\<lparr>w_res := text_response 200 ''text/plain'' ''ok'' (w_res w)\<rparr>) id)\<rparr>"

lemma loopback_answers:
  assumes "std_sort srt" and "\<not> cv_paused cv"
  shows "chain_response (loopback_server u k srt) cv res rq = Some (res_prepare_payload (text_response 200 ''text/plain'' ''ok'' res))"
proof -
  let ?env = "loopback_server u k srt" and ?items = "[bench_ok_item 1] :: 'a item list"
  have "ae_pipeline (se_chain ?env) = map it_mw ?items" "ae_has_callback (se_chain ?env)" "ae_global_timeout (se_chain ?env) \<le> 0"
    using used_distinct [OF assms(1), of "[bench_ok_middleware 1]" "[bench_ok_middleware 1]" True]
    by (simp_all add: loopback_server_def snapshot_env_def make_ok_chain_def bench_ok_item_def)
       (simp_all add: chain_use_def new_chain_def sort_middlewares_by_priority_def Let_def)
  moreover have "list_all prompt_item ?items"
    by (simp add: prompt_item_def bench_ok_item_def bench_ok_middleware_def functional_middleware_def)
  moreover have "flow eh [] ?items w = w\<lparr>w_res := text_response 200 ''text/plain'' ''ok'' (w_res w)\<rparr>" for eh w
    by (simp add: bench_ok_item_def bench_ok_middleware_def functional_middleware_def)
  ultimately show ?thesis using flow_response [of ?env ?items cv res rq] assms(2) by (simp del: flow.simps)
qed

text \<open>The bridge turns the response of status 500 it is given into the answer.\<close>

lemma await_bridge_answers:
  "std_sort srt \<Longrightarrow> \<not> cv_paused cv \<Longrightarrow>
   map_option (\<lambda>r. (rs_status r, rs_body r)) (bm_await_bridge srt cv) = Some (200, ''ok'')"
  by (simp add: bm_await_bridge_def loopback_answers text_response_def)

lemma serve_up_to_limit:
  assumes "sl_enable_keep_alive l" and "sl_max_requests_per_connection l = m" and "n < m"
    and "list_all (\<lambda>(rq, cv). \<not> se_upgrade env rq \<and> rq_version rq = 11 \<and>
      (\<exists>r. chain_response env cv (new_response 200 11) rq = Some r \<and> se_keep_alive env r)) rs"
  shows "length (serve env l n 11 rs) = min (length rs) (m - n)"
  using assms(3,4)
proof (induction rs arbitrary: n)
  case (Cons x rs)
  obtain rq cv where x: "x = (rq, cv)" by fastforce
  show ?case
  proof (cases "Suc n < m")
    case True
    with Cons.IH [OF True] Cons.prems assms(1,2) have "length (serve env l n 11 (x # rs)) = Suc (min (length rs) (m - Suc n))"
      by (auto simp: x)
    with Cons.prems(1) show ?thesis by (simp add: min_def) linarith
  next
    case False
    with Cons.prems assms(1,2) have "length (serve env l n 11 (x # rs)) = 1" "m - n = 1" by (auto simp: x)
    then show ?thesis by simp
  qed
qed simp

text \<open>
  The benchmark of one connection counts as many requests as it sent, 4096 for its last
  argument; the session closes the connection after 1000.
\<close>

lemma keepalive_benchmark_cut:
  assumes "std_sort srt" and "list_all (\<lambda>cv. \<not> cv_paused cv) cvs" and "\<not> u keepalive_get"
    and "k (res_prepare_payload (text_response 200 ''text/plain'' ''ok'' (new_response 200 11)))"
  shows "length (bm_http11_keepalive u k srt cvs) = min (length cvs) 1000"
proof -
  let ?env = "loopback_server u k srt" and ?rs = "map (\<lambda>cv. (keepalive_get, cv)) cvs"
  have "length (serve ?env default_session_limits 0 11 ?rs) = min (length ?rs) (1000 - 0)"
  proof (rule serve_up_to_limit)
    show "list_all (\<lambda>(rq, cv). \<not> se_upgrade ?env rq \<and> rq_version rq = 11 \<and>
        (\<exists>r. chain_response ?env cv (new_response 200 11) rq = Some r \<and> se_keep_alive ?env r)) ?rs"
      using assms(2-4) loopback_answers [OF assms(1), of _ u k] 
      by (auto simp: list_all_iff keepalive_get_def make_request_def) (simp_all add: loopback_server_def)
  qed (simp_all add: default_session_limits_def)
  then show ?thesis
    using serve_from [OF waiting_started, of ?env default_session_limits ?rs]
    by (simp add: bm_http11_keepalive_def comp_def)
qed

section \<open>Parsers\<close>

text \<open>form_plaintext_benchmark.cpp. The arguments are 4, 32 and 128.\<close>

fun form_fields_from :: "nat \<Rightarrow> nat \<Rightarrow> string" where
  "form_fields_from i 0 = []"
| "form_fields_from i (Suc k) =
     (if i \<noteq> 0 then ''&'' else []) @ ''field'' @ to_string i @ ''=value'' @ to_string i @ form_fields_from (i + 1) k"

definition make_url_encoded_form :: "nat \<Rightarrow> string" where
  "make_url_encoded_form n = form_fields_from 0 n"

definition bm_form_url_encoded :: "nat \<Rightarrow> form_data throws" where
  "bm_form_url_encoded n =
     form_parse default_form_config
       (make_request Verb_post ''/'' [(''Content-Type'', ''application/x-www-form-urlencoded'')] (make_url_encoded_form n))"

definition bm_form_supports :: bool where
  "bm_form_supports = form_supports (make_request Verb_unknown [] [(''Content-Type'', ''application/x-www-form-urlencoded'')] [])"

definition bm_plaintext_small :: "string throws" where
  "bm_plaintext_small =
     plain_text_parse (new_plain_text_parser default_plain_text_config)
       (make_request Verb_unknown [] [(''Content-Type'', ''text/plain'')] (replicate 4096 (CHR ''x'')))"

definition bm_plaintext_supports :: bool where
  "bm_plaintext_supports =
     plain_text_supports (new_plain_text_parser default_plain_text_config) (make_request Verb_unknown [] [(''Content-Type'', ''text/markdown'')] [])"

text \<open>json_parse_benchmark.cpp; \<open>dump\<close> and \<open>jparse\<close> are nlohmann's.\<close>

fun json_nested :: "nat \<Rightarrow> json" where
  "json_nested 0 = JObject []"
| "json_nested (Suc d) = JObject [(''x'', json_nested d)]"

definition deep_document :: json where
  "deep_document = JObject [(''leaf'', JInt 42), (''x'', json_nested 23)]"

definition medium_array :: "nat \<Rightarrow> json" where
  "medium_array n = JArray (map (\<lambda>i. JObject [(''i'', JInt (int i)), (''ok'', JBool True), (''tag'', JString ''foxhttp'')]) [0..<n])"

definition json_request :: "string \<Rightarrow> http_request" where
  "json_request body = make_request Verb_unknown [] [(''Content-Type'', ''application/json'')] body"

definition bm_json_parse :: "(string \<Rightarrow> json_outcome) \<Rightarrow> string \<Rightarrow> json throws" where
  "bm_json_parse jparse payload = json_parse jparse default_json_config (json_request payload)"

definition bm_json_supports :: bool where
  "bm_json_supports = json_supports (json_request ''{}'')"

definition bm_json_wrong_type :: bool where
  "bm_json_wrong_type = json_supports (make_request Verb_unknown [] [(''Content-Type'', ''text/plain'')] ''not json'')"

lemma supports_benchmarks: "bm_form_supports" "bm_plaintext_supports" "bm_json_supports" "\<not> bm_json_wrong_type"
proof -
  show "bm_form_supports" "bm_json_supports" "\<not> bm_json_wrong_type" by code_simp+
  have "prefix ''text/'' (rq_at (make_request Verb_unknown [] [(''Content-Type'', ''text/markdown'')] []) ''Content-Type'')" by code_simp
  then show "bm_plaintext_supports"
    by (simp add: bm_plaintext_supports_def plain_text_supports_def new_plain_text_parser_def default_plain_text_config_def)
qed

text \<open>The form of \<open>n\<close> fields is read back whole.\<close>

lemma form_fields_join:
  "form_fields_from i k = (if i \<noteq> 0 \<and> k \<noteq> 0 then ''&'' else []) @
     join_with (CHR ''&'') (map (\<lambda>i. ''field'' @ to_string i @ ''=value'' @ to_string i) [i..<i + k])"
proof (induction k arbitrary: i)
  case (Suc k)
  from Suc [of "Suc i"] show ?case by (cases k) (simp_all add: upt_conv_Cons del: upt_Suc)
qed simp

lemma encode_plain: "list_all unreserved s \<Longrightarrow> form_url_encode s = s"
  by (induction s) simp_all

lemma to_string_short: "length (to_string n) \<le> n + 1"
proof (induction n rule: less_induct)
  case (less n)
  show ?case
  proof (cases "n < 10")
    case False
    then have "n div 10 < n" "n div 10 + 2 \<le> n + 1" by simp_all
    with less.IH [of "n div 10"] False show ?thesis by (simp add: to_string.simps [of n])
  qed (simp add: to_string.simps [of n])
qed

lemma form_benchmark_reads:
  assumes "n \<le> 1000"
  shows "\<exists>data. bm_form_url_encoded n = Inr data \<and> (\<forall>i<n. values_of data (''field'' @ to_string i) = [''value'' @ to_string i])"
proof -
  define K V where "K = (\<lambda>i. ''field'' @ to_string i)" and "V = (\<lambda>i. ''value'' @ to_string i)"
  let ?kvs = "map (\<lambda>i. (K i, V i)) [0..<n]" and ?cfg = default_form_config
  have plain: "list_all unreserved (to_string i)" for i
    using to_string_digits by (auto simp: list_all_iff unreserved_def isalnum_def)
  then have enc: "form_url_encode (K i) = K i" "form_url_encode (V i) = V i" for i
    by (intro encode_plain; simp add: K_def V_def unreserved_def cctype_defs)+
  have body: "make_url_encoded_form n = join_with (CHR ''&'') (map (\<lambda>(k, v). form_url_encode k @ CHR ''='' # form_url_encode v) ?kvs)"
    by (simp add: make_url_encoded_form_def form_fields_join comp_def enc) (simp add: K_def V_def)
  have small: "length (to_string i) \<le> 1001" if "i < n" for i using to_string_short [of i] that assms by simp
  then have "length (K i) \<le> fc_max_field_size ?cfg \<and> length (V i) \<le> fc_max_field_size ?cfg" if "i < n" for i
    using that by (fastforce simp: K_def V_def default_form_config_def)
  then have fits: "\<forall>(k, v)\<in>set ?kvs. length (form_url_encode k) \<le> fc_max_field_size ?cfg \<and> length (form_url_encode v) \<le> fc_max_field_size ?cfg"
    by (auto simp: enc)
  have "length (form_fields_from i k) \<le> k * 2014" if "i + k \<le> n" for i k
    using that
  proof (induction k arbitrary: i)
    case (Suc k)
    have "length (form_fields_from (i + 1) k) \<le> k * 2014" by (rule Suc.IH) (use Suc.prems in simp)
    moreover have "length (to_string i) \<le> 1001" by (rule small) (use Suc.prems in simp)
    ultimately show ?case by (cases "i = 0") simp_all
  qed simp
  from this [of 0 n] have "length (make_url_encoded_form n) \<le> fc_max_total_size ?cfg"
    using assms unfolding make_url_encoded_form_def by (simp add: default_form_config_def)
  moreover obtain data where data: "parse_pairs ?cfg (make_url_encoded_form n) = Inr data"
      "\<And>m. values_of data m = map snd (filter (\<lambda>(k, v). normalize_field_name ?cfg k = m) ?kvs)"
    using pairs_parsed [OF fits] unfolding body by blast
  moreover have "values_of data (K i) = [V i]" if "i < n" for i
  proof -
    have "\<not> ends_with (K j) ''[]''" for j
    proof
      assume "ends_with (K j) ''[]''"
      then obtain r where "rev (K j) = '']['' @ r" by (auto simp: ends_with_def prefix_def)
      then have "rev (rev (K j)) = rev ('']['' @ r)" by simp
      then have "last (K j) = CHR '']''" by simp
      then have "CHR '']'' \<in> set (to_string j)" using last_in_set [of "to_string j"] by (simp add: K_def)
      then show False by (auto simp: cctype_defs dest!: to_string_digits)
    qed
    then have "normalize_field_name ?cfg (K j) = K j" for j
      by (simp add: normalize_field_name_def is_array_field_def)
    moreover have "K j = K i \<longleftrightarrow> j = i" for j by (simp add: K_def)
    ultimately have "values_of data (K i) = map V (filter (\<lambda>j. j = i) [0..<n])"
      unfolding data(2) by (simp add: filter_map comp_def)
    moreover have "filter (\<lambda>j. j = i) [0..<n] = [i]"
      using that by (induction n) (auto simp: less_Suc_eq)
    ultimately show ?thesis by simp
  qed
  ultimately show ?thesis by (auto simp: bm_form_url_encoded_def form_parse_def make_request_def K_def V_def)
qed

text \<open>The text of 4096 letters comes back as it is.\<close>

lemma plaintext_benchmark_reads: "bm_plaintext_small = Inr (replicate 4096 (CHR ''x''))"
proof -
  have "is_valid_utf8 (concat (replicate m ''x''))" for m
    by (rule is_valid_utf8_concat) (simp add: set_replicate_conv_if byte_def)
  moreover have "concat (replicate m ''x'') = replicate m (CHR ''x'')" for m by (induction m) simp_all
  ultimately have "is_valid_utf8 (replicate m (CHR ''x''))" for m by metis
  then show ?thesis
    by (simp add: bm_plaintext_small_def plain_text_parse_def process_text_def normalize_line_endings_eq unix_lines_id
        new_plain_text_parser_def default_plain_text_config_def make_request_def)
qed

text \<open>
  The documents of the other benchmarks are well within the limit of depth, so the parser
  returns what nlohmann makes of them.
\<close>

lemma nested_depth: "calculate_depth (json_nested k) d = d + k"
  by (induction k arbitrary: d) simp_all

lemma json_benchmarks_parse:
  assumes "jparse (preprocess_json default_json_config payload) = Parsed j" and "length payload \<le> 10 * 1024 * 1024"
    and "j = deep_document \<or> j = medium_array n"
  shows "bm_json_parse jparse payload = Inr j"
proof -
  have "calculate_depth j 0 \<le> 100"
    using assms(3) by (auto simp: deep_document_def medium_array_def nested_depth foldl_max_le)
  with assms(1,2) show ?thesis
    by (simp add: bm_json_parse_def json_parse_def parse_with_validation_def validate_depth_def json_request_def make_request_def
        default_json_config_def new_validation_def)
qed

end
