(* ===== verification/Spec2Isabelle.thy ===== *)
theory Spec2Isabelle
  imports Route_Table Multipart_Stream Body_Middleware Auth_Middleware Rate_Limit Middleware_Async Connection_Pool Strand_Pool Server
    Static_Middleware Header_Middleware Logger_Middleware Timer_Manager Http_Client Config_Manager Request_Flow Shared_Chain
    Periodic_Timers Config_Watch Callback_Build Context_Types Applications Constants Client_Server
    Shutdown Router_Instances Statistics Resources Client_Examples Example_Programs Benchmarks
begin

text \<open>
  A verification library for FoxHttp, a C++ HTTP server and client library on Boost.Asio and
  Boost.Beast. This theory collects the components and states the properties that span
  several of them.

  \<^bold>\<open>The program.\<close> A \<open>Server\<close> or \<open>SslServer\<close> accepts connections and starts a session for each. A
  session reads requests one after the other, builds a \<open>RequestContext\<close>, runs the shared
  \<open>MiddlewareChain\<close> asynchronously, writes the response the middlewares left and reads on,
  or hands the connection to a WebSocket session. Middlewares authenticate, limit rates,
  parse bodies (through the \<open>ParserFactory\<close> and the parsers for JSON, forms, multipart bodies
  and text), serve files, set headers, compress and log; a terminal one dispatches to the
  handler that a \<open>Router\<close> resolves. Beside them stand the HTTP client with its connection
  pool, the pools of strands and io contexts, the timer manager and the configuration
  manager with its watcher.

  \<^bold>\<open>Theories and sources\<close> (under src/src and src/include/foxhttp unless said otherwise).
  \<^item> \<open>Fox_Prelude\<close>: the string and container operations of the standard library that the
    sources use, exceptions as a datatype with what \<open>catch (std::exception)\<close> catches, the
    contract of \<open>std::sort\<close> (locale \<open>std_sort\<close>) and the generic step machine with an
    invariant (locale \<open>step_machine\<close>). \<open>Slots\<close>: components that keep a state per key, whose keys do
    not affect each other (locale \<open>isolated_slots\<close>).
  \<^item> \<open>Http_Types\<close>, \<open>Error_Codes\<close> (core/error_codes.hpp), \<open>Configs\<close> (config/configs.hpp), \<open>Constants\<close> (core/constants.hpp):
    messages as the sources use them, error codes, configuration structs and their defaults.
  \<^item> \<open>Url_Codec\<close>, \<open>Base64\<close>: the URL and Base64 coders, of which the sources hold several copies.
  \<^item> \<open>Parser_Interface\<close>, \<open>Json_Value\<close>, \<open>Form_Parser\<close>, \<open>Plain_Text_Parser\<close>, \<open>Json_Parser\<close>, \<open>Multipart_Parser\<close>,
    \<open>Multipart_Stream\<close> (parser/): the registry over the contract of a parser, and the parsers;
    the stream parser is a machine over chunks, resets and aborts.
  \<^item> \<open>Request_Context\<close> (server/request_context.cpp), \<open>Route\<close> and \<open>Route_Table\<close> (router/): query,
    cookies, items and parsed bodies; patterns with the fragment of regular expressions
    they compile to, the table, resolution, named tables. \<open>Router_Instances\<close> (router.hpp): the
    router objects over the tables they share, the global one and the registering macros.
  \<^item> \<open>Middleware\<close>, \<open>Middleware_Chain\<close>, \<open>Middleware_Async\<close> (middleware/): a middleware body is a
    program over the calls of \<open>next()\<close> and of its callback; the chain's management and
    synchronous run, and the asynchronous run as a machine over callbacks, timers,
    cancelling and pausing. \<open>Shared_Chain\<close>: the chain that all sessions of a server share,
    with every run in flight. \<open>Async_Flow\<close>: what an asynchronous run computes over middlewares
    that act at once, as a function over the pipeline.
  \<^item> \<open>Auth_Middleware\<close>, \<open>Body_Middleware\<close>, \<open>Rate_Limit\<close>, \<open>Static_Middleware\<close>, \<open>Header_Middleware\<close>,
    \<open>Logger_Middleware\<close> (middleware/basic, middleware/advanced): the stock middlewares.
  \<^item> \<open>Session\<close> (server/session_base.cpp, session.cpp, ssl_session.cpp), \<open>Server\<close> (io_context_pool.cpp,
    server.cpp, ssl_server.cpp, ws_session.cpp, wss_session.cpp, signal_set.cpp): connections
    as machines over the completions of the operations they started and their timers.
    \<open>Callback_Build\<close>: the branches of the TLS session, the WebSocket session and the accept
    loops for compilers without coroutines.
  \<^item> \<open>Connection_Pool\<close>, \<open>Http_Client\<close> (client/), \<open>Strand_Pool\<close>, \<open>Timer_Manager\<close> (server/),
    \<open>Config_Manager\<close> (config/). \<open>Periodic_Timers\<close>: what the two pools repeat by timers, over the
    contract of a repeated task; \<open>Config_Watch\<close>: the watcher thread over files that change;
    \<open>Statistics\<close>: copies of statistics objects and the reports printed from them; \<open>Resources\<close>
    (config/tls.hpp, detail/timer_guard.hpp): the settings of a TLS context, guards of timers.
  \<^item> \<open>Router_Dispatch\<close> (handler/, and src/examples/detail/router_dispatch_middleware.hpp) and
    \<open>Request_Flow\<close>: the terminal middleware, and how a request passes a whole pipeline.
  \<^item> \<open>Context_Types\<close>: the types of the values a context holds, over every pipeline of the library.
    \<open>Applications\<close> (middleware/middleware_factories.hpp and programs of src/examples): the
    factories, and what clients of the example servers receive. \<open>Client_Server\<close>: the client's
    request through a session and back. \<open>Shutdown\<close>: signals, server and pool when a program ends.
    \<open>Example_Servers\<close>, \<open>Example_Programs\<close> and \<open>Client_Examples\<close>: the ten programs of src/examples
    from \<open>main\<close> on. \<open>Benchmarks\<close> (src/benchmark): what each benchmark computes, and whether it
    measures what it says.

  \<^bold>\<open>What is shown.\<close>
  \<^item> Whole program: a request made with the client for a static route is answered by that route's
    handler; a stop signal ends the program and nothing else does; what the example server of
    static files sends to its clients.
  \<^item> Whole server: a session over a pipeline that ends in the dispatch answers each request in
    order with the handler's answer inside the effects of the middlewares; the
    authentication middleware guards all that follows in a synchronous run, and does not in
    an asynchronous one (\<open>async_auth_not_enforced\<close>).
  \<^item> Chain: a synchronous run returns, lets no standard exception out, counts each middleware
    at most once and is the composition of the wrappers' effects; an asynchronous run
    completes at most once, whatever is called late, and with default operators at once. Over
    prompt middlewares it agrees with a reference, which shows when a middleware's stop is
    final and when it is undone (\<open>stop_is_final\<close>, \<open>stop_undone\<close>);
    the pipeline stays sorted. Requests that share a chain do not interfere, all runs are
    accounted for, and a cancelled run starts nothing more.
  \<^item> Sessions: at most one unanswered request, answers in order, the request limit, the
    timeout answer; a TLS session is the plain one after its handshake, and
    agrees with its build without coroutines where the chain is prompt.
  \<^item> Routing: the most specific matching route decides, independently of registration order;
    the compiled expression accepts exactly the instances of the pattern, and parameters are
    read back. Routers see each other's routes exactly when they share a table.
  \<^item> Parsers and coders: round trips, reference definitions, the outcome on every input, the
    reachable states of the stream parser and its result on a whole body.
  \<^item> Middlewares: the authentication gate, the bound on admitted requests and the independence of
    its keys, files only from
    below the document root also through symbolic links, body parsing that reaches the
    handler and never throws; no middleware of the library ever meets a context that holds a
    value of another type than its key promises.
  \<^item> Pools, timers, client, configuration: the watcher catches up with the file; repeated work
    goes on as long as its owner runs; a connection is handed to one user at a time,
    strands chosen exist, growth of the pool moves keys only to new strands; due tasks run
    once and repeating ones are put back; URL round trips, one-shot builders; merging and
    the outcome of loading.
  \<^item> Each theory ends with the behaviours that differ from what the code or its documents
    intend, as lemmas.

  \<^bold>\<open>Machine integers, time, fuel.\<close> Counters that can wrap are words of 64 bits, the Base64
  accumulators words of 32 bits; sizes that cannot reach their bound are natural numbers. Times are integers in
  the unit of the source. The recursion of a chain through \<open>next()\<close> takes a bound that is one more than the number
  of middlewares; \<open>sync_enough_fuel\<close> and \<open>async_enough_fuel\<close> show that it always suffices.
  Symbolic links are followed at most 40 times, as the system does.

  \<^bold>\<open>Parameters.\<close> The application's validators, handlers and callbacks, nlohmann::json's and
  yaml-cpp's parsers, zlib and Brotli, Beast's decisions on upgrade and keep-alive, the network
  under the client, the contents of files and the clock are arguments; \<open>std::sort\<close> is any
  function that meets its contract, with insertion sort as an instance.

  \<^bold>\<open>Not modelled.\<close> Threads (each machine's events are serialised, as the strands do),
  opening of sockets, how long anything takes and the lines that are only logged. Where the sources
  differ for compilers without coroutines, both branches are modelled, but for those of
  \<open>Session::run\<close> and of the client, which do not compile.
\<close>

section \<open>Requests through a whole server\<close>

text \<open>
  What a session sends: each answer is computed from a new context and a new response, whose
  version is that of the request before (11 for the first).
\<close>

fun flow_answers ::
  "'x wrapper list \<Rightarrow> 'x callable_api_handler route_table \<Rightarrow> nat \<Rightarrow> (http_request \<times> 'x chain_view) list \<Rightarrow>
   (http_request \<times> http_response) list" where
  "flow_answers xs t v [] = []"
| "flow_answers xs t v ((rq, cv) # rest) =
     (let w = \<lparr>w_ctx = new_request_context rq, w_res = new_response 200 v, w_now = cv_now cv, w_ext = cv_ext cv\<rparr>
      in (rq, res_prepare_payload (w_res (around xs w (snd (dispatch (Some t) empty_table (inner xs w)))))) #
           flow_answers xs t (rq_version rq) rest)"

lemma serve_flow:
  assumes "ae_pipeline (se_chain env) = map wr_mw xs @ [router_dispatch_middleware i (Some t) empty_table]"
    and "\<forall>x\<in>set xs. passes_on x" and "ae_has_callback (se_chain env)" and "ae_global_timeout (se_chain env) \<le> 0"
    and "\<forall>w y. fst (dispatch (Some t) empty_table w) = Some y \<longrightarrow> is_std_exception y"
    and "sl_enable_keep_alive l" and "sl_max_requests_per_connection l = 0"
  shows "list_all (\<lambda>(rq, cv). \<not> se_upgrade env rq \<and> \<not> cv_paused cv) rs \<Longrightarrow>
    list_all (\<lambda>(rq, r). se_keep_alive env r) (flow_answers xs t v rs) \<Longrightarrow> serve env l n v rs = flow_answers xs t v rs"
proof (induction rs arbitrary: n v)
  case (Cons a rs)
  obtain rq cv where a: "a = (rq, cv)" by fastforce
  from Cons.prems assms chain_response_dispatch [OF assms(1-4), of cv _ rq "new_response 200 v"]
  have "chain_response env cv (new_response 200 v) rq =
     (let w = \<lparr>w_ctx = new_request_context rq, w_res = new_response 200 v, w_now = cv_now cv, w_ext = cv_ext cv\<rparr>
      in Some (res_prepare_payload (w_res (around xs w (snd (dispatch (Some t) empty_table (inner xs w)))))))"
    by (simp add: a Let_def)
  with Cons assms(6-7) show ?case by (simp add: a Let_def)
qed simp

text \<open>The middleware as the pipeline sees it in an asynchronous run.\<close>

definition auth_outcome :: "auth_middleware \<Rightarrow> 'x world \<Rightarrow> 'x world" where
  "auth_outcome am w =
     (case first_user am (w_ctx w) (am_schemes am) of
        Inr (Some u) \<Rightarrow> w\<lparr>w_ctx := ctx_set ''auth.user'' (Any_user u) (w_ctx w)\<rparr>
      | Inr None \<Rightarrow> w\<lparr>w_res := auth_refusal am unauthorized_body (w_res w)\<rparr>
      | Inl e \<Rightarrow> w\<lparr>w_res := auth_refusal am (auth_error_body (what e)) (w_res w)\<rparr>)"

lemma auth_passes_on:
  assumes "\<forall>ctx e. first_user am ctx (am_schemes am) = Inl e \<longrightarrow> is_std_exception e"
  shows "passes_on \<lparr>wr_mw = auth_mw i am, wr_pre = auth_outcome am, wr_post = id\<rparr>"
  using assms
  by (auto simp: passes_on_def has_default_async_def auth_mw_def base_middleware_def auth_operator_def auth_outcome_def
      split: sum.split option.split)


definition hello_handler :: "unit callable_api_handler" where
  "hello_handler = make_api_handler (\<lambda>w. (None, w\<lparr>w_res := res_set_body ''hello'' (res_result 200 (w_res w))\<rparr>))"

definition hello_table :: "unit callable_api_handler route_table" where
  "hello_table = add_static_route_method ''/hello'' Verb_get hello_handler empty_table"

definition tag_wrapper :: "unit wrapper" where
  "tag_wrapper = \<lparr>wr_mw = tag_middleware 1 Low ''a'', wr_pre = (\<lambda>w. w\<lparr>w_res := res_set ''X-In'' ''a'' (w_res w)\<rparr>),
     wr_post = (\<lambda>w. w\<lparr>w_res := res_set ''X-Out'' ''a'' (w_res w)\<rparr>)\<rparr>"

definition hello_env :: "unit wrapper list \<Rightarrow> unit session_env" where
  "hello_env xs = plain_env\<lparr>se_chain := sample_env (map wr_mw xs @ [router_dispatch_middleware 9 (Some hello_table) empty_table])\<rparr>"

lemma tag_wrapper_passes: "passes_on tag_wrapper"
  by (simp add: passes_on_def has_default_async_def tag_wrapper_def tag_middleware_def base_middleware_def)

lemma hello_never_throws: "fst (dispatch (Some hello_table) empty_table w) = None"
  by (simp add: dispatch_def resolver_with_method_def resolve_route_with_method_def hello_table_def add_static_route_method_def
      empty_table_def handle_request_def hello_handler_def make_api_handler_def Let_def split: option.split)


text \<open>
  C13: in a synchronous run the authentication middleware protects everything after it: when no
  scheme accepts the request as it arrives there, the run returns with the refusal, status
  401, as the answer, on which the middlewares before it have worked; what stands behind it
  in the chain has no part in the result.
\<close>

theorem synchronous_auth_gate:
  assumes "mc_mws c = map wr_mw xs @ auth_mw i am # ms" and "\<forall>x\<in>set xs. wraps x"
    and "mc_global_timeout c \<le> 0" and "\<not> mc_paused c"
    and "\<forall>s\<in>set (am_schemes am). authenticate am s (w_ctx (inner xs w)) = Inr None"
  shows "\<exists>st' c'. execute run c st w = Some (None, around xs w (auth_outcome am (inner xs w)), st', c') \<and>
    rs_status (w_res (auth_outcome am (inner xs w))) = 401 \<and> w_ctx (auth_outcome am (inner xs w)) = w_ctx (inner xs w)"
proof -
  have "first_user am (w_ctx (inner xs w)) (am_schemes am) = Inr None" using assms(5) by (simp add: first_user_none)
  then have "mw_sync (auth_mw i am) (inner xs w) = Done (auth_outcome am (inner xs w))"
    "rs_status (w_res (auth_outcome am (inner xs w))) = 401 \<and> w_ctx (auth_outcome am (inner xs w)) = w_ctx (inner xs w)"
    by (simp_all add: auth_mw_def base_middleware_def auth_operator_def auth_outcome_def auth_refusal_def
        set_www_authenticate_header_def Let_def)
  moreover from this(1) have "\<exists>st' c'. execute run c st w = Some (None, around xs w (auth_outcome am (inner xs w)), st', c')"
    using assms(1-4) by (intro execute_reaches) (auto simp: auth_mw_def base_middleware_def)
  ultimately show ?thesis by blast
qed

definition key_auth :: auth_middleware where
  "key_auth = (new_auth_middleware [ApiKey])\<lparr>am_api_key_validator := Some (\<lambda>k. Inr None)\<rparr>"

theorem synchronous_auth_gate_witness:
  "\<exists>st' c'. execute 0 ((new_chain False)\<lparr>mc_mws := [tag_middleware 1 Low ''a'', auth_mw 2 key_auth,
       router_dispatch_middleware 9 (Some hello_table) empty_table]\<rparr>) (\<lambda>_. reset_stats) sample_world =
     Some (None, around [tag_wrapper] sample_world (auth_outcome key_auth (inner [tag_wrapper] sample_world)), st', c')"
proof -
  let ?c = "(new_chain False)\<lparr>mc_mws := [tag_middleware 1 Low ''a'', auth_mw 2 key_auth,
       router_dispatch_middleware 9 (Some hello_table) empty_table]\<rparr>"
  have "mc_mws ?c = map wr_mw [tag_wrapper] @ auth_mw 2 key_auth # [router_dispatch_middleware 9 (Some hello_table) empty_table]"
    "mc_global_timeout ?c \<le> 0" "\<not> mc_paused ?c"
    by (simp_all add: tag_wrapper_def new_chain_def)
  moreover have "\<forall>x\<in>set [tag_wrapper]. wraps x"
    by (simp add: wraps_def tag_wrapper_def tag_middleware_def base_middleware_def)
  moreover have "authenticate key_auth s (w_ctx (inner [tag_wrapper] sample_world)) = Inr None" if "s \<in> set (am_schemes key_auth)" for s
    using that by (simp add: key_auth_def new_auth_middleware_def Let_def)
  ultimately show ?thesis
    using synchronous_auth_gate [of ?c "[tag_wrapper]" 2 key_auth
        "[router_dispatch_middleware 9 (Some hello_table) empty_table]" sample_world 0 "\<lambda>_. reset_stats"] by blast
qed

text \<open>
  A session runs its chain asynchronously, where the middleware is one that passes on: the
  refused request is dispatched all the same, and the answer is the handler's.
\<close>

lemma async_auth_not_enforced:
  fixes env :: "'x session_env"
  assumes "ae_pipeline (se_chain env) = [auth_mw i am, router_dispatch_middleware j (Some t) empty_table]"
    and "ae_has_callback (se_chain env)" and "ae_global_timeout (se_chain env) \<le> 0" and "\<not> cv_paused cv"
    and "\<forall>ctx e. first_user am ctx (am_schemes am) = Inl e \<longrightarrow> is_std_exception e"
    and "\<forall>w y. fst (dispatch (Some t) empty_table w) = Some y \<longrightarrow> is_std_exception y"
  shows "chain_response env cv res rq =
    Some (res_prepare_payload (w_res (snd (dispatch (Some t) empty_table (auth_outcome am
      \<lparr>w_ctx = new_request_context rq, w_res = res, w_now = cv_now cv, w_ext = cv_ext cv\<rparr>)))))"
proof -
  let ?x = "\<lparr>wr_mw = auth_mw i am, wr_pre = auth_outcome am, wr_post = id\<rparr> :: 'x wrapper"
  let ?w = "\<lparr>w_ctx = new_request_context rq, w_res = res, w_now = cv_now cv, w_ext = cv_ext cv\<rparr>"
  have "chain_response env cv res rq =
      Some (res_prepare_payload (w_res (around [?x] ?w (snd (dispatch (Some t) empty_table (inner [?x] ?w))))))"
    using assms auth_passes_on [OF assms(5), where i = i] by (intro chain_response_dispatch [where i = j]) simp_all
  then show ?thesis by (simp add: auth_mw_def base_middleware_def)
qed

lemma unauthenticated_request_served:
  "map_option (\<lambda>r. (rs_status r, rs_body r))
     (chain_response (plain_env\<lparr>se_chain := sample_env [auth_mw 1 key_auth, router_dispatch_middleware 9 (Some hello_table) empty_table]\<rparr>)
        plain_view (new_response 200 11) (make_request Verb_get ''/hello'' [] [])) = Some (200, ''hello'')"
  by code_simp

text \<open>
  A handler that throws: the exception is reported to the chain, which reports it to the
  session, which does not look at it. The client gets the untouched response, status 200.
\<close>

definition failing_table :: "unit callable_api_handler route_table" where
  "failing_table = add_static_route_method ''/hello'' Verb_get
     (make_api_handler (\<lambda>w. (Some (Runtime_error ''database down''), w))) empty_table"

lemma handler_exception_answered_200:
  "map_option (\<lambda>r. (rs_status r, rs_body r))
     (chain_response (plain_env\<lparr>se_chain := sample_env [router_dispatch_middleware 9 (Some failing_table) empty_table]\<rparr>)
        plain_view (new_response 200 11) (make_request Verb_get ''/hello'' [] [])) = Some (200, [])"
  by code_simp

end
